(* ===== verification/Prelude.thy ===== *)
theory Prelude
  imports Main "HOL-Library.AList" "HOL-Library.Multiset" "HOL-Library.List_Lexorder"
    "HOL-Library.Char_ord" "HOL-Library.Product_Lexorder"
begin

text \<open>
  What every component shares: the lemma collections, Go's fixed-width \<open>int\<close>, Go maps as
  association lists with distinct keys, and Go's \<open>sort.Slice\<close> / \<open>slices.SortFunc\<close> as an
  insertion sort by a \<open>lt\<close> function, with the laws a comparator owes stated as a locale.
\<close>

named_theorems frame_simps \<open>what an operation leaves unchanged\<close>
named_theorems inv_intros \<open>preservation of the ledger's invariants\<close>

section \<open>Go integers\<close>

text \<open>Go's \<open>int\<close> has 64 bits on every platform the program targets; addition wraps.\<close>

definition wrap64 :: "int \<Rightarrow> int" where
  "wrap64 x = (x + 2 ^ 63) mod 2 ^ 64 - 2 ^ 63"

definition int64 :: "int \<Rightarrow> bool" where
  "int64 x \<longleftrightarrow> - (2 ^ 63) \<le> x \<and> x < 2 ^ 63"

lemma wrap64_id [simp]: "int64 x \<Longrightarrow> wrap64 x = x"
  by (simp add: wrap64_def int64_def)

lemma int64_wrap64 [simp]: "int64 (wrap64 x)"
  by (simp add: wrap64_def int64_def)

lemma wrap64_id_bounds: "- 9223372036854775808 \<le> x \<Longrightarrow> x < 9223372036854775808 \<Longrightarrow> wrap64 x = x"
  by (simp add: int64_def)

section \<open>Results\<close>

text \<open>A Go \<open>(value, error)\<close> pair is a sum: \<open>Inl\<close> the error, \<open>Inr\<close> the value.\<close>

fun res_bind :: "'e + 'a \<Rightarrow> ('a \<Rightarrow> 'e + 'b) \<Rightarrow> 'e + 'b" where
  "res_bind (Inl e) f = Inl e"
| "res_bind (Inr a) f = f a"

lemma res_bind_Inr_iff: "res_bind r f = Inr b \<longleftrightarrow> (\<exists>a. r = Inr a \<and> f a = Inr b)"
  by (cases r) auto

definition fail_if :: "bool \<Rightarrow> 'e \<Rightarrow> 'e + unit" where
  "fail_if b e = (if b then Inl e else Inr ())"

lemma fail_if_Inr [simp]: "fail_if b e = Inr u \<longleftrightarrow> \<not> b"
  by (simp add: fail_if_def)

section \<open>Go maps\<close>

text \<open>
  A Go map is an association list. Writing a key replaces its entry in place or appends it,
  so the keys stay distinct; the order of the list stands for the order in which one
  \<open>range\<close> loop happens to visit the map.
\<close>

type_synonym ('k, 'v) gomap = "('k \<times> 'v) list"

definition keys_ok :: "('k, 'v) gomap \<Rightarrow> bool" where
  "keys_ok m \<longleftrightarrow> distinct (map fst m)"

abbreviation mput :: "'k \<Rightarrow> 'v \<Rightarrow> ('k, 'v) gomap \<Rightarrow> ('k, 'v) gomap" where
  "mput \<equiv> AList.update"

abbreviation mget :: "('k, 'v) gomap \<Rightarrow> 'k \<Rightarrow> 'v option" where
  "mget \<equiv> map_of"

abbreviation mdel :: "'k \<Rightarrow> ('k, 'v) gomap \<Rightarrow> ('k, 'v) gomap" where
  "mdel \<equiv> AList.delete"

abbreviation mvals :: "('k, 'v) gomap \<Rightarrow> 'v list" where
  "mvals m \<equiv> map snd m"

lemma keys_ok_mput [simp]: "keys_ok m \<Longrightarrow> keys_ok (mput k v m)"
  by (simp add: keys_ok_def distinct_update)

lemma keys_ok_mdel [simp]: "keys_ok m \<Longrightarrow> keys_ok (mdel k m)"
  by (simp add: keys_ok_def distinct_delete)

lemma keys_ok_Nil [simp]: "keys_ok []"
  by (simp add: keys_ok_def)

lemma mget_mput [simp]: "mget (mput k v m) k' = (if k' = k then Some v else mget m k')"
  by (simp add: update_conv')

lemma mget_mdel [simp]: "mget (mdel k m) k' = (if k' = k then None else mget m k')"
  by (simp add: delete_conv')

lemma mvals_iff: "keys_ok m \<Longrightarrow> v \<in> snd ` set m \<longleftrightarrow> (\<exists>k. mget m k = Some v)"
  by (force simp: keys_ok_def)

lemma mget_mvals: "mget m k = Some v \<Longrightarrow> v \<in> snd ` set m"
  by (force dest: map_of_SomeD)

lemma mget_in: "mget m k = Some v \<Longrightarrow> (k, v) \<in> set m"
  by (rule map_of_SomeD)

lemma in_mget: "keys_ok m \<Longrightarrow> (k, v) \<in> set m \<Longrightarrow> mget m k = Some v"
  by (simp add: keys_ok_def)

text \<open>Two lists that hold the same entries are the same Go map, visited in another order.\<close>

lemma keys_ok_mset: "keys_ok m \<Longrightarrow> mset m = mset m' \<Longrightarrow> keys_ok m'"
  by (metis keys_ok_def mset_eq_imp_distinct_iff mset_map)

lemma mget_mset: "keys_ok m \<Longrightarrow> mset m = mset m' \<Longrightarrow> mget m' = mget m"
  by (metis keys_ok_def keys_ok_mset map_of_inject_set mset_eq_setD)

text \<open>A \<open>range\<close> loop that rewrites every entry under its own key.\<close>

lemma mget_map_snd: "mget (map (\<lambda>(k, v). (k, f v)) m) k = map_option f (mget m k)"
  by (induction m) auto

lemma keys_ok_map_snd [simp]: "keys_ok (map (\<lambda>(k, v). (k, f v)) m) = keys_ok m"
  by (simp add: keys_ok_def comp_def case_prod_beta)

section \<open>Sorting\<close>

fun go_insert :: "('a \<Rightarrow> 'a \<Rightarrow> bool) \<Rightarrow> 'a \<Rightarrow> 'a list \<Rightarrow> 'a list" where
  "go_insert lt x [] = [x]"
| "go_insert lt x (y # ys) = (if lt y x then y # go_insert lt x ys else x # y # ys)"

fun go_sort :: "('a \<Rightarrow> 'a \<Rightarrow> bool) \<Rightarrow> 'a list \<Rightarrow> 'a list" where
  "go_sort lt [] = []"
| "go_sort lt (x # xs) = go_insert lt x (go_sort lt xs)"

lemma mset_go_insert [simp]: "mset (go_insert lt x xs) = add_mset x (mset xs)"
  by (induction xs) auto

lemma mset_go_sort [simp]: "mset (go_sort lt xs) = mset xs"
  by (induction xs) auto

lemma set_go_sort [simp]: "set (go_sort lt xs) = set xs"
  by (metis mset_go_sort set_mset_mset)

lemma set_go_insert [simp]: "set (go_insert lt x xs) = insert x (set xs)"
  by (metis mset_go_insert set_mset_add_mset_insert set_mset_mset)

lemma length_go_sort [simp]: "length (go_sort lt xs) = length xs"
  by (metis mset_go_sort size_mset)

lemma go_sort_Nil_iff [simp]: "go_sort lt xs = [] \<longleftrightarrow> xs = []"
  by (metis length_0_conv length_go_sort)

text \<open>
  What Go's sort routines ask of the function they are given: a strict weak order. Under
  these laws the result is sorted, and where incomparable elements are equal it does not
  depend on the order the input was collected in.
\<close>

locale go_less =
  fixes lt :: "'a \<Rightarrow> 'a \<Rightarrow> bool"
  assumes asym: "lt a b \<Longrightarrow> \<not> lt b a"
    and negtrans: "lt a c \<Longrightarrow> lt a b \<or> lt b c"
begin

lemma irrefl: "\<not> lt a a"
  using asym by blast

lemma trans: "lt a b \<Longrightarrow> lt b c \<Longrightarrow> lt a c"
  using asym negtrans by blast

lemma sorted_insert:
  "sorted_wrt (\<lambda>x y. \<not> lt y x) xs \<Longrightarrow> sorted_wrt (\<lambda>x y. \<not> lt y x) (go_insert lt x xs)"
proof (induction xs)
  case (Cons y ys)
  then show ?case using asym negtrans by (auto simp: irrefl) (metis negtrans)
qed simp

lemma sorted_sort: "sorted_wrt (\<lambda>x y. \<not> lt y x) (go_sort lt xs)"
  by (induction xs) (auto intro: sorted_insert)

lemma hd_sort_least:
  assumes "go_sort lt xs = x # rest" and "y \<in> set xs"
  shows "\<not> lt y x"
proof -
  have "y \<in> set (x # rest)" using assms by (metis set_go_sort)
  moreover have "sorted_wrt (\<lambda>x y. \<not> lt y x) (x # rest)"
    using sorted_sort [of xs] assms(1) by simp
  ultimately show ?thesis by (auto simp: irrefl)
qed

lemma sorted_unique:
  assumes "sorted_wrt (\<lambda>x y. \<not> lt y x) xs" and "sorted_wrt (\<lambda>x y. \<not> lt y x) ys"
    and "mset xs = mset ys"
    and "\<And>a b. a \<in> set xs \<Longrightarrow> b \<in> set xs \<Longrightarrow> \<not> lt a b \<Longrightarrow> \<not> lt b a \<Longrightarrow> a = b"
  shows "xs = ys"
  using assms
proof (induction xs arbitrary: ys)
  case (Cons x xs)
  from Cons.prems(3) obtain y ys' where ys: "ys = y # ys'" by (cases ys) auto
  have sets: "set (x # xs) = set ys" using Cons.prems(3) by (metis mset_eq_setD)
  have "\<not> lt x y"
    using Cons.prems(2) ys sets irrefl by (metis list.set_intros(1) set_ConsD sorted_wrt.simps(2))
  moreover have "\<not> lt y x"
    using Cons.prems(1) ys sets irrefl by (metis list.set_intros(1) set_ConsD sorted_wrt.simps(2))
  ultimately have "x = y"
    using Cons.prems(4) sets ys by (metis list.set_intros(1))
  with ys Cons.prems(3) have "mset xs = mset ys'" by simp
  then have "xs = ys'"
    using Cons.prems ys by (intro Cons.IH) auto
  with ys \<open>x = y\<close> show ?case by simp
qed simp

lemma sort_order_free:
  assumes "mset xs = mset ys"
    and "\<And>a b. a \<in> set xs \<Longrightarrow> b \<in> set xs \<Longrightarrow> \<not> lt a b \<Longrightarrow> \<not> lt b a \<Longrightarrow> a = b"
  shows "go_sort lt xs = go_sort lt ys"
  by (rule sorted_unique) (use assms in \<open>auto simp: sorted_sort\<close>)

end

text \<open>A comparator given by a key into a linear order, as most of the program's are.\<close>

locale key_less =
  fixes lt :: "'a \<Rightarrow> 'a \<Rightarrow> bool" and key :: "'a \<Rightarrow> 'k::linorder"
  assumes less_key: "lt a b \<longleftrightarrow> key a < key b"
begin

lemma incomparable_key: "\<not> lt a b \<Longrightarrow> \<not> lt b a \<Longrightarrow> key a = key b"
  by (simp add: less_key)

lemma not_less_key: "\<not> lt a b \<longleftrightarrow> key b \<le> key a"
  by (simp add: less_key not_less)

end

sublocale key_less \<subseteq> go_less lt
  by unfold_locales (auto simp: less_key)

text \<open>The program takes the first of the sorted candidates, or reports that there is none.\<close>

definition first_sorted :: "('a \<Rightarrow> 'a \<Rightarrow> bool) \<Rightarrow> 'a list \<Rightarrow> 'a option" where
  "first_sorted lt xs = (case go_sort lt xs of [] \<Rightarrow> None | x # _ \<Rightarrow> Some x)"

lemma first_sorted_None [simp]: "first_sorted lt xs = None \<longleftrightarrow> xs = []"
  by (metis first_sorted_def go_sort_Nil_iff list.case_eq_if option.distinct(1))

lemma first_sorted_in: "first_sorted lt xs = Some x \<Longrightarrow> x \<in> set xs"
  by (metis first_sorted_def list.case_eq_if list.set_sel(1) option.distinct(1) option.inject
      set_go_sort)

lemma first_sorted_Some_ex: "xs \<noteq> [] \<Longrightarrow> \<exists>x. first_sorted lt xs = Some x"
  by (metis first_sorted_None not_None_eq)

context go_less begin

lemma first_sorted_least: "first_sorted lt xs = Some x \<Longrightarrow> y \<in> set xs \<Longrightarrow> \<not> lt y x"
  by (auto simp: first_sorted_def split: list.splits dest: hd_sort_least)

lemma first_sorted_order_free:
  assumes "mset xs = mset ys"
    and "\<And>a b. a \<in> set xs \<Longrightarrow> b \<in> set xs \<Longrightarrow> \<not> lt a b \<Longrightarrow> \<not> lt b a \<Longrightarrow> a = b"
  shows "first_sorted lt xs = first_sorted lt ys"
  by (simp add: first_sorted_def sort_order_free [OF assms])

end

section \<open>Transitions that one caller wins\<close>

text \<open>
  Several records are written by whoever comes first (the seed, a completion, the claim of a
  pause observation). Such a transition takes the caller's request and the state and says
  whether this caller won. The contract: a refused request changes nothing, and once one
  request has won every further one is refused.
\<close>

fun run_claims :: "('c \<Rightarrow> 's \<Rightarrow> 's \<times> 'a option) \<Rightarrow> 'c list \<Rightarrow> 's \<Rightarrow> 's \<times> 'a list" where
  "run_claims claim [] s = (s, [])"
| "run_claims claim (c # cs) s =
     (let (s', r) = claim c s; (s'', rs) = run_claims claim cs s'
      in (s'', case r of None \<Rightarrow> rs | Some x \<Rightarrow> x # rs))"

locale first_wins =
  fixes claim :: "'c \<Rightarrow> 's \<Rightarrow> 's \<times> 'a option"
  assumes refused: "snd (claim c s) = None \<Longrightarrow> fst (claim c s) = s"
    and settled: "snd (claim c s) \<noteq> None \<Longrightarrow> snd (claim c' (fst (claim c s))) = None"
begin

lemma run_settled:
  "snd (claim c s) \<noteq> None \<Longrightarrow> run_claims claim cs (fst (claim c s)) = (fst (claim c s), [])"
proof (induction cs)
  case (Cons c' cs)
  then have "claim c' (fst (claim c s)) = (fst (claim c s), None)"
    using settled [of c s c'] refused [of c' "fst (claim c s)"] by (metis prod.collapse)
  with Cons show ?case by simp
qed simp

lemma run_won: "claim c s = (s', Some x) \<Longrightarrow> run_claims claim (c # cs) s = (s', [x])"
  using run_settled [of c s cs] by simp

lemma at_most_one: "length (snd (run_claims claim cs s)) \<le> 1"
proof (induction cs arbitrary: s)
  case (Cons c cs)
  show ?case
  proof (cases "snd (claim c s)")
    case None
    then have "claim c s = (s, None)" using refused by (metis prod.collapse)
    with Cons show ?thesis by (simp add: split_beta)
  next
    case (Some x)
    then show ?thesis using run_won [of c s "fst (claim c s)" x cs] by (simp add: prod_eq_iff)
  qed
qed simp

end

end
