(* ===== verification/GoStd.thy ===== *)
theory GoStd
  imports Prelude
begin

text \<open>
  The parts of Go's standard library the program's logic depends on. A Go string is a byte
  sequence, here a \<open>char list\<close> (one \<open>char\<close> per byte). \<open>strings.TrimSpace\<close> covers every
  Unicode space in its UTF-8 encoding; \<open>strings.ToLower\<close> is modelled on ASCII letters.
  \<open>time.Time\<close> is the number of nanoseconds since the zero time, so \<open>IsZero\<close> is \<open>t = 0\<close>.
  JSON text is represented by its parse: the program hands the text to \<open>encoding/json\<close> and
  can only tell an empty text, a malformed one, and a value apart.
\<close>

section \<open>package strings\<close>

definition HasPrefix :: "string \<Rightarrow> string \<Rightarrow> bool" where
  "HasPrefix s p \<longleftrightarrow> take (length p) s = p"

definition TrimPrefix :: "string \<Rightarrow> string \<Rightarrow> string" where
  "TrimPrefix s p = (if HasPrefix s p then drop (length p) s else s)"

definition HasSuffix :: "string \<Rightarrow> string \<Rightarrow> bool" where
  "HasSuffix s p \<longleftrightarrow> HasPrefix (rev s) (rev p)"

lemma HasPrefix_append [simp]: "HasPrefix (p @ s) p"
  by (simp add: HasPrefix_def)

lemma TrimPrefix_append [simp]: "TrimPrefix (p @ s) p = s"
  by (simp add: TrimPrefix_def)

lemma HasPrefix_ex: "HasPrefix s p \<Longrightarrow> \<exists>r. s = p @ r"
  by (metis HasPrefix_def append_take_drop_id)

text \<open>Every Unicode white space rune, as UTF-8 bytes.\<close>

definition space_runes :: "string list" where
  "space_runes =
   [[CHR 0x09], [CHR 0x0A], [CHR 0x0B], [CHR 0x0C],
    [CHR 0x0D], [CHR 0x20], [CHR 0xC2, CHR 0x85], [CHR 0xC2, CHR 0xA0],
    [CHR 0xE1, CHR 0x9A, CHR 0x80], [CHR 0xE2, CHR 0x80, CHR 0x80], [CHR 0xE2, CHR 0x80, CHR 0x81], [CHR 0xE2, CHR 0x80, CHR 0x82],
    [CHR 0xE2, CHR 0x80, CHR 0x83], [CHR 0xE2, CHR 0x80, CHR 0x84], [CHR 0xE2, CHR 0x80, CHR 0x85], [CHR 0xE2, CHR 0x80, CHR 0x86],
    [CHR 0xE2, CHR 0x80, CHR 0x87], [CHR 0xE2, CHR 0x80, CHR 0x88], [CHR 0xE2, CHR 0x80, CHR 0x89], [CHR 0xE2, CHR 0x80, CHR 0x8A],
    [CHR 0xE2, CHR 0x80, CHR 0xA8], [CHR 0xE2, CHR 0x80, CHR 0xA9], [CHR 0xE2, CHR 0x80, CHR 0xAF], [CHR 0xE2, CHR 0x81, CHR 0x9F],
    [CHR 0xE3, CHR 0x80, CHR 0x80]]"

lemma space_runes_nonempty: "[] \<notin> set space_runes"
  by (simp add: space_runes_def)

fun trim_left :: "string list \<Rightarrow> nat \<Rightarrow> string \<Rightarrow> string" where
  "trim_left ws 0 s = s"
| "trim_left ws (Suc n) s =
     (case find (HasPrefix s) ws of None \<Rightarrow> s | Some w \<Rightarrow> trim_left ws n (drop (length w) s))"

definition TrimLeft :: "string \<Rightarrow> string" where
  "TrimLeft s = trim_left space_runes (length s) s"

definition TrimRight :: "string \<Rightarrow> string" where
  "TrimRight s = rev (trim_left (map rev space_runes) (length s) (rev s))"

definition TrimSpace :: "string \<Rightarrow> string" where
  "TrimSpace s = TrimRight (TrimLeft s)"

lemma trim_left_suffix: "\<exists>p. s = p @ trim_left ws n s"
proof (induction ws n s rule: trim_left.induct)
  case (2 ws n s)
  show ?case
  proof (cases "find (HasPrefix s) ws")
    case (Some w)
    then obtain p where "drop (length w) s = p @ trim_left ws n (drop (length w) s)"
      using 2 by blast
    with Some show ?thesis
      by simp (metis append_assoc append_take_drop_id)
  qed simp
qed simp

lemma trim_left_Nil [simp]: "trim_left ws n [] = []"
  by (metis append_is_Nil_conv trim_left_suffix)

lemma TrimSpace_Nil [simp]: "TrimSpace [] = []"
  by (simp add: TrimSpace_def TrimLeft_def TrimRight_def)

lemma length_TrimSpace: "length (TrimSpace s) \<le> length s"
proof -
  have "length (trim_left ws n x) \<le> length x" for ws n x
    using trim_left_suffix [of x ws n] by (metis length_append le_add2)
  from this [of space_runes] this [of "map rev space_runes"] show ?thesis
    by (simp add: TrimSpace_def TrimLeft_def TrimRight_def) (metis le_trans length_rev)
qed

text \<open>The fuel \<open>length s\<close> is enough: the result never starts with a space rune.\<close>

lemma trim_left_done:
  assumes "[] \<notin> set ws" and "length s \<le> n"
  shows "find (HasPrefix (trim_left ws n s)) ws = None"
  using assms
proof (induction ws n s rule: trim_left.induct)
  case (1 ws s)
  then show ?case by (auto simp: find_None_iff HasPrefix_def)
next
  case (2 ws n s)
  show ?case
  proof (cases "find (HasPrefix s) ws")
    case (Some w)
    then have "w \<in> set ws" "HasPrefix s w"
      by (auto simp: find_Some_iff)
    with 2 have "w \<noteq> []" "s \<noteq> []" by (auto simp: HasPrefix_def)
    with 2 Some show ?thesis by (cases w; cases s) auto
  qed simp
qed

definition lower_char :: "char \<Rightarrow> char" where
  "lower_char c = (let n = of_char c :: nat in if 65 \<le> n \<and> n \<le> 90 then char_of (n + 32) else c)"

text \<open>The same test on the bits of the byte, for evaluation.\<close>

lemma lower_char_code [code]:
  "lower_char (Char b0 b1 b2 b3 b4 b5 b6 b7) =
    (if \<not> b7 \<and> b6 \<and> \<not> b5 \<and> (b0 \<or> b1 \<or> b2 \<or> b3 \<or> b4) \<and> \<not> (b4 \<and> b3 \<and> (b2 \<or> b1 \<and> b0))
     then Char b0 b1 b2 b3 b4 True b6 b7 else Char b0 b1 b2 b3 b4 b5 b6 b7)"
  by (cases b0; cases b1; cases b2; cases b3; cases b4; cases b5; cases b6; cases b7)
    (simp_all add: lower_char_def of_char_Char char_of_def bit_0)

definition ToLower :: "string \<Rightarrow> string" where
  "ToLower s = map lower_char s"

lemma lower_char_idem [simp]: "lower_char (lower_char c) = lower_char c"
  by (simp add: lower_char_def Let_def char_of_eq_iff take_bit_eq_mod)

lemma ToLower_idem [simp]: "ToLower (ToLower s) = ToLower s"
  by (simp add: ToLower_def)

definition Contains :: "string \<Rightarrow> string \<Rightarrow> bool" where
  "Contains s p \<longleftrightarrow> list_ex (\<lambda>i. HasPrefix (drop i s) p) [0..<Suc (length s)]"

section \<open>package strconv\<close>

definition digit_char :: "nat \<Rightarrow> char" where
  "digit_char d = char_of (48 + d)"

fun nat_digits :: "nat \<Rightarrow> string" where
  "nat_digits n = (if n < 10 then [digit_char n] else nat_digits (n div 10) @ [digit_char (n mod 10)])"

declare nat_digits.simps [simp del]

definition Itoa :: "int \<Rightarrow> string" where
  "Itoa i = (if i < 0 then CHR ''-'' # nat_digits (nat (- i)) else nat_digits (nat i))"

definition digit_val :: "char \<Rightarrow> int option" where
  "digit_val c = (let n = of_char c in if 48 \<le> n \<and> n \<le> 57 then Some (n - 48) else None)"

fun digits_val :: "int \<Rightarrow> string \<Rightarrow> int option" where
  "digits_val acc [] = Some acc"
| "digits_val acc (c # cs) =
     (case digit_val c of None \<Rightarrow> None | Some d \<Rightarrow> digits_val (10 * acc + d) cs)"

definition unsigned_val :: "string \<Rightarrow> int option" where
  "unsigned_val s = (if s = [] then None else digits_val 0 s)"

text \<open>\<open>strconv.Atoi\<close>: an optional sign, at least one digit, and a value that fits an \<open>int\<close>.\<close>

definition Atoi :: "string \<Rightarrow> int option" where
  "Atoi s =
    (let v = (case s of
        [] \<Rightarrow> None
      | c # cs \<Rightarrow>
          if c = CHR ''-'' then map_option uminus (unsigned_val cs)
          else if c = CHR ''+'' then unsigned_val cs
          else unsigned_val s)
     in case v of None \<Rightarrow> None | Some i \<Rightarrow> if int64 i then Some i else None)"

lemma of_char_digit_char: "d < 10 \<Longrightarrow> (of_char (digit_char d) :: int) = 48 + int d"
proof -
  assume "d < 10"
  then have "(of_char (digit_char d) :: nat) = 48 + d"
    by (simp add: digit_char_def take_bit_eq_mod)
  then show ?thesis by (metis of_nat_add of_nat_numeral of_nat_of_char)
qed

lemma digit_val_digit_char [simp]: "d < 10 \<Longrightarrow> digit_val (digit_char d) = Some (int d)"
  by (simp add: digit_val_def Let_def of_char_digit_char)

lemma digits_val_append:
  "digits_val a (xs @ ys) = (case digits_val a xs of None \<Rightarrow> None | Some v \<Rightarrow> digits_val v ys)"
  by (induction a xs rule: digits_val.induct) (auto split: option.splits)

lemma digits_val_nat_digits: "digits_val 0 (nat_digits n) = Some (int n)"
proof (induction n rule: nat_digits.induct)
  case (1 n)
  then show ?case
    by (subst nat_digits.simps) (auto simp: digits_val_append zmod_int zdiv_int)
qed

lemma nat_digits_nonempty [simp]: "nat_digits n \<noteq> []"
  by (subst nat_digits.simps) simp

lemma nat_digits_inj: "nat_digits a = nat_digits b \<Longrightarrow> a = b"
  by (metis digits_val_nat_digits option.inject of_nat_eq_iff)

lemma nat_digits_all_digits: "c \<in> set (nat_digits n) \<Longrightarrow> \<exists>d < 10. c = digit_char d"
proof (induction n rule: nat_digits.induct)
  case (1 n)
  then show ?case
    by (subst (asm) (2) nat_digits.simps)
      (auto split: if_splits intro: exI [of _ n] exI [of _ "n mod 10"])
qed

lemma digit_char_not_sign [simp]:
  "d < 10 \<Longrightarrow> digit_char d \<noteq> CHR ''-''" "d < 10 \<Longrightarrow> digit_char d \<noteq> CHR ''+''"
  by (auto dest: of_char_digit_char arg_cong [of _ _ "of_char :: char \<Rightarrow> int"])

lemma Atoi_nat_digits: "int64 (int n) \<Longrightarrow> Atoi (nat_digits n) = Some (int n)"
proof -
  assume "int64 (int n)"
  obtain c cs where cs: "nat_digits n = c # cs" by (cases "nat_digits n") auto
  then obtain d where "d < 10" "c = digit_char d"
    using nat_digits_all_digits [of c n] by auto
  then have "c \<noteq> CHR ''-''" "c \<noteq> CHR ''+''" by simp_all
  with cs \<open>int64 (int n)\<close> digits_val_nat_digits [of n] show ?thesis
    by (simp add: Atoi_def unsigned_val_def)
qed

lemma Atoi_Itoa: "int64 i \<Longrightarrow> Atoi (Itoa i) = Some i"
  using Atoi_nat_digits [of "nat i"] digits_val_nat_digits [of "nat (- i)"]
  by (auto simp: Itoa_def Atoi_def unsigned_val_def)

lemma Itoa_inj: "Itoa i = Itoa j \<Longrightarrow> i = j"
proof -
  assume eq: "Itoa i = Itoa j"
  have no_sign: "nat_digits n \<noteq> CHR ''-'' # cs" for n cs
    using nat_digits_all_digits [of "CHR ''-''" n] digit_char_not_sign(1) by fastforce
  show "i = j"
    using eq no_sign no_sign [symmetric]
    by (auto simp: Itoa_def dest!: nat_digits_inj split: if_splits)
qed

section \<open>package time\<close>

type_synonym time = int

definition IsZero :: "time \<Rightarrow> bool" where
  "IsZero t \<longleftrightarrow> t = 0"

definition leap_year :: "int \<Rightarrow> bool" where
  "leap_year y \<longleftrightarrow> y mod 4 = 0 \<and> (y mod 100 \<noteq> 0 \<or> y mod 400 = 0)"

definition month_lengths :: "int \<Rightarrow> int list" where
  "month_lengths y = [31, if leap_year y then 29 else 28, 31, 30, 31, 30, 31, 31, 30, 31, 30, 31]"

definition days_since_zero :: "int \<Rightarrow> nat \<Rightarrow> int \<Rightarrow> int" where
  "days_since_zero y m d = 365 * (y - 1) + (y - 1) div 4 - (y - 1) div 100 + (y - 1) div 400
     + sum_list (take (m - 1) (month_lengths y)) + (d - 1)"

definition int_range :: "int \<Rightarrow> int \<Rightarrow> int option \<Rightarrow> int option" where
  "int_range lo hi v = (case v of None \<Rightarrow> None | Some i \<Rightarrow> if lo \<le> i \<and> i \<le> hi then Some i else None)"

text \<open>The fraction of a second and what follows it, in nanoseconds.\<close>

definition fraction :: "string \<Rightarrow> (int \<times> string) option" where
  "fraction s = (case s of
     [] \<Rightarrow> Some (0, [])
   | c # cs \<Rightarrow>
       if c \<noteq> CHR ''.'' then Some (0, s)
       else let ds = takeWhile (\<lambda>c. digit_val c \<noteq> None) cs;
                ns = take 9 ds @ replicate (9 - length ds) (CHR ''0'')
            in if ds = [] then None
               else (case unsigned_val ns of None \<Rightarrow> None | Some n \<Rightarrow> Some (n, drop (length ds) cs)))"

definition zone :: "string \<Rightarrow> int option" where
  "zone s = (if s = ''Z'' then Some 0
     else if length s = 6 \<and> s ! 3 = CHR '':'' \<and> (s ! 0 = CHR ''+'' \<or> s ! 0 = CHR ''-'') then
       (case (int_range 0 23 (unsigned_val (take 2 (drop 1 s))), int_range 0 59 (unsigned_val (drop 4 s))) of
          (Some h, Some m) \<Rightarrow> Some ((if s ! 0 = CHR ''-'' then - 1 else 1) * (h * 60 + m) * 60)
        | _ \<Rightarrow> None)
     else None)"

text \<open>\<open>time.Time.UnmarshalJSON\<close>: strict RFC 3339, as nanoseconds since the zero time.\<close>

definition parse_rfc3339 :: "string \<Rightarrow> time option" where
  "parse_rfc3339 s =
    (if length s < 20 \<or> s ! 4 \<noteq> CHR ''-'' \<or> s ! 7 \<noteq> CHR ''-'' \<or> s ! 10 \<noteq> CHR ''T''
        \<or> s ! 13 \<noteq> CHR '':'' \<or> s ! 16 \<noteq> CHR '':'' then None
     else (case (unsigned_val (take 4 s), int_range 1 12 (unsigned_val (take 2 (drop 5 s))), unsigned_val (take 2 (drop 8 s)),
                 int_range 0 23 (unsigned_val (take 2 (drop 11 s))), int_range 0 59 (unsigned_val (take 2 (drop 14 s))),
                 int_range 0 59 (unsigned_val (take 2 (drop 17 s))), fraction (drop 19 s)) of
        (Some y, Some mo, Some d, Some h, Some mi, Some sec, Some (ns, z)) \<Rightarrow>
          if 1 \<le> d \<and> d \<le> month_lengths y ! (nat mo - 1) then
            (case zone z of None \<Rightarrow> None
             | Some off \<Rightarrow> Some ((((days_since_zero y (nat mo) d * 24 + h) * 60 + mi) * 60 + sec - off)
                                * 1000000000 + ns))
          else None
      | _ \<Rightarrow> None))"

text \<open>The Unix epoch, 1970-01-01T00:00:00Z, counted from the zero time.\<close>

definition unix_epoch :: time where
  "unix_epoch = 62135596800 * 1000000000"

definition UnixNano :: "time \<Rightarrow> int" where
  "UnixNano t = wrap64 (t - unix_epoch)"

definition UnixMilli :: "time \<Rightarrow> int" where
  "UnixMilli t = (t - unix_epoch) div 1000000"

section \<open>package encoding/json\<close>

datatype json =
    JNull
  | JBool bool
  | JInt int \<comment> \<open>a number literal without fraction or exponent\<close>
  | JFrac string \<comment> \<open>any other number literal\<close>
  | JStr string
  | JArr "json list"
  | JObj "(string \<times> json) list"

text \<open>A \<open>json.RawMessage\<close>: no bytes, bytes that are not JSON, or JSON.\<close>

datatype raw = RawEmpty | RawInvalid | RawJson json

text \<open>
  The Go types a payload struct is made of, and when \<open>json.Unmarshal\<close> accepts a value for
  one. Object keys match struct fields case-insensitively, unknown keys are skipped, and
  \<open>null\<close> leaves any target unchanged.
\<close>

datatype schema =
    SStr | SInt | SBool | STime
  | SArr schema
  | SMap schema
  | SObj "(string \<times> schema) list"

definition field_match :: "string \<Rightarrow> string \<Rightarrow> bool" where
  "field_match f k \<longleftrightarrow> ToLower f = ToLower k"

fun json_ok :: "schema \<Rightarrow> json \<Rightarrow> bool" where
  "json_ok _ JNull = True"
| "json_ok SStr j = (case j of JStr _ \<Rightarrow> True | _ \<Rightarrow> False)"
| "json_ok SInt j = (case j of JInt n \<Rightarrow> int64 n | _ \<Rightarrow> False)"
| "json_ok SBool j = (case j of JBool _ \<Rightarrow> True | _ \<Rightarrow> False)"
| "json_ok STime j = (case j of JStr s \<Rightarrow> parse_rfc3339 s \<noteq> None | _ \<Rightarrow> False)"
| "json_ok (SArr s) (JArr js) = list_all (json_ok s) js"
| "json_ok (SMap s) (JObj kvs) = list_all (\<lambda>kv. json_ok s (snd kv)) kvs"
| "json_ok (SObj fs) (JObj kvs) =
     list_all (\<lambda>kv. case find (\<lambda>f. field_match (fst f) (fst kv)) fs of
                      None \<Rightarrow> True | Some f \<Rightarrow> json_ok (snd f) (snd kv)) kvs"
| "json_ok _ _ = False"

text \<open>The values an object assigns to a field, in the order they are assigned.\<close>

definition members :: "string \<Rightarrow> json \<Rightarrow> json list" where
  "members f j = (case j of JObj kvs \<Rightarrow> map snd (filter (\<lambda>kv. field_match f (fst kv)) kvs) | _ \<Rightarrow> [])"

definition last_some :: "('a \<Rightarrow> 'b option) \<Rightarrow> 'a list \<Rightarrow> 'b option" where
  "last_some p xs = fold (\<lambda>x acc. case p x of None \<Rightarrow> acc | Some v \<Rightarrow> Some v) xs None"

lemma last_some_from: "last_some p xs = Some v \<Longrightarrow> \<exists>x \<in> set xs. p x = Some v"
  by (induction xs arbitrary: v rule: rev_induct) (auto simp: last_some_def split: option.splits)

definition get_str :: "string \<Rightarrow> json \<Rightarrow> string" where
  "get_str f j = (case last_some (\<lambda>v. case v of JStr s \<Rightarrow> Some s | _ \<Rightarrow> None) (members f j) of
     None \<Rightarrow> [] | Some s \<Rightarrow> s)"

definition get_int :: "string \<Rightarrow> json \<Rightarrow> int" where
  "get_int f j = (case last_some (\<lambda>v. case v of JInt n \<Rightarrow> if int64 n then Some n else None | _ \<Rightarrow> None)
      (members f j) of None \<Rightarrow> 0 | Some n \<Rightarrow> n)"

definition get_time :: "string \<Rightarrow> json \<Rightarrow> time" where
  "get_time f j = (case last_some (\<lambda>v. case v of JStr s \<Rightarrow> parse_rfc3339 s | _ \<Rightarrow> None) (members f j) of
     None \<Rightarrow> 0 | Some t \<Rightarrow> t)"

definition get_arr :: "string \<Rightarrow> json \<Rightarrow> json list" where
  "get_arr f j = (case last_some (\<lambda>v. case v of JArr js \<Rightarrow> Some js | JNull \<Rightarrow> Some [] | _ \<Rightarrow> None)
      (members f j) of
     None \<Rightarrow> [] | Some js \<Rightarrow> js)"

definition json_str :: "json \<Rightarrow> string" where
  "json_str j = (case j of JStr s \<Rightarrow> s | _ \<Rightarrow> [])"

definition get_strs :: "string \<Rightarrow> json \<Rightarrow> string list" where
  "get_strs f j = map json_str (get_arr f j)"

lemma int64_get_int [simp]: "int64 (get_int f j)"
  by (auto simp: get_int_def split: option.splits json.splits if_splits dest!: last_some_from)
    (simp add: int64_def)

text \<open>\<open>json.Unmarshal(raw, &v)\<close>: \<open>None\<close> is the error, \<open>Some j\<close> the value to read fields from.\<close>

definition unmarshal :: "schema \<Rightarrow> raw \<Rightarrow> json option" where
  "unmarshal s r = (case r of RawJson j \<Rightarrow> if json_ok s j then Some j else None | _ \<Rightarrow> None)"

end
