(* ===== verification/GoTime.thy ===== *)
theory GoTime
  imports GoStd
begin

text \<open>
  \<open>time.Time.MarshalJSON\<close>: RFC 3339 in UTC with the nanoseconds trimmed of trailing zeros, refused
  outside the years 0 to 9999. A time that could be written is read back as the same time.
\<close>

section \<open>The calendar\<close>

text \<open>The year of a day counted from 0001-01-01, through the 400, 100, 4 and 1 year cycles.\<close>

definition year_of_day :: "int \<Rightarrow> int" where
  "year_of_day d =
    (let n400 = d div 146097; d400 = d mod 146097;
         n100 = min 3 (d400 div 36524); d100 = d400 - 36524 * n100;
         n4 = d100 div 1461; d4 = d100 mod 1461;
         n1 = min 3 (d4 div 365)
     in 400 * n400 + 100 * n100 + 4 * n4 + n1 + 1)"

fun month_of :: "int list \<Rightarrow> int \<Rightarrow> nat \<times> int" where
  "month_of [] d = (1, d + 1)"
| "month_of (l # ls) d = (if d < l then (1, d + 1) else (let (m, d') = month_of ls (d - l) in (Suc m, d')))"

definition pad :: "nat \<Rightarrow> int \<Rightarrow> string" where
  "pad w n = map (\<lambda>i. digit_char (nat (n div 10 ^ (w - 1 - i) mod 10))) [0..<w]"

text \<open>Nanoseconds with trailing zeros dropped.\<close>

definition frac_text :: "int \<Rightarrow> string" where
  "frac_text ns = (if ns = 0 then []
     else CHR ''.'' # rev (dropWhile (\<lambda>c. c = CHR ''0'') (rev (pad 9 ns))))"

definition format_rfc3339 :: "time \<Rightarrow> string option" where
  "format_rfc3339 t =
    (let ns = t mod 1000000000; secs = t div 1000000000;
         day = secs div 86400; sod = secs mod 86400;
         y = year_of_day day;
         (m, d) = month_of (month_lengths y) (day - days_since_zero y 1 1)
     in if y < 0 \<or> y > 9999 then None
        else Some (pad 4 y @ ''-'' @ pad 2 (int m) @ ''-'' @ pad 2 d @ ''T'' @ pad 2 (sod div 3600) @ '':''
          @ pad 2 (sod div 60 mod 60) @ '':'' @ pad 2 (sod mod 60) @ frac_text ns @ ''Z''))"

section \<open>Years and months\<close>

lemma capped:
  fixes k d m :: int
  assumes "0 < k" "0 \<le> d" "0 \<le> m"
  shows "0 \<le> min m (d div k)" "k * min m (d div k) \<le> d" "d < k * min m (d div k) + max k (d - k * m + 1)"
    "min m (d div k) < m \<longrightarrow> d < k * min m (d div k) + k"
proof -
  have d: "d = k * (d div k) + d mod k" "0 \<le> d mod k" "d mod k < k" using assms(1) by simp_all
  show "0 \<le> min m (d div k)" using assms by (simp add: pos_imp_zdiv_nonneg_iff)
  show "k * min m (d div k) \<le> d"
    using d assms(1) mult_left_mono [of "min m (d div k)" "d div k" k] by linarith
  show less: "min m (d div k) < m \<longrightarrow> d < k * min m (d div k) + k"
  proof
    assume "min m (d div k) < m"
    then have "min m (d div k) = d div k" by linarith
    with d show "d < k * min m (d div k) + k" by (metis add_left_mono add_strict_left_mono)
  qed
  show "d < k * min m (d div k) + max k (d - k * m + 1)"
    using less by (cases "min m (d div k) < m") (auto simp: min_def split: if_splits)
qed

lemma year_of_day_bounds:
  "days_since_zero (year_of_day d) 1 1 \<le> d"
  "d < days_since_zero (year_of_day d) 1 1 + (if leap_year (year_of_day d) then 366 else 365)"
proof -
  define n400 where "n400 = d div 146097"
  define d400 where "d400 = d mod 146097"
  define n100 where "n100 = min 3 (d400 div 36524)"
  define d100 where "d100 = d400 - 36524 * n100"
  define n4 where "n4 = d100 div 1461"
  define d4 where "d4 = d100 mod 1461"
  define n1 where "n1 = min 3 (d4 div 365)"
  define y where "y = 400 * n400 + 100 * n100 + 4 * n4 + n1 + 1"
  have y: "year_of_day d = y"
    by (simp add: year_of_day_def Let_def y_def n1_def d4_def n4_def d100_def n100_def d400_def n400_def)
  have d: "d = 146097 * n400 + d400" "0 \<le> d400" "d400 < 146097"
    by (simp_all add: n400_def d400_def)
  have n100: "0 \<le> n100" "n100 \<le> 3" "0 \<le> d100" "d100 < 36525" "n100 < 3 \<longrightarrow> d100 < 36524"
    using capped [of 36524 d400 3] d(2,3) by (auto simp: n100_def d100_def)
  have d100: "d100 = 1461 * n4 + d4" "0 \<le> d4" "d4 < 1461" by (simp_all add: n4_def d4_def)
  have n4: "0 \<le> n4" "n4 \<le> 24" using n100(3,4) d100 by linarith+
  have n1: "0 \<le> n1" "n1 \<le> 3" "365 * n1 \<le> d4" "d4 < 365 * n1 + 366" "n1 < 3 \<longrightarrow> d4 < 365 * n1 + 365"
    using capped [of 365 d4 3] d100(2,3) by (auto simp: n1_def)
  have div4: "(y - 1) div 4 = 100 * n400 + 25 * n100 + n4"
    using n1 by (simp add: y_def)
  have div100: "(y - 1) div 100 = 4 * n400 + n100"
    using n1 n4 by (simp add: y_def)
  have div400: "(y - 1) div 400 = n400"
    using n1 n4 n100 by (simp add: y_def)
  have start: "days_since_zero y 1 1 = 146097 * n400 + 36524 * n100 + 1461 * n4 + 365 * n1"
    unfolding days_since_zero_def div4 div100 div400 by (simp add: y_def)
  have leap: "leap_year y" if "n1 = 3" "n4 < 24 \<or> n100 = 3"
  proof -
    have y4: "y = 4 * (100 * n400 + 25 * n100 + n4 + 1)" using that(1) by (simp add: y_def)
    have m4: "y mod 4 = 0" unfolding y4 by simp
    show ?thesis
    proof (cases "n4 < 24")
      case True
      have "y = 4 * (n4 + 1) + (4 * n400 + n100) * 100" unfolding y4 by simp
      then have "y mod 100 = 4 * (n4 + 1) mod 100" by (simp only: mod_mult_self1)
      also have "\<dots> \<noteq> 0" using True n4 by simp
      finally show ?thesis using m4 by (simp add: leap_year_def)
    next
      case False
      with that n4 have "n4 = 24" "n100 = 3" by auto
      then have "y = (n400 + 1) * 400" unfolding y4 by simp
      then have "y mod 400 = 0" by simp
      with m4 show ?thesis by (simp add: leap_year_def)
    qed
  qed
  show "days_since_zero (year_of_day d) 1 1 \<le> d"
    unfolding y start using d(1) d100(1) n1(3) by (simp add: d100_def)
  have top: "d4 < 365 * n1 + 365" if "\<not> leap_year y"
  proof (rule ccontr)
    assume "\<not> d4 < 365 * n1 + 365"
    with n1 have "n1 = 3" "d4 = 1460" by auto
    have "n4 = 24" "n100 < 3" using leap [OF \<open>n1 = 3\<close>] that n4 n100(2) by fastforce+
    with d100(1) n100(5) \<open>d4 = 1460\<close> show False by simp
  qed
  show "d < days_since_zero (year_of_day d) 1 1 + (if leap_year (year_of_day d) then 366 else 365)"
    unfolding y start using d(1) d100(1) n1(4) top by (cases "leap_year y") (simp_all add: d100_def)
qed

lemma month_of_ok:
  "0 \<le> d \<Longrightarrow> d < sum_list ls \<Longrightarrow> month_of ls d = (m, d') \<Longrightarrow>
    1 \<le> m \<and> m \<le> length ls \<and> 1 \<le> d' \<and> d' \<le> ls ! (m - 1) \<and> sum_list (take (m - 1) ls) + (d' - 1) = d"
proof (induction ls arbitrary: d m d')
  case (Cons l ls)
  show ?case
  proof (cases "d < l")
    case True
    with Cons.prems show ?thesis by auto
  next
    case False
    then obtain m1 where m1: "month_of ls (d - l) = (m1, d')" "m = Suc m1"
      using Cons.prems by (auto split: prod.splits)
    have "0 \<le> d - l" "d - l < sum_list ls" using False Cons.prems by auto
    note ih = Cons.IH [OF this m1(1)]
    then obtain k where "m1 = Suc k" by (cases m1) auto
    with ih m1 show ?thesis by auto
  qed
qed auto

lemma month_lengths_sum: "sum_list (month_lengths y) = (if leap_year y then 366 else 365)"
  by (simp add: month_lengths_def)

section \<open>Digits\<close>

lemma length_pad [simp]: "length (pad w n) = w"
  by (simp add: pad_def)

lemma pad_Suc: "pad (Suc w) n = pad w (n div 10) @ [digit_char (nat (n mod 10))]"
proof -
  have "map (\<lambda>i. digit_char (nat (n div 10 ^ (w - i) mod 10))) [0..<w]
      = map (\<lambda>i. digit_char (nat (n div 10 div 10 ^ (w - 1 - i) mod 10))) [0..<w]"
  proof (intro map_cong refl)
    fix i assume "i \<in> set [0..<w]"
    then have "(10::int) ^ (w - i) = 10 * 10 ^ (w - 1 - i)"
      by (metis Suc_diff_Suc atLeastLessThan_iff diff_Suc_eq_diff_pred power_Suc set_upt zero_less_diff)
    then show "digit_char (nat (n div 10 ^ (w - i) mod 10)) = digit_char (nat (n div 10 div 10 ^ (w - 1 - i) mod 10))"
      by (simp add: zdiv_zmult2_eq)
  qed
  then show ?thesis by (simp add: pad_def)
qed

lemma pad_digits: "c \<in> set (pad w n) \<Longrightarrow> \<exists>d < 10. c = digit_char d"
proof -
  assume "c \<in> set (pad w n)"
  then obtain k where "c = digit_char (nat (k mod 10))" by (auto simp: pad_def)
  then show ?thesis by (intro exI [of _ "nat (k mod 10)"]) simp
qed

lemma digits_val_pad: "0 \<le> n \<Longrightarrow> digits_val 0 (pad w n) = Some (n mod 10 ^ w)"
proof (induction w arbitrary: n)
  case (Suc w)
  have "n mod (10 * 10 ^ w) = 10 * (n div 10 mod 10 ^ w) + n mod 10"
    by (simp add: zmod_zmult2_eq)
  with Suc.IH [of "n div 10"] Suc.prems show ?case by (simp add: pad_Suc digits_val_append)
qed (simp add: pad_def)

lemma unsigned_val_pad: "0 \<le> n \<Longrightarrow> n < 10 ^ w \<Longrightarrow> w > 0 \<Longrightarrow> unsigned_val (pad w n) = Some n"
  using digits_val_pad [of n w] length_pad [of w n] by (auto simp: unsigned_val_def simp del: length_pad)

section \<open>The fraction\<close>

lemma digit_val_zero: "digit_val (CHR ''0'') = Some 0"
  by code_simp

lemma digits_only: "\<forall>c \<in> set s. digit_val c \<noteq> None \<Longrightarrow> takeWhile (\<lambda>c. digit_val c \<noteq> None) (s @ ''Z'') = s"
proof -
  have "digit_val (CHR ''Z'') = None" by code_simp
  then show "\<forall>c \<in> set s. digit_val c \<noteq> None \<Longrightarrow> ?thesis" by (induction s) auto
qed

lemma pad_digit_val: "c \<in> set (pad w n) \<Longrightarrow> digit_val c \<noteq> None"
  by (auto dest!: pad_digits)

text \<open>What was trimmed from a string of digits is put back.\<close>

lemma trimmed_zeros:
  "\<exists>k. s = rev (dropWhile (\<lambda>c. c = CHR ''0'') (rev s)) @ replicate k (CHR ''0'')"
proof -
  let ?z = "\<lambda>c. c = CHR ''0''"
  have "takeWhile ?z (rev s) = replicate (length (takeWhile ?z (rev s))) (CHR ''0'')"
    by (rule replicate_length_same [symmetric]) (auto dest: set_takeWhileD)
  then have "rev (takeWhile ?z (rev s)) = replicate (length (takeWhile ?z (rev s))) (CHR ''0'')"
    by (metis rev_replicate)
  moreover have "s = rev (dropWhile ?z (rev s)) @ rev (takeWhile ?z (rev s))"
    by (metis rev_append rev_rev_ident takeWhile_dropWhile_id)
  ultimately show ?thesis by metis
qed

lemma digits_val_zeros: "digits_val 0 (replicate k (CHR ''0'')) = Some 0"
  by (induction k) (simp_all add: digit_val_zero)

lemma fraction_text:
  assumes "0 \<le> ns" "ns < 1000000000"
  shows "fraction (frac_text ns @ ''Z'') = Some (ns, ''Z'')"
proof (cases "ns = 0")
  case True
  then show ?thesis by (simp add: frac_text_def fraction_def)
next
  case False
  define ds where "ds = rev (dropWhile (\<lambda>c. c = CHR ''0'') (rev (pad 9 ns)))"
  obtain k where k: "pad 9 ns = ds @ replicate k (CHR ''0'')"
    unfolding ds_def using trimmed_zeros by blast
  have val: "unsigned_val (pad 9 ns) = Some ns" using assms by (intro unsigned_val_pad) auto
  have len: "length ds + k = 9" using arg_cong [OF k, of length] by simp
  have "ds \<noteq> []"
  proof
    assume "ds = []"
    with k val have "digits_val 0 (replicate k (CHR ''0'')) = Some ns"
      by (simp add: unsigned_val_def split: if_splits)
    with False show False by (simp add: digits_val_zeros)
  qed
  moreover have "takeWhile (\<lambda>c. digit_val c \<noteq> None) (ds @ ''Z'') = ds"
    by (rule digits_only) (use pad_digit_val [of _ 9 ns] k in auto)
  moreover have "9 - length ds = k" "length ds \<le> 9" using len by simp_all
  moreover have "frac_text ns @ ''Z'' = CHR ''.'' # ds @ ''Z''"
    using False by (simp add: frac_text_def ds_def)
  ultimately show ?thesis using val k by (simp add: fraction_def Let_def)
qed

section \<open>A time that was written is read back\<close>

lemma clock_sum: "(h * 60 + m) * 60 + s = x \<Longrightarrow> ((d * 24 + h) * 60 + m) * 60 + s = d * 86400 + (x :: int)"
  by simp

lemma pad_chars:
  "\<exists>a b. pad 2 n = [a, b]" "\<exists>a b c d. pad 4 n = [a, b, c, d]"
  by (simp_all add: pad_def upt_rec)

theorem parse_format:
  assumes "format_rfc3339 t = Some s"
  shows "parse_rfc3339 s = Some t"
proof -
  define ns where "ns = t mod 1000000000"
  define secs where "secs = t div 1000000000"
  define day where "day = secs div 86400"
  define sod where "sod = secs mod 86400"
  define y where "y = year_of_day day"
  obtain m d where md: "month_of (month_lengths y) (day - days_since_zero y 1 1) = (m, d)" by fastforce
  have s: "s = pad 4 y @ ''-'' @ pad 2 (int m) @ ''-'' @ pad 2 d @ ''T'' @ pad 2 (sod div 3600) @ '':''
      @ pad 2 (sod div 60 mod 60) @ '':'' @ pad 2 (sod mod 60) @ frac_text ns @ ''Z''"
    and yr: "0 \<le> y" "y \<le> 9999"
    using assms md by (simp_all add: format_rfc3339_def Let_def ns_def secs_def day_def sod_def y_def split: if_splits)
  note yb = year_of_day_bounds [of day, folded y_def]
  have twelve: "length (month_lengths y) = 12" by (simp add: month_lengths_def)
  have m: "1 \<le> m" "m \<le> 12" "1 \<le> d" "d \<le> month_lengths y ! (m - 1)"
      "sum_list (take (m - 1) (month_lengths y)) + (d - 1) = day - days_since_zero y 1 1"
    using month_of_ok [OF _ _ md] yb twelve by (simp_all add: month_lengths_sum)
  have "month_lengths y ! (m - 1) \<in> set (month_lengths y)" using m(1,2) twelve by (simp add: nth_mem)
  moreover have "\<forall>l \<in> set (month_lengths y). l \<le> 31" by (simp add: month_lengths_def)
  ultimately have d31: "d \<le> 31" using m(4) by (meson order_trans)
  have days: "days_since_zero y m d = day"
    using m(5) by (simp add: days_since_zero_def)
  have sod: "0 \<le> sod" "sod < 86400" "0 \<le> ns" "ns < 1000000000" by (simp_all add: sod_def ns_def)
  have hms: "0 \<le> sod div 3600" "sod div 3600 \<le> 23" "(sod div 3600 * 60 + sod div 60 mod 60) * 60 + sod mod 60 = sod"
  proof -
    have q: "sod div 3600 = sod div 60 div 60" by (simp add: zdiv_zmult2_eq [symmetric])
    show "0 \<le> sod div 3600" using sod(1) by (simp add: pos_imp_zdiv_nonneg_iff)
    show "sod div 3600 \<le> 23" using sod(2) zdiv_mono1 [of sod 86399 3600] by simp
    have "sod div 60 div 60 * 60 + sod div 60 mod 60 = sod div 60" by (rule div_mult_mod_eq)
    then show "(sod div 3600 * 60 + sod div 60 mod 60) * 60 + sod mod 60 = sod"
      unfolding q by (simp only: div_mult_mod_eq)
  qed
  have val: "unsigned_val (pad 4 y) = Some y" "unsigned_val (pad 2 (int m)) = Some (int m)"
    "unsigned_val (pad 2 d) = Some d" "unsigned_val (pad 2 (sod div 3600)) = Some (sod div 3600)"
    "unsigned_val (pad 2 (sod div 60 mod 60)) = Some (sod div 60 mod 60)"
    "unsigned_val (pad 2 (sod mod 60)) = Some (sod mod 60)"
    by (rule unsigned_val_pad; use yr m(1-3) d31 hms(1,2) in simp)+
  have "zone ''Z'' = Some 0" by (simp add: zone_def)
  moreover have "secs = day * 86400 + sod" "t = secs * 1000000000 + ns"
    by (simp_all add: day_def sod_def secs_def ns_def)
  ultimately have t: "t = (((days_since_zero y m d * 24 + sod div 3600) * 60 + sod div 60 mod 60) * 60
      + sod mod 60) * 1000000000 + ns" and z: "zone ''Z'' = Some 0"
    using days clock_sum [OF hms(3), of day] by simp_all
  obtain y1 y2 y3 y4 where y4: "pad 4 y = [y1, y2, y3, y4]" using pad_chars(2) by blast
  obtain m1 m2 where m2: "pad 2 (int m) = [m1, m2]" using pad_chars(1) by blast
  obtain d1 d2 where d2: "pad 2 d = [d1, d2]" using pad_chars(1) by blast
  obtain h1 h2 where h2: "pad 2 (sod div 3600) = [h1, h2]" using pad_chars(1) by blast
  obtain i1 i2 where i2: "pad 2 (sod div 60 mod 60) = [i1, i2]" using pad_chars(1) by blast
  obtain s1 s2 where s2: "pad 2 (sod mod 60) = [s1, s2]" using pad_chars(1) by blast
  define f where "f = frac_text ns @ ''Z''"
  have chars: "s = [y1, y2, y3, y4, CHR ''-'', m1, m2, CHR ''-'', d1, d2, CHR ''T'', h1, h2, CHR '':'', i1, i2,
      CHR '':'', s1, s2] @ f"
    unfolding s y4 m2 d2 h2 i2 s2 f_def by simp
  have f: "fraction f = Some (ns, ''Z'')" "f \<noteq> []"
    unfolding f_def using fraction_text [OF sod(3,4)] by simp_all
  have range: "int_range 1 12 (Some (int m)) = Some (int m)" "int_range 0 23 (Some (sod div 3600)) = Some (sod div 3600)"
    "int_range 0 59 (Some (sod div 60 mod 60)) = Some (sod div 60 mod 60)"
    "int_range 0 59 (Some (sod mod 60)) = Some (sod mod 60)"
    using m(1,2) hms(1,2) by (simp_all add: int_range_def)
  have len: "\<not> length s < 20" using f(2) unfolding chars by (cases f) simp_all
  have pos: "s ! 4 = CHR ''-''" "s ! 7 = CHR ''-''" "s ! 10 = CHR ''T''" "s ! 13 = CHR '':''" "s ! 16 = CHR '':''"
    "take 4 s = pad 4 y" "take 2 (drop 5 s) = pad 2 (int m)" "take 2 (drop 8 s) = pad 2 d"
    "take 2 (drop 11 s) = pad 2 (sod div 3600)" "take 2 (drop 14 s) = pad 2 (sod div 60 mod 60)"
    "take 2 (drop 17 s) = pad 2 (sod mod 60)" "drop 19 s = f"
    unfolding chars y4 m2 d2 h2 i2 s2 by simp_all
  have "nat (int m) - 1 = m - 1" by simp
  then show ?thesis
    unfolding parse_rfc3339_def pos val range f t
    using len m(3,4) z by (simp add: Let_def)
qed

text \<open>Every time from the zero time to the end of year 9999 can be written.\<close>

lemma year_start:
  "days_since_zero y 1 1 = 365 * (y - 1) + 24 * ((y - 1) div 100) + (y - 1) mod 100 div 4 + (y - 1) div 400"
proof -
  have "y - 1 = (y - 1) mod 100 + 25 * ((y - 1) div 100) * 4" by simp
  then have "(y - 1) div 4 = ((y - 1) mod 100 + 25 * ((y - 1) div 100) * 4) div 4" by metis
  also have "\<dots> = 25 * ((y - 1) div 100) + (y - 1) mod 100 div 4" by (rule div_mult_self1) simp
  finally have "(y - 1) div 4 = 25 * ((y - 1) div 100) + (y - 1) mod 100 div 4" .
  then show ?thesis by (simp add: days_since_zero_def)
qed

lemma format_defined:
  assumes "0 \<le> t" "t < 3652059 * 86400 * 1000000000"
  shows "format_rfc3339 t \<noteq> None"
proof -
  let ?d = "t div 1000000000 div 86400"
  define y where "y = year_of_day ?d"
  have d: "0 \<le> ?d" "?d < 3652059"
    using assms zdiv_mono1 [of t "3652059 * 86400 * 1000000000 - 1" "1000000000 * 86400"]
    by (simp_all add: zdiv_zmult2_eq [symmetric])
  have r: "0 \<le> (y - 1) mod 100 div 4" "(y - 1) mod 100 div 4 \<le> 24"
    using zdiv_mono1 [of "(y - 1) mod 100" 99 4] by (simp_all add: pos_imp_zdiv_nonneg_iff)
  note b = year_of_day_bounds [of ?d, folded y_def]
  have start: "days_since_zero y 1 1 \<ge> 365 * a + 24 * b + c + e"
    if "y - 1 \<ge> a" "(y - 1) div 100 \<ge> b" "(y - 1) mod 100 div 4 \<ge> c" "(y - 1) div 400 \<ge> e" for a b c e
    unfolding year_start using that by (intro add_mono mult_left_mono) simp_all
  have until: "days_since_zero y 1 1 \<le> 365 * a + 24 * b + c + e"
    if "y - 1 \<le> a" "(y - 1) div 100 \<le> b" "(y - 1) mod 100 div 4 \<le> c" "(y - 1) div 400 \<le> e" for a b c e
    unfolding year_start using that by (intro add_mono mult_left_mono) simp_all
  have "y \<le> 9999"
  proof (rule ccontr)
    assume "\<not> y \<le> 9999"
    show False
    proof (cases "y = 10000")
      case True
      with b(1) d(2) show False by (simp add: days_since_zero_def)
    next
      case False
      with \<open>\<not> y \<le> 9999\<close> have "y - 1 \<ge> 10000" by simp
      moreover from this have "(y - 1) div 100 \<ge> 100" "(y - 1) div 400 \<ge> 25"
        using zdiv_mono1 [of 10000 "y - 1" 100] zdiv_mono1 [of 10000 "y - 1" 400] by simp_all
      ultimately have "days_since_zero y 1 1 \<ge> 3652059" using start [of 10000 100 0 25] r(1) by simp
      with b(1) d(2) show False by simp
    qed
  qed
  moreover have "y \<ge> 1"
  proof (rule ccontr)
    assume "\<not> y \<ge> 1"
    then have "y - 1 \<le> - 1" by simp
    moreover from this have "(y - 1) div 100 \<le> - 1" "(y - 1) div 400 \<le> - 1"
      using zdiv_mono1 [of "y - 1" "- 1" 100] zdiv_mono1 [of "y - 1" "- 1" 400] by simp_all
    ultimately have "days_since_zero y 1 1 \<le> - 366" using until [of "- 1" "- 1" 24 "- 1"] r(2) by simp
    moreover have "?d < days_since_zero y 1 1 + 366" using b(2) by (auto split: if_splits)
    ultimately show False using d(1) by linarith
  qed
  ultimately show ?thesis
    by (simp add: format_rfc3339_def Let_def y_def [symmetric] split: prod.splits)
qed

end
