(* ===== verification/Protocol.thy ===== *)
theory Protocol
  imports GoStd
begin

text \<open>
  Package \<open>internal/protocol\<close>: the event envelope and the vocabularies and payloads the
  ledger reduces. A Go string enum is open (any string can arrive on the bus), so its
  datatype has a constructor per constant, one for the empty string where the code tests
  for it, and one for every other string; \<open>*_of\<close> reads the string and \<open>*_str\<close> gives it back.
  A payload struct is a record with its JSON schema and a decoder.
\<close>

section \<open>Vocabularies\<close>

subsection \<open>Event types (protocol.go)\<close>

datatype EventType =
    EventSignal | EventInsight | EventMutation | EventVerification | EventLog | EventProgress | EventToolCall | EventAssistantText | EventTypeOther string

definition EventType_of :: "string \<Rightarrow> EventType" where
  "EventType_of s =
    (if s = ''SIGNAL'' then EventSignal
     else if s = ''INSIGHT'' then EventInsight
     else if s = ''MUTATION'' then EventMutation
     else if s = ''VERIFICATION'' then EventVerification
     else if s = ''LOG'' then EventLog
     else if s = ''PROGRESS'' then EventProgress
     else if s = ''TOOL_CALL'' then EventToolCall
     else if s = ''ASSISTANT_TEXT'' then EventAssistantText
     else EventTypeOther s)"

fun EventType_str :: "EventType \<Rightarrow> string" where
  "EventType_str EventSignal = ''SIGNAL''"
| "EventType_str EventInsight = ''INSIGHT''"
| "EventType_str EventMutation = ''MUTATION''"
| "EventType_str EventVerification = ''VERIFICATION''"
| "EventType_str EventLog = ''LOG''"
| "EventType_str EventProgress = ''PROGRESS''"
| "EventType_str EventToolCall = ''TOOL_CALL''"
| "EventType_str EventAssistantText = ''ASSISTANT_TEXT''"
| "EventType_str (EventTypeOther s) = s"

lemma EventType_str_of [simp]: "EventType_str (EventType_of s) = s"
  by (simp add: EventType_of_def)

definition IsDomainEvent :: "EventType \<Rightarrow> bool" where
  "IsDomainEvent t = (case t of
     EventSignal \<Rightarrow> True | EventInsight \<Rightarrow> True | EventMutation \<Rightarrow> True | EventVerification \<Rightarrow> True
   | _ \<Rightarrow> False)"

subsection \<open>Review policies and phases (task.go)\<close>

datatype TaskReviewPolicy =
    TaskReviewUnset | TaskReviewNone | TaskReviewRequired | TaskReviewFinal | TaskReviewOther string

definition TaskReviewPolicy_of :: "string \<Rightarrow> TaskReviewPolicy" where
  "TaskReviewPolicy_of s =
    (if s = [] then TaskReviewUnset
     else if s = ''none'' then TaskReviewNone
     else if s = ''required'' then TaskReviewRequired
     else if s = ''final'' then TaskReviewFinal
     else TaskReviewOther s)"

fun TaskReviewPolicy_str :: "TaskReviewPolicy \<Rightarrow> string" where
  "TaskReviewPolicy_str TaskReviewUnset = []"
| "TaskReviewPolicy_str TaskReviewNone = ''none''"
| "TaskReviewPolicy_str TaskReviewRequired = ''required''"
| "TaskReviewPolicy_str TaskReviewFinal = ''final''"
| "TaskReviewPolicy_str (TaskReviewOther s) = s"

lemma TaskReviewPolicy_str_of [simp]: "TaskReviewPolicy_str (TaskReviewPolicy_of s) = s"
  by (simp add: TaskReviewPolicy_of_def)

definition NormalizeTaskReviewPolicy :: "TaskReviewPolicy \<Rightarrow> TaskReviewPolicy" where
  "NormalizeTaskReviewPolicy p = (case p of
     TaskReviewRequired \<Rightarrow> p | TaskReviewFinal \<Rightarrow> p | _ \<Rightarrow> TaskReviewNone)"

datatype TaskPhase =
    TaskPhaseUnset | TaskPhaseWork | TaskPhaseClosing | TaskPhaseMerge | TaskPhaseOther string

definition TaskPhase_of :: "string \<Rightarrow> TaskPhase" where
  "TaskPhase_of s =
    (if s = [] then TaskPhaseUnset
     else if s = ''work'' then TaskPhaseWork
     else if s = ''closing'' then TaskPhaseClosing
     else if s = ''merge'' then TaskPhaseMerge
     else TaskPhaseOther s)"

fun TaskPhase_str :: "TaskPhase \<Rightarrow> string" where
  "TaskPhase_str TaskPhaseUnset = []"
| "TaskPhase_str TaskPhaseWork = ''work''"
| "TaskPhase_str TaskPhaseClosing = ''closing''"
| "TaskPhase_str TaskPhaseMerge = ''merge''"
| "TaskPhase_str (TaskPhaseOther s) = s"

lemma TaskPhase_str_of [simp]: "TaskPhase_str (TaskPhase_of s) = s"
  by (simp add: TaskPhase_of_def)

definition IsKnownTaskPhase :: "TaskPhase \<Rightarrow> bool" where
  "IsKnownTaskPhase p = (case p of
     TaskPhaseUnset \<Rightarrow> True | TaskPhaseWork \<Rightarrow> True | TaskPhaseClosing \<Rightarrow> True | TaskPhaseMerge \<Rightarrow> True
   | _ \<Rightarrow> False)"

definition NormalizeTaskPhase :: "TaskPhase \<Rightarrow> TaskPhase" where
  "NormalizeTaskPhase p = (case p of
     TaskPhaseClosing \<Rightarrow> p | TaskPhaseMerge \<Rightarrow> p | _ \<Rightarrow> TaskPhaseWork)"

definition DeriveTaskPhase :: "TaskPhase \<Rightarrow> TaskReviewPolicy \<Rightarrow> TaskPhase" where
  "DeriveTaskPhase phase review =
    (if NormalizeTaskReviewPolicy review = TaskReviewFinal then TaskPhaseMerge
     else let p = NormalizeTaskPhase phase
          in if p = TaskPhaseMerge then TaskPhaseWork else p)"

text \<open>The reserved id the platform runtime publishes under.\<close>

abbreviation RuntimeAgentID :: string where
  "RuntimeAgentID \<equiv> ''runtime''"

datatype TaskStatus =
    TaskStatusUnset | TaskStatusPlanned | TaskStatusReady | TaskStatusRunning | TaskStatusWaitingReview | TaskStatusCompleted | TaskStatusFailed | TaskStatusBlocked | TaskStatusCancelled | TaskStatusSkipped | TaskStatusOther string

definition TaskStatus_of :: "string \<Rightarrow> TaskStatus" where
  "TaskStatus_of s =
    (if s = [] then TaskStatusUnset
     else if s = ''planned'' then TaskStatusPlanned
     else if s = ''ready'' then TaskStatusReady
     else if s = ''running'' then TaskStatusRunning
     else if s = ''waiting_review'' then TaskStatusWaitingReview
     else if s = ''completed'' then TaskStatusCompleted
     else if s = ''failed'' then TaskStatusFailed
     else if s = ''blocked'' then TaskStatusBlocked
     else if s = ''cancelled'' then TaskStatusCancelled
     else if s = ''skipped'' then TaskStatusSkipped
     else TaskStatusOther s)"

fun TaskStatus_str :: "TaskStatus \<Rightarrow> string" where
  "TaskStatus_str TaskStatusUnset = []"
| "TaskStatus_str TaskStatusPlanned = ''planned''"
| "TaskStatus_str TaskStatusReady = ''ready''"
| "TaskStatus_str TaskStatusRunning = ''running''"
| "TaskStatus_str TaskStatusWaitingReview = ''waiting_review''"
| "TaskStatus_str TaskStatusCompleted = ''completed''"
| "TaskStatus_str TaskStatusFailed = ''failed''"
| "TaskStatus_str TaskStatusBlocked = ''blocked''"
| "TaskStatus_str TaskStatusCancelled = ''cancelled''"
| "TaskStatus_str TaskStatusSkipped = ''skipped''"
| "TaskStatus_str (TaskStatusOther s) = s"

lemma TaskStatus_str_of [simp]: "TaskStatus_str (TaskStatus_of s) = s"
  by (simp add: TaskStatus_of_def)

subsection \<open>Execution purposes (purpose.go)\<close>

datatype ExecutionPurpose =
    PurposeUnset | PurposeWork | PurposeClosing | PurposeAnalysis | PurposeOther string

definition ExecutionPurpose_of :: "string \<Rightarrow> ExecutionPurpose" where
  "ExecutionPurpose_of s =
    (if s = [] then PurposeUnset
     else if s = ''work'' then PurposeWork
     else if s = ''closing'' then PurposeClosing
     else if s = ''analysis'' then PurposeAnalysis
     else PurposeOther s)"

fun ExecutionPurpose_str :: "ExecutionPurpose \<Rightarrow> string" where
  "ExecutionPurpose_str PurposeUnset = []"
| "ExecutionPurpose_str PurposeWork = ''work''"
| "ExecutionPurpose_str PurposeClosing = ''closing''"
| "ExecutionPurpose_str PurposeAnalysis = ''analysis''"
| "ExecutionPurpose_str (PurposeOther s) = s"

lemma ExecutionPurpose_str_of [simp]: "ExecutionPurpose_str (ExecutionPurpose_of s) = s"
  by (simp add: ExecutionPurpose_of_def)

definition IsKnownExecutionPurpose :: "ExecutionPurpose \<Rightarrow> bool" where
  "IsKnownExecutionPurpose p = (case p of
     PurposeWork \<Rightarrow> True | PurposeClosing \<Rightarrow> True | PurposeAnalysis \<Rightarrow> True | _ \<Rightarrow> False)"

definition PurposeForTaskPhase :: "TaskPhase \<Rightarrow> ExecutionPurpose" where
  "PurposeForTaskPhase phase =
    (if NormalizeTaskPhase phase = TaskPhaseClosing then PurposeClosing else PurposeWork)"

datatype attribution_error =
    UnsupportedPurpose ExecutionPurpose
  | AnalysisWithoutMilestone
  | MilestoneWithoutAnalysis

definition ResolveAdmissionAttribution ::
  "ExecutionPurpose \<Rightarrow> string \<Rightarrow> attribution_error + (ExecutionPurpose \<times> string)" where
  "ResolveAdmissionAttribution purpose0 analysisOf0 =
    (let purpose = (if purpose0 = PurposeUnset then PurposeWork else purpose0);
         analysisOf = TrimSpace analysisOf0
     in if \<not> IsKnownExecutionPurpose purpose then Inl (UnsupportedPurpose purpose)
        else if purpose = PurposeAnalysis \<and> analysisOf = [] then Inl AnalysisWithoutMilestone
        else if purpose \<noteq> PurposeAnalysis \<and> analysisOf \<noteq> [] then Inl MilestoneWithoutAnalysis
        else Inr (purpose, analysisOf))"

subsection \<open>Payload kinds\<close>

abbreviation TaskEventPlan :: string where "TaskEventPlan \<equiv> ''task.plan''"
abbreviation TaskEventReady :: string where "TaskEventReady \<equiv> ''task.ready''"
abbreviation TaskEventStatus :: string where "TaskEventStatus \<equiv> ''task.status''"
abbreviation TaskEventCompleted :: string where "TaskEventCompleted \<equiv> ''task.completed''"
abbreviation SignalEnergyAdd :: string where "SignalEnergyAdd \<equiv> ''energy.add''"
abbreviation SignalEnergyConsume :: string where "SignalEnergyConsume \<equiv> ''energy.consume''"
abbreviation SignalEnergyStipend :: string where "SignalEnergyStipend \<equiv> ''energy.stipend''"
abbreviation SignalEnergySeeded :: string where "SignalEnergySeeded \<equiv> ''energy.seeded''"
abbreviation SignalEnergyPaused :: string where "SignalEnergyPaused \<equiv> ''energy.paused''"
abbreviation SignalEnergyResumed :: string where "SignalEnergyResumed \<equiv> ''energy.resumed''"
abbreviation SignalSystemKill :: string where "SignalSystemKill \<equiv> ''system.kill''"
abbreviation SignalCueIngress :: string where "SignalCueIngress \<equiv> ''cue.ingress''"
abbreviation SignalTrailWorkCompleted :: string where
  "SignalTrailWorkCompleted \<equiv> ''trail.work.completed''"
abbreviation MutationCodeProposal :: string where "MutationCodeProposal \<equiv> ''code.proposal''"
abbreviation MutationCodeProposalIsolated :: string where
  "MutationCodeProposalIsolated \<equiv> ''code.proposal.isolated''"
abbreviation MutationCodeProposalRoot :: string where
  "MutationCodeProposalRoot \<equiv> ''code.proposal.root''"
abbreviation VerificationSuccess :: string where "VerificationSuccess \<equiv> ''verification.success''"
abbreviation VerificationFailed :: string where "VerificationFailed \<equiv> ''verification.failed''"

abbreviation TraceKilledSummary :: string where
  "TraceKilledSummary \<equiv> ''Trace killed by operator''"
abbreviation HoneyReserveExhaustedSummary :: string where
  "HoneyReserveExhaustedSummary \<equiv> ''Honey reserve exhausted''"
abbreviation ConfigBarrierHoldReason :: string where
  "ConfigBarrierHoldReason \<equiv> ''configuration change pending''"
abbreviation DefaultEnergyBudget :: int where
  "DefaultEnergyBudget \<equiv> 12"

definition SupersededByStipendSummary :: "int \<Rightarrow> string" where
  "SupersededByStipendSummary amount =
    ''Superseded by a new standing allocation of '' @ Itoa amount @ '' honey''"

definition IsEnergyObservation :: "string \<Rightarrow> bool" where
  "IsEnergyObservation kind =
    (TrimSpace kind \<in> {SignalEnergySeeded, SignalEnergyPaused, SignalEnergyResumed})"

definition IsCueIngressObservation :: "string \<Rightarrow> bool" where
  "IsCueIngressObservation kind = (TrimSpace kind = SignalCueIngress)"

definition IsPlatformObservation :: "string \<Rightarrow> bool" where
  "IsPlatformObservation kind = (IsEnergyObservation kind \<or> IsCueIngressObservation kind)"

definition IsTrailWorkCompletion :: "string \<Rightarrow> bool" where
  "IsTrailWorkCompletion kind = (TrimSpace kind = SignalTrailWorkCompleted)"

subsection \<open>Code proposals (mutation.go, domain.go)\<close>

datatype ProposalWorkspace =
    ProposalWorkspaceUnset | ProposalWorkspaceIsolated | ProposalWorkspaceRoot | ProposalWorkspaceOther string

definition ProposalWorkspace_of :: "string \<Rightarrow> ProposalWorkspace" where
  "ProposalWorkspace_of s =
    (if s = [] then ProposalWorkspaceUnset
     else if s = ''isolated'' then ProposalWorkspaceIsolated
     else if s = ''root'' then ProposalWorkspaceRoot
     else ProposalWorkspaceOther s)"

fun ProposalWorkspace_str :: "ProposalWorkspace \<Rightarrow> string" where
  "ProposalWorkspace_str ProposalWorkspaceUnset = []"
| "ProposalWorkspace_str ProposalWorkspaceIsolated = ''isolated''"
| "ProposalWorkspace_str ProposalWorkspaceRoot = ''root''"
| "ProposalWorkspace_str (ProposalWorkspaceOther s) = s"

lemma ProposalWorkspace_str_of [simp]: "ProposalWorkspace_str (ProposalWorkspace_of s) = s"
  by (simp add: ProposalWorkspace_of_def)

definition IsCodeProposalKind :: "string \<Rightarrow> bool" where
  "IsCodeProposalKind kind =
    (TrimSpace kind \<in> {MutationCodeProposal, MutationCodeProposalIsolated, MutationCodeProposalRoot})"

definition NormalizeCodeProposalKind :: "string \<Rightarrow> string" where
  "NormalizeCodeProposalKind kind =
    (if kind = MutationCodeProposal \<or> kind = MutationCodeProposalIsolated
     then MutationCodeProposalIsolated else kind)"

definition codeProposalMatchFamily :: "string \<Rightarrow> string" where
  "codeProposalMatchFamily kind =
    (let k = TrimSpace kind
     in if k = MutationCodeProposal \<or> k = MutationCodeProposalIsolated then MutationCodeProposalIsolated
        else if k = MutationCodeProposalRoot then MutationCodeProposalRoot
        else [])"

definition CodeProposalKindsMatch :: "string \<Rightarrow> string \<Rightarrow> bool" where
  "CodeProposalKindsMatch subscriberKind eventKind =
    (let sub = codeProposalMatchFamily subscriberKind
     in if sub = [] then False else sub = codeProposalMatchFamily eventKind)"

section \<open>The event envelope\<close>

record Provenance =
  AttemptID :: string
  ConfigRef :: string
  ConfigRevision :: int
  InitialCodeBaseSHA :: string
  InitialCodeBaseDirty :: bool
  Purpose :: ExecutionPurpose
  AnalysisOf :: string

record Event = Provenance +
  ev_ProtocolVersion :: string
  ev_ID :: string
  ev_TraceID :: string
  ev_AgentID :: string
  ev_Seq :: int
  ev_Type :: EventType
  ev_CreatedAt :: time
  ev_Payload :: raw

text \<open>\<open>PayloadKind\<close> and \<open>PayloadTaskID\<close> read one field and give up on any decode error.\<close>

definition PayloadKind :: "raw \<Rightarrow> string" where
  "PayloadKind payload = (case unmarshal (SObj [(''kind'', SStr)]) payload of
     None \<Rightarrow> [] | Some j \<Rightarrow> TrimSpace (get_str ''kind'' j))"

definition PayloadTaskID :: "raw \<Rightarrow> string" where
  "PayloadTaskID payload = (case unmarshal (SObj [(''taskId'', SStr)]) payload of
     None \<Rightarrow> [] | Some j \<Rightarrow> TrimSpace (get_str ''taskId'' j))"

section \<open>Payloads the ledger reduces\<close>

record TaskSpec =
  sp_TaskID :: string
  sp_Title :: string
  sp_Body :: string
  sp_Bee :: string
  sp_Sector :: string
  sp_Intent :: string
  sp_Review :: TaskReviewPolicy
  sp_Phase :: TaskPhase
  sp_DependsOn :: "string list"
  sp_CueID :: string
  sp_CueInvocationID :: string

definition TaskSpec_schema :: schema where
  "TaskSpec_schema = SObj [(''taskId'', SStr), (''title'', SStr), (''body'', SStr), (''bee'', SStr),
     (''sector'', SStr), (''intent'', SStr), (''review'', SStr), (''phase'', SStr),
     (''dependsOn'', SArr SStr), (''cueId'', SStr), (''cueInvocationId'', SStr)]"

definition TaskSpec_of :: "json \<Rightarrow> TaskSpec" where
  "TaskSpec_of j = \<lparr>sp_TaskID = get_str ''taskId'' j, sp_Title = get_str ''title'' j,
     sp_Body = get_str ''body'' j, sp_Bee = get_str ''bee'' j, sp_Sector = get_str ''sector'' j,
     sp_Intent = get_str ''intent'' j, sp_Review = TaskReviewPolicy_of (get_str ''review'' j),
     sp_Phase = TaskPhase_of (get_str ''phase'' j), sp_DependsOn = get_strs ''dependsOn'' j,
     sp_CueID = get_str ''cueId'' j, sp_CueInvocationID = get_str ''cueInvocationId'' j\<rparr>"

record TaskPlanPayload =
  pl_Kind :: string
  pl_Tasks :: "TaskSpec list"

definition TaskPlanPayload_schema :: schema where
  "TaskPlanPayload_schema = SObj [(''kind'', SStr), (''tasks'', SArr TaskSpec_schema)]"

definition TaskPlanPayload_of :: "json \<Rightarrow> TaskPlanPayload" where
  "TaskPlanPayload_of j =
    \<lparr>pl_Kind = get_str ''kind'' j, pl_Tasks = map TaskSpec_of (get_arr ''tasks'' j)\<rparr>"

record TaskReadyPayload =
  rd_Kind :: string
  rd_TaskID :: string
  rd_Title :: string
  rd_Body :: string
  rd_Bee :: string
  rd_Sector :: string
  rd_Intent :: string
  rd_CueID :: string
  rd_CueInvocationID :: string

definition TaskReadyPayload_schema :: schema where
  "TaskReadyPayload_schema = SObj [(''kind'', SStr), (''taskId'', SStr), (''title'', SStr),
     (''body'', SStr), (''bee'', SStr), (''sector'', SStr), (''intent'', SStr), (''cueId'', SStr),
     (''cueInvocationId'', SStr)]"

definition TaskReadyPayload_of :: "json \<Rightarrow> TaskReadyPayload" where
  "TaskReadyPayload_of j = \<lparr>rd_Kind = get_str ''kind'' j, rd_TaskID = get_str ''taskId'' j,
     rd_Title = get_str ''title'' j, rd_Body = get_str ''body'' j, rd_Bee = get_str ''bee'' j,
     rd_Sector = get_str ''sector'' j, rd_Intent = get_str ''intent'' j,
     rd_CueID = get_str ''cueId'' j, rd_CueInvocationID = get_str ''cueInvocationId'' j\<rparr>"

record TaskStatusPayload =
  st_Kind :: string
  st_TaskID :: string
  st_Status :: TaskStatus
  st_Summary :: string

definition TaskStatusPayload_schema :: schema where
  "TaskStatusPayload_schema =
    SObj [(''kind'', SStr), (''taskId'', SStr), (''status'', SStr), (''summary'', SStr)]"

definition TaskStatusPayload_of :: "json \<Rightarrow> TaskStatusPayload" where
  "TaskStatusPayload_of j = \<lparr>st_Kind = get_str ''kind'' j, st_TaskID = get_str ''taskId'' j,
     st_Status = TaskStatus_of (get_str ''status'' j), st_Summary = get_str ''summary'' j\<rparr>"

record TaskCompletedPayload =
  cp_Kind :: string
  cp_TaskID :: string
  cp_Status :: TaskStatus
  cp_Summary :: string
  cp_Commit :: string
  cp_CompletedAt :: time

definition TaskCompletedPayload_schema :: schema where
  "TaskCompletedPayload_schema = SObj [(''kind'', SStr), (''taskId'', SStr), (''status'', SStr),
     (''summary'', SStr), (''commit'', SStr), (''completedAt'', STime)]"

definition TaskCompletedPayload_of :: "json \<Rightarrow> TaskCompletedPayload" where
  "TaskCompletedPayload_of j = \<lparr>cp_Kind = get_str ''kind'' j, cp_TaskID = get_str ''taskId'' j,
     cp_Status = TaskStatus_of (get_str ''status'' j), cp_Summary = get_str ''summary'' j,
     cp_Commit = get_str ''commit'' j, cp_CompletedAt = get_time ''completedAt'' j\<rparr>"

record MutationPayload =
  mu_Kind :: string
  mu_Diff :: string
  mu_Summary :: string
  mu_Ref :: string
  mu_TaskID :: string
  mu_Workspace :: ProposalWorkspace
  mu_BaseSha :: string
  mu_WorktreePath :: string
  mu_Sector :: string

definition MutationPayload_schema :: schema where
  "MutationPayload_schema = SObj [(''kind'', SStr), (''diff'', SStr), (''summary'', SStr),
     (''ref'', SStr), (''taskId'', SStr), (''workspace'', SStr), (''baseSha'', SStr),
     (''worktreePath'', SStr), (''sector'', SStr)]"

definition MutationPayload_of :: "json \<Rightarrow> MutationPayload" where
  "MutationPayload_of j = \<lparr>mu_Kind = get_str ''kind'' j, mu_Diff = get_str ''diff'' j,
     mu_Summary = get_str ''summary'' j, mu_Ref = get_str ''ref'' j, mu_TaskID = get_str ''taskId'' j,
     mu_Workspace = ProposalWorkspace_of (get_str ''workspace'' j), mu_BaseSha = get_str ''baseSha'' j,
     mu_WorktreePath = get_str ''worktreePath'' j, mu_Sector = get_str ''sector'' j\<rparr>"

record SystemKillPayload =
  sk_Kind :: string
  sk_Reason :: string

definition SystemKillPayload_schema :: schema where
  "SystemKillPayload_schema = SObj [(''kind'', SStr), (''reason'', SStr)]"

definition SystemKillPayload_of :: "json \<Rightarrow> SystemKillPayload" where
  "SystemKillPayload_of j = \<lparr>sk_Kind = get_str ''kind'' j, sk_Reason = get_str ''reason'' j\<rparr>"

record EnergyAddPayload =
  ea_Kind :: string
  ea_Amount :: int

definition EnergyAddPayload_schema :: schema where
  "EnergyAddPayload_schema = SObj [(''kind'', SStr), (''amount'', SInt)]"

definition EnergyAddPayload_of :: "json \<Rightarrow> EnergyAddPayload" where
  "EnergyAddPayload_of j = \<lparr>ea_Kind = get_str ''kind'' j, ea_Amount = get_int ''amount'' j\<rparr>"

record EnergyConsumePayload =
  ec_Kind :: string
  ec_Amount :: int
  ec_Reason :: string
  ec_TaskID :: string
  ec_Purpose :: ExecutionPurpose
  ec_AnalysisOf :: string

definition EnergyConsumePayload_schema :: schema where
  "EnergyConsumePayload_schema = SObj [(''kind'', SStr), (''amount'', SInt), (''reason'', SStr),
     (''taskId'', SStr), (''purpose'', SStr), (''analysisOf'', SStr)]"

definition EnergyConsumePayload_of :: "json \<Rightarrow> EnergyConsumePayload" where
  "EnergyConsumePayload_of j = \<lparr>ec_Kind = get_str ''kind'' j, ec_Amount = get_int ''amount'' j,
     ec_Reason = get_str ''reason'' j, ec_TaskID = get_str ''taskId'' j,
     ec_Purpose = ExecutionPurpose_of (get_str ''purpose'' j),
     ec_AnalysisOf = get_str ''analysisOf'' j\<rparr>"

record EnergyStipendPayload =
  es_Kind :: string
  es_Amount :: int

definition EnergyStipendPayload_schema :: schema where
  "EnergyStipendPayload_schema = SObj [(''kind'', SStr), (''amount'', SInt)]"

definition EnergyStipendPayload_of :: "json \<Rightarrow> EnergyStipendPayload" where
  "EnergyStipendPayload_of j = \<lparr>es_Kind = get_str ''kind'' j, es_Amount = get_int ''amount'' j\<rparr>"

datatype EnergyResumeSource = EnergyResumeSourceAdd | EnergyResumeSourceStipend
  | EnergyResumeSourceOther string

fun EnergyResumeSource_Known :: "EnergyResumeSource \<Rightarrow> bool" where
  "EnergyResumeSource_Known EnergyResumeSourceAdd = True"
| "EnergyResumeSource_Known EnergyResumeSourceStipend = True"
| "EnergyResumeSource_Known (EnergyResumeSourceOther _) = False"

definition EnergyResumeSource_of :: "string \<Rightarrow> EnergyResumeSource" where
  "EnergyResumeSource_of s =
    (if s = SignalEnergyAdd then EnergyResumeSourceAdd
     else if s = SignalEnergyStipend then EnergyResumeSourceStipend
     else EnergyResumeSourceOther s)"

section \<open>Facts\<close>

text \<open>
  The normalising readers share one contract: the result is a known value, and a known value
  is kept. They are therefore idempotent, so a value read back from a snapshot reads the same.
\<close>

locale vocabulary =
  fixes norm :: "'a \<Rightarrow> 'a" and known :: "'a \<Rightarrow> bool"
  assumes norm_known: "known (norm x)"
    and known_norm: "known x \<Longrightarrow> norm x = x"
begin

lemma idem: "norm (norm x) = norm x"
  by (simp add: norm_known known_norm)

lemma fixed_iff: "norm x = x \<longleftrightarrow> known x"
  by (metis norm_known known_norm)

end

interpretation review_vocab: vocabulary NormalizeTaskReviewPolicy
  "\<lambda>p. p \<in> {TaskReviewNone, TaskReviewRequired, TaskReviewFinal}"
  by unfold_locales (auto simp: NormalizeTaskReviewPolicy_def split: TaskReviewPolicy.splits)

interpretation phase_vocab: vocabulary NormalizeTaskPhase
  "\<lambda>p. p \<in> {TaskPhaseWork, TaskPhaseClosing, TaskPhaseMerge}"
  by unfold_locales (auto simp: NormalizeTaskPhase_def split: TaskPhase.splits)

interpretation proposal_vocab: vocabulary NormalizeCodeProposalKind
  "\<lambda>k. k \<noteq> MutationCodeProposal"
  by unfold_locales (auto simp: NormalizeCodeProposalKind_def)

lemma NormalizeTaskReviewPolicy_Final [simp]:
  "NormalizeTaskReviewPolicy p = TaskReviewFinal \<longleftrightarrow> p = TaskReviewFinal"
  by (cases p) (simp_all add: NormalizeTaskReviewPolicy_def)

lemma DeriveTaskPhase_Merge [simp]: "DeriveTaskPhase ph rv = TaskPhaseMerge \<longleftrightarrow> rv = TaskReviewFinal"
  by (simp add: DeriveTaskPhase_def Let_def)

lemma DeriveTaskPhase_cases:
  "DeriveTaskPhase ph rv \<in> {TaskPhaseWork, TaskPhaseClosing, TaskPhaseMerge}"
  by (cases ph) (simp_all add: DeriveTaskPhase_def NormalizeTaskPhase_def)

lemma DeriveTaskPhase_idem:
  "DeriveTaskPhase (DeriveTaskPhase ph rv) (NormalizeTaskReviewPolicy rv) = DeriveTaskPhase ph rv"
  by (cases ph; cases rv)
    (simp_all add: DeriveTaskPhase_def NormalizeTaskPhase_def NormalizeTaskReviewPolicy_def)

end
