(* ===== verification/Payloads.thy ===== *)
theory Payloads
  imports Protocol
begin

text \<open>
  The remaining payloads of package \<open>internal/protocol\<close>, those the ledger skips but the
  validator checks: insights, seed and pause observations, cue ingress, the completion
  milestone, invites, artifacts and forks. A record per struct, with its schema and decoder.
\<close>

section \<open>Insights (insight.go)\<close>

abbreviation InsightRunSummary :: string where "InsightRunSummary \<equiv> ''run.summary''"
abbreviation InsightReviewNote :: string where "InsightReviewNote \<equiv> ''review.note''"
abbreviation InsightContextNote :: string where "InsightContextNote \<equiv> ''context.note''"
abbreviation InsightHumanFeedback :: string where "InsightHumanFeedback \<equiv> ''human.feedback''"
abbreviation InsightTraceTitle :: string where "InsightTraceTitle \<equiv> ''trace.title''"
abbreviation InsightTraceSummary :: string where "InsightTraceSummary \<equiv> ''trace.summary''"
abbreviation InsightWorktreeBranch :: string where "InsightWorktreeBranch \<equiv> ''worktree.branch''"
abbreviation InsightPRBody :: string where "InsightPRBody \<equiv> ''pr.body''"
abbreviation InsightSkillProposed :: string where "InsightSkillProposed \<equiv> ''skill.proposed''"

definition insight_kinds :: "string list" where
  "insight_kinds = [InsightRunSummary, InsightReviewNote, InsightContextNote, InsightHumanFeedback,
     InsightTraceTitle, InsightTraceSummary, InsightWorktreeBranch, InsightPRBody, InsightSkillProposed]"

text \<open>\<open>None\<close> is the empty event type.\<close>

definition InsightKindForEventType :: "string \<Rightarrow> EventType option" where
  "InsightKindForEventType kind = (if kind \<in> set insight_kinds then Some EventInsight else None)"

abbreviation MaxTraceTitleLen :: nat where "MaxTraceTitleLen \<equiv> 120"
abbreviation MaxWorktreeBranchLen :: nat where "MaxWorktreeBranchLen \<equiv> 120"
abbreviation MaxTraceSummaryLen :: nat where "MaxTraceSummaryLen \<equiv> 800"
abbreviation MaxPRBodyLen :: nat where "MaxPRBodyLen \<equiv> 8000"
abbreviation MaxSkillDescriptionLen :: nat where "MaxSkillDescriptionLen \<equiv> 1024"
abbreviation MaxSkillNameLen :: nat where "MaxSkillNameLen \<equiv> 64"

record NarrativeInsightPayload =
  ni_Kind :: string
  ni_Summary :: string
  ni_TaskID :: string
  ni_Severity :: string

definition NarrativeInsightPayload_schema :: schema where
  "NarrativeInsightPayload_schema = SObj [(''kind'', SStr), (''summary'', SStr), (''taskId'', SStr), (''severity'', SStr)]"

definition NarrativeInsightPayload_of :: "json \<Rightarrow> NarrativeInsightPayload" where
  "NarrativeInsightPayload_of j = \<lparr>ni_Kind = get_str ''kind'' j, ni_Summary = get_str ''summary'' j,
    ni_TaskID = get_str ''taskId'' j, ni_Severity = get_str ''severity'' j\<rparr>"

record HumanFeedbackPayload =
  hf_Kind :: string
  hf_TaskID :: string
  hf_Message :: string
  hf_Ref :: string
  hf_Verdict :: string

definition HumanFeedbackPayload_schema :: schema where
  "HumanFeedbackPayload_schema = SObj [(''kind'', SStr), (''taskId'', SStr), (''message'', SStr), (''ref'', SStr),
    (''verdict'', SStr)]"

definition HumanFeedbackPayload_of :: "json \<Rightarrow> HumanFeedbackPayload" where
  "HumanFeedbackPayload_of j = \<lparr>hf_Kind = get_str ''kind'' j, hf_TaskID = get_str ''taskId'' j,
    hf_Message = get_str ''message'' j, hf_Ref = get_str ''ref'' j,
    hf_Verdict = get_str ''verdict'' j\<rparr>"

record TraceTitlePayload =
  tt_Kind :: string
  tt_Title :: string

definition TraceTitlePayload_schema :: schema where
  "TraceTitlePayload_schema = SObj [(''kind'', SStr), (''title'', SStr)]"

definition TraceTitlePayload_of :: "json \<Rightarrow> TraceTitlePayload" where
  "TraceTitlePayload_of j = \<lparr>tt_Kind = get_str ''kind'' j, tt_Title = get_str ''title'' j\<rparr>"

record TraceSummaryPayload =
  ts_Kind :: string
  ts_Summary :: string

definition TraceSummaryPayload_schema :: schema where
  "TraceSummaryPayload_schema = SObj [(''kind'', SStr), (''summary'', SStr)]"

definition TraceSummaryPayload_of :: "json \<Rightarrow> TraceSummaryPayload" where
  "TraceSummaryPayload_of j = \<lparr>ts_Kind = get_str ''kind'' j, ts_Summary = get_str ''summary'' j\<rparr>"

record WorktreeBranchPayload =
  wb_Kind :: string
  wb_Branch :: string

definition WorktreeBranchPayload_schema :: schema where
  "WorktreeBranchPayload_schema = SObj [(''kind'', SStr), (''branch'', SStr)]"

definition WorktreeBranchPayload_of :: "json \<Rightarrow> WorktreeBranchPayload" where
  "WorktreeBranchPayload_of j = \<lparr>wb_Kind = get_str ''kind'' j, wb_Branch = get_str ''branch'' j\<rparr>"

record PRBodyPayload =
  pb_Kind :: string
  pb_Body :: string

definition PRBodyPayload_schema :: schema where
  "PRBodyPayload_schema = SObj [(''kind'', SStr), (''body'', SStr)]"

definition PRBodyPayload_of :: "json \<Rightarrow> PRBodyPayload" where
  "PRBodyPayload_of j = \<lparr>pb_Kind = get_str ''kind'' j, pb_Body = get_str ''body'' j\<rparr>"

record SkillProposedPayload =
  kp_Kind :: string
  kp_Name :: string
  kp_Description :: string
  kp_Reason :: string
  kp_Bundle :: string
  kp_ProcedureHash :: string

definition SkillProposedPayload_schema :: schema where
  "SkillProposedPayload_schema = SObj [(''kind'', SStr), (''name'', SStr), (''description'', SStr), (''reason'', SStr),
    (''bundle'', SStr), (''procedureHash'', SStr)]"

definition SkillProposedPayload_of :: "json \<Rightarrow> SkillProposedPayload" where
  "SkillProposedPayload_of j = \<lparr>kp_Kind = get_str ''kind'' j, kp_Name = get_str ''name'' j,
    kp_Description = get_str ''description'' j, kp_Reason = get_str ''reason'' j,
    kp_Bundle = get_str ''bundle'' j, kp_ProcedureHash = get_str ''procedureHash'' j\<rparr>"

section \<open>Verification outcomes (domain.go)\<close>

record VerificationPayload =
  ve_Kind :: string
  ve_TaskID :: string
  ve_Summary :: string
  ve_Reason :: string
  ve_Details :: string

definition VerificationPayload_schema :: schema where
  "VerificationPayload_schema = SObj [(''kind'', SStr), (''taskId'', SStr), (''summary'', SStr), (''reason'', SStr),
    (''details'', SStr)]"

definition VerificationPayload_of :: "json \<Rightarrow> VerificationPayload" where
  "VerificationPayload_of j = \<lparr>ve_Kind = get_str ''kind'' j, ve_TaskID = get_str ''taskId'' j,
    ve_Summary = get_str ''summary'' j, ve_Reason = get_str ''reason'' j,
    ve_Details = get_str ''details'' j\<rparr>"

section \<open>Honey observations (energy.go)\<close>

record EnergySeededPayload =
  esd_Kind :: string
  esd_SeedID :: string
  esd_Budget :: int
  esd_SeededAt :: time

definition EnergySeededPayload_schema :: schema where
  "EnergySeededPayload_schema = SObj [(''kind'', SStr), (''seedId'', SStr), (''budget'', SInt), (''seededAt'', STime)]"

definition EnergySeededPayload_of :: "json \<Rightarrow> EnergySeededPayload" where
  "EnergySeededPayload_of j = \<lparr>esd_Kind = get_str ''kind'' j, esd_SeedID = get_str ''seedId'' j,
    esd_Budget = get_int ''budget'' j, esd_SeededAt = get_time ''seededAt'' j\<rparr>"

record EnergyPausedPayload =
  ep_Kind :: string
  ep_EpisodeID :: string
  ep_Reason :: string
  ep_Remaining :: int
  ep_Budget :: int
  ep_PendingCount :: int

definition EnergyPausedPayload_schema :: schema where
  "EnergyPausedPayload_schema = SObj [(''kind'', SStr), (''episodeId'', SStr), (''reason'', SStr), (''remaining'', SInt),
    (''budget'', SInt), (''pendingCount'', SInt)]"

definition EnergyPausedPayload_of :: "json \<Rightarrow> EnergyPausedPayload" where
  "EnergyPausedPayload_of j = \<lparr>ep_Kind = get_str ''kind'' j, ep_EpisodeID = get_str ''episodeId'' j,
    ep_Reason = get_str ''reason'' j, ep_Remaining = get_int ''remaining'' j,
    ep_Budget = get_int ''budget'' j, ep_PendingCount = get_int ''pendingCount'' j\<rparr>"

record EnergyResumedPayload =
  er_Kind :: string
  er_EpisodeID :: string
  er_Source :: EnergyResumeSource
  er_Remaining :: int
  er_Budget :: int
  er_PendingBefore :: int
  er_PendingAfter :: int
  er_Dispatched :: int
  er_Abandoned :: int

definition EnergyResumedPayload_schema :: schema where
  "EnergyResumedPayload_schema = SObj [(''kind'', SStr), (''episodeId'', SStr), (''source'', SStr), (''remaining'', SInt),
    (''budget'', SInt), (''pendingBefore'', SInt), (''pendingAfter'', SInt),
    (''dispatched'', SInt), (''abandoned'', SInt)]"

definition EnergyResumedPayload_of :: "json \<Rightarrow> EnergyResumedPayload" where
  "EnergyResumedPayload_of j = \<lparr>er_Kind = get_str ''kind'' j, er_EpisodeID = get_str ''episodeId'' j,
    er_Source = EnergyResumeSource_of (get_str ''source'' j),
    er_Remaining = get_int ''remaining'' j, er_Budget = get_int ''budget'' j,
    er_PendingBefore = get_int ''pendingBefore'' j,
    er_PendingAfter = get_int ''pendingAfter'' j, er_Dispatched = get_int ''dispatched'' j,
    er_Abandoned = get_int ''abandoned'' j\<rparr>"

section \<open>Cue ingress and the completion milestone (cue.go, completion.go)\<close>

datatype CueIngressMode = CueIngressModeTask | CueIngressModeSignal | CueIngressModeOther string

definition CueIngressMode_of :: "string \<Rightarrow> CueIngressMode" where
  "CueIngressMode_of s =
    (if s = ''task'' then CueIngressModeTask
     else if s = ''signal'' then CueIngressModeSignal
     else CueIngressModeOther s)"

fun CueIngressMode_str :: "CueIngressMode \<Rightarrow> string" where
  "CueIngressMode_str CueIngressModeTask = ''task''"
| "CueIngressMode_str CueIngressModeSignal = ''signal''"
| "CueIngressMode_str (CueIngressModeOther s) = s"

lemma CueIngressMode_str_of [simp]: "CueIngressMode_str (CueIngressMode_of s) = s"
  by (simp add: CueIngressMode_of_def)

definition CueIngressMode_Known :: "CueIngressMode \<Rightarrow> bool" where
  "CueIngressMode_Known m = (m \<in> {CueIngressModeTask, CueIngressModeSignal})"

record CueIngressPayload =
  ci_Kind :: string
  ci_InvocationID :: string
  ci_CueID :: string
  ci_Source :: string
  ci_Mode :: CueIngressMode
  ci_InvokedAt :: time
  ci_EventIDs :: "string list"
  ci_TaskIDs :: "string list"

definition CueIngressPayload_schema :: schema where
  "CueIngressPayload_schema = SObj [(''kind'', SStr), (''invocationId'', SStr), (''cueId'', SStr), (''source'', SStr),
    (''mode'', SStr), (''invokedAt'', STime), (''eventIds'', SArr SStr),
    (''taskIds'', SArr SStr)]"

definition CueIngressPayload_of :: "json \<Rightarrow> CueIngressPayload" where
  "CueIngressPayload_of j = \<lparr>ci_Kind = get_str ''kind'' j, ci_InvocationID = get_str ''invocationId'' j,
    ci_CueID = get_str ''cueId'' j, ci_Source = get_str ''source'' j,
    ci_Mode = CueIngressMode_of (get_str ''mode'' j),
    ci_InvokedAt = get_time ''invokedAt'' j, ci_EventIDs = get_strs ''eventIds'' j,
    ci_TaskIDs = get_strs ''taskIds'' j\<rparr>"

record TrailWorkCompletedPayload =
  twc_Kind :: string
  twc_CompletionID :: string
  twc_WorkRevision :: int
  twc_CompletedAt :: time
  twc_ResultRef :: string
  twc_MetricsRef :: string

definition TrailWorkCompletedPayload_schema :: schema where
  "TrailWorkCompletedPayload_schema = SObj [(''kind'', SStr), (''completionId'', SStr), (''workRevision'', SInt),
    (''completedAt'', STime), (''resultRef'', SStr), (''metricsRef'', SStr)]"

definition TrailWorkCompletedPayload_of :: "json \<Rightarrow> TrailWorkCompletedPayload" where
  "TrailWorkCompletedPayload_of j = \<lparr>twc_Kind = get_str ''kind'' j, twc_CompletionID = get_str ''completionId'' j,
    twc_WorkRevision = get_int ''workRevision'' j,
    twc_CompletedAt = get_time ''completedAt'' j, twc_ResultRef = get_str ''resultRef'' j,
    twc_MetricsRef = get_str ''metricsRef'' j\<rparr>"

section \<open>Invites (invite.go)\<close>

abbreviation SignalSessionInvite :: string where "SignalSessionInvite \<equiv> ''session.invite''"
abbreviation SignalBeekeeperReady :: string where "SignalBeekeeperReady \<equiv> ''beekeeper.ready''"

datatype InviteStatus = InviteStatusPending | InviteStatusAccepted | InviteStatusCancelled | InviteStatusCompleted | InviteStatusIncomplete | InviteStatusDeferred | InviteStatusOther string

definition InviteStatus_of :: "string \<Rightarrow> InviteStatus" where
  "InviteStatus_of s =
    (if s = ''pending'' then InviteStatusPending
     else if s = ''accepted'' then InviteStatusAccepted
     else if s = ''cancelled'' then InviteStatusCancelled
     else if s = ''completed'' then InviteStatusCompleted
     else if s = ''incomplete'' then InviteStatusIncomplete
     else if s = ''deferred'' then InviteStatusDeferred
     else InviteStatusOther s)"

fun InviteStatus_str :: "InviteStatus \<Rightarrow> string" where
  "InviteStatus_str InviteStatusPending = ''pending''"
| "InviteStatus_str InviteStatusAccepted = ''accepted''"
| "InviteStatus_str InviteStatusCancelled = ''cancelled''"
| "InviteStatus_str InviteStatusCompleted = ''completed''"
| "InviteStatus_str InviteStatusIncomplete = ''incomplete''"
| "InviteStatus_str InviteStatusDeferred = ''deferred''"
| "InviteStatus_str (InviteStatusOther s) = s"

lemma InviteStatus_str_of [simp]: "InviteStatus_str (InviteStatus_of s) = s"
  by (simp add: InviteStatus_of_def)

definition IsInviteStatus :: "InviteStatus \<Rightarrow> bool" where
  "IsInviteStatus s = (s \<in> {InviteStatusPending, InviteStatusAccepted, InviteStatusCancelled,
     InviteStatusCompleted, InviteStatusIncomplete, InviteStatusDeferred})"

datatype BeekeeperAction = BeekeeperAccept | BeekeeperReject | BeekeeperDefer | BeekeeperActionOther string

definition BeekeeperAction_of :: "string \<Rightarrow> BeekeeperAction" where
  "BeekeeperAction_of s =
    (if s = ''accept'' then BeekeeperAccept
     else if s = ''reject'' then BeekeeperReject
     else if s = ''defer'' then BeekeeperDefer
     else BeekeeperActionOther s)"

fun BeekeeperAction_str :: "BeekeeperAction \<Rightarrow> string" where
  "BeekeeperAction_str BeekeeperAccept = ''accept''"
| "BeekeeperAction_str BeekeeperReject = ''reject''"
| "BeekeeperAction_str BeekeeperDefer = ''defer''"
| "BeekeeperAction_str (BeekeeperActionOther s) = s"

lemma BeekeeperAction_str_of [simp]: "BeekeeperAction_str (BeekeeperAction_of s) = s"
  by (simp add: BeekeeperAction_of_def)

definition isBeekeeperAction :: "BeekeeperAction \<Rightarrow> bool" where
  "isBeekeeperAction a = (a \<in> {BeekeeperAccept, BeekeeperReject, BeekeeperDefer})"

record InviteFieldRef =
  fl_From :: string

definition InviteFieldRef_schema :: schema where
  "InviteFieldRef_schema = SObj [(''from'', SStr)]"

definition InviteFieldRef_of :: "json \<Rightarrow> InviteFieldRef" where
  "InviteFieldRef_of j = \<lparr>fl_From = get_str ''from'' j\<rparr>"

record InviteWhen =
  iw_Type :: string
  iw_Kind :: string

definition InviteWhen_schema :: schema where
  "InviteWhen_schema = SObj [(''type'', SStr), (''kind'', SStr)]"

definition InviteWhen_of :: "json \<Rightarrow> InviteWhen" where
  "InviteWhen_of j = \<lparr>iw_Type = get_str ''type'' j, iw_Kind = get_str ''kind'' j\<rparr>"

text \<open>The object a struct field decodes from: the members of every object assigned to it.\<close>

definition get_obj :: "string \<Rightarrow> json \<Rightarrow> json" where
  "get_obj f j = JObj (concat (map (\<lambda>v. case v of JObj kvs \<Rightarrow> kvs | _ \<Rightarrow> []) (members f j)))"

record InviteDoneWhen =
  dw_When :: InviteWhen
  dw_Match :: "(string, string) gomap"
  dw_RequireFile :: InviteFieldRef
  dw_SetArtifactRef :: InviteFieldRef

definition InviteDoneWhen_schema :: schema where
  "InviteDoneWhen_schema = SObj [(''when'', InviteWhen_schema), (''match'', SMap SStr),
     (''requireFile'', InviteFieldRef_schema), (''setArtifactRef'', InviteFieldRef_schema)]"

definition InviteDoneWhen_of :: "json \<Rightarrow> InviteDoneWhen" where
  "InviteDoneWhen_of j = \<lparr>dw_When = InviteWhen_of (get_obj ''when'' j),
    dw_Match = fold (\<lambda>kv m. mput (fst kv) (json_str (snd kv)) m)
      (case get_obj ''match'' j of JObj kvs \<Rightarrow> kvs | _ \<Rightarrow> []) [],
    dw_RequireFile = InviteFieldRef_of (get_obj ''requireFile'' j),
    dw_SetArtifactRef = InviteFieldRef_of (get_obj ''setArtifactRef'' j)\<rparr>"

record SessionInvitePayload =
  si_Kind :: string
  si_InviteID :: string
  si_Bee :: string
  si_Intent :: string
  si_Task :: string
  si_Status :: InviteStatus
  si_ArtifactRef :: string
  si_DoneWhen :: "InviteDoneWhen option"

definition SessionInvitePayload_schema :: schema where
  "SessionInvitePayload_schema = SObj [(''kind'', SStr), (''inviteId'', SStr), (''bee'', SStr), (''intent'', SStr),
    (''task'', SStr), (''status'', SStr), (''artifactRef'', SStr),
    (''doneWhen'', InviteDoneWhen_schema)]"

definition SessionInvitePayload_of :: "json \<Rightarrow> SessionInvitePayload" where
  "SessionInvitePayload_of j = \<lparr>si_Kind = get_str ''kind'' j, si_InviteID = get_str ''inviteId'' j,
    si_Bee = get_str ''bee'' j, si_Intent = get_str ''intent'' j,
    si_Task = get_str ''task'' j, si_Status = InviteStatus_of (get_str ''status'' j),
    si_ArtifactRef = get_str ''artifactRef'' j,
    si_DoneWhen = (case last_some (\<lambda>v. case v of JObj _ \<Rightarrow> Some (Some v) | JNull \<Rightarrow> Some None | _ \<Rightarrow> None)
      (members ''doneWhen'' j) of Some (Some v) \<Rightarrow> Some (InviteDoneWhen_of v) | _ \<Rightarrow> None)\<rparr>"

record BeekeeperReadyPayload =
  br_Kind :: string
  br_InviteID :: string
  br_Action :: BeekeeperAction

definition BeekeeperReadyPayload_schema :: schema where
  "BeekeeperReadyPayload_schema = SObj [(''kind'', SStr), (''inviteId'', SStr), (''action'', SStr)]"

definition BeekeeperReadyPayload_of :: "json \<Rightarrow> BeekeeperReadyPayload" where
  "BeekeeperReadyPayload_of j = \<lparr>br_Kind = get_str ''kind'' j, br_InviteID = get_str ''inviteId'' j,
    br_Action = BeekeeperAction_of (get_str ''action'' j)\<rparr>"

section \<open>Artifacts (artifact.go)\<close>

abbreviation SignalArtifactWritten :: string where "SignalArtifactWritten \<equiv> ''artifact.written''"

record ArtifactWrittenItem =
  ai_Ref :: string
  ai_ArtifactKind :: string
  ai_Title :: string

definition ArtifactWrittenItem_schema :: schema where
  "ArtifactWrittenItem_schema = SObj [(''ref'', SStr), (''artifactKind'', SStr), (''title'', SStr)]"

definition ArtifactWrittenItem_of :: "json \<Rightarrow> ArtifactWrittenItem" where
  "ArtifactWrittenItem_of j = \<lparr>ai_Ref = get_str ''ref'' j, ai_ArtifactKind = get_str ''artifactKind'' j,
    ai_Title = get_str ''title'' j\<rparr>"

record ArtifactWrittenPayload =
  aw_Kind :: string
  aw_Ref :: string
  aw_ArtifactKind :: string
  aw_Title :: string
  aw_Artifacts :: "ArtifactWrittenItem list"

definition ArtifactWrittenPayload_schema :: schema where
  "ArtifactWrittenPayload_schema = SObj [(''kind'', SStr), (''ref'', SStr), (''artifactKind'', SStr), (''title'', SStr),
    (''artifacts'', SArr ArtifactWrittenItem_schema)]"

definition ArtifactWrittenPayload_of :: "json \<Rightarrow> ArtifactWrittenPayload" where
  "ArtifactWrittenPayload_of j = \<lparr>aw_Kind = get_str ''kind'' j, aw_Ref = get_str ''ref'' j,
    aw_ArtifactKind = get_str ''artifactKind'' j, aw_Title = get_str ''title'' j,
    aw_Artifacts = map ArtifactWrittenItem_of (get_arr ''artifacts'' j)\<rparr>"

section \<open>Forks (fork.go)\<close>

abbreviation SignalTrailFork :: string where "SignalTrailFork \<equiv> ''trail.fork''"
abbreviation SignalTrailForkApprove :: string where "SignalTrailForkApprove \<equiv> ''trail.fork.approve''"
abbreviation SignalTrailForkReject :: string where "SignalTrailForkReject \<equiv> ''trail.fork.reject''"
abbreviation SignalTrailForkCancel :: string where "SignalTrailForkCancel \<equiv> ''trail.fork.cancel''"

record ForkRequestPayload =
  fr_Kind :: string
  fr_RequestID :: string
  fr_SourceTrace :: string
  fr_SourceTask :: string
  fr_SourceRun :: string
  fr_BaseSHA :: string
  fr_Delta :: string
  fr_Patch :: string
  fr_Budget :: int
  fr_Title :: string

definition ForkRequestPayload_schema :: schema where
  "ForkRequestPayload_schema = SObj [(''kind'', SStr), (''requestId'', SStr), (''sourceTrace'', SStr),
    (''sourceTask'', SStr), (''sourceRun'', SStr), (''baseSha'', SStr), (''delta'', SStr),
    (''patch'', SStr), (''budget'', SInt), (''title'', SStr)]"

definition ForkRequestPayload_of :: "json \<Rightarrow> ForkRequestPayload" where
  "ForkRequestPayload_of j = \<lparr>fr_Kind = get_str ''kind'' j, fr_RequestID = get_str ''requestId'' j,
    fr_SourceTrace = get_str ''sourceTrace'' j, fr_SourceTask = get_str ''sourceTask'' j,
    fr_SourceRun = get_str ''sourceRun'' j, fr_BaseSHA = get_str ''baseSha'' j,
    fr_Delta = get_str ''delta'' j, fr_Patch = get_str ''patch'' j,
    fr_Budget = get_int ''budget'' j, fr_Title = get_str ''title'' j\<rparr>"

record ForkDecisionPayload =
  fd_Kind :: string
  fd_RequestID :: string
  fd_Reason :: string

definition ForkDecisionPayload_schema :: schema where
  "ForkDecisionPayload_schema = SObj [(''kind'', SStr), (''requestId'', SStr), (''reason'', SStr)]"

definition ForkDecisionPayload_of :: "json \<Rightarrow> ForkDecisionPayload" where
  "ForkDecisionPayload_of j = \<lparr>fd_Kind = get_str ''kind'' j, fd_RequestID = get_str ''requestId'' j,
    fd_Reason = get_str ''reason'' j\<rparr>"

end
