(* ===== verification/GoText.thy ===== *)
theory GoText
  imports GoStd
begin

text \<open>
  More of Go's standard library: splitting and joining of strings, \<open>path.Clean\<close>, the number of
  runes of a UTF-8 string, and what decoding JSON into \<open>any\<close> and encoding it again makes of a
  value.
\<close>

section \<open>package strings\<close>

fun split_on :: "char \<Rightarrow> string \<Rightarrow> string list" where
  "split_on c [] = [[]]"
| "split_on c (x # xs) =
    (if x = c then [] # split_on c xs else (case split_on c xs of [] \<Rightarrow> [[x]] | p # ps \<Rightarrow> (x # p) # ps))"

fun join :: "string \<Rightarrow> string list \<Rightarrow> string" where
  "join sep [] = []"
| "join sep [x] = x"
| "join sep (x # xs) = x @ sep @ join sep xs"

definition ReplaceChar :: "char \<Rightarrow> char \<Rightarrow> string \<Rightarrow> string" where
  "ReplaceChar a b s = map (\<lambda>x. if x = a then b else x) s"

text \<open>The index of the last occurrence of a byte; \<open>strings.LastIndex\<close> gives -1 for none.\<close>

definition LastIndexByte :: "string \<Rightarrow> char \<Rightarrow> int" where
  "LastIndexByte s c =
    (if c \<in> set s then int (length s) - 1 - int (length (takeWhile (\<lambda>x. x \<noteq> c) (rev s))) else - 1)"

lemma split_on_nonempty [simp]: "split_on c s \<noteq> []"
  by (induction s) (auto split: list.split)

lemma join_Cons: "join sep (x # xs) = x @ (if xs = [] then [] else sep @ join sep xs)"
  by (cases xs) simp_all

lemma split_on_no_sep: "c \<notin> set s \<Longrightarrow> split_on c s = [s]"
  by (induction s) auto

lemma split_on_append_sep: "c \<notin> set s \<Longrightarrow> split_on c (s @ c # t) = s # split_on c t"
  by (induction s) auto

text \<open>Splitting undoes joining when no part holds the separator.\<close>

lemma split_on_join: "xs \<noteq> [] \<Longrightarrow> \<forall>x \<in> set xs. c \<notin> set x \<Longrightarrow> split_on c (join [c] xs) = xs"
proof (induction xs)
  case (Cons x xs)
  then show ?case
    by (cases "xs = []") (simp_all add: join_Cons split_on_no_sep split_on_append_sep)
qed simp

lemma split_on_parts: "p \<in> set (split_on c s) \<Longrightarrow> c \<notin> set p"
  by (induction s arbitrary: p) (auto split: if_splits list.splits)

text \<open>Trimming twice is trimming once.\<close>

lemma trim_left_id: "find (HasPrefix s) ws = None \<Longrightarrow> trim_left ws n s = s"
  by (cases n) simp_all

lemma TrimLeft_no_space: "find (HasPrefix (TrimLeft s)) space_runes = None"
  unfolding TrimLeft_def by (rule trim_left_done [OF space_runes_nonempty order_refl])

lemma TrimRight_no_space: "find (HasPrefix (rev (TrimRight s))) (map rev space_runes) = None"
proof -
  have "[] \<notin> set (map rev space_runes)" using space_runes_nonempty by auto
  from trim_left_done [OF this, of "rev s" "length s"] show ?thesis by (simp add: TrimRight_def)
qed

lemma TrimRight_prefix: "\<exists>p. s = TrimRight s @ p"
proof -
  obtain p where "rev s = p @ trim_left (map rev space_runes) (length s) (rev s)"
    using trim_left_suffix by blast
  from arg_cong [OF this, of rev] show ?thesis by (auto simp: TrimRight_def)
qed

lemma HasPrefix_longer: "HasPrefix s w \<Longrightarrow> HasPrefix (s @ t) w"
proof -
  assume "HasPrefix s w"
  then obtain r where "s = w @ r" using HasPrefix_ex by blast
  then show ?thesis by simp
qed

lemma TrimSpace_idem [simp]: "TrimSpace (TrimSpace s) = TrimSpace s"
proof -
  let ?t = "TrimRight (TrimLeft s)"
  obtain p where p: "TrimLeft s = ?t @ p" using TrimRight_prefix by blast
  have "find (HasPrefix ?t) space_runes = None"
    using TrimLeft_no_space [of s] HasPrefix_longer [of ?t _ p] unfolding find_None_iff p [symmetric] by blast
  then have left: "TrimLeft ?t = ?t" unfolding TrimLeft_def by (rule trim_left_id)
  have "TrimRight ?t = ?t"
    using TrimRight_no_space [of "TrimLeft s"] unfolding TrimRight_def [of ?t] by (simp add: trim_left_id)
  with left show ?thesis by (simp add: TrimSpace_def)
qed

section \<open>package path\<close>

text \<open>One element of the path, pushed on the cleaned elements so far (innermost first).\<close>

definition clean_push :: "bool \<Rightarrow> string \<Rightarrow> string list \<Rightarrow> string list" where
  "clean_push rooted e st =
    (if e = [] \<or> e = ''.'' then st
     else if e = ''..'' then
       (case st of [] \<Rightarrow> if rooted then [] else [e]
        | t # ts \<Rightarrow> if t = ''..'' then e # st else ts)
     else e # st)"

definition path_Clean :: "string \<Rightarrow> string" where
  "path_Clean p =
    (if p = [] then ''.''
     else let rooted = hd p = CHR ''/'';
              body = join ''/'' (rev (fold (clean_push rooted) (split_on (CHR ''/'') p) []))
          in if rooted then CHR ''/'' # body else if body = [] then ''.'' else body)"

text \<open>The cleaned elements of a relative path: names, under a run of \<open>..\<close>.\<close>

definition clean_elems :: "string list \<Rightarrow> bool" where
  "clean_elems es \<longleftrightarrow> (\<exists>k ns. es = replicate k ''..'' @ ns \<and> ''..'' \<notin> set ns)
     \<and> [] \<notin> set es \<and> ''.'' \<notin> set es \<and> (\<forall>e \<in> set es. CHR ''/'' \<notin> set e)"

lemma clean_elems_Nil [simp]: "clean_elems []"
  by (simp add: clean_elems_def)

lemma clean_push_elems:
  assumes "clean_elems (rev st)" "CHR ''/'' \<notin> set e"
  shows "clean_elems (rev (clean_push False e st))"
proof -
  obtain k ns where es: "rev st = replicate k ''..'' @ ns" "''..'' \<notin> set ns"
    and ok: "[] \<notin> set st" "''.'' \<notin> set st" "\<forall>e \<in> set st. CHR ''/'' \<notin> set e"
    using assms(1) by (auto simp: clean_elems_def)
  have sub: "set ns \<subseteq> set st" by (metis es(1) set_rev set_append sup_ge2)
  consider "e = [] \<or> e = ''.''" | "e = ''..''" | "e \<noteq> []" "e \<noteq> ''.''" "e \<noteq> ''..''" by blast
  then show ?thesis
  proof cases
    case 1
    with assms(1) show ?thesis by (auto simp: clean_push_def)
  next
    case 2
    show ?thesis
    proof (cases ns rule: rev_cases)
      case Nil
      then have st: "st = replicate k ''..''" using es(1) by (metis append_Nil2 rev_replicate rev_rev_ident)
      have "rev (clean_push False e st) = replicate (Suc k) ''..'' @ []"
        unfolding st using 2 by (cases k) (simp_all add: clean_push_def replicate_append_same)
      moreover have "clean_elems (replicate (Suc k) ''..'' @ [])"
        unfolding clean_elems_def by (intro conjI exI [of _ "Suc k"] exI [of _ "[]"]) auto
      ultimately show ?thesis by simp
    next
      case (snoc ms n)
      then have "rev st = (replicate k ''..'' @ ms) @ [n]" using es(1) by simp
      from arg_cong [OF this, of rev] have st: "st = n # rev (replicate k ''..'' @ ms)" by simp
      have "rev (clean_push False e st) = replicate k ''..'' @ ms"
        unfolding st using 2 es(2) snoc by (auto simp: clean_push_def)
      then show ?thesis using ok es(2) snoc st unfolding clean_elems_def
        by (intro conjI) (auto intro!: exI [of _ k] exI [of _ ms])
    qed
  next
    case 3
    then have "rev (clean_push False e st) = replicate k ''..'' @ (ns @ [e])"
      using es(1) by (simp add: clean_push_def)
    then show ?thesis using ok es 3 assms(2) sub unfolding clean_elems_def
      by (intro conjI) (auto intro!: exI [of _ k] exI [of _ "ns @ [e]"])
  qed
qed

lemma clean_fold_elems:
  "clean_elems (rev st) \<Longrightarrow> \<forall>e \<in> set es. CHR ''/'' \<notin> set e
    \<Longrightarrow> clean_elems (rev (fold (clean_push False) es st))"
  by (induction es arbitrary: st) (simp_all add: clean_push_elems)

text \<open>A relative path cleans to its elements joined, or to \<open>.\<close> when nothing is left.\<close>

lemma path_Clean_relative:
  assumes "p \<noteq> []" "hd p \<noteq> CHR ''/''"
  shows "\<exists>es. clean_elems es \<and> path_Clean p = (if es = [] then ''.'' else join ''/'' es)"
proof -
  let ?es = "rev (fold (clean_push False) (split_on (CHR ''/'') p) [])"
  have ok: "clean_elems ?es"
    by (rule clean_fold_elems) (auto dest: split_on_parts)
  have "join ''/'' ?es = [] \<longleftrightarrow> ?es = []"
  proof (cases ?es)
    case (Cons a as)
    with ok have "a \<noteq> []" by (auto simp: clean_elems_def)
    with Cons show ?thesis by (simp add: join_Cons)
  qed simp
  with assms ok show ?thesis
    by (intro exI [of _ ?es]) (simp add: path_Clean_def Let_def)
qed

lemma join_dotdot_prefix:
  assumes "clean_elems (''..'' # es)"
  shows "join ''/'' (''..'' # es) = ''..'' \<or> HasPrefix (join ''/'' (''..'' # es)) ''../''"
  by (cases es) (simp_all add: HasPrefix_def)

section \<open>package unicode/utf8\<close>

definition byte_in :: "nat \<Rightarrow> nat \<Rightarrow> string \<Rightarrow> nat \<Rightarrow> bool" where
  "byte_in lo hi s i \<longleftrightarrow> i < length s \<and> lo \<le> of_char (s ! i) \<and> of_char (s ! i) \<le> hi"

text \<open>How many bytes the first rune takes; an invalid sequence counts as one byte.\<close>

definition rune_width :: "string \<Rightarrow> nat" where
  "rune_width s =
    (let two = byte_in 0x80 0xBF s 1; three = byte_in 0x80 0xBF s 2; four = byte_in 0x80 0xBF s 3
     in if byte_in 0xC2 0xDF s 0 \<and> two then 2
        else if (byte_in 0xE0 0xE0 s 0 \<and> byte_in 0xA0 0xBF s 1
              \<or> (byte_in 0xE1 0xEC s 0 \<or> byte_in 0xEE 0xEF s 0) \<and> two
              \<or> byte_in 0xED 0xED s 0 \<and> byte_in 0x80 0x9F s 1) \<and> three then 3
        else if (byte_in 0xF0 0xF0 s 0 \<and> byte_in 0x90 0xBF s 1
              \<or> byte_in 0xF1 0xF3 s 0 \<and> two
              \<or> byte_in 0xF4 0xF4 s 0 \<and> byte_in 0x80 0x8F s 1) \<and> three \<and> four then 4
        else 1)"

function RuneCount :: "string \<Rightarrow> nat" where
  "RuneCount [] = 0"
| "RuneCount (c # cs) = Suc (RuneCount (drop (rune_width (c # cs) - 1) cs))"
  by pat_completeness auto
termination by (relation "measure length") auto

lemma RuneCount_le: "RuneCount s \<le> length s"
proof (induction s rule: RuneCount.induct)
  case (2 c cs)
  have "RuneCount (drop (rune_width (c # cs) - 1) cs) \<le> length (drop (rune_width (c # cs) - 1) cs)" by (rule 2)
  then show ?case by simp
qed simp

section \<open>Decoding into \<open>any\<close> and encoding again\<close>

text \<open>
  Decoded into \<open>any\<close>, an object is a map, in which the last of equal keys wins, and a number
  becomes a \<open>float64\<close>: \<open>num\<close> gives the literal it is written as afterwards, or \<open>None\<close> when it
  is out of range. A map is written with its keys sorted.
\<close>

type_synonym float64 = "json \<Rightarrow> json option"

primrec any_ok :: "float64 \<Rightarrow> json \<Rightarrow> bool" where
  "any_ok num JNull = True"
| "any_ok num (JBool b) = True"
| "any_ok num (JInt n) = (num (JInt n) \<noteq> None)"
| "any_ok num (JFrac s) = (num (JFrac s) \<noteq> None)"
| "any_ok num (JStr s) = True"
| "any_ok num (JArr js) = list_all id (map (any_ok num) js)"
| "any_ok num (JObj kvs) = list_all snd (map (map_prod id (any_ok num)) kvs)"

definition number :: "float64 \<Rightarrow> json \<Rightarrow> json" where
  "number num j = (case num j of None \<Rightarrow> j | Some j' \<Rightarrow> j')"

primrec decode_any :: "float64 \<Rightarrow> json \<Rightarrow> json" where
  "decode_any num JNull = JNull"
| "decode_any num (JBool b) = JBool b"
| "decode_any num (JInt n) = number num (JInt n)"
| "decode_any num (JFrac s) = number num (JFrac s)"
| "decode_any num (JStr s) = JStr s"
| "decode_any num (JArr js) = JArr (map (decode_any num) js)"
| "decode_any num (JObj kvs) =
    JObj (fold (\<lambda>kv m. mput (fst kv) (snd kv) m) (map (map_prod id (decode_any num)) kvs) [])"

primrec encode_any :: "json \<Rightarrow> json" where
  "encode_any JNull = JNull"
| "encode_any (JBool b) = JBool b"
| "encode_any (JInt n) = JInt n"
| "encode_any (JFrac s) = JFrac s"
| "encode_any (JStr s) = JStr s"
| "encode_any (JArr js) = JArr (map encode_any js)"
| "encode_any (JObj kvs) = JObj (go_sort (\<lambda>a b. fst a < fst b) (map (map_prod id encode_any) kvs))"

text \<open>A value that decoding into \<open>any\<close> and encoding again gives back.\<close>

definition canonical :: "float64 \<Rightarrow> json \<Rightarrow> bool" where
  "canonical num j \<longleftrightarrow> any_ok num j \<and> encode_any (decode_any num j) = j"

end
