(* ===== verification/Insight.thy ===== *)
theory Insight
  imports Payloads GoText
begin

text \<open>
  \<open>insight.go\<close> and \<open>artifact.go\<close>: the closed vocabularies of review severities and feedback
  verdicts, their canonical spelling in a payload under construction, the projection of
  earlier insights into prompt memory, and the expansion of an artifact announcement.
\<close>

section \<open>Severities and verdicts\<close>

definition ReviewSeverityValues :: "string list" where
  "ReviewSeverityValues = [''info'', ''low'', ''medium'', ''high'', ''critical'']"

definition FeedbackVerdictValues :: "string list" where
  "FeedbackVerdictValues = [''positive'', ''negative'', ''neutral'']"

abbreviation ReviewSeverityUnspecified :: string where "ReviewSeverityUnspecified \<equiv> ''unspecified''"
abbreviation ReviewSeverityUnknown :: string where "ReviewSeverityUnknown \<equiv> ''unknown''"
abbreviation FeedbackVerdictUnspecified :: string where "FeedbackVerdictUnspecified \<equiv> ''unspecified''"
abbreviation FeedbackVerdictUnknown :: string where "FeedbackVerdictUnknown \<equiv> ''unknown''"
abbreviation ReviewSeverityAllowedValues :: string where
  "ReviewSeverityAllowedValues \<equiv> ''info, low, medium, high, critical''"
abbreviation FeedbackVerdictAllowedValues :: string where
  "FeedbackVerdictAllowedValues \<equiv> ''positive, negative, neutral''"

definition NormalizeReviewSeverity :: "string \<Rightarrow> string \<times> bool" where
  "NormalizeReviewSeverity s =
    (let v = ToLower (TrimSpace s) in (v, v \<in> set ReviewSeverityValues))"

definition ClassifyReviewSeverity :: "string \<Rightarrow> string" where
  "ClassifyReviewSeverity s =
    (if TrimSpace s = [] then ReviewSeverityUnspecified
     else (case NormalizeReviewSeverity s of (v, ok) \<Rightarrow> if ok then v else ReviewSeverityUnknown))"

definition NormalizeFeedbackVerdict :: "string \<Rightarrow> string \<times> bool" where
  "NormalizeFeedbackVerdict s =
    (let v = ToLower (TrimSpace s) in (v, v \<in> set FeedbackVerdictValues))"

definition ClassifyFeedbackVerdict :: "string \<Rightarrow> string" where
  "ClassifyFeedbackVerdict s =
    (if TrimSpace s = [] then FeedbackVerdictUnspecified
     else (case NormalizeFeedbackVerdict s of (v, ok) \<Rightarrow> if ok then v else FeedbackVerdictUnknown))"

text \<open>The payload is the generic value an event input was decoded into.\<close>

definition normalize_field :: "string \<Rightarrow> (string \<Rightarrow> string \<times> bool) \<Rightarrow> json \<Rightarrow> json" where
  "normalize_field key norm payload = (case payload of
     JObj obj \<Rightarrow>
       (case mget obj key of
          Some (JStr text) \<Rightarrow>
            (case norm text of (value, valid) \<Rightarrow>
               if valid then JObj (mput key (JStr value) obj)
               else if value = [] then JObj (mdel key obj)
               else payload)
        | _ \<Rightarrow> payload)
   | _ \<Rightarrow> payload)"

definition NormalizeReviewNotePayload :: "json \<Rightarrow> json" where
  "NormalizeReviewNotePayload payload = normalize_field ''severity'' NormalizeReviewSeverity payload"

definition NormalizeHumanFeedbackPayload :: "json \<Rightarrow> json" where
  "NormalizeHumanFeedbackPayload payload = normalize_field ''verdict'' NormalizeFeedbackVerdict payload"

section \<open>Prompt memory\<close>

definition IsPromptMemoryInsightKind :: "string \<Rightarrow> bool" where
  "IsPromptMemoryInsightKind kind = (TrimSpace kind \<in> {InsightRunSummary, InsightReviewNote,
     InsightContextNote, InsightHumanFeedback})"

record InsightProjectionOptions =
  po_TaskID :: string
  po_MaxInsights :: int
  po_MaxChars :: int

definition DefaultInsightProjectionOptions :: "string \<Rightarrow> InsightProjectionOptions" where
  "DefaultInsightProjectionOptions taskID = \<lparr>po_TaskID = taskID, po_MaxInsights = 5, po_MaxChars = 500\<rparr>"

text \<open>The decode error is ignored, and with it the fields that did not decode.\<close>

definition insightPayloadTaskID :: "raw \<Rightarrow> string" where
  "insightPayloadTaskID payload =
    TrimSpace (case payload of RawJson j \<Rightarrow> get_str ''taskId'' j | _ \<Rightarrow> [])"

definition BeeLabel :: "Event \<Rightarrow> string" where
  "BeeLabel ev = (if TrimSpace (ev_AgentID ev) \<noteq> [] then ev_AgentID ev else ''agent'')"

definition formatInsightLine :: "string \<Rightarrow> string \<Rightarrow> string \<Rightarrow> string" where
  "formatInsightLine label source text0 =
    (let text = TrimSpace text0
     in if label = [] then text
        else if source \<noteq> [] then label @ '' ('' @ source @ ''): '' @ text
        else label @ '': '' @ text)"

abbreviation ellipsis :: string where "ellipsis \<equiv> [CHR 0xE2, CHR 0x80, CHR 0xA6]"

definition truncateInsightLine :: "string \<Rightarrow> int \<Rightarrow> string" where
  "truncateInsightLine s m = (if m \<le> 0 \<or> int (length s) \<le> m then s else take (nat m) s @ ellipsis)"

definition narrative_line :: "(NarrativeInsightPayload \<Rightarrow> string) \<Rightarrow> Event \<Rightarrow> string option" where
  "narrative_line label ev =
    (case unmarshal NarrativeInsightPayload_schema (ev_Payload ev) of
       None \<Rightarrow> None
     | Some j \<Rightarrow> let p = NarrativeInsightPayload_of j
         in if TrimSpace (ni_Summary p) = [] then None
            else Some (formatInsightLine (label p) (BeeLabel ev) (ni_Summary p)))"

definition RenderInsightForPrompt :: "Event \<Rightarrow> string option" where
  "RenderInsightForPrompt ev =
    (if ev_Type ev \<noteq> EventInsight then None
     else let kind = PayloadKind (ev_Payload ev)
       in if kind = InsightRunSummary then narrative_line (\<lambda>_. ''Summary'') ev
          else if kind = InsightReviewNote then
            narrative_line (\<lambda>p. let severity = ClassifyReviewSeverity (ni_Severity p)
              in if severity \<noteq> ReviewSeverityUnspecified then ''Review note ('' @ severity @ '')''
                 else ''Review note'') ev
          else if kind = InsightContextNote then narrative_line (\<lambda>_. ''Context'') ev
          else if kind = InsightHumanFeedback then
            (case unmarshal HumanFeedbackPayload_schema (ev_Payload ev) of
               None \<Rightarrow> None
             | Some j \<Rightarrow> let p = HumanFeedbackPayload_of j
                 in if TrimSpace (hf_Message p) = [] then None
                    else let verdict = ClassifyFeedbackVerdict (hf_Verdict p);
                             label = (if verdict \<noteq> FeedbackVerdictUnspecified
                                      then ''Beekeeper feedback ('' @ verdict @ '')''
                                      else ''Beekeeper feedback'')
                         in Some (formatInsightLine label [] (hf_Message p)))
          else None)"

text \<open>One turn of the loop over the events: the line it adds, if any.\<close>

definition insight_string :: "InsightProjectionOptions \<Rightarrow> bool \<Rightarrow> Event \<Rightarrow> string option" where
  "insight_string opts taskScoped ev =
    (if ev_Type ev \<noteq> EventInsight then None
     else if \<not> IsPromptMemoryInsightKind (PayloadKind (ev_Payload ev)) then None
     else let payloadTaskID = insightPayloadTaskID (ev_Payload ev)
       in if taskScoped \<and> (po_TaskID opts = [] \<or> payloadTaskID \<noteq> po_TaskID opts) then None
          else if \<not> taskScoped \<and> payloadTaskID \<noteq> [] then None
          else map_option (\<lambda>line. truncateInsightLine line (po_MaxChars opts)) (RenderInsightForPrompt ev))"

definition collectInsightStrings :: "Event list \<Rightarrow> InsightProjectionOptions \<Rightarrow> bool \<Rightarrow> string list" where
  "collectInsightStrings events opts taskScoped = List.map_filter (insight_string opts taskScoped) events"

text \<open>One turn of a selection loop; after its \<open>break\<close> nothing more is selected.\<close>

definition select_insight :: "int \<Rightarrow> string \<Rightarrow> string list \<Rightarrow> string list" where
  "select_insight m s selected =
    (if int (length selected) \<ge> m \<or> s \<in> set selected then selected else selected @ [s])"

definition ProjectInsights :: "Event list \<Rightarrow> InsightProjectionOptions \<Rightarrow> string list" where
  "ProjectInsights events opts0 =
    (let opts = opts0\<lparr>po_MaxInsights := (if po_MaxInsights opts0 \<le> 0 then 5 else po_MaxInsights opts0),
                     po_MaxChars := (if po_MaxChars opts0 \<le> 0 then 500 else po_MaxChars opts0)\<rparr>;
         taskScoped = collectInsightStrings events opts True;
         traceScoped = collectInsightStrings events opts False
     in fold (select_insight (po_MaxInsights opts)) traceScoped
          (fold (select_insight (po_MaxInsights opts)) taskScoped []))"

section \<open>Artifacts\<close>

definition artifactKindFromRef :: "string \<Rightarrow> string" where
  "artifactKindFromRef ref0 =
    (let ref = ReplaceChar (CHR 0x5C) (CHR ''/'') (TrimSpace ref0);
         i = LastIndexByte ref (CHR ''/'');
         base = (if i \<ge> 0 then drop (nat (i + 1)) ref else ref);
         k = LastIndexByte base (CHR ''.'')
     in if TrimSpace ref0 = [] then [] else if k > 0 then take (nat k) base else base)"

definition NormalizeArtifactWrittenPayload :: "ArtifactWrittenPayload \<Rightarrow> ArtifactWrittenPayload" where
  "NormalizeArtifactWrittenPayload p0 =
    (let p = p0\<lparr>aw_Kind := SignalArtifactWritten\<rparr>
     in if aw_Artifacts p \<noteq> [] then
          p\<lparr>aw_Artifacts := map (\<lambda>a. if TrimSpace (ai_ArtifactKind a) = []
                                     then a\<lparr>ai_ArtifactKind := artifactKindFromRef (ai_Ref a)\<rparr> else a)
                             (aw_Artifacts p)\<rparr>
        else
          let ref = TrimSpace (aw_Ref p);
              kind = (if TrimSpace (aw_ArtifactKind p) = [] then artifactKindFromRef ref
                      else TrimSpace (aw_ArtifactKind p));
              items = (if ref \<noteq> [] then [\<lparr>ai_Ref = ref, ai_ArtifactKind = kind,
                                           ai_Title = TrimSpace (aw_Title p)\<rparr>] else [])
          in p\<lparr>aw_Artifacts := items, aw_Ref := [], aw_ArtifactKind := [], aw_Title := []\<rparr>)"

definition ArtifactWrittenRefs :: "raw \<Rightarrow> string list option" where
  "ArtifactWrittenRefs payload = (case unmarshal ArtifactWrittenPayload_schema payload of
     None \<Rightarrow> None
   | Some j \<Rightarrow> Some (filter (\<lambda>r. r \<noteq> [])
       (map (\<lambda>a. TrimSpace (ai_Ref a)) (aw_Artifacts (NormalizeArtifactWrittenPayload (ArtifactWrittenPayload_of j))))))"

section \<open>Closed vocabularies\<close>

text \<open>
  Both vocabularies keep one contract: the normal form of a text is in the vocabulary or the
  text is not a member, members are their own normal form, and a payload spelled canonically
  is left alone.
\<close>

locale closed_vocabulary =
  fixes norm :: "string \<Rightarrow> string \<times> bool" and words :: "string list"
  assumes valid: "snd (norm s) \<longleftrightarrow> fst (norm s) \<in> set words"
    and member: "w \<in> set words \<Longrightarrow> fst (norm w) = w"
    and no_empty: "[] \<notin> set words"
begin

lemma member_valid: "w \<in> set words \<Longrightarrow> norm w = (w, True)"
  using valid [of w] member [of w] by (simp add: prod_eq_iff)

lemma norm_idem: "snd (norm s) \<Longrightarrow> norm (fst (norm s)) = norm s"
  using valid member_valid by (metis (full_types) prod.collapse)

lemma field_idem:
  assumes "keys_ok obj"
  shows "normalize_field key norm (normalize_field key norm (JObj obj)) = normalize_field key norm (JObj obj)"
proof (cases "mget obj key")
  case None
  then show ?thesis by (simp add: normalize_field_def)
next
  case (Some j)
  show ?thesis
  proof (cases j)
    case (JStr t)
    consider "snd (norm t)" | "\<not> snd (norm t)" "fst (norm t) = []" | "\<not> snd (norm t)" "fst (norm t) \<noteq> []" by blast
    then show ?thesis
    proof cases
      case 1
      have once: "normalize_field key norm (JObj obj) = JObj (mput key (JStr (fst (norm t))) obj)"
        using Some JStr 1 by (simp add: normalize_field_def split_beta)
      have "mput key v (mput key v obj) = mput key v obj" for v :: json
        by (induction obj) auto
      then show ?thesis unfolding once using norm_idem [OF 1] 1
        by (simp add: normalize_field_def split_beta)
    next
      case 2
      then show ?thesis using Some JStr by (simp add: normalize_field_def split_beta)
    next
      case 3
      then show ?thesis using Some JStr by (simp add: normalize_field_def split_beta)
    qed
  qed (simp_all add: normalize_field_def Some)
qed

end

lemma vocabulary_words:
  "w \<in> set ReviewSeverityValues \<Longrightarrow> ToLower (TrimSpace w) = w"
  "w \<in> set FeedbackVerdictValues \<Longrightarrow> ToLower (TrimSpace w) = w"
proof -
  have "list_all (\<lambda>w. ToLower (TrimSpace w) = w) (ReviewSeverityValues @ FeedbackVerdictValues)"
    by code_simp
  then show "w \<in> set ReviewSeverityValues \<Longrightarrow> ToLower (TrimSpace w) = w"
    "w \<in> set FeedbackVerdictValues \<Longrightarrow> ToLower (TrimSpace w) = w"
    by (auto simp: list_all_iff)
qed

interpretation severity: closed_vocabulary NormalizeReviewSeverity ReviewSeverityValues
  by unfold_locales (auto simp: NormalizeReviewSeverity_def Let_def vocabulary_words, simp add: ReviewSeverityValues_def)

interpretation verdict: closed_vocabulary NormalizeFeedbackVerdict FeedbackVerdictValues
  by unfold_locales (auto simp: NormalizeFeedbackVerdict_def Let_def vocabulary_words, simp add: FeedbackVerdictValues_def)

section \<open>What reaches the prompt\<close>

lemma memory_kinds_trimmed:
  "k \<in> {InsightRunSummary, InsightReviewNote, InsightContextNote, InsightHumanFeedback} \<Longrightarrow> TrimSpace k = k"
proof -
  have "list_all (\<lambda>k. TrimSpace k = k) [InsightRunSummary, InsightReviewNote, InsightContextNote, InsightHumanFeedback]"
    by code_simp
  then show "k \<in> {InsightRunSummary, InsightReviewNote, InsightContextNote, InsightHumanFeedback} \<Longrightarrow> TrimSpace k = k"
    by (auto simp: list_all_iff)
qed

lemma rendered_kind:
  "RenderInsightForPrompt ev = Some line \<Longrightarrow> ev_Type ev = EventInsight \<and> PayloadKind (ev_Payload ev)
    \<in> {InsightRunSummary, InsightReviewNote, InsightContextNote, InsightHumanFeedback}"
  by (auto simp: RenderInsightForPrompt_def Let_def split: if_splits)

text \<open>The line an event adds to its own task's memory, and to the memory of every task.\<close>

lemma insight_string_iff:
  "insight_string opts scoped ev = Some s \<longleftrightarrow>
    (if scoped then po_TaskID opts \<noteq> [] \<and> insightPayloadTaskID (ev_Payload ev) = po_TaskID opts
     else insightPayloadTaskID (ev_Payload ev) = [])
    \<and> (\<exists>line. RenderInsightForPrompt ev = Some line \<and> s = truncateInsightLine line (po_MaxChars opts))"
  using rendered_kind [of ev] memory_kinds_trimmed [of "PayloadKind (ev_Payload ev)"]
  by (auto simp: insight_string_def IsPromptMemoryInsightKind_def Let_def)

text \<open>A selection loop keeps what it has, adds distinct candidates, and stops at the bound.\<close>

lemma select_fold:
  assumes "distinct sel" "int (length sel) \<le> m"
  shows "distinct (fold (select_insight m) xs sel) \<and> int (length (fold (select_insight m) xs sel)) \<le> m
    \<and> (\<exists>ys. fold (select_insight m) xs sel = sel @ ys \<and> set ys \<subseteq> set xs)"
  using assms
proof (induction xs arbitrary: sel)
  case (Cons x xs)
  show ?case
  proof (cases "int (length sel) \<ge> m \<or> x \<in> set sel")
    case True
    then have "select_insight m x sel = sel" by (simp add: select_insight_def)
    with Cons.IH [OF Cons.prems] show ?thesis by auto
  next
    case False
    then have step: "select_insight m x sel = sel @ [x]" by (auto simp: select_insight_def)
    have "distinct (sel @ [x])" "int (length (sel @ [x])) \<le> m" using False Cons.prems by auto
    from Cons.IH [OF this] step show ?thesis by auto
  qed
qed simp

text \<open>When the bound was not reached every candidate was selected.\<close>

lemma select_all: "int (length (fold (select_insight m) xs sel)) < m \<Longrightarrow> set xs \<union> set sel \<subseteq> set (fold (select_insight m) xs sel)"
proof (induction xs arbitrary: sel)
  case (Cons x xs)
  have grow: "length s \<le> length (fold (select_insight m) ys s)" for ys s
  proof (induction ys arbitrary: s)
    case (Cons y ys)
    have "length s \<le> length (select_insight m y s)" by (simp add: select_insight_def)
    also have "\<dots> \<le> length (fold (select_insight m) (y # ys) s)" using Cons by simp
    finally show ?case .
  qed simp
  have "set xs \<union> set (select_insight m x sel) \<subseteq> set (fold (select_insight m) (x # xs) sel)"
    using Cons.IH Cons.prems by simp
  moreover have "int (length sel) < m" using grow [of sel "x # xs"] Cons.prems by linarith
  then have "insert x (set sel) \<subseteq> set (select_insight m x sel)" by (auto simp: select_insight_def)
  ultimately show ?case by auto
qed simp

lemma collect_in:
  "s \<in> set (collectInsightStrings events opts b) \<longleftrightarrow> (\<exists>ev \<in> set events. insight_string opts b ev = Some s)"
  unfolding collectInsightStrings_def map_filter_def
  by (auto simp: image_iff)

lemma truncate_bound: "m > 0 \<Longrightarrow> int (length (truncateInsightLine s m)) \<le> m + 3"
  by (simp add: truncateInsightLine_def)

text \<open>Only an insight of a memory kind, of the asked task or of none, gives a line.\<close>

lemma insight_string_bound:
  "po_MaxChars opts > 0 \<Longrightarrow> insight_string opts b ev = Some s \<Longrightarrow> int (length s) \<le> po_MaxChars opts + 3"
  using truncate_bound by (auto simp: insight_string_iff)

lemma ProjectInsights_parts:
  assumes "po_MaxInsights opts > 0" "po_MaxChars opts > 0"
  shows "\<exists>own shared. ProjectInsights events opts = own @ shared \<and> distinct (own @ shared)
    \<and> int (length (own @ shared)) \<le> po_MaxInsights opts
    \<and> (\<forall>s \<in> set own. \<exists>ev \<in> set events. insight_string opts True ev = Some s)
    \<and> (\<forall>s \<in> set shared. \<exists>ev \<in> set events. insight_string opts False ev = Some s)
    \<and> (\<forall>s \<in> set (own @ shared). int (length s) \<le> po_MaxChars opts + 3)
    \<and> (int (length (own @ shared)) < po_MaxInsights opts \<longrightarrow>
        (\<forall>ev \<in> set events. \<forall>b s. insight_string opts b ev = Some s \<longrightarrow> s \<in> set (own @ shared)))"
proof -
  let ?m = "po_MaxInsights opts"
  let ?c = "collectInsightStrings events opts"
  define own where "own = fold (select_insight ?m) (?c True) []"
  have all: "ProjectInsights events opts = fold (select_insight ?m) (?c False) own"
    using assms by (simp add: ProjectInsights_def Let_def own_def)
  have o: "distinct own" "int (length own) \<le> ?m" "set own \<subseteq> set (?c True)"
    using select_fold [of "[]" ?m "?c True"] assms(1) by (auto simp: own_def)
  from select_fold [OF o(1,2), of "?c False"] obtain shared where
    s: "fold (select_insight ?m) (?c False) own = own @ shared" "distinct (own @ shared)"
      "int (length (own @ shared)) \<le> ?m" "set shared \<subseteq> set (?c False)" by auto
  have lines: "\<forall>s \<in> set own. \<exists>ev \<in> set events. insight_string opts True ev = Some s"
    "\<forall>s \<in> set shared. \<exists>ev \<in> set events. insight_string opts False ev = Some s"
    using o(3) s(4) collect_in by blast+
  then have len: "\<forall>s \<in> set (own @ shared). int (length s) \<le> po_MaxChars opts + 3"
    using insight_string_bound [OF assms(2)] by auto
  have full: "set (?c False) \<union> set own \<subseteq> set (own @ shared)" "set (?c True) \<subseteq> set own"
    if "int (length (own @ shared)) < ?m"
  proof -
    show "set (?c False) \<union> set own \<subseteq> set (own @ shared)"
      using select_all [of ?m "?c False" own] that s(1) by simp
    show "set (?c True) \<subseteq> set own"
      using select_all [of ?m "?c True" "[]"] that by (simp add: own_def)
  qed
  have none_missing: "s \<in> set (own @ shared)" if room: "int (length (own @ shared)) < ?m"
    and ev: "ev \<in> set events" "insight_string opts b ev = Some s" for ev b s
  proof -
    have "s \<in> set (?c b)" using ev collect_in by blast
    then show ?thesis using full [OF room] by (cases b) auto
  qed
  show ?thesis
    by (rule exI [of _ own], rule exI [of _ shared], intro conjI allI ballI impI)
      (use all s(1-3) lines len none_missing in \<open>simp_all only: append_assoc\<close>)
qed

section \<open>Artifact announcements\<close>

lemma NormalizeArtifact_idem:
  "NormalizeArtifactWrittenPayload (NormalizeArtifactWrittenPayload p) = NormalizeArtifactWrittenPayload p"
proof (cases "aw_Artifacts p = []")
  case True
  show ?thesis
  proof (cases "TrimSpace (aw_Ref p) = []")
    case False
    show ?thesis
      using True False by (simp add: NormalizeArtifactWrittenPayload_def Let_def)
  qed (use True in \<open>simp add: NormalizeArtifactWrittenPayload_def Let_def\<close>)
next
  case False
  then show ?thesis
    by (simp add: NormalizeArtifactWrittenPayload_def Let_def comp_def)
qed

end
