(* ===== verification/GoCrypto.thy ===== *)
theory GoCrypto
  imports GoStd "HOL-Library.Word"
begin

text \<open>
  What the program uses of \<open>encoding/hex\<close> and \<open>crypto/sha256\<close>. A byte is an 8-bit word, and
  a Go string is its bytes.
\<close>

unbundle bit_operations_syntax

type_synonym byte = "8 word"

definition bytes_of :: "string \<Rightarrow> byte list" where
  "bytes_of s = map (\<lambda>c. word_of_nat (of_char c)) s"

section \<open>package encoding/hex\<close>

definition hex_char :: "nat \<Rightarrow> char" where
  "hex_char d = (if d < 10 then char_of (48 + d) else char_of (87 + d))"

definition hex_val :: "char \<Rightarrow> nat option" where
  "hex_val c = (let n = of_char c :: nat in
     if 48 \<le> n \<and> n \<le> 57 then Some (n - 48)
     else if 97 \<le> n \<and> n \<le> 102 then Some (n - 87)
     else if 65 \<le> n \<and> n \<le> 70 then Some (n - 55)
     else None)"

fun hex_EncodeToString :: "byte list \<Rightarrow> string" where
  "hex_EncodeToString [] = []"
| "hex_EncodeToString (b # bs) =
     hex_char (unat (drop_bit 4 b)) # hex_char (unat (b AND 15)) # hex_EncodeToString bs"

fun hex_DecodeString :: "string \<Rightarrow> byte list option" where
  "hex_DecodeString [] = Some []"
| "hex_DecodeString [c] = None"
| "hex_DecodeString (c # d # cs) =
     (case (hex_val c, hex_val d, hex_DecodeString cs) of
        (Some h, Some l, Some bs) \<Rightarrow> Some (word_of_nat (16 * h + l) # bs)
      | _ \<Rightarrow> None)"

lemma hex_val_hex_char [simp]: "d < 16 \<Longrightarrow> hex_val (hex_char d) = Some d"
  by (auto simp: hex_val_def hex_char_def Let_def)

lemma hi_nibble: "unat (drop_bit 4 (b :: byte)) = unat b div 16"
  by (simp add: drop_bit_eq_div unat_div)

lemma lo_nibble: "unat ((b :: byte) AND 15) = unat b mod 16"
proof -
  have "unat b AND 15 = unat b mod 16"
    using take_bit_eq_mask [of 4 "unat b"] by (simp add: take_bit_eq_mod mask_eq_exp_minus_1)
  then show ?thesis by (simp add: unsigned_and_eq)
qed

lemma byte_bound: "unat (b :: byte) < 256"
  using unsigned_less [of b] by simp

lemma hi_nibble_bound: "unat (b :: byte) div 16 < 16"
  using byte_bound [of b] by (simp add: less_mult_imp_div_less)

lemma hex_roundtrip: "hex_DecodeString (hex_EncodeToString bs) = Some bs"
  by (induction bs) (simp_all add: hi_nibble lo_nibble hi_nibble_bound)

lemma length_hex_Encode [simp]: "length (hex_EncodeToString bs) = 2 * length bs"
  by (induction bs) simp_all

lemma length_hex_Decode: "hex_DecodeString s = Some bs \<Longrightarrow> length s = 2 * length bs"
  by (induction s arbitrary: bs rule: hex_DecodeString.induct) (auto split: option.splits)

text \<open>Hex text of one length sorts as the bytes it stands for.\<close>

lemma hex_char_less [simp]: "a < 16 \<Longrightarrow> b < 16 \<Longrightarrow> hex_char a < hex_char b \<longleftrightarrow> a < b"
  by (auto simp: hex_char_def less_char_def)

lemma hex_char_inj [simp]: "a < 16 \<Longrightarrow> b < 16 \<Longrightarrow> hex_char a = hex_char b \<longleftrightarrow> a = b"
  by (metis hex_val_hex_char option.inject)

lemma byte_less_nibbles:
  "(a :: byte) < b \<longleftrightarrow> unat a div 16 < unat b div 16
     \<or> unat a div 16 = unat b div 16 \<and> unat a mod 16 < unat b mod 16"
proof -
  have a: "unat a = 16 * (unat a div 16) + unat a mod 16" and b: "unat b = 16 * (unat b div 16) + unat b mod 16"
    by simp_all
  have bounds: "unat a mod 16 < 16" "unat b mod 16 < 16" by simp_all
  consider "unat a div 16 < unat b div 16" | "unat a div 16 = unat b div 16" | "unat b div 16 < unat a div 16"
    by linarith
  then show ?thesis
  proof cases
    case 2
    with a b show ?thesis unfolding word_less_nat_alt by linarith
  next
    case 1
    with a b bounds have "unat a < unat b" by linarith
    with 1 show ?thesis by (simp add: word_less_nat_alt)
  next
    case 3
    with a b bounds have "\<not> unat a < unat b" by linarith
    with 3 show ?thesis by (simp add: word_less_nat_alt)
  qed
qed

lemma byte_eq_nibbles:
  "(a :: byte) = b \<longleftrightarrow> unat a div 16 = unat b div 16 \<and> unat a mod 16 = unat b mod 16"
proof -
  have "unat a div 16 * 16 + unat a mod 16 = unat b div 16 * 16 + unat b mod 16 \<longleftrightarrow> a = b"
    by (simp only: div_mult_mod_eq word_unat_eq_iff)
  then show ?thesis by metis
qed

lemma hex_Encode_less:
  "length as = length bs \<Longrightarrow> hex_EncodeToString as < hex_EncodeToString bs \<longleftrightarrow> as < bs"
proof (induction as bs rule: list_induct2)
  case (Cons a as b bs)
  have "hex_EncodeToString (a # as) < hex_EncodeToString (b # bs) \<longleftrightarrow>
      unat a div 16 < unat b div 16 \<or> unat a div 16 = unat b div 16 \<and> (unat a mod 16 < unat b mod 16
        \<or> unat a mod 16 = unat b mod 16 \<and> as < bs)"
    by (simp add: hi_nibble lo_nibble hi_nibble_bound Cons.IH)
  then show ?case unfolding Cons_less_Cons byte_less_nibbles byte_eq_nibbles by blast
qed simp

section \<open>package crypto/sha256\<close>

type_synonym w32 = "32 word"

text \<open>
  FIPS 180-4 takes its constants from the primes: the first 32 fractional bits of the cube roots
  of the first 64 (the round constants) and of the square roots of the first 8 (the initial
  hash). The integer roots are found bit by bit, from bit 40 down.
\<close>

definition sha256_primes :: "int list" where
  "sha256_primes = filter (\<lambda>n. list_all (\<lambda>d. n mod d \<noteq> 0) [2..n - 1]) [2..311]"

definition int_root :: "nat \<Rightarrow> int \<Rightarrow> int" where
  "int_root k n = fold (\<lambda>b r. if (r + 2 ^ b) ^ k \<le> n then r + 2 ^ b else r) (rev [0..<41]) 0"

definition sha256_K :: "w32 list" where
  "sha256_K = map (\<lambda>p. word_of_int (int_root 3 (p * 2 ^ 96))) sha256_primes"

definition sha256_H :: "w32 list" where
  "sha256_H = map (\<lambda>p. word_of_int (int_root 2 (p * 2 ^ 64))) (take 8 sha256_primes)"

fun be32 :: "byte list \<Rightarrow> w32 list" where
  "be32 (a # b # c # d # bs) =
     (push_bit 24 (ucast a) OR push_bit 16 (ucast b) OR push_bit 8 (ucast c) OR ucast d) # be32 bs"
| "be32 _ = []"

definition sha256_pad :: "byte list \<Rightarrow> byte list" where
  "sha256_pad m = (let l = length m; z = (119 - l mod 64) mod 64 in
     m @ 0x80 # replicate z 0 @ map (\<lambda>i. word_of_nat (8 * l div 256 ^ (7 - i))) [0..<8])"

text \<open>The message schedule, kept newest first while it grows.\<close>

definition sha256_extend :: "w32 list \<Rightarrow> w32 list" where
  "sha256_extend rs =
    (let v1 = rs ! 1; v2 = rs ! 14;
         t1 = word_rotr 17 v1 XOR word_rotr 19 v1 XOR drop_bit 10 v1;
         t2 = word_rotr 7 v2 XOR word_rotr 18 v2 XOR drop_bit 3 v2
     in (t1 + rs ! 6 + t2 + rs ! 15) # rs)"

definition sha256_schedule :: "w32 list \<Rightarrow> w32 list" where
  "sha256_schedule ws = rev ((sha256_extend ^^ 48) (rev ws))"

fun sha256_round :: "w32 \<times> w32 \<Rightarrow> w32 list \<Rightarrow> w32 list" where
  "sha256_round (k, w) [a, b, c, d, e, f, g, h] =
    (let t1 = h + (word_rotr 6 e XOR word_rotr 11 e XOR word_rotr 25 e)
                + ((e AND f) XOR (NOT e AND g)) + k + w;
         t2 = (word_rotr 2 a XOR word_rotr 13 a XOR word_rotr 22 a)
                + ((a AND b) XOR (a AND c) XOR (b AND c))
     in [t1 + t2, a, b, c, d + t1, e, f, g])"
| "sha256_round _ s = s"

definition sha256_block :: "w32 list \<Rightarrow> w32 list \<Rightarrow> w32 list" where
  "sha256_block hs ws = map2 (+) hs (fold sha256_round (zip sha256_K (sha256_schedule ws)) hs)"

fun sha256_blocks :: "nat \<Rightarrow> w32 list \<Rightarrow> w32 list \<Rightarrow> w32 list" where
  "sha256_blocks 0 ws hs = hs"
| "sha256_blocks (Suc n) ws hs = sha256_blocks n (drop 16 ws) (sha256_block hs (take 16 ws))"

definition sha256_Sum256 :: "byte list \<Rightarrow> byte list" where
  "sha256_Sum256 m = (let ws = be32 (sha256_pad m) in
     concat (map (\<lambda>w. map (\<lambda>i. ucast (drop_bit (24 - 8 * i) w)) [0..<4])
       (sha256_blocks (length ws div 16) ws sha256_H)))"

end
