(* ===== verification/Ids.thy ===== *)
theory Ids
  imports GoCrypto
begin

text \<open>
  Package \<open>internal/ids\<close> (miniulid.go): sortable identifiers. The clock and the two random
  bytes are arguments; \<open>None\<close> is the failure of the random source.
\<close>

definition byte_at :: "64 word \<Rightarrow> nat \<Rightarrow> byte" where
  "byte_at ms k = ucast (drop_bit k ms)"

definition MiniULID :: "time \<Rightarrow> (byte \<times> byte) option \<Rightarrow> string option" where
  "MiniULID now rnd =
    (let ms = word_of_int (UnixMilli now) AND (0xFFFFFFFFFFFF :: 64 word)
     in (case rnd of
          None \<Rightarrow> None
        | Some (r0, r1) \<Rightarrow> Some (hex_EncodeToString
            [byte_at ms 40, byte_at ms 32, byte_at ms 24, byte_at ms 16, byte_at ms 8, byte_at ms 0,
             r0, r1])))"

definition Prefixed :: "string \<Rightarrow> time \<Rightarrow> (byte \<times> byte) option \<Rightarrow> string option" where
  "Prefixed pre now rnd = (case MiniULID now rnd of None \<Rightarrow> None | Some body \<Rightarrow> Some (pre @ body))"

definition ParseMiniULIDTime :: "string \<Rightarrow> time option" where
  "ParseMiniULIDTime body =
    (if length body \<noteq> 16 then None
     else (case hex_DecodeString body of
         None \<Rightarrow> None
       | Some raw \<Rightarrow>
           if length raw \<noteq> 8 then None
           else let ms = push_bit 40 (ucast (raw ! 0)) OR push_bit 32 (ucast (raw ! 1))
                         OR push_bit 24 (ucast (raw ! 2)) OR push_bit 16 (ucast (raw ! 3))
                         OR push_bit 8 (ucast (raw ! 4)) OR (ucast (raw ! 5) :: 64 word)
                in Some (unix_epoch + sint ms * 1000000)))"

definition ParsePrefixedTime :: "string \<Rightarrow> string \<Rightarrow> time option" where
  "ParsePrefixedTime pre i =
    (if HasPrefix i pre then ParseMiniULIDTime (drop (length pre) i) else None)"

section \<open>Packing and unpacking the clock\<close>

text \<open>The clock's low 48 bits, the part an id keeps.\<close>

definition id_ms :: "time \<Rightarrow> 64 word" where
  "id_ms now = word_of_int (UnixMilli now) AND 0xFFFFFFFFFFFF"

lemma id_ms_take: "id_ms now = take_bit 48 (word_of_int (UnixMilli now))"
  by (simp add: id_ms_def take_bit_eq_mask mask_eq_exp_minus_1)

lemma uint_id_ms: "uint (id_ms now) = UnixMilli now mod 2 ^ 48"
proof -
  have "uint (id_ms now) = take_bit 48 (take_bit 64 (UnixMilli now))"
    by (simp add: id_ms_take unsigned_take_bit_eq unsigned_of_int)
  also have "\<dots> = take_bit 48 (UnixMilli now)" by (simp only: take_bit_take_bit)
  also have "\<dots> = UnixMilli now mod 2 ^ 48" by (rule take_bit_eq_mod)
  finally show ?thesis .
qed

lemma sint_id_ms: "sint (id_ms now) = UnixMilli now mod 2 ^ 48"
proof -
  have "signed_take_bit 63 x = x" if "0 \<le> x" "x < 2 ^ 48" for x :: int
    using that by (intro signed_take_bit_int_eq_self) simp_all
  then have "signed_take_bit 63 (UnixMilli now mod 2 ^ 48) = UnixMilli now mod 2 ^ 48"
    by (simp only: pos_mod_sign pos_mod_bound zero_less_power zero_less_numeral)
  then show ?thesis by (simp only: sint_uint uint_id_ms) simp
qed

lemma unpack_pack:
  fixes ms :: "64 word"
  assumes "take_bit 48 ms = ms"
  shows "push_bit 40 (ucast (byte_at ms 40)) OR push_bit 32 (ucast (byte_at ms 32))
    OR push_bit 24 (ucast (byte_at ms 24)) OR push_bit 16 (ucast (byte_at ms 16))
    OR push_bit 8 (ucast (byte_at ms 8)) OR ucast (byte_at ms 0) = ms"
proof (rule bit_word_eqI)
  fix n assume "n < LENGTH(64)"
  then have n: "n < 64" by simp
  have hi: "bit ms n \<longleftrightarrow> n < 48 \<and> bit ms n"
    using assms by (metis bit_take_bit_iff)
  have shape: "bit (push_bit k (ucast (byte_at ms k)) :: 64 word) n
      \<longleftrightarrow> k \<le> n \<and> n < k + 8 \<and> bit ms n" for k
    using n by (auto simp: bit_push_bit_iff bit_ucast_iff byte_at_def bit_drop_bit_eq)
  have low: "bit (ucast (byte_at ms 0) :: 64 word) n \<longleftrightarrow> n < 8 \<and> bit ms n"
    using n by (auto simp: bit_ucast_iff byte_at_def bit_drop_bit_eq)
  show "bit (push_bit 40 (ucast (byte_at ms 40) :: 64 word) OR push_bit 32 (ucast (byte_at ms 32))
    OR push_bit 24 (ucast (byte_at ms 24)) OR push_bit 16 (ucast (byte_at ms 16))
    OR push_bit 8 (ucast (byte_at ms 8)) OR ucast (byte_at ms 0)) n = bit ms n"
    unfolding bit_or_iff shape low by (subst (7) hi) arith
qed

lemma id_ms_low: "take_bit 48 (id_ms now) = id_ms now"
  by (simp add: id_ms_take)

lemma MiniULID_Some:
  "MiniULID now (Some (r0, r1)) = Some (hex_EncodeToString
     [byte_at (id_ms now) 40, byte_at (id_ms now) 32, byte_at (id_ms now) 24, byte_at (id_ms now) 16,
      byte_at (id_ms now) 8, byte_at (id_ms now) 0, r0, r1])"
  by (simp only: MiniULID_def id_ms_def Let_def option.simps prod.simps)

lemma ParseMiniULIDTime_MiniULID:
  assumes "MiniULID now rnd = Some body"
  shows "ParseMiniULIDTime body = Some (unix_epoch + UnixMilli now mod 2 ^ 48 * 1000000)"
proof -
  obtain r0 r1 where "rnd = Some (r0, r1)"
    using assms by (auto simp: MiniULID_def Let_def split: option.splits)
  with assms have body: "body = hex_EncodeToString
     [byte_at (id_ms now) 40, byte_at (id_ms now) 32, byte_at (id_ms now) 24, byte_at (id_ms now) 16,
      byte_at (id_ms now) 8, byte_at (id_ms now) 0, r0, r1]"
    by (simp add: MiniULID_Some)
  show ?thesis
    unfolding ParseMiniULIDTime_def body hex_roundtrip length_hex_Encode
    using unpack_pack [OF id_ms_low, of now] sint_id_ms [of now] by (simp add: Let_def nth_Cons')
qed

text \<open>Byte strings of one length compare as the numbers they are.\<close>

lemma MiniULID_length: "MiniULID now rnd = Some body \<Longrightarrow> length body = 16"
  by (auto simp: MiniULID_def Let_def split: option.splits)

lemma byte_at_unat: "unat (byte_at ms k) = unat ms div 2 ^ k mod 256"
  unfolding byte_at_def unsigned_ucast_eq unat_drop_bit_eq
  by (simp add: drop_bit_eq_div take_bit_eq_mod)

fun be_value :: "byte list \<Rightarrow> nat" where
  "be_value [] = 0"
| "be_value (b # bs) = unat b * 256 ^ length bs + be_value bs"

lemma be_value_bound: "be_value bs < 256 ^ length bs"
proof (induction bs)
  case (Cons b bs)
  have "unat b * 256 ^ length bs + be_value bs < (unat b + 1) * 256 ^ length bs"
    using Cons by simp
  also have "\<dots> \<le> 256 * 256 ^ length bs"
    using byte_bound [of b] by (intro mult_right_mono) auto
  finally show ?case by simp
qed simp

lemma be_value_less:
  "length as = length bs \<Longrightarrow> be_value as < be_value bs \<Longrightarrow> as < bs"
proof (induction as bs rule: list_induct2)
  case (Cons a as b bs)
  consider "unat a < unat b" | "a = b" | "unat b < unat a"
    by (metis linorder_neqE_nat word_unat_eq_iff)
  then show ?case
  proof cases
    case 3
    then have "(unat b + 1) * 256 ^ length bs \<le> unat a * 256 ^ length bs"
      by (intro mult_right_mono) auto
    with be_value_bound [of bs] Cons show ?thesis by simp
  qed (use Cons in \<open>auto simp: word_less_nat_alt\<close>)
qed simp

text \<open>Later clocks give larger ids, whatever the random bytes are.\<close>

lemma id_ms_value:
  "be_value [byte_at (id_ms now) 40, byte_at (id_ms now) 32, byte_at (id_ms now) 24,
     byte_at (id_ms now) 16, byte_at (id_ms now) 8, byte_at (id_ms now) 0]
   = nat (UnixMilli now mod 2 ^ 48)"
proof -
  define n where "n = unat (id_ms now)"
  have n: "n < 2 ^ 48"
    unfolding n_def unat_eq_nat_uint uint_id_ms by (simp add: nat_less_iff)
  have step: "n div 2 ^ (k + 8) * 256 + n div 2 ^ k mod 256 = n div 2 ^ k" for k
    by (simp add: power_add div_mult2_eq)
  have top: "n div 2 ^ 40 mod 256 = n div 2 ^ 40"
    using n by (intro mod_less less_mult_imp_div_less) simp
  have "be_value [byte_at (id_ms now) 40, byte_at (id_ms now) 32, byte_at (id_ms now) 24,
     byte_at (id_ms now) 16, byte_at (id_ms now) 8, byte_at (id_ms now) 0]
    = ((((n div 2 ^ 40 * 256 + n div 2 ^ 32 mod 256) * 256 + n div 2 ^ 24 mod 256) * 256
        + n div 2 ^ 16 mod 256) * 256 + n div 2 ^ 8 mod 256) * 256 + n mod 256"
    by (simp add: byte_at_unat n_def [symmetric] top algebra_simps del: power_numeral)
  also have "\<dots> = n"
    using step [of 32] step [of 24] step [of 16] step [of 8] step [of 0]
    by (simp only: add_num_simps arith_simps power_0 div_by_1)
  finally show ?thesis unfolding n_def unat_eq_nat_uint uint_id_ms .
qed

lemma MiniULID_less:
  assumes "MiniULID now rnd = Some a" "MiniULID now' rnd' = Some b"
    and "UnixMilli now mod 2 ^ 48 < UnixMilli now' mod 2 ^ 48"
  shows "a < b"
proof -
  obtain r0 r1 where r: "rnd = Some (r0, r1)"
    using assms(1) by (auto simp: MiniULID_def Let_def split: option.splits)
  obtain s0 s1 where s: "rnd' = Some (s0, s1)"
    using assms(2) by (auto simp: MiniULID_def Let_def split: option.splits)
  define ba where "ba = (\<lambda>t. [byte_at (id_ms t) 40, byte_at (id_ms t) 32, byte_at (id_ms t) 24,
    byte_at (id_ms t) 16, byte_at (id_ms t) 8, byte_at (id_ms t) 0])"
  have ids: "a = hex_EncodeToString (ba now @ [r0, r1])" "b = hex_EncodeToString (ba now' @ [s0, s1])"
    using assms(1,2) r s by (simp_all add: MiniULID_Some ba_def)
  have "be_value (ba now) < be_value (ba now')"
    unfolding ba_def id_ms_value using assms(3) by (simp add: nat_less_eq_zless)
  then have "ba now < ba now'" by (rule be_value_less [rotated]) (simp add: ba_def)
  then have "ba now @ [r0, r1] < ba now' @ [s0, s1]"
    by (auto simp: ba_def)
  moreover have "length (ba now @ [r0, r1]) = length (ba now' @ [s0, s1])" by (simp add: ba_def)
  ultimately show ?thesis unfolding ids by (simp only: hex_Encode_less)
qed

end
