(* ===== verification/Validate.thy ===== *)
theory Validate
  imports Insight Ids
begin

text \<open>
  \<open>validate.go\<close> and \<open>branchref.go\<close>: what an event input must satisfy before it becomes a bus
  event, and the event built from it. A record \<open>host\<close> holds what the code takes from
  elsewhere: \<open>%q\<close> (in messages only), the text of \<open>encoding/json\<close>'s errors, the order in which
  one \<open>range\<close> loop visits a map, \<open>float64\<close> conversion of a number, and the two git commands
  of package \<open>gitroot\<close>.
\<close>

record host =
  h_quote :: "string \<Rightarrow> string"
  h_json_error :: "json \<Rightarrow> string"
  h_visit :: "(string \<times> int) list \<Rightarrow> (string \<times> int) list"
  h_float64 :: float64
  h_CheckRefFormat :: "string \<Rightarrow> string option"
  h_DefaultBranch :: "string \<Rightarrow> string option"

section \<open>Inputs and details\<close>

record ValidationDetail =
  vd_Path :: string
  vd_Message :: string

record ValidationError =
  vx_Code :: string
  vx_Details :: "ValidationDetail list"

record EventInput =
  in_TraceID :: string
  in_TaskID :: string
  in_AgentID :: string
  in_Type :: EventType
  in_Payload :: raw

definition detail :: "string \<Rightarrow> string \<Rightarrow> ValidationDetail" where
  "detail p m = \<lparr>vd_Path = p, vd_Message = m\<rparr>"

definition invalid_json :: "string \<Rightarrow> ValidationError" where
  "invalid_json m = \<lparr>vx_Code = ''invalid_json'', vx_Details = [detail [] m]\<rparr>"

definition EventInput_schema :: schema where
  "EventInput_schema = SObj [(''traceId'', SStr), (''taskId'', SStr), (''agentId'', SStr), (''type'', SStr)]"

text \<open>The raw payload takes any value, and the last one assigned to it stays.\<close>

definition EventInput_of :: "json \<Rightarrow> EventInput" where
  "EventInput_of j = \<lparr>in_TraceID = get_str ''traceId'' j, in_TaskID = get_str ''taskId'' j,
     in_AgentID = get_str ''agentId'' j, in_Type = EventType_of (get_str ''type'' j),
     in_Payload = (case members ''payload'' j of [] \<Rightarrow> RawEmpty | vs \<Rightarrow> RawJson (last vs))\<rparr>"

text \<open>\<open>parse\<close> is the JSON syntax of \<open>encoding/json\<close>.\<close>

definition ParseEventInput ::
  "host \<Rightarrow> (string \<Rightarrow> json option) \<Rightarrow> string \<Rightarrow> ValidationError + EventInput" where
  "ParseEventInput h parse bytes =
    (let trimmed = TrimSpace bytes
     in if trimmed = [] then Inl (invalid_json ''input must be a single JSON object'')
        else (case parse trimmed of
            None \<Rightarrow> Inl (invalid_json ''input must be valid JSON'')
          | Some j \<Rightarrow> if json_ok EventInput_schema j then Inr (EventInput_of j)
                      else Inl (invalid_json (h_json_error h j))))"

section \<open>Branch names (branchref.go)\<close>

definition reservedBranchNames :: "string list" where
  "reservedBranchNames = [''head'', ''main'', ''master'', ''detached'']"

definition looksLikeRemoteTracking :: "string \<Rightarrow> bool" where
  "looksLikeRemoteTracking branch =
    (takeWhile (\<lambda>c. c \<noteq> CHR ''/'') (ToLower branch) \<in> {''origin'', ''remotes'', ''heads'', ''refs''})"

definition targets_default :: "host \<Rightarrow> string \<Rightarrow> string \<Rightarrow> bool" where
  "targets_default h branch colonyRoot =
    (if colonyRoot = [] then False
     else (case h_DefaultBranch h colonyRoot of
         None \<Rightarrow> False
       | Some b \<Rightarrow> let d = TrimSpace b
           in d \<noteq> [] \<and> d \<noteq> ''HEAD'' \<and> ToLower branch = ToLower d))"

definition ValidateBranchRef :: "host \<Rightarrow> string \<Rightarrow> string \<Rightarrow> ValidationDetail list" where
  "ValidateBranchRef h branch0 colonyRoot =
    (let branch = TrimSpace branch0;
         bad = (\<lambda>m. [detail ''payload.branch'' m])
     in if branch = [] then bad ''required''
        else if length branch > MaxWorktreeBranchLen
        then bad (''must be at most '' @ Itoa (int MaxWorktreeBranchLen) @ '' characters'')
        else if HasPrefix branch ''-'' then bad (''must not start with '' @ [CHR 0x27, CHR ''-'', CHR 0x27])
        else if HasPrefix branch ''refs/'' then bad ''refs/ prefix not allowed''
        else if Contains branch '':'' \<or> Contains branch [CHR 0x5C] \<or> Contains branch [CHR 0x40, CHR 0x7B]
        then bad ''invalid ref characters''
        else if looksLikeRemoteTracking branch then bad ''remote-tracking ref not allowed''
        else if ToLower branch \<in> set reservedBranchNames then bad ''reserved branch name''
        else (case h_CheckRefFormat h branch of
            Some e \<Rightarrow> bad e
          | None \<Rightarrow> if targets_default h branch colonyRoot
                    then bad ''cannot target the colony default branch'' else []))"

section \<open>Payload by payload\<close>

definition decoded ::
  "schema \<Rightarrow> (json \<Rightarrow> 'p) \<Rightarrow> string \<Rightarrow> raw \<Rightarrow> ('p \<Rightarrow> ValidationDetail list) \<Rightarrow> ValidationDetail list" where
  "decoded s of_json label payload check = (case unmarshal s payload of
     None \<Rightarrow> [detail ''payload'' (''invalid '' @ label @ '' payload'')]
   | Some j \<Rightarrow> check (of_json j))"

definition required :: "string \<Rightarrow> string \<Rightarrow> ValidationDetail list" where
  "required p s = (if TrimSpace s = [] then [detail p ''required''] else [])"

definition not_negative :: "string \<Rightarrow> int \<Rightarrow> ValidationDetail list" where
  "not_negative p n = (if n < 0 then [detail p ''must not be negative''] else [])"

text \<open>A loop over a list that reports under the index of each element.\<close>

definition each_indexed :: "string \<Rightarrow> (string \<Rightarrow> 'a \<Rightarrow> ValidationDetail list) \<Rightarrow> 'a list \<Rightarrow> ValidationDetail list" where
  "each_indexed p check xs =
    concat (map (\<lambda>(i, x). check (p @ ''['' @ Itoa (int i) @ '']'') x) (enumerate 0 xs))"

definition validateArtifactWritten :: "raw \<Rightarrow> ValidationDetail list" where
  "validateArtifactWritten payload = decoded ArtifactWrittenPayload_schema ArtifactWrittenPayload_of ''artifact.written'' payload (\<lambda>p.
     let items = aw_Artifacts (NormalizeArtifactWrittenPayload p)
     in if items = [] then [detail ''payload.artifacts'' ''required'']
        else each_indexed ''payload.artifacts'' (\<lambda>at item. required (at @ ''.ref'') (ai_Ref item)
               @ required (at @ ''.artifactKind'') (ai_ArtifactKind item)) items)"

definition validateTaskPlan :: "raw \<Rightarrow> ValidationDetail list" where
  "validateTaskPlan payload = decoded TaskPlanPayload_schema TaskPlanPayload_of ''task.plan'' payload (\<lambda>p.
     if pl_Tasks p = [] then [detail ''payload.tasks'' ''required'']
     else each_indexed ''payload.tasks'' (\<lambda>at task. required (at @ ''.taskId'') (sp_TaskID task)
            @ required (at @ ''.title'') (sp_Title task)
            @ (if IsKnownTaskPhase (sp_Phase task) then []
               else [detail (at @ ''.phase'') ''must be one of work, closing, merge''])) (pl_Tasks p))"

definition validateTaskReady :: "raw \<Rightarrow> ValidationDetail list" where
  "validateTaskReady payload = decoded TaskReadyPayload_schema TaskReadyPayload_of ''task.ready'' payload (\<lambda>p.
     required ''payload.taskId'' (rd_TaskID p))"

definition validateTaskStatus :: "raw \<Rightarrow> ValidationDetail list" where
  "validateTaskStatus payload = decoded TaskStatusPayload_schema TaskStatusPayload_of ''task.status'' payload (\<lambda>p.
     required ''payload.taskId'' (st_TaskID p)
     @ required ''payload.status'' (TaskStatus_str (st_Status p)))"

definition validateTaskCompleted :: "raw \<Rightarrow> ValidationDetail list" where
  "validateTaskCompleted payload = decoded TaskCompletedPayload_schema TaskCompletedPayload_of ''task.completed'' payload (\<lambda>p.
     required ''payload.taskId'' (cp_TaskID p)
     @ required ''payload.status'' (TaskStatus_str (cp_Status p)))"

definition validateVerification :: "raw \<Rightarrow> ValidationDetail list" where
  "validateVerification payload = decoded VerificationPayload_schema VerificationPayload_of ''verification'' payload (\<lambda>p.
     required ''payload.summary'' (ve_Summary p))"

definition validateCodeProposalProvenance :: "host \<Rightarrow> MutationPayload \<Rightarrow> ValidationDetail list" where
  "validateCodeProposalProvenance h p =
    (let kind = NormalizeCodeProposalKind (mu_Kind p);
         ws = TrimSpace (ProposalWorkspace_str (mu_Workspace p));
         expected = (if kind = MutationCodeProposalRoot then ''root'' else ''isolated'');
         baseSha = TrimSpace (mu_BaseSha p);
         sector = TrimSpace (mu_Sector p)
     in (if ws = [] then []
         else if ws \<in> {''isolated'', ''root''} then
           (if ws \<noteq> expected then [detail ''payload.workspace''
              (''must be '' @ h_quote h expected @ '' for kind '' @ h_quote h kind)] else [])
         else [detail ''payload.workspace'' ''must be one of isolated, root''])
        @ (if baseSha \<noteq> [] \<and> length baseSha < 4
           then [detail ''payload.baseSha'' ''must be a non-empty git object id''] else [])
        @ (if TrimSpace (mu_WorktreePath p) \<noteq> [] \<and> kind = MutationCodeProposalRoot
           then [detail ''payload.worktreePath'' ''must not be set for code.proposal.root''] else [])
        @ (if sector \<noteq> [] \<and> Contains sector [CHR 0x0A]
           then [detail ''payload.sector'' ''must be a single-line sector id''] else []))"

definition validateCodeProposal :: "host \<Rightarrow> raw \<Rightarrow> ValidationDetail list" where
  "validateCodeProposal h payload =
    decoded MutationPayload_schema MutationPayload_of ''code.proposal'' payload (\<lambda>p.
      if TrimSpace (mu_Diff p) = [] \<and> TrimSpace (mu_Ref p) = [] \<and> TrimSpace (mu_Summary p) = []
      then [detail ''payload'' ''at least one of diff, ref, or summary is required'']
      else validateCodeProposalProvenance h p)"

definition validateNarrativeInsight :: "raw \<Rightarrow> ValidationDetail list" where
  "validateNarrativeInsight payload = decoded NarrativeInsightPayload_schema NarrativeInsightPayload_of ''narrative insight'' payload (\<lambda>p.
     required ''payload.summary'' (ni_Summary p))"

definition validateReviewNote :: "raw \<Rightarrow> ValidationDetail list" where
  "validateReviewNote payload = decoded NarrativeInsightPayload_schema NarrativeInsightPayload_of ''review.note'' payload (\<lambda>p.
     required ''payload.summary'' (ni_Summary p)
     @ (if TrimSpace (ni_Severity p) \<noteq> [] \<and> \<not> snd (NormalizeReviewSeverity (ni_Severity p))
        then [detail ''payload.severity'' (''must be one of '' @ ReviewSeverityAllowedValues)] else []))"

definition validateHumanFeedback :: "raw \<Rightarrow> ValidationDetail list" where
  "validateHumanFeedback payload = decoded HumanFeedbackPayload_schema HumanFeedbackPayload_of ''human.feedback'' payload (\<lambda>p.
     required ''payload.taskId'' (hf_TaskID p)
     @ required ''payload.message'' (hf_Message p)
     @ (if TrimSpace (hf_Verdict p) \<noteq> [] \<and> \<not> snd (NormalizeFeedbackVerdict (hf_Verdict p))
        then [detail ''payload.verdict'' (''must be one of '' @ FeedbackVerdictAllowedValues)] else []))"

text \<open>A required text of bounded length: too long is reported under the same path.\<close>

definition bounded :: "string \<Rightarrow> nat \<Rightarrow> (string \<Rightarrow> nat) \<Rightarrow> string \<Rightarrow> ValidationDetail list" where
  "bounded p m len s =
    (if TrimSpace s = [] then [detail p ''required'']
     else if len (TrimSpace s) > m then [detail p (''must be at most '' @ Itoa (int m) @ '' characters'')]
     else [])"

definition validateTraceTitle :: "raw \<Rightarrow> ValidationDetail list" where
  "validateTraceTitle payload = decoded TraceTitlePayload_schema TraceTitlePayload_of ''trace.title'' payload (\<lambda>p.
     bounded ''payload.title'' MaxTraceTitleLen length (tt_Title p))"

definition validateTraceSummary :: "raw \<Rightarrow> ValidationDetail list" where
  "validateTraceSummary payload = decoded TraceSummaryPayload_schema TraceSummaryPayload_of ''trace.summary'' payload (\<lambda>p.
     bounded ''payload.summary'' MaxTraceSummaryLen length (ts_Summary p))"

definition validatePRBody :: "raw \<Rightarrow> ValidationDetail list" where
  "validatePRBody payload = decoded PRBodyPayload_schema PRBodyPayload_of ''pr.body'' payload (\<lambda>p.
     bounded ''payload.body'' MaxPRBodyLen length (pb_Body p))"

definition validateWorktreeBranch :: "host \<Rightarrow> raw \<Rightarrow> ValidationDetail list" where
  "validateWorktreeBranch h payload =
    decoded WorktreeBranchPayload_schema WorktreeBranchPayload_of ''worktree.branch'' payload
      (\<lambda>p. ValidateBranchRef h (wb_Branch p) [])"

text \<open>\<open>None\<close> is the \<open>false\<close> of the Go result.\<close>

definition CombRelativeBundle :: "string \<Rightarrow> string option" where
  "CombRelativeBundle raw =
    (let ref = ReplaceChar (CHR 0x5C) (CHR ''/'') (TrimSpace raw)
     in if ref = [] \<or> HasPrefix ref ''/'' then None
        else let clean = path_Clean ref
             in if clean = ''.'' \<or> clean = ''..'' \<or> HasPrefix clean ''../'' then None else Some clean)"

definition validateSkillProposed :: "raw \<Rightarrow> ValidationDetail list" where
  "validateSkillProposed payload = decoded SkillProposedPayload_schema SkillProposedPayload_of ''skill.proposed'' payload (\<lambda>p.
     bounded ''payload.name'' MaxSkillNameLen RuneCount (kp_Name p)
     @ bounded ''payload.description'' MaxSkillDescriptionLen RuneCount (kp_Description p)
     @ required ''payload.reason'' (kp_Reason p)
     @ (if TrimSpace (kp_Bundle p) = [] then [detail ''payload.bundle'' ''required'']
        else if CombRelativeBundle (kp_Bundle p) = None
        then [detail ''payload.bundle'' ''must be a path relative to the trail artifact comb''] else [])
     @ required ''payload.procedureHash'' (kp_ProcedureHash p))"

definition validateEnergyAdd :: "raw \<Rightarrow> ValidationDetail list" where
  "validateEnergyAdd payload = decoded EnergyAddPayload_schema EnergyAddPayload_of ''energy.add'' payload (\<lambda>p.
     if ea_Amount p \<le> 0 then [detail ''payload.amount'' ''must be positive''] else [])"

definition validateEnergyConsume :: "raw \<Rightarrow> ValidationDetail list" where
  "validateEnergyConsume payload = decoded EnergyConsumePayload_schema EnergyConsumePayload_of ''energy.consume'' payload (\<lambda>p.
     if ec_Amount p \<le> 0 then [detail ''payload.amount'' ''must be positive''] else [])"

definition validateEnergyStipend :: "raw \<Rightarrow> ValidationDetail list" where
  "validateEnergyStipend payload = decoded EnergyStipendPayload_schema EnergyStipendPayload_of ''energy.stipend'' payload (\<lambda>p.
     if es_Amount p \<le> 0 then [detail ''payload.amount'' ''must be positive''] else [])"

definition validateEnergySeeded :: "raw \<Rightarrow> ValidationDetail list" where
  "validateEnergySeeded payload = decoded EnergySeededPayload_schema EnergySeededPayload_of ''energy.seeded'' payload (\<lambda>p.
     required ''payload.seedId'' (esd_SeedID p)
     @ (if esd_Budget p \<le> 0 then [detail ''payload.budget'' ''must be positive''] else [])
     @ (if IsZero (esd_SeededAt p) then [detail ''payload.seededAt'' ''required''] else []))"

definition validateEnergyPaused :: "raw \<Rightarrow> ValidationDetail list" where
  "validateEnergyPaused payload = decoded EnergyPausedPayload_schema EnergyPausedPayload_of ''energy.paused'' payload (\<lambda>p.
     required ''payload.episodeId'' (ep_EpisodeID p)
     @ not_negative ''payload.remaining'' (ep_Remaining p)
     @ not_negative ''payload.pendingCount'' (ep_PendingCount p))"

definition validateEnergyResumed :: "host \<Rightarrow> raw \<Rightarrow> ValidationDetail list" where
  "validateEnergyResumed h payload =
    decoded EnergyResumedPayload_schema EnergyResumedPayload_of ''energy.resumed'' payload (\<lambda>p.
     required ''payload.episodeId'' (er_EpisodeID p)
     @ (if EnergyResumeSource_Known (er_Source p) then []
        else [detail ''payload.source'' ''must be one of energy.add, energy.stipend''])
     @ concat (map (\<lambda>(at, value). not_negative at value)
         (h_visit h [(''payload.remaining'', er_Remaining p), (''payload.pendingBefore'', er_PendingBefore p),
            (''payload.pendingAfter'', er_PendingAfter p), (''payload.dispatched'', er_Dispatched p),
            (''payload.abandoned'', er_Abandoned p)])))"

definition validateSystemKill :: "raw \<Rightarrow> ValidationDetail list" where
  "validateSystemKill payload = decoded SystemKillPayload_schema SystemKillPayload_of ''system.kill'' payload (\<lambda>p.
     [])"

definition validateSessionInvite :: "raw \<Rightarrow> ValidationDetail list" where
  "validateSessionInvite payload = decoded SessionInvitePayload_schema SessionInvitePayload_of ''session.invite'' payload (\<lambda>p.
     required ''payload.inviteId'' (si_InviteID p)
     @ required ''payload.bee'' (si_Bee p)
     @ required ''payload.task'' (si_Task p)
     @ (if TrimSpace (InviteStatus_str (si_Status p)) = [] then [detail ''payload.status'' ''required'']
        else if \<not> IsInviteStatus (si_Status p)
        then [detail ''payload.status'' ''must be one of pending, accepted, cancelled, completed, incomplete, deferred'']
        else []))"

definition validateBeekeeperReady :: "raw \<Rightarrow> ValidationDetail list" where
  "validateBeekeeperReady payload = decoded BeekeeperReadyPayload_schema BeekeeperReadyPayload_of ''beekeeper.ready'' payload (\<lambda>p.
     required ''payload.inviteId'' (br_InviteID p)
     @ (if TrimSpace (BeekeeperAction_str (br_Action p)) = [] then [detail ''payload.action'' ''required'']
        else if \<not> isBeekeeperAction (br_Action p)
        then [detail ''payload.action'' ''must be one of accept, reject, defer''] else []))"

definition validateForkRequest :: "raw \<Rightarrow> ValidationDetail list" where
  "validateForkRequest payload = decoded ForkRequestPayload_schema ForkRequestPayload_of ''trail.fork'' payload (\<lambda>p.
     required ''payload.requestId'' (fr_RequestID p)
     @ required ''payload.sourceTrace'' (fr_SourceTrace p)
     @ (if TrimSpace (fr_Delta p) = ''none'' then
          (if TrimSpace (fr_Patch p) \<noteq> []
           then [detail ''payload.patch'' (''not allowed with delta '' @ [CHR 0x22] @ ''none'' @ [CHR 0x22])] else [])
        else if TrimSpace (fr_Delta p) = ''patch'' then
          (if TrimSpace (fr_Patch p) = []
           then [detail ''payload.patch'' (''required with delta '' @ [CHR 0x22] @ ''patch'' @ [CHR 0x22])] else [])
        else [detail ''payload.delta'' ''must be one of none, patch''])
     @ not_negative ''payload.budget'' (fr_Budget p))"

definition validateForkDecision :: "raw \<Rightarrow> ValidationDetail list" where
  "validateForkDecision payload = decoded ForkDecisionPayload_schema ForkDecisionPayload_of ''trail.fork decision'' payload (\<lambda>p.
     required ''payload.requestId'' (fd_RequestID p))"

definition validateCueIngress :: "raw \<Rightarrow> ValidationDetail list" where
  "validateCueIngress payload = decoded CueIngressPayload_schema CueIngressPayload_of ''cue.ingress'' payload (\<lambda>p.
     required ''payload.invocationId'' (ci_InvocationID p)
     @ required ''payload.cueId'' (ci_CueID p)
     @ (if CueIngressMode_Known (ci_Mode p) then []
        else [detail ''payload.mode'' ''must be one of task, signal'']))"

definition validateTrailWorkCompleted :: "raw \<Rightarrow> ValidationDetail list" where
  "validateTrailWorkCompleted payload = decoded TrailWorkCompletedPayload_schema TrailWorkCompletedPayload_of ''trail.work.completed'' payload (\<lambda>p.
     required ''payload.completionId'' (twc_CompletionID p)
     @ (if twc_WorkRevision p < 1 then [detail ''payload.workRevision'' ''must be at least 1''] else [])
     @ (if IsZero (twc_CompletedAt p) then [detail ''payload.completedAt'' ''required''] else [])
     @ required ''payload.resultRef'' (twc_ResultRef p)
     @ required ''payload.metricsRef'' (twc_MetricsRef p))"

section \<open>The whole input\<close>

text \<open>The event type a kind belongs to; \<open>None\<close> is the empty type of an unreserved kind.\<close>

definition expectedEventType :: "string \<Rightarrow> EventType option" where
  "expectedEventType kind =
    (if kind = TaskEventPlan then Some EventInsight
     else if kind = TaskEventReady \<or> kind = TaskEventStatus then Some EventSignal
     else if kind = TaskEventCompleted then Some EventVerification
     else if kind \<in> {SignalEnergyAdd, SignalEnergyConsume, SignalEnergyStipend, SignalEnergySeeded,
       SignalEnergyPaused, SignalEnergyResumed} then Some EventSignal
     else if kind = SignalSystemKill then Some EventSignal
     else if IsCueIngressObservation kind then Some EventSignal
     else if IsTrailWorkCompletion kind then Some EventSignal
     else if kind \<in> {VerificationSuccess, VerificationFailed} then Some EventVerification
     else if kind \<in> {MutationCodeProposal, MutationCodeProposalIsolated, MutationCodeProposalRoot}
     then Some EventMutation
     else if InsightKindForEventType kind \<noteq> None then InsightKindForEventType kind
     else if kind \<in> {SignalSessionInvite, SignalBeekeeperReady} then Some EventSignal
     else if kind = SignalArtifactWritten then Some EventSignal
     else if kind \<in> {SignalTrailFork, SignalTrailForkApprove, SignalTrailForkReject, SignalTrailForkCancel}
     then Some EventSignal
     else None)"

definition validatePayload :: "host \<Rightarrow> string \<Rightarrow> raw \<Rightarrow> ValidationDetail list" where
  "validatePayload h kind payload =
    (if kind = TaskEventPlan then validateTaskPlan payload
     else if kind = TaskEventReady then validateTaskReady payload
     else if kind = TaskEventStatus then validateTaskStatus payload
     else if kind = TaskEventCompleted then validateTaskCompleted payload
     else if kind = SignalEnergyAdd then validateEnergyAdd payload
     else if kind = SignalEnergyConsume then validateEnergyConsume payload
     else if kind = SignalEnergyStipend then validateEnergyStipend payload
     else if kind = SignalEnergySeeded then validateEnergySeeded payload
     else if kind = SignalEnergyPaused then validateEnergyPaused payload
     else if kind = SignalEnergyResumed then validateEnergyResumed h payload
     else if kind = SignalSystemKill then validateSystemKill payload
     else if kind = SignalCueIngress then validateCueIngress payload
     else if kind = SignalTrailWorkCompleted then validateTrailWorkCompleted payload
     else if kind \<in> {VerificationSuccess, VerificationFailed} then validateVerification payload
     else if kind \<in> {MutationCodeProposal, MutationCodeProposalIsolated, MutationCodeProposalRoot}
     then validateCodeProposal h payload
     else if kind = InsightRunSummary \<or> kind = InsightContextNote then validateNarrativeInsight payload
     else if kind = InsightReviewNote then validateReviewNote payload
     else if kind = InsightHumanFeedback then validateHumanFeedback payload
     else if kind = InsightTraceTitle then validateTraceTitle payload
     else if kind = InsightTraceSummary then validateTraceSummary payload
     else if kind = InsightWorktreeBranch then validateWorktreeBranch h payload
     else if kind = InsightPRBody then validatePRBody payload
     else if kind = InsightSkillProposed then validateSkillProposed payload
     else if kind = SignalSessionInvite then validateSessionInvite payload
     else if kind = SignalBeekeeperReady then validateBeekeeperReady payload
     else if kind = SignalArtifactWritten then validateArtifactWritten payload
     else if kind = SignalTrailFork then validateForkRequest payload
     else if kind \<in> {SignalTrailForkApprove, SignalTrailForkReject, SignalTrailForkCancel}
     then validateForkDecision payload
     else [])"

definition validatePayloadKind :: "host \<Rightarrow> EventType \<Rightarrow> string \<Rightarrow> raw \<Rightarrow> ValidationDetail list" where
  "validatePayloadKind h eventType kind payload = (case expectedEventType kind of
     Some t \<Rightarrow> if t \<noteq> eventType
       then [detail ''type'' (''payload.kind '' @ h_quote h kind @ '' requires type '' @ EventType_str t)]
       else validatePayload h kind payload
   | None \<Rightarrow> validatePayload h kind payload)"

definition validate_envelope :: "host \<Rightarrow> EventInput \<Rightarrow> ValidationDetail list" where
  "validate_envelope h input =
    required ''traceId'' (in_TraceID input)
    @ (if TrimSpace (EventType_str (in_Type input)) = [] then [detail ''type'' ''required'']
       else if \<not> IsDomainEvent (in_Type input)
       then [detail ''type'' (''must be one of SIGNAL, INSIGHT, MUTATION, VERIFICATION (got ''
              @ h_quote h (EventType_str (in_Type input)) @ '')'')]
       else [])"

definition EventInput_Validate :: "host \<Rightarrow> EventInput \<Rightarrow> ValidationDetail list" where
  "EventInput_Validate h input = validate_envelope h input @ (case in_Payload input of
     RawEmpty \<Rightarrow> [detail ''payload'' ''required'']
   | RawInvalid \<Rightarrow> [detail ''payload'' ''must be valid JSON'']
   | RawJson _ \<Rightarrow> let kind = PayloadKind (in_Payload input)
       in if kind = [] then [detail ''payload.kind'' ''required'']
          else validatePayloadKind h (in_Type input) kind (in_Payload input))"

text \<open>
  \<open>rnd\<close> is the body \<open>PrefixedRandom\<close> draws, \<open>None\<close> the failure of the random source. A payload
  struct arrives marshalled, a payload map is marshalled here.
\<close>

definition NewEvent_raw :: "string option \<Rightarrow> time \<Rightarrow> string \<Rightarrow> string \<Rightarrow> int \<Rightarrow> EventType \<Rightarrow> raw \<Rightarrow> Event option" where
  "NewEvent_raw rnd now traceID agentID seq typ payload = (case rnd of
     None \<Rightarrow> None
   | Some body \<Rightarrow> Some
      \<lparr>AttemptID = [], ConfigRef = [], ConfigRevision = 0, InitialCodeBaseSHA = [],
       InitialCodeBaseDirty = False, Purpose = PurposeUnset, AnalysisOf = [],
       ev_ProtocolVersion = ''agent-runtime.v1'', ev_ID = ''evt-'' @ body, ev_TraceID = traceID,
       ev_AgentID = agentID, ev_Seq = seq, ev_Type = typ, ev_CreatedAt = now, ev_Payload = payload\<rparr>)"

definition NewEvent :: "string option \<Rightarrow> time \<Rightarrow> string \<Rightarrow> string \<Rightarrow> int \<Rightarrow> EventType \<Rightarrow> json \<Rightarrow> Event option" where
  "NewEvent rnd now traceID agentID seq typ payload = NewEvent_raw rnd now traceID agentID seq typ
     (if payload = JNull then RawEmpty else RawJson (encode_any payload))"

datatype emit_error = SchemaValidationFailed "ValidationDetail list" | UnmarshalPayload | RandomFailed

definition canonical_payload :: "json \<Rightarrow> json \<Rightarrow> json" where
  "canonical_payload original payload =
    (let kind = PayloadKind (RawJson original)
     in if kind = InsightReviewNote then NormalizeReviewNotePayload payload
        else if kind = InsightHumanFeedback then NormalizeHumanFeedbackPayload payload
        else payload)"

definition ToEvent :: "host \<Rightarrow> string option \<Rightarrow> time \<Rightarrow> EventInput \<Rightarrow> string \<Rightarrow> emit_error + Event" where
  "ToEvent h rnd now input defaultAgentID =
    (if EventInput_Validate h input \<noteq> [] then Inl (SchemaValidationFailed (EventInput_Validate h input))
     else let agentID = (if TrimSpace (in_AgentID input) = [] then defaultAgentID else TrimSpace (in_AgentID input))
       in (case in_Payload input of
             RawJson j \<Rightarrow>
               if \<not> any_ok (h_float64 h) j then Inl UnmarshalPayload
               else (case NewEvent rnd now (in_TraceID input) agentID 0 (in_Type input)
                       (canonical_payload j (decode_any (h_float64 h) j)) of
                   None \<Rightarrow> Inl RandomFailed | Some ev \<Rightarrow> Inr ev)
           | _ \<Rightarrow> Inl UnmarshalPayload))"

section \<open>A bundle reference stays inside the comb\<close>

lemma CombRelativeBundle_elems:
  assumes "CombRelativeBundle raw = Some c"
  shows "\<exists>es. es \<noteq> [] \<and> clean_elems es \<and> ''..'' \<notin> set es \<and> c = join ''/'' es"
proof -
  let ?ref = "ReplaceChar (CHR 0x5C) (CHR ''/'') (TrimSpace raw)"
  have ref: "?ref \<noteq> []" "\<not> HasPrefix ?ref ''/''" and c: "c = path_Clean ?ref"
    and out: "c \<noteq> ''.''" "c \<noteq> ''..''" "\<not> HasPrefix c ''../''"
    using assms by (auto simp: CombRelativeBundle_def Let_def split: if_splits)
  have "hd ?ref \<noteq> CHR ''/''" using ref by (cases ?ref) (auto simp: HasPrefix_def)
  from path_Clean_relative [OF ref(1) this] obtain es where es: "clean_elems es"
    "c = (if es = [] then ''.'' else join ''/'' es)" unfolding c by blast
  with out(1) have ne: "es \<noteq> []" "c = join ''/'' es" by (auto split: if_splits)
  have "''..'' \<notin> set es"
  proof
    assume up: "''..'' \<in> set es"
    obtain k ns where k: "es = replicate k ''..'' @ ns" "''..'' \<notin> set ns"
      using es(1) by (auto simp: clean_elems_def)
    with up obtain m where "k = Suc m" by (cases k) auto
    with k have "es = ''..'' # (replicate m ''..'' @ ns)" by simp
    with join_dotdot_prefix [of "replicate m ''..'' @ ns"] es(1) ne(2) out(2,3) show False by simp
  qed
  with es(1) ne show ?thesis by blast
qed

lemma CombRelativeBundle_inside:
  assumes "CombRelativeBundle raw = Some c"
  shows "c \<noteq> [] \<and> hd c \<noteq> CHR ''/'' \<and> (\<forall>e \<in> set (split_on (CHR ''/'') c). e \<notin> {[], ''.'', ''..''})"
proof -
  obtain es where es: "es \<noteq> []" "clean_elems es" "''..'' \<notin> set es" "c = join ''/'' es"
    using CombRelativeBundle_elems [OF assms] by blast
  then have "split_on (CHR ''/'') c = es" by (simp add: split_on_join clean_elems_def)
  moreover obtain e rest where e: "es = e # rest" using es(1) by (cases es) auto
  moreover have "e \<noteq> []" "CHR ''/'' \<notin> set e" using es(2) e by (auto simp: clean_elems_def)
  then have "c \<noteq> [] \<and> hd c \<noteq> CHR ''/''" using es(4) e by (cases e) (auto simp: join_Cons)
  ultimately show ?thesis using es(2,3) by (auto simp: clean_elems_def)
qed

section \<open>What an accepted input satisfies\<close>

lemma required_Nil [simp]: "required p s = [] \<longleftrightarrow> TrimSpace s \<noteq> []"
  by (simp add: required_def)

lemma decoded_Nil:
  "decoded s of_json label payload check = [] \<longleftrightarrow> (\<exists>j. unmarshal s payload = Some j \<and> check (of_json j) = [])"
  by (auto simp: decoded_def split: option.split)

lemma ValidateBranchRef_accepts:
  "ValidateBranchRef h b root = [] \<longleftrightarrow> (let branch = TrimSpace b in
     branch \<noteq> [] \<and> length branch \<le> 120 \<and> \<not> HasPrefix branch ''-'' \<and> \<not> HasPrefix branch ''refs/''
     \<and> \<not> Contains branch '':'' \<and> \<not> Contains branch [CHR 0x5C] \<and> \<not> Contains branch [CHR 0x40, CHR 0x7B]
     \<and> takeWhile (\<lambda>c. c \<noteq> CHR ''/'') (ToLower branch) \<notin> {''origin'', ''remotes'', ''heads'', ''refs''}
     \<and> ToLower branch \<notin> {''head'', ''main'', ''master'', ''detached''}
     \<and> h_CheckRefFormat h branch = None \<and> \<not> targets_default h branch root)"
  by (simp add: ValidateBranchRef_def Let_def looksLikeRemoteTracking_def reservedBranchNames_def not_less
      split: option.split)

lemma Validate_accepts:
  assumes "EventInput_Validate h input = []"
  obtains j where "in_Payload input = RawJson j" "TrimSpace (in_TraceID input) \<noteq> []"
    "IsDomainEvent (in_Type input)" "PayloadKind (RawJson j) \<noteq> []"
    "expectedEventType (PayloadKind (RawJson j)) \<in> {None, Some (in_Type input)}"
    "validatePayload h (PayloadKind (RawJson j)) (RawJson j) = []"
proof (cases "in_Payload input")
  case (RawJson j)
  from assms have env: "validate_envelope h input = []"
    and rest: "PayloadKind (RawJson j) \<noteq> []" "validatePayloadKind h (in_Type input) (PayloadKind (RawJson j)) (RawJson j) = []"
    using RawJson by (auto simp: EventInput_Validate_def Let_def split: if_splits)
  have "TrimSpace (in_TraceID input) \<noteq> []" "IsDomainEvent (in_Type input)"
    using env by (auto simp: validate_envelope_def split: if_splits)
  moreover have "expectedEventType (PayloadKind (RawJson j)) \<in> {None, Some (in_Type input)}"
    "validatePayload h (PayloadKind (RawJson j)) (RawJson j) = []"
    using rest(2) by (auto simp: validatePayloadKind_def split: option.splits if_splits)
  ultimately show thesis using that RawJson rest(1) by blast
qed (use assms in \<open>simp_all add: EventInput_Validate_def\<close>)

text \<open>The order in which the counters of a resume observation are visited only permutes the details.\<close>

lemma mset_concat_map: "mset (concat (map f xs)) = (\<Sum>x\<in>#mset xs. mset (f x))"
  by (induction xs) simp_all

lemma validateEnergyResumed_order:
  assumes "\<And>xs. mset (h_visit h xs) = mset xs" "\<And>xs. mset (h_visit h' xs) = mset xs"
  shows "mset (validateEnergyResumed h payload) = mset (validateEnergyResumed h' payload)"
proof -
  have "mset (concat (map f (h_visit h xs))) = mset (concat (map f (h_visit h' xs)))"
    for f :: "string \<times> int \<Rightarrow> ValidationDetail list" and xs
    unfolding mset_concat_map assms ..
  then show ?thesis unfolding validateEnergyResumed_def decoded_def by (auto split: option.split)
qed

end
