(* ===== verification/LedgerState.thy ===== *)
theory LedgerState
  imports Protocol
begin

text \<open>
  Package \<open>internal/taskledger\<close>, the state (ledger.go) and what is read off one task or one
  trace (review.go, last_work_task.go). A trace snapshot's \<open>Tasks\<close> map is a Go map; its
  pointer fields are options. The predicates quantify over the tasks, so none of them
  depends on the order in which a \<open>range\<close> loop visits the map.
\<close>

section \<open>Snapshots (ledger.go)\<close>

record TaskSnapshot =
  t_TaskID :: string
  t_Title :: string
  t_Body :: string
  t_Bee :: string
  t_Sector :: string
  t_Intent :: string
  t_CueID :: string
  t_CueInvocationID :: string
  t_Review :: TaskReviewPolicy
  t_Phase :: TaskPhase
  t_Purpose :: ExecutionPurpose
  t_AnalysisOf :: string
  t_Status :: TaskStatus
  t_DependsOn :: "string list"
  t_Summary :: string
  t_Commit :: string
  t_ProposalWorkspace :: ProposalWorkspace
  t_CreatedAt :: time
  t_UpdatedAt :: time

text \<open>The zero value of the struct, with its id: \<open>TaskSnapshot{TaskID: id}\<close>.\<close>

definition bareTask :: "string \<Rightarrow> TaskSnapshot" where
  "bareTask tid = \<lparr>t_TaskID = tid, t_Title = [], t_Body = [], t_Bee = [], t_Sector = [],
     t_Intent = [], t_CueID = [], t_CueInvocationID = [], t_Review = TaskReviewUnset,
     t_Phase = TaskPhaseUnset, t_Purpose = PurposeUnset, t_AnalysisOf = [],
     t_Status = TaskStatusUnset, t_DependsOn = [], t_Summary = [], t_Commit = [],
     t_ProposalWorkspace = ProposalWorkspaceUnset, t_CreatedAt = 0, t_UpdatedAt = 0\<rparr>"

definition withCreatedAt :: "TaskSnapshot \<Rightarrow> time \<Rightarrow> TaskSnapshot" where
  "withCreatedAt task now =
    (if IsZero (t_CreatedAt task) then task\<lparr>t_CreatedAt := now\<rparr> else task)"

datatype PendingDispatchKind = PendingDispatchTask | PendingDispatchDirect
  | PendingDispatchKindOther string

datatype PendingDispatchStatus = PendingDispatchPending | PendingDispatchConsumed
  | PendingDispatchAbandoned | PendingDispatchUnresolved
  | PendingDispatchStatusUnset | PendingDispatchStatusOther string

definition Active :: "PendingDispatchStatus \<Rightarrow> bool" where
  "Active s \<longleftrightarrow> s = PendingDispatchPending"

record PendingDispatch =
  pd_ID :: string
  pd_Kind :: PendingDispatchKind
  pd_TaskID :: string
  pd_Bee :: string
  pd_SourceEventID :: string
  pd_Reason :: string
  pd_Status :: PendingDispatchStatus
  pd_Diagnostic :: string
  pd_CreatedAt :: time
  pd_UpdatedAt :: time
  pd_Purpose :: ExecutionPurpose
  pd_AnalysisOf :: string

abbreviation pd_active :: "PendingDispatch \<Rightarrow> bool" where
  "pd_active d \<equiv> Active (pd_Status d)"

record WorkCompletionSnapshot =
  wc_CompletionID :: string
  wc_WorkRevision :: int
  wc_CompletedAt :: time
  wc_ResultRef :: string
  wc_MetricsRef :: string
  wc_Published :: bool

record EnergySeedSnapshot =
  sd_SeedID :: string
  sd_Budget :: int
  sd_SeededAt :: time
  sd_Published :: bool

record EnergyPauseSnapshot =
  pa_EpisodeID :: string
  pa_Reason :: string
  pa_StartedAt :: time
  pa_Remaining :: int
  pa_Budget :: int
  pa_Pending :: int
  pa_Published :: bool

record PendingReadySnapshot =
  pr_TaskID :: string
  pr_Title :: string
  pr_Body :: string
  pr_Bee :: string
  pr_Sector :: string
  pr_Intent :: string
  pr_CueID :: string
  pr_CueInvocationID :: string

record TraceSnapshot =
  TraceID :: string
  EnergyBudget :: int
  EnergyRemaining :: int
  EnergyAdded :: int
  EnergySeed :: "EnergySeedSnapshot option"
  EnergyPause :: "EnergyPauseSnapshot option"
  Killed :: bool
  PendingReady :: "PendingReadySnapshot option"
  PendingDispatches :: "PendingDispatch list"
  WorkRevision :: int
  WorkCompletion :: "WorkCompletionSnapshot option"
  Tasks :: "(string, TaskSnapshot) gomap"

text \<open>\<open>TraceSnapshot{TraceID: id, Tasks: map[string]TaskSnapshot{}}\<close>.\<close>

definition emptyTrace :: "string \<Rightarrow> TraceSnapshot" where
  "emptyTrace tid = \<lparr>TraceID = tid, EnergyBudget = 0, EnergyRemaining = 0, EnergyAdded = 0,
     EnergySeed = None, EnergyPause = None, Killed = False, PendingReady = None,
     PendingDispatches = [], WorkRevision = 0, WorkCompletion = None, Tasks = []\<rparr>"

record EnergyPauseClose =
  pc_Episode :: EnergyPauseSnapshot
  pc_Source :: EnergyResumeSource
  pc_Remaining :: int
  pc_Budget :: int
  pc_PendingBefore :: int
  pc_PendingAfter :: int
  pc_Dispatched :: int
  pc_Abandoned :: int

record ApplyResult =
  ar_Trace :: TraceSnapshot
  ar_Ready :: "TaskSnapshot list"
  ar_Changed :: bool
  ar_PauseClose :: "EnergyPauseClose option"

abbreviation task_list :: "TraceSnapshot \<Rightarrow> TaskSnapshot list" where
  "task_list trace \<equiv> mvals (Tasks trace)"

abbreviation put_task :: "TraceSnapshot \<Rightarrow> string \<Rightarrow> TaskSnapshot \<Rightarrow> TraceSnapshot" where
  "put_task trace tid task \<equiv> trace\<lparr>Tasks := mput tid task (Tasks trace)\<rparr>"

section \<open>Well-formed snapshots\<close>

text \<open>The map has one entry per id and every task is stored under its own id.\<close>

definition tasks_wf :: "(string, TaskSnapshot) gomap \<Rightarrow> bool" where
  "tasks_wf m \<longleftrightarrow> keys_ok m \<and> (\<forall>(k, t) \<in> set m. t_TaskID t = k)"

definition trace_wf :: "TraceSnapshot \<Rightarrow> bool" where
  "trace_wf trace \<longleftrightarrow> tasks_wf (Tasks trace)"

lemma tasks_wf_Nil [simp]: "tasks_wf []"
  by (simp add: tasks_wf_def)

lemma trace_wf_empty [simp]: "trace_wf (emptyTrace tid)"
  by (simp add: trace_wf_def emptyTrace_def)

lemma tasks_wf_keys: "tasks_wf m \<Longrightarrow> keys_ok m"
  by (simp add: tasks_wf_def)

lemma tasks_wf_mget: "tasks_wf m \<Longrightarrow> mget m k = Some t \<Longrightarrow> t_TaskID t = k"
  by (auto simp: tasks_wf_def dest: map_of_SomeD)

lemma tasks_wf_alt: "tasks_wf m \<longleftrightarrow> keys_ok m \<and> (\<forall>k t. mget m k = Some t \<longrightarrow> t_TaskID t = k)"
  by (auto simp: tasks_wf_def dest: map_of_SomeD in_mget)

lemma tasks_wf_mput: "tasks_wf m \<Longrightarrow> t_TaskID t = k \<Longrightarrow> tasks_wf (mput k t m)"
  by (simp add: tasks_wf_alt)

lemma tasks_wf_mdel: "tasks_wf m \<Longrightarrow> tasks_wf (mdel k m)"
  by (simp add: tasks_wf_alt)

lemma tasks_wf_map:
  "tasks_wf m \<Longrightarrow> (\<And>t. t_TaskID (f t) = t_TaskID t) \<Longrightarrow> tasks_wf (map (\<lambda>(k, t). (k, f t)) m)"
  by (auto simp: tasks_wf_def)

lemma tasks_wf_vals: "tasks_wf m \<Longrightarrow> t \<in> set (mvals m) \<longleftrightarrow> mget m (t_TaskID t) = Some t"
  by (auto simp: tasks_wf_def dest: in_mget intro: mget_mvals)

lemma tasks_wf_same_id:
  "tasks_wf m \<Longrightarrow> t \<in> set (mvals m) \<Longrightarrow> t' \<in> set (mvals m) \<Longrightarrow> t_TaskID t = t_TaskID t' \<Longrightarrow> t = t'"
  by (metis option.inject tasks_wf_vals)

lemma trace_wf_put: "trace_wf trace \<Longrightarrow> t_TaskID t = k \<Longrightarrow> trace_wf (put_task trace k t)"
  by (simp add: trace_wf_def tasks_wf_mput)

lemma trace_wf_task_list:
  "trace_wf trace \<Longrightarrow> t \<in> set (task_list trace) \<longleftrightarrow> mget (Tasks trace) (t_TaskID t) = Some t"
  unfolding trace_wf_def by (rule tasks_wf_vals)

section \<open>One task (review.go)\<close>

abbreviation FinalReviewTaskID :: string where "FinalReviewTaskID \<equiv> ''_review''"

definition TaskPhaseOf :: "TaskSnapshot \<Rightarrow> TaskPhase" where
  "TaskPhaseOf task = DeriveTaskPhase (t_Phase task) (t_Review task)"

definition IsMergeTask :: "TaskSnapshot \<Rightarrow> bool" where
  "IsMergeTask task \<longleftrightarrow> TaskPhaseOf task = TaskPhaseMerge"

definition IsClosingTask :: "TaskSnapshot \<Rightarrow> bool" where
  "IsClosingTask task \<longleftrightarrow> TaskPhaseOf task = TaskPhaseClosing"

definition TaskPurposeOf :: "TaskSnapshot \<Rightarrow> ExecutionPurpose" where
  "TaskPurposeOf task =
    (if IsKnownExecutionPurpose (t_Purpose task) then t_Purpose task
     else PurposeForTaskPhase (TaskPhaseOf task))"

definition IsAnalysisTask :: "TaskSnapshot \<Rightarrow> bool" where
  "IsAnalysisTask task \<longleftrightarrow> TaskPurposeOf task = PurposeAnalysis"

definition IsReviewGate :: "TaskSnapshot \<Rightarrow> bool" where
  "IsReviewGate task =
    (if IsMergeTask task then True
     else NormalizeTaskReviewPolicy (t_Review task) = TaskReviewRequired)"

definition IsFinalReviewTask :: "TaskSnapshot \<Rightarrow> bool" where
  "IsFinalReviewTask task \<longleftrightarrow> NormalizeTaskReviewPolicy (t_Review task) = TaskReviewFinal"

definition ShouldSkipDispatch :: "TaskSnapshot \<Rightarrow> bool" where
  "ShouldSkipDispatch task = IsMergeTask task"

lemma IsMergeTask_iff: "IsMergeTask task \<longleftrightarrow> t_Review task = TaskReviewFinal"
  by (simp add: IsMergeTask_def TaskPhaseOf_def)

lemma IsFinalReviewTask_iff: "IsFinalReviewTask task \<longleftrightarrow> t_Review task = TaskReviewFinal"
  by (simp add: IsFinalReviewTask_def)

lemma IsAnalysisTask_iff: "IsAnalysisTask task \<longleftrightarrow> t_Purpose task = PurposeAnalysis"
  by (cases "t_Purpose task")
    (auto simp: IsAnalysisTask_def TaskPurposeOf_def IsKnownExecutionPurpose_def PurposeForTaskPhase_def)

lemma TaskPhaseOf_exhaust:
  obtains "TaskPhaseOf task = TaskPhaseWork" | "TaskPhaseOf task = TaskPhaseClosing"
  | "TaskPhaseOf task = TaskPhaseMerge"
  using DeriveTaskPhase_cases [of "t_Phase task" "t_Review task"] by (auto simp: TaskPhaseOf_def)

lemma not_merge_and_closing: "IsMergeTask task \<Longrightarrow> \<not> IsClosingTask task"
  by (simp add: IsMergeTask_def IsClosingTask_def)

section \<open>All tasks of a trace (review.go, last_work_task.go)\<close>

definition product_tasks :: "TraceSnapshot \<Rightarrow> TaskSnapshot list" where
  "product_tasks trace = filter (\<lambda>t. \<not> IsAnalysisTask t) (task_list trace)"

definition AllWorkCompleted :: "TraceSnapshot \<Rightarrow> bool" where
  "AllWorkCompleted trace =
    (let work = filter (\<lambda>t. \<not> IsAnalysisTask t \<and> TaskPhaseOf t = TaskPhaseWork) (task_list trace)
     in work \<noteq> [] \<and> list_all (\<lambda>t. t_Status t = TaskStatusCompleted) work)"

definition AllPreMergeCompleted :: "TraceSnapshot \<Rightarrow> bool" where
  "AllPreMergeCompleted trace =
    (let seen = filter (\<lambda>t. \<not> IsAnalysisTask t) (task_list trace)
     in seen \<noteq> [] \<and> list_all (\<lambda>t. IsMergeTask t \<or> t_Status t = TaskStatusCompleted) seen)"

definition by_task_id :: "TaskSnapshot \<Rightarrow> TaskSnapshot \<Rightarrow> bool" where
  "by_task_id a b \<longleftrightarrow> t_TaskID a < t_TaskID b"

definition FindFinalReviewTask :: "TraceSnapshot \<Rightarrow> TaskSnapshot option" where
  "FindFinalReviewTask trace = first_sorted by_task_id (filter IsFinalReviewTask (task_list trace))"

definition HasWaitingReview :: "TraceSnapshot \<Rightarrow> bool" where
  "HasWaitingReview trace =
    list_ex (\<lambda>t. \<not> IsAnalysisTask t \<and> t_Status t = TaskStatusWaitingReview) (task_list trace)"

definition HasIsolatedProposal :: "TraceSnapshot \<Rightarrow> bool" where
  "HasIsolatedProposal trace =
    list_ex (\<lambda>t. \<not> IsAnalysisTask t \<and> t_ProposalWorkspace t = ProposalWorkspaceIsolated)
      (task_list trace)"

text \<open>Newest first; of two equally old ones the larger id.\<close>

definition newest_first :: "TaskSnapshot \<Rightarrow> TaskSnapshot \<Rightarrow> bool" where
  "newest_first a b =
    (if t_UpdatedAt a \<noteq> t_UpdatedAt b then t_UpdatedAt a > t_UpdatedAt b else t_TaskID a > t_TaskID b)"

definition isolated_candidate :: "TaskSnapshot \<Rightarrow> bool" where
  "isolated_candidate t \<longleftrightarrow>
     \<not> (IsFinalReviewTask t \<or> IsClosingTask t \<or> IsAnalysisTask t)
     \<and> t_Status t = TaskStatusCompleted \<and> t_ProposalWorkspace t = ProposalWorkspaceIsolated"

definition LastCompletedIsolatedProposalTask :: "TraceSnapshot \<Rightarrow> TaskSnapshot option" where
  "LastCompletedIsolatedProposalTask trace =
    first_sorted newest_first (filter isolated_candidate (task_list trace))"

definition isInFlightReworkStatus :: "TaskStatus \<Rightarrow> bool" where
  "isInFlightReworkStatus s = (s \<in> {TaskStatusPlanned, TaskStatusReady, TaskStatusRunning,
     TaskStatusWaitingReview, TaskStatusBlocked})"

definition InFlightRework :: "TraceSnapshot \<Rightarrow> TaskSnapshot option" where
  "InFlightRework trace = first_sorted by_task_id
    (filter (\<lambda>t. \<not> (IsFinalReviewTask t \<or> IsAnalysisTask t) \<and> isInFlightReworkStatus (t_Status t))
      (task_list trace))"

definition CanRequestChanges :: "TraceSnapshot \<Rightarrow> TaskSnapshot \<Rightarrow> bool" where
  "CanRequestChanges trace task =
    (if \<not> IsFinalReviewTask task \<or> t_Status task \<noteq> TaskStatusWaitingReview then False
     else if LastCompletedIsolatedProposalTask trace = None then False
     else InFlightRework trace = None)"

definition IsLastWorkTask :: "TraceSnapshot \<Rightarrow> string \<Rightarrow> bool" where
  "IsLastWorkTask trace currentTaskID =
    (if currentTaskID = [] then False
     else let incomplete = filter (\<lambda>t. \<not> (IsFinalReviewTask t \<or> IsAnalysisTask t)
                \<and> t_Status t \<noteq> TaskStatusCompleted) (task_list trace)
          in length incomplete = 1 \<and> t_TaskID (last incomplete) = currentTaskID)"

section \<open>The comparators keep sort's contract\<close>

interpretation task_id_order: key_less by_task_id t_TaskID
  by unfold_locales (simp add: by_task_id_def)

interpretation newest_order: go_less newest_first
  by unfold_locales (auto simp: newest_first_def split: if_splits)

lemma AllWorkCompleted_iff:
  "AllWorkCompleted trace \<longleftrightarrow>
    (\<exists>t \<in> set (task_list trace). \<not> IsAnalysisTask t \<and> TaskPhaseOf t = TaskPhaseWork)
    \<and> (\<forall>t \<in> set (task_list trace). \<not> IsAnalysisTask t \<longrightarrow> TaskPhaseOf t = TaskPhaseWork
         \<longrightarrow> t_Status t = TaskStatusCompleted)"
  by (auto simp: AllWorkCompleted_def Let_def list_all_iff filter_empty_conv)

lemma AllPreMergeCompleted_iff:
  "AllPreMergeCompleted trace \<longleftrightarrow>
    (\<exists>t \<in> set (task_list trace). \<not> IsAnalysisTask t)
    \<and> (\<forall>t \<in> set (task_list trace). \<not> IsAnalysisTask t \<longrightarrow> IsMergeTask t
         \<or> t_Status t = TaskStatusCompleted)"
  by (auto simp: AllPreMergeCompleted_def Let_def list_all_iff filter_empty_conv)

lemma CanRequestChanges_iff:
  "CanRequestChanges trace task \<longleftrightarrow>
    t_Review task = TaskReviewFinal \<and> t_Status task = TaskStatusWaitingReview
    \<and> (\<exists>t \<in> set (task_list trace). isolated_candidate t)
    \<and> (\<forall>t \<in> set (task_list trace). IsFinalReviewTask t \<or> IsAnalysisTask t
         \<or> \<not> isInFlightReworkStatus (t_Status t))"
  by (auto simp: CanRequestChanges_def IsFinalReviewTask_iff LastCompletedIsolatedProposalTask_def
      InFlightRework_def filter_empty_conv)

end
