(* ===== verification/LedgerEligible.thy ===== *)
theory LedgerEligible
  imports LedgerState
begin

text \<open>
  \<open>internal/taskledger/eligible.go\<close>: which planned task may run next, and the start and
  retry guards of the operator paths. Promotion is first in, first out: the oldest planned
  task whose dependencies are completed, the id breaking ties, legacy tasks without a
  creation time last.
\<close>

section \<open>The operations\<close>

definition allDepsCompleted :: "TraceSnapshot \<Rightarrow> string list \<Rightarrow> bool" where
  "allDepsCompleted trace deps =
    list_all (\<lambda>dep. case mget (Tasks trace) dep of
        None \<Rightarrow> False | Some t \<Rightarrow> t_Status t = TaskStatusCompleted) deps"

definition go_compare :: "'a::linorder \<Rightarrow> 'a \<Rightarrow> int" where
  "go_compare x y = (if x < y then - 1 else if y < x then 1 else 0)"

definition comparePlanned :: "TaskSnapshot \<Rightarrow> TaskSnapshot \<Rightarrow> int" where
  "comparePlanned a b =
    (let aStamped = \<not> IsZero (t_CreatedAt a); bStamped = \<not> IsZero (t_CreatedAt b);
         c = go_compare (t_CreatedAt a) (t_CreatedAt b)
     in if aStamped \<noteq> bStamped then (if aStamped then - 1 else 1)
        else if aStamped \<and> c \<noteq> 0 then c
        else go_compare (t_TaskID a) (t_TaskID b))"

definition planned_before :: "TaskSnapshot \<Rightarrow> TaskSnapshot \<Rightarrow> bool" where
  "planned_before a b \<longleftrightarrow> comparePlanned a b < 0"

definition eligible :: "TraceSnapshot \<Rightarrow> TaskSnapshot \<Rightarrow> bool" where
  "eligible trace task =
    (if t_Status task \<noteq> TaskStatusPlanned then False
     else if IsMergeTask task then False
     else if IsClosingTask task \<and> \<not> AllWorkCompleted trace then False
     else allDepsCompleted trace (t_DependsOn task))"

definition EligiblePlanned :: "TraceSnapshot \<Rightarrow> TaskSnapshot list" where
  "EligiblePlanned trace = go_sort planned_before (filter (eligible trace) (task_list trace))"

definition FirstEligiblePlanned :: "TraceSnapshot \<Rightarrow> TaskSnapshot option" where
  "FirstEligiblePlanned trace = (case EligiblePlanned trace of [] \<Rightarrow> None | t # _ \<Rightarrow> Some t)"

definition HasReadyTask :: "TraceSnapshot \<Rightarrow> bool" where
  "HasReadyTask trace = list_ex (\<lambda>t. t_Status t = TaskStatusReady) (task_list trace)"

text \<open>The \<open>bool\<close> of the Go result is the option: \<open>None\<close> leaves the trace as it was.\<close>

definition PromoteFirstEligible ::
  "TraceSnapshot \<Rightarrow> time \<Rightarrow> TraceSnapshot \<times> TaskSnapshot option" where
  "PromoteFirstEligible trace now =
    (if Killed trace then (trace, None)
     else if HasReadyTask trace then (trace, None)
     else (case FirstEligiblePlanned trace of
         None \<Rightarrow> (trace, None)
       | Some candidate0 \<Rightarrow>
           let candidate = candidate0\<lparr>t_Status := TaskStatusReady, t_UpdatedAt := now\<rparr>
           in (put_task trace (t_TaskID candidate) candidate, Some candidate)))"

datatype ledger_guard_error = ErrTaskNotFound | ErrTaskAlreadyReady | ErrTaskCompleted
  | ErrTaskNotEligible | ErrDependenciesIncomplete | ErrTaskNotRetryable

definition CanStart :: "TraceSnapshot \<Rightarrow> string \<Rightarrow> ledger_guard_error + TaskSnapshot" where
  "CanStart trace taskID = (case mget (Tasks trace) taskID of
     None \<Rightarrow> Inl ErrTaskNotFound
   | Some task \<Rightarrow>
       if t_Status task = TaskStatusReady then Inl ErrTaskAlreadyReady
       else if t_Status task = TaskStatusCompleted then Inl ErrTaskCompleted
       else if t_Status task \<noteq> TaskStatusPlanned then Inl ErrTaskNotEligible
       else if \<not> allDepsCompleted trace (t_DependsOn task) then Inl ErrDependenciesIncomplete
       else Inr task)"

definition CanRetry :: "TraceSnapshot \<Rightarrow> string \<Rightarrow> ledger_guard_error + TaskSnapshot" where
  "CanRetry trace taskID = (case mget (Tasks trace) taskID of
     None \<Rightarrow> Inl ErrTaskNotFound
   | Some task \<Rightarrow>
       if t_Status task \<in> {TaskStatusFailed, TaskStatusRunning} then Inr task
       else Inl ErrTaskNotRetryable)"

section \<open>The order is total on ids\<close>

definition planned_key :: "TaskSnapshot \<Rightarrow> bool \<times> time \<times> string" where
  "planned_key t = (IsZero (t_CreatedAt t), t_CreatedAt t, t_TaskID t)"

lemma planned_before_key: "planned_before a b \<longleftrightarrow> planned_key a < planned_key b"
  by (auto simp: planned_before_def comparePlanned_def planned_key_def go_compare_def Let_def
      IsZero_def less_prod_def split: if_splits)

interpretation planned_order: key_less planned_before planned_key
  by unfold_locales (rule planned_before_key)

lemma planned_key_le:
  assumes "planned_key c \<le> planned_key c'"
  shows "if IsZero (t_CreatedAt c) then IsZero (t_CreatedAt c') \<and> t_TaskID c \<le> t_TaskID c'
    else IsZero (t_CreatedAt c') \<or> t_CreatedAt c < t_CreatedAt c'
      \<or> t_CreatedAt c = t_CreatedAt c' \<and> t_TaskID c \<le> t_TaskID c'"
  using assms by (auto simp: planned_key_def IsZero_def less_eq_prod_def)

lemma planned_total:
  "\<not> planned_before a b \<Longrightarrow> \<not> planned_before b a \<Longrightarrow> t_TaskID a = t_TaskID b"
  by (drule (1) planned_order.incomparable_key) (simp add: planned_key_def)

section \<open>What is eligible\<close>

lemma eligible_iff:
  "eligible trace t \<longleftrightarrow> t_Status t = TaskStatusPlanned \<and> t_Review t \<noteq> TaskReviewFinal
     \<and> (IsClosingTask t \<longrightarrow> AllWorkCompleted trace)
     \<and> (\<forall>d \<in> set (t_DependsOn t). \<exists>t'. mget (Tasks trace) d = Some t'
          \<and> t_Status t' = TaskStatusCompleted)"
  by (auto simp: eligible_def IsMergeTask_iff allDepsCompleted_def list_all_iff split: option.splits)

lemma set_EligiblePlanned:
  "set (EligiblePlanned trace) = {t \<in> set (task_list trace). eligible trace t}"
  by (auto simp: EligiblePlanned_def)

lemma FirstEligiblePlanned_first_sorted:
  "FirstEligiblePlanned trace = first_sorted planned_before (filter (eligible trace) (task_list trace))"
  by (simp add: FirstEligiblePlanned_def EligiblePlanned_def first_sorted_def)

lemma FirstEligiblePlanned_in:
  "FirstEligiblePlanned trace = Some t \<Longrightarrow> t \<in> set (task_list trace) \<and> eligible trace t"
  by (auto simp: FirstEligiblePlanned_first_sorted dest: first_sorted_in)

lemma FirstEligiblePlanned_mget:
  "trace_wf trace \<Longrightarrow> FirstEligiblePlanned trace = Some t \<Longrightarrow> mget (Tasks trace) (t_TaskID t) = Some t"
  by (metis FirstEligiblePlanned_in trace_wf_task_list)

lemma FirstEligiblePlanned_oldest:
  assumes "FirstEligiblePlanned trace = Some t" and "t' \<in> set (task_list trace)" "eligible trace t'"
  shows "planned_key t \<le> planned_key t'"
  using planned_order.first_sorted_least [of _ t t'] assms
  by (auto simp: FirstEligiblePlanned_first_sorted planned_order.not_less_key)

lemma FirstEligiblePlanned_None:
  "FirstEligiblePlanned trace = None \<longleftrightarrow> (\<forall>t \<in> set (task_list trace). \<not> eligible trace t)"
  by (simp add: FirstEligiblePlanned_first_sorted filter_empty_conv)

lemma HasReadyTask_iff:
  "HasReadyTask trace \<longleftrightarrow> (\<exists>t \<in> set (task_list trace). t_Status t = TaskStatusReady)"
  by (simp add: HasReadyTask_def list_ex_iff)

section \<open>Visiting the map in another order changes nothing\<close>

definition reordered :: "TraceSnapshot \<Rightarrow> TraceSnapshot \<Rightarrow> bool" where
  "reordered trace trace' \<longleftrightarrow>
     mset (Tasks trace) = mset (Tasks trace') \<and> trace' = trace\<lparr>Tasks := Tasks trace'\<rparr>"

lemma reordered_entries: "reordered a b \<Longrightarrow> set (Tasks b) = set (Tasks a)"
  by (auto simp: reordered_def dest: mset_eq_setD)

lemma reordered_mget: "reordered a b \<Longrightarrow> trace_wf a \<Longrightarrow> mget (Tasks b) = mget (Tasks a)"
  by (metis mget_mset reordered_def trace_wf_def tasks_wf_keys)

lemma reordered_filter: "reordered a b \<Longrightarrow> mset (filter P (task_list a)) = mset (filter P (task_list b))"
  by (simp add: reordered_def)

lemma reordered_eligible: "reordered a b \<Longrightarrow> trace_wf a \<Longrightarrow> eligible b = eligible a"
  by (rule ext) (simp add: eligible_iff AllWorkCompleted_iff reordered_entries reordered_mget)

lemma reordered_EligiblePlanned:
  assumes "reordered a b" "trace_wf a"
  shows "EligiblePlanned b = EligiblePlanned a"
proof -
  have inj: "x = y" if "x \<in> set (filter (eligible a) (task_list a))"
    "y \<in> set (filter (eligible a) (task_list a))" "t_TaskID x = t_TaskID y" for x y
    using that assms(2) tasks_wf_same_id [of "Tasks a" x y] by (simp add: trace_wf_def)
  have "go_sort planned_before (filter (eligible a) (task_list a))
      = go_sort planned_before (filter (eligible a) (task_list b))"
    by (rule planned_order.sort_order_free) (use assms inj planned_total reordered_filter in blast)+
  with assms show ?thesis by (simp add: EligiblePlanned_def reordered_eligible)
qed

section \<open>Promotion\<close>

lemma PromoteFirstEligible_Some:
  assumes "PromoteFirstEligible trace now = (trace', Some t)"
  obtains c where "\<not> Killed trace" "\<not> HasReadyTask trace" "FirstEligiblePlanned trace = Some c"
    "t = c\<lparr>t_Status := TaskStatusReady, t_UpdatedAt := now\<rparr>"
    "trace' = put_task trace (t_TaskID c) t"
  using assms by (auto simp: PromoteFirstEligible_def Let_def split: if_splits option.splits)

lemma PromoteFirstEligible_None:
  "PromoteFirstEligible trace now = (trace', None) \<Longrightarrow> trace' = trace"
  by (auto simp: PromoteFirstEligible_def Let_def split: if_splits option.splits)

lemma PromoteFirstEligible_wf [inv_intros]:
  "trace_wf trace \<Longrightarrow> trace_wf (fst (PromoteFirstEligible trace now))"
  by (auto simp: PromoteFirstEligible_def Let_def intro: trace_wf_put split: option.splits)

lemma PromoteFirstEligible_frame [frame_simps]:
  "Killed (fst (PromoteFirstEligible trace now)) = Killed trace"
  "EnergyBudget (fst (PromoteFirstEligible trace now)) = EnergyBudget trace"
  "EnergyRemaining (fst (PromoteFirstEligible trace now)) = EnergyRemaining trace"
  "EnergyAdded (fst (PromoteFirstEligible trace now)) = EnergyAdded trace"
  "EnergySeed (fst (PromoteFirstEligible trace now)) = EnergySeed trace"
  "EnergyPause (fst (PromoteFirstEligible trace now)) = EnergyPause trace"
  "PendingReady (fst (PromoteFirstEligible trace now)) = PendingReady trace"
  "PendingDispatches (fst (PromoteFirstEligible trace now)) = PendingDispatches trace"
  "WorkRevision (fst (PromoteFirstEligible trace now)) = WorkRevision trace"
  "WorkCompletion (fst (PromoteFirstEligible trace now)) = WorkCompletion trace"
  "TraceID (fst (PromoteFirstEligible trace now)) = TraceID trace"
  by (auto simp: PromoteFirstEligible_def Let_def split: option.splits)

end
