(* ===== verification/LedgerEnergy.thy ===== *)
theory LedgerEnergy
  imports LedgerState
begin

text \<open>
  \<open>internal/taskledger/energy.go\<close>: the honey reserve. The seed is allocated once and its
  record is the winner every later request observes. \<open>ids.Prefixed\<close> draws random bytes, so
  the drawn body is an argument; \<open>None\<close> is the failure of the random source, for which the
  code falls back to an id made of the trace id and the clock.
\<close>

section \<open>Identities\<close>

definition minted_id :: "string \<Rightarrow> string option \<Rightarrow> string \<Rightarrow> time \<Rightarrow> string" where
  "minted_id pre body traceID now = (case body of
     Some b \<Rightarrow> pre @ b
   | None \<Rightarrow> pre @ traceID @ ''-'' @ Itoa (UnixNano now))"

definition newSeedID :: "string option \<Rightarrow> string \<Rightarrow> time \<Rightarrow> string" where
  "newSeedID body traceID now = minted_id ''seed-'' body traceID now"

section \<open>The seed\<close>

definition noSeed :: EnergySeedSnapshot where
  "noSeed = \<lparr>sd_SeedID = [], sd_Budget = 0, sd_SeededAt = 0, sd_Published = False\<rparr>"

text \<open>The updated trace, the winning record, and whether this call created it.\<close>

definition EnsureEnergySeed ::
  "time \<Rightarrow> string option \<Rightarrow> TraceSnapshot \<Rightarrow> int \<Rightarrow> TraceSnapshot \<times> EnergySeedSnapshot \<times> bool" where
  "EnsureEnergySeed now body trace budget0 = (case EnergySeed trace of
     Some seed \<Rightarrow> (trace, seed, False)
   | None \<Rightarrow>
       if EnergyBudget trace > 0 then (trace, noSeed, False)
       else let budget = (if budget0 \<le> 0 then DefaultEnergyBudget else budget0);
                seed = \<lparr>sd_SeedID = newSeedID body (TraceID trace) now, sd_Budget = budget,
                        sd_SeededAt = now, sd_Published = False\<rparr>
            in (trace\<lparr>EnergySeed := Some seed, EnergyAdded := 0, EnergyBudget := budget,
                      EnergyRemaining := (if EnergyRemaining trace \<le> 0 then budget
                                          else EnergyRemaining trace)\<rparr>, seed, True))"

definition EnsureEnergySeeded ::
  "time \<Rightarrow> string option \<Rightarrow> TraceSnapshot \<Rightarrow> int \<Rightarrow> TraceSnapshot \<times> bool" where
  "EnsureEnergySeeded now body trace budget =
    (let (updated, _, changed) = EnsureEnergySeed now body trace budget in (updated, changed))"

definition InitialEnergyBudget :: "TraceSnapshot \<Rightarrow> int option" where
  "InitialEnergyBudget trace = (case EnergySeed trace of
     None \<Rightarrow> None | Some seed \<Rightarrow> if sd_Budget seed \<le> 0 then None else Some (sd_Budget seed))"

datatype publish_error = NothingRecorded | IdentityMismatch string string

definition MarkEnergySeedPublished ::
  "TraceSnapshot \<Rightarrow> string \<Rightarrow> publish_error + (TraceSnapshot \<times> bool)" where
  "MarkEnergySeedPublished trace seedID = (case EnergySeed trace of
     None \<Rightarrow> Inl NothingRecorded
   | Some seed \<Rightarrow>
       if sd_SeedID seed \<noteq> seedID then Inl (IdentityMismatch seedID (sd_SeedID seed))
       else if sd_Published seed then Inr (trace, False)
       else Inr (trace\<lparr>EnergySeed := Some (seed\<lparr>sd_Published := True\<rparr>)\<rparr>, True))"

section \<open>Readings\<close>

definition Allocated :: "int \<Rightarrow> int \<Rightarrow> int" where
  "Allocated budget added = (if budget \<le> 0 then 0 else wrap64 (budget + added))"

definition formatHoneyFraction :: "int \<Rightarrow> int \<Rightarrow> int \<Rightarrow> string \<Rightarrow> string \<Rightarrow> string" where
  "formatHoneyFraction remaining budget added sep suffix =
    (let den = Allocated budget added
     in if den \<le> 0 then Itoa remaining else Itoa remaining @ sep @ Itoa den @ suffix)"

definition FormatHoneyPrimary :: "int \<Rightarrow> int \<Rightarrow> int \<Rightarrow> string" where
  "FormatHoneyPrimary remaining budget added = formatHoneyFraction remaining budget added '' / '' []"

definition FormatHoneyCompact :: "int \<Rightarrow> int \<Rightarrow> int \<Rightarrow> string" where
  "FormatHoneyCompact remaining budget added = formatHoneyFraction remaining budget added ''/'' []"

definition FormatHoneyRemaining :: "int \<Rightarrow> int \<Rightarrow> int \<Rightarrow> string" where
  "FormatHoneyRemaining remaining budget added =
    formatHoneyFraction remaining budget added ''/'' '' remaining''"

definition FormatHoneySecondary :: "int \<Rightarrow> int \<Rightarrow> string" where
  "FormatHoneySecondary budget added =
    (if added \<le> 0 then []
     else ''seed '' @ Itoa budget @ [CHR '' '', CHR 0xC2, CHR 0xB7, CHR '' ''] @ ''topped ''
          @ Itoa added)"

definition FormatHoneyReport :: "int \<Rightarrow> int \<Rightarrow> int \<Rightarrow> string list" where
  "FormatHoneyReport remaining budget added =
    [''budget:    '' @ Itoa budget, ''remaining: '' @ Itoa remaining]
    @ (if added > 0 then
         [''added:     '' @ Itoa added]
         @ (if Allocated budget added > 0 then
              [FormatHoneyPrimary remaining budget added]
              @ (let extra = FormatHoneySecondary budget added in if extra \<noteq> [] then [extra] else [])
            else [])
       else [])"

definition FormatPendingReport :: "int \<Rightarrow> string list" where
  "FormatPendingReport active = [''pending:   '' @ Itoa active]"

definition HasEnergy :: "TraceSnapshot \<Rightarrow> int \<Rightarrow> bool" where
  "HasEnergy trace amount = (if amount \<le> 0 then True else EnergyRemaining trace \<ge> amount)"

definition IsEnergyBlockedTask :: "TaskSnapshot \<Rightarrow> bool" where
  "IsEnergyBlockedTask task \<longleftrightarrow>
     t_Status task = TaskStatusBlocked \<and> t_Summary task = HoneyReserveExhaustedSummary"

section \<open>The first seed wins\<close>

text \<open>After any call the trace is allocated, and an allocated trace is never touched again.\<close>

definition allocated :: "TraceSnapshot \<Rightarrow> bool" where
  "allocated trace \<longleftrightarrow> EnergySeed trace \<noteq> None \<or> EnergyBudget trace > 0"

lemma EnsureEnergySeed_allocated:
  "allocated trace \<Longrightarrow> EnsureEnergySeed now body trace b =
    (trace, case EnergySeed trace of Some s \<Rightarrow> s | None \<Rightarrow> noSeed, False)"
  by (auto simp: EnsureEnergySeed_def allocated_def split: option.splits)

lemma EnsureEnergySeed_allocates: "allocated (fst (EnsureEnergySeed now body trace b))"
  by (auto simp: EnsureEnergySeed_def allocated_def Let_def split: option.splits)

lemma EnsureEnergySeed_created:
  assumes "EnsureEnergySeed now body trace b = (trace', seed, True)"
  shows "EnergySeed trace = None" "EnergyBudget trace \<le> 0" "EnergySeed trace' = Some seed"
    "EnergyBudget trace' = sd_Budget seed" "sd_Budget seed > 0" "EnergyRemaining trace' > 0"
    "EnergyAdded trace' = 0" "sd_Budget seed = (if b \<le> 0 then 12 else b)"
  using assms by (auto simp: EnsureEnergySeed_def Let_def split: option.splits if_splits)

lemma EnsureEnergySeed_frame [frame_simps]:
  "Tasks (fst (EnsureEnergySeed now body trace b)) = Tasks trace"
  "Killed (fst (EnsureEnergySeed now body trace b)) = Killed trace"
  "TraceID (fst (EnsureEnergySeed now body trace b)) = TraceID trace"
  "EnergyPause (fst (EnsureEnergySeed now body trace b)) = EnergyPause trace"
  "PendingReady (fst (EnsureEnergySeed now body trace b)) = PendingReady trace"
  "PendingDispatches (fst (EnsureEnergySeed now body trace b)) = PendingDispatches trace"
  "WorkRevision (fst (EnsureEnergySeed now body trace b)) = WorkRevision trace"
  "WorkCompletion (fst (EnsureEnergySeed now body trace b)) = WorkCompletion trace"
  by (auto simp: EnsureEnergySeed_def Let_def split: option.splits)

lemma EnsureEnergySeed_remaining:
  "EnergyRemaining trace \<ge> 0 \<Longrightarrow> EnergyRemaining (fst (EnsureEnergySeed now body trace b)) \<ge> 0"
  by (auto simp: EnsureEnergySeed_def Let_def split: option.splits)

text \<open>The display never shows a fraction over zero.\<close>

lemma formatHoneyFraction_unseeded:
  "budget \<le> 0 \<Longrightarrow> formatHoneyFraction r budget a sep suf = Itoa r"
  by (simp add: formatHoneyFraction_def Allocated_def)

text \<open>Seeding and marking the seed published are each won by one caller.\<close>

definition seed_claim ::
  "time \<times> string option \<times> int \<Rightarrow> TraceSnapshot \<Rightarrow> TraceSnapshot \<times> EnergySeedSnapshot option" where
  "seed_claim r trace = (case r of (now, body, b) \<Rightarrow>
     (case EnsureEnergySeed now body trace b of
        (trace', seed, created) \<Rightarrow> (trace', if created then Some seed else None)))"

definition seed_publish_claim :: "string \<Rightarrow> TraceSnapshot \<Rightarrow> TraceSnapshot \<times> unit option" where
  "seed_publish_claim seedID trace = (case MarkEnergySeedPublished trace seedID of
     Inl _ \<Rightarrow> (trace, None)
   | Inr (trace', changed) \<Rightarrow> (trace', if changed then Some () else None))"

interpretation seed_once: first_wins seed_claim
proof
  fix c and trace :: TraceSnapshot
  show "snd (seed_claim c trace) = None \<Longrightarrow> fst (seed_claim c trace) = trace"
    by (auto simp: seed_claim_def EnsureEnergySeed_def Let_def split: prod.splits option.splits if_splits)
  fix c'
  have "allocated (fst (seed_claim c trace))"
    using EnsureEnergySeed_allocates by (auto simp: seed_claim_def split: prod.splits)
      (metis fst_conv)
  then show "snd (seed_claim c' (fst (seed_claim c trace))) = None"
    by (auto simp: seed_claim_def [of c'] EnsureEnergySeed_allocated split: prod.splits)
qed

interpretation seed_publish_once: first_wins seed_publish_claim
  by unfold_locales
    (auto simp: seed_publish_claim_def MarkEnergySeedPublished_def split: option.splits sum.splits if_splits)

end
