(* ===== verification/LedgerPending.thy ===== *)
theory LedgerPending
  imports LedgerEligible LedgerEnergy
begin

text \<open>
  \<open>internal/taskledger/pending.go\<close>, \<open>pause.go\<close>, \<open>standing.go\<close> and \<open>admission.go\<close>: work a
  trail admitted but could not start. The queue keeps closed entries as evidence; an id is
  waiting at most once. The pause episode opens with the first energy deferral and is
  claimed and closed at most once.
\<close>

section \<open>Reading the queue\<close>

definition ActivePendingCount :: "TraceSnapshot \<Rightarrow> int" where
  "ActivePendingCount trace = int (length (filter pd_active (PendingDispatches trace)))"

definition requiresEnergyDeferralReason :: "string \<Rightarrow> bool" where
  "requiresEnergyDeferralReason reason \<longleftrightarrow> reason \<noteq> ConfigBarrierHoldReason"

definition pending_before :: "PendingDispatch \<Rightarrow> PendingDispatch \<Rightarrow> bool" where
  "pending_before a b =
    (if pd_CreatedAt a \<noteq> pd_CreatedAt b then pd_CreatedAt a < pd_CreatedAt b else pd_ID a < pd_ID b)"

definition ActivePendingDispatches :: "TraceSnapshot \<Rightarrow> PendingDispatch list" where
  "ActivePendingDispatches trace = go_sort pending_before (filter pd_active (PendingDispatches trace))"

definition EnergyDeferredTaskIDs :: "TraceSnapshot \<Rightarrow> string list" where
  "EnergyDeferredTaskIDs trace = map pd_TaskID (filter (\<lambda>d. pd_Kind d = PendingDispatchTask
     \<and> pd_active d \<and> pd_Reason d \<noteq> ConfigBarrierHoldReason \<and> pd_TaskID d \<noteq> []) (PendingDispatches trace))"

definition PendingTaskIDs :: "TraceSnapshot \<Rightarrow> string list" where
  "PendingTaskIDs trace = map pd_TaskID (filter (\<lambda>d. pd_Kind d = PendingDispatchTask
     \<and> pd_TaskID d \<noteq> []) (ActivePendingDispatches trace))"

record Admission =
  ad_Paused :: bool
  ad_PauseReason :: string
  ad_PendingCount :: int

definition AdmissionOf :: "TraceSnapshot \<Rightarrow> Admission" where
  "AdmissionOf trace = (case EnergyPause trace of
     None \<Rightarrow> \<lparr>ad_Paused = False, ad_PauseReason = [], ad_PendingCount = ActivePendingCount trace\<rparr>
   | Some p \<Rightarrow> \<lparr>ad_Paused = True, ad_PauseReason = pa_Reason p,
               ad_PendingCount = ActivePendingCount trace\<rparr>)"

definition FormatAdmissionReport :: "Admission \<Rightarrow> string list" where
  "FormatAdmissionReport a =
    [''paused:    '' @ (if ad_Paused a then ''true'' else ''false'')]
    @ (if ad_PauseReason a \<noteq> [] then [''reason:    '' @ ad_PauseReason a] else [])
    @ FormatPendingReport (ad_PendingCount a)"

definition IsOpenStandingTickStatus :: "TaskStatus \<Rightarrow> bool" where
  "IsOpenStandingTickStatus s = (s \<in> {TaskStatusPlanned, TaskStatusReady, TaskStatusRunning,
     TaskStatusWaitingReview})"

definition OpenStandingTick :: "TraceSnapshot \<Rightarrow> TaskSnapshot option" where
  "OpenStandingTick trace = first_sorted by_task_id
    (filter (\<lambda>t. t_TaskID t \<notin> set (EnergyDeferredTaskIDs trace) \<and> IsOpenStandingTickStatus (t_Status t))
      (task_list trace))"

section \<open>The pause episode (pause.go)\<close>

definition OpenEnergyPause ::
  "time \<Rightarrow> string option \<Rightarrow> TraceSnapshot \<Rightarrow> string \<Rightarrow> TraceSnapshot \<times> bool" where
  "OpenEnergyPause now body trace reason =
    (if EnergyPause trace \<noteq> None \<or> Killed trace then (trace, False)
     else (trace\<lparr>EnergyPause := Some
             \<lparr>pa_EpisodeID = minted_id ''pause-'' body (TraceID trace) now, pa_Reason = reason,
              pa_StartedAt = now, pa_Remaining = EnergyRemaining trace,
              pa_Budget = Allocated (EnergyBudget trace) (EnergyAdded trace),
              pa_Pending = ActivePendingCount trace, pa_Published = False\<rparr>\<rparr>, True))"

definition ClaimEnergyPausePublished ::
  "TraceSnapshot \<Rightarrow> TraceSnapshot \<times> EnergyPauseSnapshot option" where
  "ClaimEnergyPausePublished trace = (case EnergyPause trace of
     None \<Rightarrow> (trace, None)
   | Some p \<Rightarrow>
       if pa_Published p then (trace, None)
       else let pause = p\<lparr>pa_Published := True, pa_Pending := ActivePendingCount trace\<rparr>
            in (trace\<lparr>EnergyPause := Some pause\<rparr>, Some pause))"

definition CloseEnergyPause :: "TraceSnapshot \<Rightarrow> TraceSnapshot \<times> EnergyPauseSnapshot option" where
  "CloseEnergyPause trace = (case EnergyPause trace of
     None \<Rightarrow> (trace, None)
   | Some p \<Rightarrow> (trace\<lparr>EnergyPause := None\<rparr>, Some (p\<lparr>pa_Pending := ActivePendingCount trace\<rparr>)))"

section \<open>Parked ready kicks (pending.go)\<close>

definition pendingReadyFromPayload :: "TaskReadyPayload \<Rightarrow> PendingReadySnapshot" where
  "pendingReadyFromPayload p = \<lparr>pr_TaskID = rd_TaskID p, pr_Title = rd_Title p, pr_Body = rd_Body p,
     pr_Bee = rd_Bee p, pr_Sector = rd_Sector p, pr_Intent = rd_Intent p, pr_CueID = rd_CueID p,
     pr_CueInvocationID = rd_CueInvocationID p\<rparr>"

definition overlay :: "string \<Rightarrow> string \<Rightarrow> string" where
  "overlay new old = (if new \<noteq> [] then new else old)"

definition applyReadyOverlays :: "TaskSnapshot \<Rightarrow> TaskReadyPayload \<Rightarrow> TaskSnapshot" where
  "applyReadyOverlays task p = task\<lparr>
     t_Title := overlay (rd_Title p) (t_Title task),
     t_Body := overlay (rd_Body p) (t_Body task),
     t_Bee := overlay (rd_Bee p) (t_Bee task),
     t_Sector := overlay (rd_Sector p) (t_Sector task),
     t_Intent := overlay (rd_Intent p) (t_Intent task),
     t_CueID := overlay (rd_CueID p) (t_CueID task),
     t_CueInvocationID := overlay (rd_CueInvocationID p) (t_CueInvocationID task)\<rparr>"

definition applyPendingOverlays :: "TaskSnapshot \<Rightarrow> PendingReadySnapshot \<Rightarrow> TaskSnapshot" where
  "applyPendingOverlays task q = applyReadyOverlays task
     \<lparr>rd_Kind = [], rd_TaskID = [], rd_Title = pr_Title q, rd_Body = pr_Body q, rd_Bee = pr_Bee q,
      rd_Sector = pr_Sector q, rd_Intent = pr_Intent q, rd_CueID = pr_CueID q,
      rd_CueInvocationID = pr_CueInvocationID q\<rparr>"

text \<open>The promoted task, if there is one; the Go code returns it as a one-element slice.\<close>

definition tryPromotePendingReady ::
  "TraceSnapshot \<Rightarrow> time \<Rightarrow> TraceSnapshot \<times> TaskSnapshot option" where
  "tryPromotePendingReady trace now = (case PendingReady trace of
     None \<Rightarrow> (trace, None)
   | Some q \<Rightarrow>
       if pr_TaskID q = [] then (trace, None)
       else if Killed trace \<or> HasReadyTask trace then (trace, None)
       else (case FirstEligiblePlanned trace of
           None \<Rightarrow> (trace, None)
         | Some first \<Rightarrow>
             if t_TaskID first \<noteq> pr_TaskID q then (trace, None)
             else (case mget (Tasks trace) (pr_TaskID q) of
                 None \<Rightarrow> (trace, None)
               | Some task0 \<Rightarrow>
                   if t_Status task0 \<noteq> TaskStatusPlanned then (trace, None)
                   else let task = (applyPendingOverlays task0 q)
                                     \<lparr>t_Status := TaskStatusReady, t_UpdatedAt := now\<rparr>
                        in ((put_task trace (t_TaskID task) task)\<lparr>PendingReady := None\<rparr>, Some task))))"

definition dropStalePendingReady :: "TraceSnapshot \<Rightarrow> TraceSnapshot \<times> bool" where
  "dropStalePendingReady trace = (case PendingReady trace of
     None \<Rightarrow> (trace, False)
   | Some q \<Rightarrow>
       if pr_TaskID q = [] then (trace, False)
       else (case mget (Tasks trace) (pr_TaskID q) of
           None \<Rightarrow> (trace, False)
         | Some task \<Rightarrow>
             if t_Status task = TaskStatusUnset \<or> t_Status task = TaskStatusPlanned then (trace, False)
             else (trace\<lparr>PendingReady := None\<rparr>, True)))"

section \<open>Writing the queue (pending.go)\<close>

definition DeferPendingDispatch ::
  "time \<Rightarrow> string option \<Rightarrow> TraceSnapshot \<Rightarrow> PendingDispatch \<Rightarrow> TraceSnapshot \<times> bool" where
  "DeferPendingDispatch now body trace dispatch0 =
    (if pd_ID dispatch0 = [] \<or> Killed trace then (trace, False)
     else
       let dispatch = dispatch0\<lparr>
             pd_CreatedAt := (if IsZero (pd_CreatedAt dispatch0) then now else pd_CreatedAt dispatch0),
             pd_UpdatedAt := now,
             pd_Status := (if pd_Status dispatch0 = PendingDispatchStatusUnset
                           then PendingDispatchPending else pd_Status dispatch0)\<rparr>
       in if list_ex (\<lambda>e. pd_ID e = pd_ID dispatch \<and> pd_active e) (PendingDispatches trace)
          then (trace, False)
          else
            let queued = trace\<lparr>PendingDispatches := PendingDispatches trace @ [dispatch]\<rparr>
            in (if requiresEnergyDeferralReason (pd_Reason dispatch) \<and> EnergyRemaining queued \<le> 0
                then fst (OpenEnergyPause now body queued (pd_Reason dispatch)) else queued, True))"

text \<open>The first entry with a property, and the last one, by index.\<close>

fun first_index :: "('a \<Rightarrow> bool) \<Rightarrow> 'a list \<Rightarrow> nat option" where
  "first_index p [] = None"
| "first_index p (x # xs) = (if p x then Some 0 else map_option Suc (first_index p xs))"

definition last_index :: "('a \<Rightarrow> bool) \<Rightarrow> 'a list \<Rightarrow> nat option" where
  "last_index p xs = map_option (\<lambda>i. length xs - 1 - i) (first_index p (rev xs))"

definition ResolvePendingDispatch ::
  "time \<Rightarrow> TraceSnapshot \<Rightarrow> string \<Rightarrow> PendingDispatchStatus \<Rightarrow> TraceSnapshot \<times> bool" where
  "ResolvePendingDispatch now trace dispatchID status0 =
    (if dispatchID = [] then (trace, False)
     else
       let status = (if status0 = PendingDispatchStatusUnset then PendingDispatchConsumed else status0);
           q = PendingDispatches trace;
           target = (case first_index (\<lambda>e. pd_ID e = dispatchID \<and> pd_active e) q of
               Some i \<Rightarrow> Some i
             | None \<Rightarrow> last_index (\<lambda>e. pd_ID e = dispatchID) q)
       in (case target of
             None \<Rightarrow> (trace, False)
           | Some i \<Rightarrow>
               if pd_Status (q ! i) = status then (trace, False)
               else (trace\<lparr>PendingDispatches := q[i := (q ! i)\<lparr>pd_Status := status, pd_UpdatedAt := now\<rparr>]\<rparr>,
                     True)))"

definition MarkPendingDispatchUnresolved ::
  "time \<Rightarrow> TraceSnapshot \<Rightarrow> string \<Rightarrow> string \<Rightarrow> TraceSnapshot \<times> bool" where
  "MarkPendingDispatchUnresolved now trace dispatchID diagnostic =
    (if dispatchID = [] then (trace, False)
     else let q = PendingDispatches trace
          in (case first_index (\<lambda>e. pd_ID e = dispatchID \<and> pd_active e) q of
                None \<Rightarrow> (trace, False)
              | Some i \<Rightarrow>
                  (trace\<lparr>PendingDispatches := q[i := (q ! i)\<lparr>pd_Status := PendingDispatchUnresolved,
                       pd_Diagnostic := diagnostic, pd_UpdatedAt := now\<rparr>]\<rparr>, True)))"

text \<open>A loop that closes every entry with a property; it reports whether it closed any.\<close>

definition close_entries ::
  "(PendingDispatch \<Rightarrow> bool) \<Rightarrow> PendingDispatchStatus \<Rightarrow> time \<Rightarrow> TraceSnapshot \<Rightarrow> TraceSnapshot \<times> bool" where
  "close_entries p status now trace =
    (trace\<lparr>PendingDispatches := map (\<lambda>e. if p e then e\<lparr>pd_Status := status, pd_UpdatedAt := now\<rparr> else e)
        (PendingDispatches trace)\<rparr>, list_ex p (PendingDispatches trace))"

definition ConsumeTaskPendingDispatches ::
  "TraceSnapshot \<Rightarrow> string \<Rightarrow> time \<Rightarrow> TraceSnapshot \<times> bool" where
  "ConsumeTaskPendingDispatches trace taskID now =
    (if taskID = [] then (trace, False)
     else close_entries (\<lambda>e. pd_Kind e = PendingDispatchTask \<and> pd_TaskID e = taskID \<and> pd_active e
            \<and> pd_Reason e \<noteq> ConfigBarrierHoldReason) PendingDispatchConsumed now trace)"

definition abandonPendingDispatches ::
  "TraceSnapshot \<Rightarrow> time \<Rightarrow> (PendingDispatch \<Rightarrow> bool) \<Rightarrow> TraceSnapshot \<times> bool" where
  "abandonPendingDispatches trace now abandon =
    close_entries (\<lambda>e. pd_active e \<and> abandon e) PendingDispatchAbandoned now trace"

definition AbandonPendingDispatches :: "TraceSnapshot \<Rightarrow> time \<Rightarrow> TraceSnapshot \<times> bool" where
  "AbandonPendingDispatches trace now = abandonPendingDispatches trace now (\<lambda>_. True)"

definition supersedableTaskStatus :: "TaskSnapshot \<Rightarrow> bool" where
  "supersedableTaskStatus task \<longleftrightarrow> t_Status task = TaskStatusReady"

text \<open>One iteration of the supersede loop, on the entry and the tasks.\<close>

definition superseded_entry :: "PendingDispatch \<Rightarrow> bool" where
  "superseded_entry e \<longleftrightarrow> pd_active e \<and> pd_Reason e \<noteq> ConfigBarrierHoldReason
     \<and> (pd_Kind e = PendingDispatchTask \<or> pd_Kind e = PendingDispatchDirect)"

definition skip_task ::
  "time \<Rightarrow> string \<Rightarrow> PendingDispatch \<Rightarrow> (string, TaskSnapshot) gomap \<Rightarrow> (string, TaskSnapshot) gomap" where
  "skip_task now summary e ts =
    (if superseded_entry e \<and> pd_Kind e = PendingDispatchTask then
       (case mget ts (pd_TaskID e) of
          None \<Rightarrow> ts
        | Some task \<Rightarrow>
            if supersedableTaskStatus task
            then mput (t_TaskID task)
                   (task\<lparr>t_Status := TaskStatusSkipped, t_Summary := summary, t_UpdatedAt := now\<rparr>) ts
            else ts)
     else ts)"

definition SupersedeEnergyDeferredDispatches ::
  "TraceSnapshot \<Rightarrow> time \<Rightarrow> string \<Rightarrow> TraceSnapshot \<times> bool" where
  "SupersedeEnergyDeferredDispatches trace now summary =
    (let (closed, changed) = close_entries superseded_entry PendingDispatchAbandoned now trace
     in (closed\<lparr>Tasks := fold (skip_task now summary) (PendingDispatches trace) (Tasks trace)\<rparr>, changed))"

section \<open>An id waits at most once\<close>

definition active_ids :: "PendingDispatch list \<Rightarrow> string list" where
  "active_ids q = map pd_ID (filter pd_active q)"

definition queue_ok :: "TraceSnapshot \<Rightarrow> bool" where
  "queue_ok trace \<longleftrightarrow> distinct (active_ids (PendingDispatches trace))"

lemma active_simps [simp]:
  "Active PendingDispatchPending" "\<not> Active PendingDispatchConsumed"
  "\<not> Active PendingDispatchAbandoned" "\<not> Active PendingDispatchUnresolved"
  "\<not> Active PendingDispatchStatusUnset"
  by (simp_all add: Active_def)

lemma active_ids_simps [simp]:
  "active_ids [] = []"
  "active_ids (e # q) = (if pd_active e then [pd_ID e] else []) @ active_ids q"
  "active_ids (q @ q') = active_ids q @ active_ids q'"
  by (simp_all add: active_ids_def)

lemma in_active_ids: "i \<in> set (active_ids q) \<longleftrightarrow> (\<exists>e \<in> set q. pd_ID e = i \<and> pd_active e)"
  by (auto simp: active_ids_def)

lemma ActivePendingCount_ids: "ActivePendingCount trace = int (length (active_ids (PendingDispatches trace)))"
  by (simp add: ActivePendingCount_def active_ids_def)

lemma first_index_Some:
  "first_index p xs = Some i \<Longrightarrow> i < length xs \<and> p (xs ! i) \<and> (\<forall>j < i. \<not> p (xs ! j))"
  by (induction xs arbitrary: i) (auto split: if_splits simp: less_Suc_eq_0_disj nth_Cons')

lemma first_index_None: "first_index p xs = None \<longleftrightarrow> (\<forall>x \<in> set xs. \<not> p x)"
  by (induction xs) auto

lemma last_index_Some: "last_index p xs = Some i \<Longrightarrow> i < length xs \<and> p (xs ! i)"
  by (auto simp: last_index_def rev_nth dest!: first_index_Some)

lemma last_index_None: "last_index p xs = None \<longleftrightarrow> (\<forall>x \<in> set xs. \<not> p x)"
  by (simp add: last_index_def first_index_None)

text \<open>Closing the entry at an index removes exactly its id from the waiting ones.\<close>

lemma active_ids_close_at:
  assumes "i < length q" "pd_active (q ! i)" "\<not> pd_active e" "distinct (active_ids q)"
  shows "distinct (active_ids (q[i := e]))"
    and "set (active_ids (q[i := e])) = set (active_ids q) - {pd_ID (q ! i)}"
proof -
  have q: "q = take i q @ q ! i # drop (Suc i) q"
    using assms(1) by (rule id_take_nth_drop)
  have u: "q[i := e] = take i q @ e # drop (Suc i) q"
    using assms(1) by (rule upd_conv_take_nth_drop)
  have d: "distinct (active_ids (take i q) @ pd_ID (q ! i) # active_ids (drop (Suc i) q))"
    using assms(2,4) by (subst (asm) q) simp
  show "distinct (active_ids (q[i := e]))"
    using d assms(3) by (simp add: u)
  have "set (active_ids q) = insert (pd_ID (q ! i))
      (set (active_ids (take i q)) \<union> set (active_ids (drop (Suc i) q)))"
    using assms(2) by (subst q) auto
  with d assms(3) show "set (active_ids (q[i := e])) = set (active_ids q) - {pd_ID (q ! i)}"
    by (auto simp: u)
qed

lemma active_ids_closed_at:
  "i < length q \<Longrightarrow> \<not> pd_active (q ! i) \<Longrightarrow> \<not> pd_active e \<Longrightarrow> active_ids (q[i := e]) = active_ids q"
  by (simp add: active_ids_def upd_conv_take_nth_drop)
    (metis (no_types, lifting) append_Cons append_Nil filter.simps(2) filter_append id_take_nth_drop
      map_append)

lemma active_ids_reopen_at:
  assumes "i < length q" "\<not> pd_active (q ! i)" "pd_active e" "pd_ID e \<notin> set (active_ids q)"
    "distinct (active_ids q)"
  shows "distinct (active_ids (q[i := e]))"
proof -
  have q: "q = take i q @ q ! i # drop (Suc i) q"
    using assms(1) by (rule id_take_nth_drop)
  have "active_ids q = active_ids (take i q) @ active_ids (drop (Suc i) q)"
    using assms(2) by (subst q) simp
  with assms show ?thesis
    by (simp add: upd_conv_take_nth_drop)
qed

section \<open>Frames\<close>

lemma OpenEnergyPause_frame [simp]:
  "PendingDispatches (fst (OpenEnergyPause now b trace r)) = PendingDispatches trace"
  "Tasks (fst (OpenEnergyPause now b trace r)) = Tasks trace"
  "Killed (fst (OpenEnergyPause now b trace r)) = Killed trace"
  "EnergyRemaining (fst (OpenEnergyPause now b trace r)) = EnergyRemaining trace"
  "PendingReady (fst (OpenEnergyPause now b trace r)) = PendingReady trace"
  "WorkRevision (fst (OpenEnergyPause now b trace r)) = WorkRevision trace"
  by (simp_all add: OpenEnergyPause_def)

lemma close_entries_frame [simp]:
  "Tasks (fst (close_entries p st now trace)) = Tasks trace"
  "Killed (fst (close_entries p st now trace)) = Killed trace"
  "EnergyRemaining (fst (close_entries p st now trace)) = EnergyRemaining trace"
  "EnergyBudget (fst (close_entries p st now trace)) = EnergyBudget trace"
  "EnergyAdded (fst (close_entries p st now trace)) = EnergyAdded trace"
  "EnergySeed (fst (close_entries p st now trace)) = EnergySeed trace"
  "EnergyPause (fst (close_entries p st now trace)) = EnergyPause trace"
  "PendingReady (fst (close_entries p st now trace)) = PendingReady trace"
  "WorkRevision (fst (close_entries p st now trace)) = WorkRevision trace"
  "WorkCompletion (fst (close_entries p st now trace)) = WorkCompletion trace"
  "TraceID (fst (close_entries p st now trace)) = TraceID trace"
  by (simp_all add: close_entries_def)

lemma CloseEnergyPause_frame [simp]:
  "PendingDispatches (fst (CloseEnergyPause trace)) = PendingDispatches trace"
  "Tasks (fst (CloseEnergyPause trace)) = Tasks trace"
  "Killed (fst (CloseEnergyPause trace)) = Killed trace"
  "EnergyRemaining (fst (CloseEnergyPause trace)) = EnergyRemaining trace"
  "EnergyBudget (fst (CloseEnergyPause trace)) = EnergyBudget trace"
  "EnergyAdded (fst (CloseEnergyPause trace)) = EnergyAdded trace"
  "PendingReady (fst (CloseEnergyPause trace)) = PendingReady trace"
  "WorkRevision (fst (CloseEnergyPause trace)) = WorkRevision trace"
  "EnergyPause (fst (CloseEnergyPause trace)) = None"
  "TraceID (fst (CloseEnergyPause trace)) = TraceID trace"
  by (simp_all add: CloseEnergyPause_def split: option.split)

lemma dropStalePendingReady_frame [simp]:
  "PendingDispatches (fst (dropStalePendingReady trace)) = PendingDispatches trace"
  "Tasks (fst (dropStalePendingReady trace)) = Tasks trace"
  "Killed (fst (dropStalePendingReady trace)) = Killed trace"
  "EnergyRemaining (fst (dropStalePendingReady trace)) = EnergyRemaining trace"
  "EnergyBudget (fst (dropStalePendingReady trace)) = EnergyBudget trace"
  "EnergyAdded (fst (dropStalePendingReady trace)) = EnergyAdded trace"
  "EnergySeed (fst (dropStalePendingReady trace)) = EnergySeed trace"
  "EnergyPause (fst (dropStalePendingReady trace)) = EnergyPause trace"
  "WorkRevision (fst (dropStalePendingReady trace)) = WorkRevision trace"
  "WorkCompletion (fst (dropStalePendingReady trace)) = WorkCompletion trace"
  "TraceID (fst (dropStalePendingReady trace)) = TraceID trace"
  by (auto simp: dropStalePendingReady_def split: option.split)

lemma applyReadyOverlays_frame [simp]:
  "t_TaskID (applyReadyOverlays t p) = t_TaskID t"
  "t_Status (applyReadyOverlays t p) = t_Status t"
  "t_Review (applyReadyOverlays t p) = t_Review t"
  "t_Phase (applyReadyOverlays t p) = t_Phase t"
  "t_Purpose (applyReadyOverlays t p) = t_Purpose t"
  "t_DependsOn (applyReadyOverlays t p) = t_DependsOn t"
  "t_CreatedAt (applyReadyOverlays t p) = t_CreatedAt t"
  by (simp_all add: applyReadyOverlays_def)

lemma applyPendingOverlays_frame [simp]:
  "t_TaskID (applyPendingOverlays t p) = t_TaskID t"
  "t_Status (applyPendingOverlays t p) = t_Status t"
  "t_Review (applyPendingOverlays t p) = t_Review t"
  "t_Phase (applyPendingOverlays t p) = t_Phase t"
  "t_Purpose (applyPendingOverlays t p) = t_Purpose t"
  "t_DependsOn (applyPendingOverlays t p) = t_DependsOn t"
  by (simp_all add: applyPendingOverlays_def)

section \<open>Deferral, resolution, consumption\<close>

lemma Defer_waiting:
  "list_ex (\<lambda>e. pd_ID e = i \<and> pd_active e) q \<longleftrightarrow> i \<in> set (active_ids q)"
  by (auto simp: list_ex_iff in_active_ids)

definition deferred :: "time \<Rightarrow> PendingDispatch \<Rightarrow> PendingDispatch" where
  "deferred now d = d\<lparr>
     pd_CreatedAt := (if IsZero (pd_CreatedAt d) then now else pd_CreatedAt d), pd_UpdatedAt := now,
     pd_Status := (if pd_Status d = PendingDispatchStatusUnset then PendingDispatchPending
                   else pd_Status d)\<rparr>"

lemma deferred_simps [simp]:
  "pd_ID (deferred now d) = pd_ID d" "pd_Reason (deferred now d) = pd_Reason d"
  "pd_Kind (deferred now d) = pd_Kind d" "pd_TaskID (deferred now d) = pd_TaskID d"
  "pd_active (deferred now d) \<longleftrightarrow> pd_Status d \<in> {PendingDispatchStatusUnset, PendingDispatchPending}"
  by (auto simp: deferred_def Active_def)

lemma Defer_alt:
  "DeferPendingDispatch now b trace d =
    (if pd_ID d = [] \<or> Killed trace \<or> pd_ID d \<in> set (active_ids (PendingDispatches trace))
     then (trace, False)
     else let queued = trace\<lparr>PendingDispatches := PendingDispatches trace @ [deferred now d]\<rparr>
          in (if pd_Reason d \<noteq> ConfigBarrierHoldReason \<and> EnergyRemaining trace \<le> 0
              then fst (OpenEnergyPause now b queued (pd_Reason d)) else queued, True))"
  by (simp add: DeferPendingDispatch_def Let_def Defer_waiting deferred_def [symmetric]
      requiresEnergyDeferralReason_def)

lemma Defer_frame [simp]:
  "Tasks (fst (DeferPendingDispatch now b trace d)) = Tasks trace"
  "Killed (fst (DeferPendingDispatch now b trace d)) = Killed trace"
  "EnergyRemaining (fst (DeferPendingDispatch now b trace d)) = EnergyRemaining trace"
  "PendingReady (fst (DeferPendingDispatch now b trace d)) = PendingReady trace"
  "WorkRevision (fst (DeferPendingDispatch now b trace d)) = WorkRevision trace"
  by (simp_all add: Defer_alt Let_def)

lemma Defer_queue:
  "PendingDispatches (fst (DeferPendingDispatch now b trace d)) = PendingDispatches trace
     @ (if snd (DeferPendingDispatch now b trace d) then [deferred now d] else [])"
  "snd (DeferPendingDispatch now b trace d) \<longleftrightarrow> pd_ID d \<noteq> [] \<and> \<not> Killed trace
     \<and> pd_ID d \<notin> set (active_ids (PendingDispatches trace))"
  by (simp_all add: Defer_alt Let_def)

lemma Defer_queue_ok [inv_intros]:
  "queue_ok trace \<Longrightarrow> queue_ok (fst (DeferPendingDispatch now b trace d))"
  by (auto simp: queue_ok_def Defer_queue)

lemma Defer_pause:
  assumes "DeferPendingDispatch now b trace d = (trace', True)" "EnergyPause trace = None"
    "pd_Reason d \<noteq> ConfigBarrierHoldReason" "EnergyRemaining trace \<le> 0"
  shows "\<exists>p. EnergyPause trace' = Some p \<and> pa_Reason p = pd_Reason d \<and> \<not> pa_Published p
           \<and> pa_Remaining p = EnergyRemaining trace \<and> pa_Pending p = ActivePendingCount trace'"
  using assms
  by (auto simp: Defer_alt Let_def OpenEnergyPause_def ActivePendingCount_def split: if_splits)

lemma Defer_keeps_pause:
  "EnergyPause trace = Some p \<Longrightarrow> EnergyPause (fst (DeferPendingDispatch now b trace d)) = Some p"
  by (simp add: Defer_alt Let_def OpenEnergyPause_def)

definition resolve_target :: "TraceSnapshot \<Rightarrow> string \<Rightarrow> nat option" where
  "resolve_target trace i = (case first_index (\<lambda>e. pd_ID e = i \<and> pd_active e) (PendingDispatches trace) of
     Some k \<Rightarrow> Some k | None \<Rightarrow> last_index (\<lambda>e. pd_ID e = i) (PendingDispatches trace))"

lemma resolve_target_Some:
  assumes "resolve_target trace i = Some k"
  shows "k < length (PendingDispatches trace)" "pd_ID (PendingDispatches trace ! k) = i"
    "i \<in> set (active_ids (PendingDispatches trace)) \<longleftrightarrow> pd_active (PendingDispatches trace ! k)"
  using assms
  by (auto simp: resolve_target_def in_active_ids first_index_None split: option.splits
      dest!: first_index_Some last_index_Some)

lemma resolve_target_ex:
  "i \<in> set (active_ids (PendingDispatches trace)) \<Longrightarrow> \<exists>k. resolve_target trace i = Some k"
  by (cases "first_index (\<lambda>e. pd_ID e = i \<and> pd_active e) (PendingDispatches trace)")
    (auto simp: resolve_target_def in_active_ids first_index_None)

definition resolve_status :: "PendingDispatchStatus \<Rightarrow> PendingDispatchStatus" where
  "resolve_status st = (if st = PendingDispatchStatusUnset then PendingDispatchConsumed else st)"

definition closed_entry :: "time \<Rightarrow> PendingDispatchStatus \<Rightarrow> PendingDispatch \<Rightarrow> PendingDispatch" where
  "closed_entry now st e = e\<lparr>pd_Status := resolve_status st, pd_UpdatedAt := now\<rparr>"

lemma closed_entry_simps [simp]:
  "pd_ID (closed_entry now st e) = pd_ID e"
  "pd_Status (closed_entry now st e) = resolve_status st"
  by (simp_all add: closed_entry_def)

lemma resolve_status_active [simp]: "Active (resolve_status st) \<longleftrightarrow> st = PendingDispatchPending"
  by (simp add: resolve_status_def Active_def)

lemma Resolve_alt:
  "ResolvePendingDispatch now trace i st =
    (if i = [] then (trace, False)
     else case resolve_target trace i of
         None \<Rightarrow> (trace, False)
       | Some k \<Rightarrow>
           if pd_Status (PendingDispatches trace ! k) = resolve_status st then (trace, False)
           else (trace\<lparr>PendingDispatches := (PendingDispatches trace)
                   [k := closed_entry now st (PendingDispatches trace ! k)]\<rparr>, True))"
  unfolding ResolvePendingDispatch_def resolve_target_def [symmetric] resolve_status_def [symmetric]
    Let_def closed_entry_def by (rule refl)

lemma Resolve_queue_ok [inv_intros]:
  assumes "queue_ok trace"
  shows "queue_ok (fst (ResolvePendingDispatch now trace i st))"
proof (cases "snd (ResolvePendingDispatch now trace i st)")
  case True
  then obtain k where k: "resolve_target trace i = Some k"
    and neq: "pd_Status (PendingDispatches trace ! k) \<noteq> resolve_status st"
    and t': "fst (ResolvePendingDispatch now trace i st) = trace\<lparr>PendingDispatches :=
      (PendingDispatches trace)[k := closed_entry now st (PendingDispatches trace ! k)]\<rparr>"
    by (auto simp: Resolve_alt split: if_splits option.splits)
  note tgt = resolve_target_Some [OF k]
  have "distinct (active_ids ((PendingDispatches trace)[k := closed_entry now st (PendingDispatches trace ! k)]))"
  proof (cases "pd_active (PendingDispatches trace ! k)")
    case True
    with neq have "\<not> Active (resolve_status st)" by (auto simp only: Active_def)
    with True tgt(1) assms show ?thesis
      by (intro active_ids_close_at(1)) (simp_all add: queue_ok_def)
  next
    case False
    show ?thesis
    proof (cases "st = PendingDispatchPending")
      case True
      with False tgt assms show ?thesis
        by (intro active_ids_reopen_at) (simp_all add: queue_ok_def)
    next
      case unset: False
      with False tgt assms show ?thesis by (simp add: active_ids_closed_at queue_ok_def)
    qed
  qed
  then show ?thesis by (simp add: t' queue_ok_def)
next
  case False
  with assms show ?thesis by (auto simp: Resolve_alt split: if_splits option.splits)
qed

lemma Resolve_closes:
  assumes "queue_ok trace" "i \<noteq> []" "st \<noteq> PendingDispatchPending"
  shows "set (active_ids (PendingDispatches (fst (ResolvePendingDispatch now trace i st))))
    = set (active_ids (PendingDispatches trace)) - {i}"
proof (cases "i \<in> set (active_ids (PendingDispatches trace))")
  case True
  then obtain k where k: "resolve_target trace i = Some k" using resolve_target_ex by blast
  note tgt = resolve_target_Some [OF k]
  have "pd_Status (PendingDispatches trace ! k) \<noteq> resolve_status st"
    using tgt(3) True resolve_status_active [of st] assms(3) by auto
  with active_ids_close_at(2) [of k "PendingDispatches trace"] tgt True assms k show ?thesis
    by (simp add: Resolve_alt queue_ok_def)
next
  case False
  with resolve_target_Some [of trace i] assms(3) show ?thesis
    by (auto simp: Resolve_alt active_ids_closed_at split: option.split)
qed

lemma MarkUnresolved_queue_ok [inv_intros]:
  "queue_ok trace \<Longrightarrow> queue_ok (fst (MarkPendingDispatchUnresolved now trace i diag))"
  by (auto simp: MarkPendingDispatchUnresolved_def queue_ok_def Let_def split: option.split
      dest!: first_index_Some intro!: active_ids_close_at)

text \<open>Only active work becomes unresolved: a recorded outcome is never overwritten.\<close>

lemma MarkUnresolved_keeps_outcomes:
  assumes "k < length (PendingDispatches trace)" "\<not> pd_active (PendingDispatches trace ! k)"
  shows "PendingDispatches (fst (MarkPendingDispatchUnresolved now trace i diag)) ! k
    = PendingDispatches trace ! k"
  using assms
  by (auto simp: MarkPendingDispatchUnresolved_def Let_def nth_list_update split: option.split
      dest!: first_index_Some)

lemma close_entries_active:
  assumes "\<not> Active st"
  shows "filter pd_active (PendingDispatches (fst (close_entries p st now trace)))
    = filter (\<lambda>e. pd_active e \<and> \<not> p e) (PendingDispatches trace)"
proof -
  have "filter pd_active (map (\<lambda>e. if p e then e\<lparr>pd_Status := st, pd_UpdatedAt := now\<rparr> else e) q)
      = filter (\<lambda>e. pd_active e \<and> \<not> p e) q" for q
    using assms by (induction q) auto
  then show ?thesis by (simp add: close_entries_def)
qed

lemma close_entries_queue_ok:
  "\<not> Active st \<Longrightarrow> queue_ok trace \<Longrightarrow> queue_ok (fst (close_entries p st now trace))"
proof -
  assume st: "\<not> Active st" and ok: "queue_ok trace"
  have "filter (\<lambda>e. pd_active e \<and> \<not> p e) q = filter (\<lambda>e. \<not> p e) (filter pd_active q)" for q
    by (induction q) auto
  with ok show ?thesis
    unfolding queue_ok_def active_ids_def close_entries_active [OF st]
    by (simp only: distinct_map_filter)
qed

lemma Consume_queue_ok [inv_intros]:
  "queue_ok trace \<Longrightarrow> queue_ok (fst (ConsumeTaskPendingDispatches trace i now))"
  by (simp add: ConsumeTaskPendingDispatches_def close_entries_queue_ok)

lemma Consume_frame [simp]:
  "Tasks (fst (ConsumeTaskPendingDispatches trace i now)) = Tasks trace"
  "Killed (fst (ConsumeTaskPendingDispatches trace i now)) = Killed trace"
  "EnergyRemaining (fst (ConsumeTaskPendingDispatches trace i now)) = EnergyRemaining trace"
  "EnergyBudget (fst (ConsumeTaskPendingDispatches trace i now)) = EnergyBudget trace"
  "EnergyAdded (fst (ConsumeTaskPendingDispatches trace i now)) = EnergyAdded trace"
  "EnergySeed (fst (ConsumeTaskPendingDispatches trace i now)) = EnergySeed trace"
  "EnergyPause (fst (ConsumeTaskPendingDispatches trace i now)) = EnergyPause trace"
  "PendingReady (fst (ConsumeTaskPendingDispatches trace i now)) = PendingReady trace"
  "WorkRevision (fst (ConsumeTaskPendingDispatches trace i now)) = WorkRevision trace"
  "WorkCompletion (fst (ConsumeTaskPendingDispatches trace i now)) = WorkCompletion trace"
  "TraceID (fst (ConsumeTaskPendingDispatches trace i now)) = TraceID trace"
  by (simp_all add: ConsumeTaskPendingDispatches_def)

lemma Abandon_queue_ok [inv_intros]:
  "queue_ok trace \<Longrightarrow> queue_ok (fst (AbandonPendingDispatches trace now))"
  by (simp add: AbandonPendingDispatches_def abandonPendingDispatches_def close_entries_queue_ok)

lemma Abandon_none_active:
  "filter pd_active (PendingDispatches (fst (AbandonPendingDispatches trace now))) = []"
  by (simp add: AbandonPendingDispatches_def abandonPendingDispatches_def close_entries_active)

lemma Abandon_frame [simp]:
  "Tasks (fst (AbandonPendingDispatches trace now)) = Tasks trace"
  "Killed (fst (AbandonPendingDispatches trace now)) = Killed trace"
  "EnergyRemaining (fst (AbandonPendingDispatches trace now)) = EnergyRemaining trace"
  "EnergyBudget (fst (AbandonPendingDispatches trace now)) = EnergyBudget trace"
  "EnergyAdded (fst (AbandonPendingDispatches trace now)) = EnergyAdded trace"
  "EnergySeed (fst (AbandonPendingDispatches trace now)) = EnergySeed trace"
  "EnergyPause (fst (AbandonPendingDispatches trace now)) = EnergyPause trace"
  "PendingReady (fst (AbandonPendingDispatches trace now)) = PendingReady trace"
  "WorkRevision (fst (AbandonPendingDispatches trace now)) = WorkRevision trace"
  "WorkCompletion (fst (AbandonPendingDispatches trace now)) = WorkCompletion trace"
  "TraceID (fst (AbandonPendingDispatches trace now)) = TraceID trace"
  by (simp_all add: AbandonPendingDispatches_def abandonPendingDispatches_def)

section \<open>Superseding deferred work\<close>

lemma skip_task_wf: "tasks_wf ts \<Longrightarrow> tasks_wf (skip_task now summary e ts)"
  by (auto simp: skip_task_def intro: tasks_wf_mput split: option.splits)

lemma fold_skip_wf: "tasks_wf ts \<Longrightarrow> tasks_wf (fold (skip_task now summary) q ts)"
  by (induction q arbitrary: ts) (simp_all add: skip_task_wf)

text \<open>The task a list of entries leaves behind under one id.\<close>

definition skipped :: "time \<Rightarrow> string \<Rightarrow> TaskSnapshot \<Rightarrow> TaskSnapshot" where
  "skipped now summary task =
    (if t_Status task = TaskStatusReady
     then task\<lparr>t_Status := TaskStatusSkipped, t_Summary := summary, t_UpdatedAt := now\<rparr> else task)"

lemma skipped_simps [simp]:
  "t_TaskID (skipped now s t) = t_TaskID t" "t_Review (skipped now s t) = t_Review t"
  "t_Status (skipped now s t) \<noteq> TaskStatusReady"
  "skipped now s (skipped now s t) = skipped now s t"
  by (simp_all add: skipped_def)

definition superseded_task :: "PendingDispatch list \<Rightarrow> string \<Rightarrow> bool" where
  "superseded_task q k \<longleftrightarrow> (\<exists>e \<in> set q. superseded_entry e \<and> pd_Kind e = PendingDispatchTask
     \<and> pd_TaskID e = k)"

lemma superseded_task_simps [simp]:
  "\<not> superseded_task [] k"
  "superseded_task (e # q) k \<longleftrightarrow>
    superseded_entry e \<and> pd_Kind e = PendingDispatchTask \<and> pd_TaskID e = k \<or> superseded_task q k"
  by (auto simp: superseded_task_def)

lemma skip_task_mget:
  "tasks_wf ts \<Longrightarrow> mget (skip_task now summary e ts) k =
    (if superseded_entry e \<and> pd_Kind e = PendingDispatchTask \<and> pd_TaskID e = k
     then map_option (skipped now summary) (mget ts k) else mget ts k)"
proof (cases "mget ts (pd_TaskID e)")
  case (Some t)
  moreover assume "tasks_wf ts"
  ultimately have "t_TaskID t = pd_TaskID e" by (simp add: tasks_wf_mget)
  with Some have "mget (if supersedableTaskStatus t then mput (t_TaskID t) (skipped now summary t) ts else ts) k
      = (if pd_TaskID e = k then map_option (skipped now summary) (mget ts k) else mget ts k)"
    by (cases "pd_TaskID e = k") (simp_all add: skipped_def supersedableTaskStatus_def)
  with Some show ?thesis
    by (simp add: skip_task_def skipped_def supersedableTaskStatus_def split del: if_split cong: if_cong)
      (simp split: if_split)
qed (auto simp: skip_task_def)

lemma fold_skip_mget:
  "tasks_wf ts \<Longrightarrow> mget (fold (skip_task now summary) q ts) k =
    (if superseded_task q k then map_option (skipped now summary) (mget ts k) else mget ts k)"
proof (induction q arbitrary: ts)
  case (Cons e q)
  then show ?case
    by (simp add: skip_task_wf skip_task_mget option.map_comp comp_def)
qed simp

lemma Supersede_alt:
  "SupersedeEnergyDeferredDispatches trace now summary =
    ((fst (close_entries superseded_entry PendingDispatchAbandoned now trace))
       \<lparr>Tasks := fold (skip_task now summary) (PendingDispatches trace) (Tasks trace)\<rparr>,
     list_ex superseded_entry (PendingDispatches trace))"
  by (simp add: SupersedeEnergyDeferredDispatches_def close_entries_def)

lemma Supersede_wf [inv_intros]:
  "trace_wf trace \<Longrightarrow> trace_wf (fst (SupersedeEnergyDeferredDispatches trace now summary))"
  by (simp add: Supersede_alt trace_wf_def fold_skip_wf)

lemma Supersede_queue_ok [inv_intros]:
  "queue_ok trace \<Longrightarrow> queue_ok (fst (SupersedeEnergyDeferredDispatches trace now summary))"
  using close_entries_queue_ok [of PendingDispatchAbandoned trace superseded_entry now]
  by (simp add: Supersede_alt queue_ok_def)

lemma Supersede_active:
  "filter pd_active (PendingDispatches (fst (SupersedeEnergyDeferredDispatches trace now summary)))
    = filter (\<lambda>e. pd_active e \<and> \<not> superseded_entry e) (PendingDispatches trace)"
  by (simp add: Supersede_alt close_entries_active)

lemma Supersede_mget:
  "trace_wf trace \<Longrightarrow>
    mget (Tasks (fst (SupersedeEnergyDeferredDispatches trace now summary))) k =
      (if superseded_task (PendingDispatches trace) k
       then map_option (skipped now summary) (mget (Tasks trace) k) else mget (Tasks trace) k)"
  by (simp add: Supersede_alt trace_wf_def fold_skip_mget)

lemma Supersede_frame [simp]:
  "Killed (fst (SupersedeEnergyDeferredDispatches trace now s)) = Killed trace"
  "EnergyRemaining (fst (SupersedeEnergyDeferredDispatches trace now s)) = EnergyRemaining trace"
  "EnergyBudget (fst (SupersedeEnergyDeferredDispatches trace now s)) = EnergyBudget trace"
  "EnergyAdded (fst (SupersedeEnergyDeferredDispatches trace now s)) = EnergyAdded trace"
  "EnergySeed (fst (SupersedeEnergyDeferredDispatches trace now s)) = EnergySeed trace"
  "EnergyPause (fst (SupersedeEnergyDeferredDispatches trace now s)) = EnergyPause trace"
  "PendingReady (fst (SupersedeEnergyDeferredDispatches trace now s)) = PendingReady trace"
  "WorkRevision (fst (SupersedeEnergyDeferredDispatches trace now s)) = WorkRevision trace"
  "WorkCompletion (fst (SupersedeEnergyDeferredDispatches trace now s)) = WorkCompletion trace"
  "TraceID (fst (SupersedeEnergyDeferredDispatches trace now s)) = TraceID trace"
  by (simp_all add: Supersede_alt)

section \<open>Promoting the parked kick\<close>

lemma tryPromote_Some:
  assumes "tryPromotePendingReady trace now = (trace', Some t)" "trace_wf trace"
  shows "\<not> Killed trace" "\<not> HasReadyTask trace" "t_Status t = TaskStatusReady"
    "Tasks trace' = mput (t_TaskID t) t (Tasks trace)" "PendingReady trace' = None"
    "\<exists>c. FirstEligiblePlanned trace = Some c \<and> t_TaskID c = t_TaskID t
       \<and> (\<exists>q. t = (applyPendingOverlays c q)\<lparr>t_Status := TaskStatusReady, t_UpdatedAt := now\<rparr>)"
  using assms FirstEligiblePlanned_mget [OF assms(2)]
  by (auto simp: tryPromotePendingReady_def Let_def split: option.splits if_splits)

lemma tryPromote_None: "snd (tryPromotePendingReady trace now) = None
    \<Longrightarrow> tryPromotePendingReady trace now = (trace, None)"
  by (auto simp: tryPromotePendingReady_def Let_def split: option.splits if_splits)

lemma tryPromote_wf [inv_intros]:
  "trace_wf trace \<Longrightarrow> trace_wf (fst (tryPromotePendingReady trace now))"
  by (auto simp: tryPromotePendingReady_def Let_def trace_wf_def intro: tasks_wf_mput
      split: option.splits)

lemma tryPromote_frame [simp]:
  "PendingDispatches (fst (tryPromotePendingReady trace now)) = PendingDispatches trace"
  "Killed (fst (tryPromotePendingReady trace now)) = Killed trace"
  "EnergyRemaining (fst (tryPromotePendingReady trace now)) = EnergyRemaining trace"
  "EnergyBudget (fst (tryPromotePendingReady trace now)) = EnergyBudget trace"
  "EnergyAdded (fst (tryPromotePendingReady trace now)) = EnergyAdded trace"
  "EnergySeed (fst (tryPromotePendingReady trace now)) = EnergySeed trace"
  "EnergyPause (fst (tryPromotePendingReady trace now)) = EnergyPause trace"
  "WorkRevision (fst (tryPromotePendingReady trace now)) = WorkRevision trace"
  "WorkCompletion (fst (tryPromotePendingReady trace now)) = WorkCompletion trace"
  "TraceID (fst (tryPromotePendingReady trace now)) = TraceID trace"
  by (simp_all add: tryPromotePendingReady_def Let_def split: option.split)

section \<open>Orders and episodes\<close>

interpretation pending_order: key_less pending_before "\<lambda>d. (pd_CreatedAt d, pd_ID d)"
  by unfold_locales (auto simp: pending_before_def)

lemma ActivePendingDispatches_set:
  "set (ActivePendingDispatches trace) = {d \<in> set (PendingDispatches trace). pd_active d}"
  by (auto simp: ActivePendingDispatches_def)

lemma ActivePendingDispatches_sorted:
  "sorted_wrt (\<lambda>d d'. (pd_CreatedAt d, pd_ID d) \<le> (pd_CreatedAt d', pd_ID d'))
    (ActivePendingDispatches trace)"
  using pending_order.sorted_sort [of "filter pd_active (PendingDispatches trace)"]
  unfolding ActivePendingDispatches_def pending_order.not_less_key .

definition claim_pause :: "unit \<Rightarrow> TraceSnapshot \<Rightarrow> TraceSnapshot \<times> EnergyPauseSnapshot option" where
  "claim_pause _ = ClaimEnergyPausePublished"

definition close_pause :: "unit \<Rightarrow> TraceSnapshot \<Rightarrow> TraceSnapshot \<times> EnergyPauseSnapshot option" where
  "close_pause _ = CloseEnergyPause"

interpretation claim_once: first_wins claim_pause
  by unfold_locales
    (auto simp: claim_pause_def ClaimEnergyPausePublished_def Let_def split: option.splits if_splits)

interpretation close_once: first_wins close_pause
  by unfold_locales (auto simp: close_pause_def CloseEnergyPause_def split: option.splits)

end
