(* ===== verification/LedgerClosing.thy ===== *)
theory LedgerClosing
  imports LedgerState
begin

text \<open>
  \<open>internal/taskledger/closing.go\<close>: closing rounds and the stage of a trail. A round is named
  by its number, so the next id is derived from the ledger and never drawn.
\<close>

abbreviation ClosingTaskIDPrefix :: string where "ClosingTaskIDPrefix \<equiv> ''closing-''"

definition ClosingRoundNumber :: "string \<Rightarrow> int option" where
  "ClosingRoundNumber taskID =
    (if \<not> HasPrefix taskID ClosingTaskIDPrefix then None
     else (case Atoi (TrimPrefix taskID ClosingTaskIDPrefix) of
         None \<Rightarrow> None
       | Some round \<Rightarrow> if round < 1 then None else Some round))"

definition highest_step :: "TaskSnapshot \<Rightarrow> int \<Rightarrow> int" where
  "highest_step task highest =
    (if \<not> IsClosingTask task then highest
     else (case ClosingRoundNumber (t_TaskID task) of
         None \<Rightarrow> highest
       | Some round \<Rightarrow> if round > highest then round else highest))"

definition HighestClosingRound :: "TraceSnapshot \<Rightarrow> int" where
  "HighestClosingRound trace = fold highest_step (task_list trace) 0"

text \<open>
  The loop over rounds, with fuel: of any \<open>n + 1\<close> consecutive ids a map of \<open>n\<close> tasks leaves one
  free, so one more than the number of tasks is enough.
\<close>

fun free_round :: "nat \<Rightarrow> (string, TaskSnapshot) gomap \<Rightarrow> int \<Rightarrow> string option" where
  "free_round 0 ts round = None"
| "free_round (Suc fuel) ts round =
     (let i = ClosingTaskIDPrefix @ Itoa round
      in if mget ts i = None then Some i else free_round fuel ts (wrap64 (round + 1)))"

definition NextClosingTaskID :: "TraceSnapshot \<Rightarrow> string option" where
  "NextClosingTaskID trace =
    free_round (Suc (length (Tasks trace))) (Tasks trace) (wrap64 (HighestClosingRound trace + 1))"

definition ClosingInFlight :: "TraceSnapshot \<Rightarrow> TaskSnapshot option" where
  "ClosingInFlight trace = first_sorted by_task_id
    (filter (\<lambda>t. IsClosingTask t \<and> t_Status t \<in> {TaskStatusPlanned, TaskStatusReady,
        TaskStatusRunning, TaskStatusWaitingReview, TaskStatusBlocked}) (task_list trace))"

definition HasUnfinishedClosingTask :: "TraceSnapshot \<Rightarrow> bool" where
  "HasUnfinishedClosingTask trace =
    list_ex (\<lambda>t. IsClosingTask t \<and> t_Status t \<noteq> TaskStatusCompleted) (task_list trace)"

definition taskTime :: "TaskSnapshot \<Rightarrow> time" where
  "taskTime task = (if \<not> IsZero (t_UpdatedAt task) then t_UpdatedAt task else t_CreatedAt task)"

definition latest_step ::
  "TaskSnapshot \<Rightarrow> (TaskSnapshot \<times> int) option \<Rightarrow> (TaskSnapshot \<times> int) option" where
  "latest_step task acc =
    (if \<not> IsClosingTask task then acc
     else (case ClosingRoundNumber (t_TaskID task) of
         None \<Rightarrow> acc
       | Some round \<Rightarrow> (case acc of
             None \<Rightarrow> Some (task, round)
           | Some (latest, latestRound) \<Rightarrow>
               if round > latestRound \<or> round = latestRound \<and> taskTime task > taskTime latest
               then Some (task, round) else acc)))"

definition LatestClosingTask :: "TraceSnapshot \<Rightarrow> TaskSnapshot option" where
  "LatestClosingTask trace = map_option fst (fold latest_step (task_list trace) None)"

datatype TrailStage = TrailStageWork | TrailStageClosing | TrailStageGate | TrailStageDelivered

definition MergeTaskCompleted :: "TraceSnapshot \<Rightarrow> bool" where
  "MergeTaskCompleted trace =
    list_ex (\<lambda>t. IsMergeTask t \<and> t_Status t = TaskStatusCompleted) (task_list trace)"

definition MergeGateWaiting :: "TraceSnapshot \<Rightarrow> bool" where
  "MergeGateWaiting trace =
    (if \<not> AllPreMergeCompleted trace then False
     else list_ex (\<lambda>t. IsMergeTask t \<and> t_Status t = TaskStatusWaitingReview) (task_list trace))"

definition DeriveTrailStage :: "TraceSnapshot \<Rightarrow> TrailStage" where
  "DeriveTrailStage trace =
    (if MergeTaskCompleted trace then TrailStageDelivered
     else if MergeGateWaiting trace then TrailStageGate
     else if HasUnfinishedClosingTask trace then TrailStageClosing
     else TrailStageWork)"

definition WorkTaskCount :: "TraceSnapshot \<Rightarrow> int" where
  "WorkTaskCount trace = int (length (filter (\<lambda>t. \<not> IsAnalysisTask t \<and> TaskPhaseOf t = TaskPhaseWork)
     (task_list trace)))"

definition WorkCompletedAfter :: "TraceSnapshot \<Rightarrow> TaskSnapshot \<Rightarrow> bool" where
  "WorkCompletedAfter trace closing =
    (let closingAt = taskTime closing
     in if IsZero closingAt then False
        else list_ex (\<lambda>t. \<not> IsAnalysisTask t \<and> TaskPhaseOf t = TaskPhaseWork
               \<and> t_Status t = TaskStatusCompleted \<and> taskTime t > closingAt) (task_list trace))"

definition ClosingCoversLatestWork :: "TraceSnapshot \<Rightarrow> bool" where
  "ClosingCoversLatestWork trace = (case LatestClosingTask trace of
     None \<Rightarrow> False
   | Some closing \<Rightarrow>
       if t_Status closing \<noteq> TaskStatusCompleted then True
       else \<not> WorkCompletedAfter trace closing)"

section \<open>Round numbers\<close>

lemma ClosingRoundNumber_id:
  "1 \<le> r \<Longrightarrow> r < 2 ^ 63 \<Longrightarrow> ClosingRoundNumber (ClosingTaskIDPrefix @ Itoa r) = Some r"
  using Atoi_Itoa [of r] TrimPrefix_append [of ClosingTaskIDPrefix "Itoa r"]
    HasPrefix_append [of ClosingTaskIDPrefix "Itoa r"]
  by (simp only: ClosingRoundNumber_def int64_def) simp

lemma Atoi_int64: "Atoi s = Some i \<Longrightarrow> int64 i"
  by (auto simp: Atoi_def Let_def split: if_splits option.splits list.splits)

lemma ClosingRoundNumber_bounds: "ClosingRoundNumber i = Some r \<Longrightarrow> 1 \<le> r \<and> r < 2 ^ 63"
  using Atoi_int64 [of "TrimPrefix i ClosingTaskIDPrefix" r]
  by (auto simp: ClosingRoundNumber_def int64_def split: if_splits option.splits)

lemma highest_step_ge: "h \<le> highest_step t h"
  by (auto simp: highest_step_def split: option.split)

lemma highest_step_here:
  "IsClosingTask t \<Longrightarrow> ClosingRoundNumber (t_TaskID t) = Some r \<Longrightarrow> r \<le> highest_step t h"
  by (simp add: highest_step_def)

lemma highest_fold_ge: "h \<le> fold highest_step ts h"
proof (induction ts arbitrary: h)
  case (Cons u ts)
  from highest_step_ge [of h u] Cons [of "highest_step u h"] show ?case by simp
qed simp

lemma highest_fold_in:
  "t \<in> set ts \<Longrightarrow> IsClosingTask t \<Longrightarrow> ClosingRoundNumber (t_TaskID t) = Some r
    \<Longrightarrow> r \<le> fold highest_step ts h"
proof (induction ts arbitrary: h)
  case (Cons u ts)
  show ?case
  proof (cases "t = u")
    case True
    with Cons.prems highest_step_here [of t r h] highest_fold_ge [of "highest_step u h" ts]
    show ?thesis by simp
  qed (use Cons in simp)
qed simp

lemma highest_fold_top: "h < 2 ^ 63 \<Longrightarrow> fold highest_step ts h < 2 ^ 63"
proof (induction ts arbitrary: h)
  case (Cons u ts)
  have "highest_step u h < 2 ^ 63"
    using Cons.prems ClosingRoundNumber_bounds [of "t_TaskID u"]
    by (auto simp: highest_step_def split: option.split)
  with Cons.IH show ?case by simp
qed simp

lemma HighestClosingRound_bounds:
  "0 \<le> HighestClosingRound trace" "HighestClosingRound trace < 2 ^ 63"
  using highest_fold_ge [of 0] highest_fold_top [of 0] by (simp_all add: HighestClosingRound_def)

lemma HighestClosingRound_upper:
  "t \<in> set (task_list trace) \<Longrightarrow> IsClosingTask t \<Longrightarrow> ClosingRoundNumber (t_TaskID t) = Some r
    \<Longrightarrow> r \<le> HighestClosingRound trace"
  unfolding HighestClosingRound_def by (rule highest_fold_in)

section \<open>The next id is free and is found\<close>

lemma wrap64_add: "wrap64 (wrap64 x + y) = wrap64 (x + y)"
  unfolding wrap64_def by (simp add: algebra_simps mod_simps)

lemma wrap64_eq_iff: "wrap64 x = wrap64 y \<longleftrightarrow> x mod 2 ^ 64 = y mod 2 ^ 64"
  unfolding wrap64_def by (simp add: mod_eq_dvd_iff)

definition round_id :: "int \<Rightarrow> string" where
  "round_id r = ClosingTaskIDPrefix @ Itoa r"

lemma round_id_inj: "round_id a = round_id b \<Longrightarrow> a = b"
  by (auto simp: round_id_def dest: Itoa_inj)

lemma round_shift: "wrap64 (wrap64 (r + 1) + int j) = wrap64 (r + int (Suc j))"
  unfolding wrap64_add of_nat_Suc by (simp only: add_ac)

lemma free_round_Suc:
  "free_round (Suc n) ts r =
    (if mget ts (round_id r) = None then Some (round_id r) else free_round n ts (wrap64 (r + 1)))"
  by (simp add: Let_def round_id_def)

declare free_round.simps(2) [simp del]

lemma free_round_Some:
  "int64 r \<Longrightarrow> free_round n ts r = Some i \<Longrightarrow>
    \<exists>k < n. i = round_id (wrap64 (r + int k)) \<and> mget ts i = None
      \<and> (\<forall>j < k. mget ts (round_id (wrap64 (r + int j))) \<noteq> None)"
proof (induction n arbitrary: r)
  case (Suc n)
  show ?case
  proof (cases "mget ts (round_id r) = None")
    case True
    with Suc.prems show ?thesis by (intro exI [of _ 0]) (auto simp: free_round_Suc)
  next
    case False
    with Suc.prems Suc.IH [of "wrap64 (r + 1)"] obtain k where k: "k < n"
      "i = round_id (wrap64 (r + int (Suc k)))" "mget ts i = None"
      "\<And>j. j < k \<Longrightarrow> mget ts (round_id (wrap64 (r + int (Suc j)))) \<noteq> None"
      unfolding free_round_Suc round_shift by auto
    have "mget ts (round_id (wrap64 (r + int j))) \<noteq> None" if "j < Suc k" for j
      using that False Suc.prems(1) k(4) by (cases j) simp_all
    with k(1-3) show ?thesis by blast
  qed
qed simp

lemma free_round_None:
  "int64 r \<Longrightarrow> free_round n ts r = None \<Longrightarrow> j < n \<Longrightarrow> mget ts (round_id (wrap64 (r + int j))) \<noteq> None"
proof (induction n arbitrary: r j)
  case (Suc n)
  then have here: "mget ts (round_id r) \<noteq> None" and rest: "free_round n ts (wrap64 (r + 1)) = None"
    by (simp_all add: free_round_Suc split: if_splits)
  show ?case
  proof (cases j)
    case (Suc j')
    with Suc.prems(3) Suc.IH [OF _ rest, of j'] show ?thesis unfolding round_shift by simp
  qed (use here Suc.prems(1) in simp)
qed simp

lemma free_round_enough:
  assumes "length ts < 2 ^ 64" "int64 r"
  shows "free_round (Suc (length ts)) ts r \<noteq> None"
proof
  assume none: "free_round (Suc (length ts)) ts r = None"
  define f where "f j = round_id (wrap64 (r + int j))" for j :: nat
  have "inj_on f {..<Suc (length ts)}"
  proof (rule inj_onI)
    fix a b assume ab: "a \<in> {..<Suc (length ts)}" "b \<in> {..<Suc (length ts)}" "f a = f b"
    then have "(r + int a) mod 2 ^ 64 = (r + int b) mod 2 ^ 64"
      by (simp only: f_def wrap64_eq_iff [symmetric]) (rule round_id_inj)
    then have "int a mod 2 ^ 64 = int b mod 2 ^ 64"
      by (simp add: mod_eq_dvd_iff)
    moreover have "int a < 2 ^ 64" "int b < 2 ^ 64" using ab assms(1) by simp_all
    ultimately show "a = b" by simp
  qed
  moreover have "f ` {..<Suc (length ts)} \<subseteq> fst ` set ts"
    using free_round_None [OF assms(2) none] by (auto simp: f_def map_of_eq_None_iff)
  ultimately have "Suc (length ts) \<le> card (fst ` set ts)"
    by (metis card_image card_lessThan card_mono finite_imageI finite_set)
  also have "\<dots> \<le> length ts"
    by (metis card_image_le card_length finite_set le_trans)
  finally show False by simp
qed

lemma NextClosingTaskID_fresh:
  assumes "length (Tasks trace) < 2 ^ 64"
  obtains k where "k \<le> length (Tasks trace)"
    "NextClosingTaskID trace = Some (round_id (wrap64 (HighestClosingRound trace + 1 + int k)))"
    "mget (Tasks trace) (round_id (wrap64 (HighestClosingRound trace + 1 + int k))) = None"
    "\<And>j. j < k \<Longrightarrow> mget (Tasks trace) (round_id (wrap64 (HighestClosingRound trace + 1 + int j))) \<noteq> None"
proof -
  let ?r = "wrap64 (HighestClosingRound trace + 1)"
  obtain i where i: "free_round (Suc (length (Tasks trace))) (Tasks trace) ?r = Some i"
    using free_round_enough [OF assms, of ?r] by auto
  from free_round_Some [OF _ i] that i show ?thesis
    by (auto simp: NextClosingTaskID_def wrap64_add less_Suc_eq_le)
qed

section \<open>Stages\<close>

lemma HasUnfinishedClosingTask_iff:
  "HasUnfinishedClosingTask trace \<longleftrightarrow>
    (\<exists>t \<in> set (task_list trace). IsClosingTask t \<and> t_Status t \<noteq> TaskStatusCompleted)"
  by (simp add: HasUnfinishedClosingTask_def list_ex_iff)

lemma MergeGateWaiting_iff:
  "MergeGateWaiting trace \<longleftrightarrow> AllPreMergeCompleted trace
    \<and> (\<exists>t \<in> set (task_list trace). IsMergeTask t \<and> t_Status t = TaskStatusWaitingReview)"
  by (simp add: MergeGateWaiting_def list_ex_iff)

lemma MergeTaskCompleted_iff:
  "MergeTaskCompleted trace \<longleftrightarrow>
    (\<exists>t \<in> set (task_list trace). IsMergeTask t \<and> t_Status t = TaskStatusCompleted)"
  by (simp add: MergeTaskCompleted_def list_ex_iff)

lemma WorkTaskCount_0: "WorkTaskCount trace = 0 \<longleftrightarrow>
    (\<forall>t \<in> set (task_list trace). IsAnalysisTask t \<or> TaskPhaseOf t \<noteq> TaskPhaseWork)"
  by (auto simp: WorkTaskCount_def filter_empty_conv)

lemma WorkCompletedAfter_iff:
  "WorkCompletedAfter trace c \<longleftrightarrow> \<not> IsZero (taskTime c) \<and> (\<exists>t \<in> set (task_list trace).
    \<not> IsAnalysisTask t \<and> TaskPhaseOf t = TaskPhaseWork \<and> t_Status t = TaskStatusCompleted
    \<and> taskTime t > taskTime c)"
  by (simp add: WorkCompletedAfter_def Let_def list_ex_iff)

text \<open>The latest round: its number is the highest one recorded.\<close>

lemma latest_fold:
  assumes "fold latest_step ts acc = Some (t, r)"
    and "\<And>u s. acc = Some (u, s) \<Longrightarrow> P u s"
    and "\<And>u s. u \<in> set ts \<Longrightarrow> IsClosingTask u \<Longrightarrow> ClosingRoundNumber (t_TaskID u) = Some s \<Longrightarrow> P u s"
  shows "P t r"
  using assms
proof (induction ts arbitrary: acc)
  case (Cons u ts)
  show ?case
  proof (rule Cons.IH)
    show "fold latest_step ts (latest_step u acc) = Some (t, r)" using Cons.prems(1) by simp
    show "P v s" if "latest_step u acc = Some (v, s)" for v s
      using that Cons.prems(2,3) by (auto simp: latest_step_def split: if_splits option.splits)
    show "P v s" if "v \<in> set ts" "IsClosingTask v" "ClosingRoundNumber (t_TaskID v) = Some s" for v s
      using that Cons.prems(3) by simp
  qed
qed auto

lemma latest_highest:
  "fold latest_step ts acc = Some (t, r) \<Longrightarrow> (acc = None \<and> h = 0) \<or> (\<exists>u. acc = Some (u, h))
    \<Longrightarrow> r = fold highest_step ts h"
proof (induction ts arbitrary: acc h)
  case (Cons u ts)
  have "(latest_step u acc = None \<and> highest_step u h = 0)
      \<or> (\<exists>v. latest_step u acc = Some (v, highest_step u h))"
    using Cons.prems(2) ClosingRoundNumber_bounds [of "t_TaskID u"]
    by (auto simp: latest_step_def highest_step_def split: option.split)
  with Cons.IH [of "latest_step u acc" "highest_step u h"] Cons.prems(1) show ?case by simp
qed auto

lemma LatestClosingTask_Some:
  assumes "LatestClosingTask trace = Some t"
  shows "t \<in> set (task_list trace)" "IsClosingTask t"
    "ClosingRoundNumber (t_TaskID t) = Some (HighestClosingRound trace)"
proof -
  obtain r where r: "fold latest_step (task_list trace) None = Some (t, r)"
    using assms by (auto simp: LatestClosingTask_def)
  then have "t \<in> set (task_list trace) \<and> IsClosingTask t \<and> ClosingRoundNumber (t_TaskID t) = Some r"
    by (rule latest_fold) auto
  moreover have "r = HighestClosingRound trace"
    unfolding HighestClosingRound_def using latest_highest [OF r] by simp
  ultimately show "t \<in> set (task_list trace)" "IsClosingTask t"
    "ClosingRoundNumber (t_TaskID t) = Some (HighestClosingRound trace)" by simp_all
qed

end
