(* ===== verification/LedgerCompletion.thy ===== *)
theory LedgerCompletion
  imports LedgerPending LedgerClosing GoCrypto
begin

text \<open>
  \<open>internal/taskledger/completion.go\<close>: when the accepted work of a trail is complete, which
  revision of it that is, and the one completion recorded per revision.
\<close>

section \<open>The verdict\<close>

record WorkCompletionVerdict =
  wv_Complete :: bool
  wv_Reason :: string
  wv_WorkTasks :: int

definition blocked_verdict :: "string \<Rightarrow> int \<Rightarrow> WorkCompletionVerdict" where
  "blocked_verdict reason n = \<lparr>wv_Complete = False, wv_Reason = reason, wv_WorkTasks = n\<rparr>"

text \<open>The ids, each once: the code collects them as the keys of a map.\<close>

definition activeWorkPendingTaskIDs :: "TraceSnapshot \<Rightarrow> string list" where
  "activeWorkPendingTaskIDs trace = remdups (map pd_TaskID (filter (\<lambda>d. pd_active d
     \<and> pd_Purpose d \<noteq> PurposeAnalysis \<and> pd_TaskID d \<noteq> [] \<and> pd_Kind d = PendingDispatchTask)
     (PendingDispatches trace)))"

definition string_before :: "string \<Rightarrow> string \<Rightarrow> bool" where
  "string_before a b \<longleftrightarrow> a < b"

definition task_blocks :: "TraceSnapshot \<Rightarrow> string \<Rightarrow> TaskStatus option" where
  "task_blocks trace taskID = (case mget (Tasks trace) taskID of
     None \<Rightarrow> None
   | Some task \<Rightarrow>
       if IsMergeTask task \<or> IsAnalysisTask task then None
       else if t_Status task \<noteq> TaskStatusCompleted
       then Some (if t_Status task = TaskStatusUnset then TaskStatusPlanned else t_Status task)
       else None)"

definition EvaluateWorkCompletion :: "TraceSnapshot \<Rightarrow> WorkCompletionVerdict" where
  "EvaluateWorkCompletion trace =
    (if Killed trace then blocked_verdict ''trace is killed'' 0
     else
       let workTasks = WorkTaskCount trace; deferred = activeWorkPendingTaskIDs trace
       in if workTasks = 0 then blocked_verdict ''no working task'' 0
          else if deferred \<noteq> []
          then blocked_verdict (''deferred work dispatch is still waiting ('' @ Itoa (int (length deferred))
                 @ '')'') workTasks
          else if list_ex (\<lambda>d. pd_active d \<and> pd_Purpose d \<noteq> PurposeAnalysis
                 \<and> (pd_Kind d = PendingDispatchDirect \<or> pd_TaskID d = [])) (PendingDispatches trace)
          then blocked_verdict ''deferred dispatch is still waiting'' workTasks
          else (case find (\<lambda>i. task_blocks trace i \<noteq> None)
                       (go_sort string_before (map fst (Tasks trace))) of
              Some taskID \<Rightarrow> blocked_verdict (''task '' @ taskID @ '' is ''
                  @ TaskStatus_str (the (task_blocks trace taskID))) workTasks
            | None \<Rightarrow> \<lparr>wv_Complete = True, wv_Reason = [], wv_WorkTasks = workTasks\<rparr>))"

section \<open>Revisions and identities\<close>

definition AdvanceWorkRevision :: "TraceSnapshot \<Rightarrow> TraceSnapshot" where
  "AdvanceWorkRevision trace =
    (let r = wrap64 (WorkRevision trace + 1) in trace\<lparr>WorkRevision := (if r < 1 then 1 else r)\<rparr>)"

definition isAcceptedWorkTask :: "TaskSnapshot \<Rightarrow> bool" where
  "isAcceptedWorkTask task \<longleftrightarrow> \<not> IsAnalysisTask task \<and> TaskPhaseOf task = TaskPhaseWork"

definition isReworkReturn :: "TaskStatus \<Rightarrow> bool" where
  "isReworkReturn status = (status \<in> {TaskStatusCompleted, TaskStatusFailed, TaskStatusCancelled,
     TaskStatusWaitingReview})"

definition IsWorkCompletionMilestone :: "string \<Rightarrow> bool" where
  "IsWorkCompletionMilestone kind \<longleftrightarrow> TrimSpace kind = SignalTrailWorkCompleted"

definition stableIDDigest :: "string \<Rightarrow> string" where
  "stableIDDigest s = hex_EncodeToString (take 6 (sha256_Sum256 (bytes_of s)))"

definition CompletionIDForRevision :: "string \<Rightarrow> int \<Rightarrow> string" where
  "CompletionIDForRevision traceID revision =
    (let r = (if revision < 1 then 1 else revision)
     in ''completion-r'' @ Itoa r @ ''-'' @ stableIDDigest traceID)"

datatype completion_error = CompletionIDRequired | CompletionRevisionRequired

definition RecordWorkCompletion ::
  "time \<Rightarrow> TraceSnapshot \<Rightarrow> WorkCompletionSnapshot
    \<Rightarrow> completion_error + (TraceSnapshot \<times> WorkCompletionSnapshot \<times> bool)" where
  "RecordWorkCompletion now trace completion0 =
    (let completion1 = completion0\<lparr>wc_CompletionID := TrimSpace (wc_CompletionID completion0)\<rparr>
     in if wc_CompletionID completion1 = [] then Inl CompletionIDRequired
        else if wc_WorkRevision completion1 < 1 then Inl CompletionRevisionRequired
        else
          let completion = (if IsZero (wc_CompletedAt completion1)
                            then completion1\<lparr>wc_CompletedAt := now\<rparr> else completion1)
          in (case WorkCompletion trace of
                Some recorded \<Rightarrow>
                  if wc_WorkRevision recorded = wc_WorkRevision completion
                  then Inr (trace, recorded, False)
                  else Inr (trace\<lparr>WorkCompletion := Some completion\<rparr>, completion, True)
              | None \<Rightarrow> Inr (trace\<lparr>WorkCompletion := Some completion\<rparr>, completion, True)))"

definition MarkWorkCompletionPublished ::
  "TraceSnapshot \<Rightarrow> string \<Rightarrow> publish_error + (TraceSnapshot \<times> bool)" where
  "MarkWorkCompletionPublished trace completionID = (case WorkCompletion trace of
     None \<Rightarrow> Inl NothingRecorded
   | Some c \<Rightarrow>
       if wc_CompletionID c \<noteq> completionID then Inl (IdentityMismatch completionID (wc_CompletionID c))
       else if wc_Published c then Inr (trace, False)
       else Inr (trace\<lparr>WorkCompletion := Some (c\<lparr>wc_Published := True\<rparr>)\<rparr>, True))"

section \<open>What the verdict means\<close>

interpretation string_order: key_less string_before "\<lambda>s. s"
  by unfold_locales (simp add: string_before_def)

text \<open>Deferred work that holds the milestone back.\<close>

definition holds_completion :: "PendingDispatch \<Rightarrow> bool" where
  "holds_completion d \<longleftrightarrow> pd_active d \<and> pd_Purpose d \<noteq> PurposeAnalysis
     \<and> (pd_Kind d = PendingDispatchTask \<or> pd_Kind d = PendingDispatchDirect \<or> pd_TaskID d = [])"

lemma task_blocks_None:
  "task_blocks trace i = None \<longleftrightarrow> (\<forall>t. mget (Tasks trace) i = Some t \<longrightarrow>
     IsMergeTask t \<or> IsAnalysisTask t \<or> t_Status t = TaskStatusCompleted)"
  by (auto simp: task_blocks_def split: option.split)

lemma no_task_blocks:
  "trace_wf trace \<Longrightarrow> (\<forall>i \<in> fst ` set (Tasks trace). task_blocks trace i = None) \<longleftrightarrow>
    (\<forall>t \<in> set (task_list trace). IsMergeTask t \<or> IsAnalysisTask t \<or> t_Status t = TaskStatusCompleted)"
  unfolding task_blocks_None
  by (metis in_set_conv_decomp map_of_eq_None_iff mget_mvals option.distinct(1) set_map trace_wf_task_list)

lemma EvaluateWorkCompletion_iff:
  assumes "trace_wf trace"
  shows "wv_Complete (EvaluateWorkCompletion trace) \<longleftrightarrow>
    \<not> Killed trace
    \<and> (\<exists>t \<in> set (task_list trace). isAcceptedWorkTask t)
    \<and> (\<forall>d \<in> set (PendingDispatches trace). \<not> holds_completion d)
    \<and> (\<forall>t \<in> set (task_list trace). IsMergeTask t \<or> IsAnalysisTask t \<or> t_Status t = TaskStatusCompleted)"
proof -
  have count: "WorkTaskCount trace \<noteq> 0 \<longleftrightarrow> (\<exists>t \<in> set (task_list trace). isAcceptedWorkTask t)"
    unfolding WorkTaskCount_0 by (auto simp: isAcceptedWorkTask_def)
  have pend: "(\<forall>d \<in> set (PendingDispatches trace). \<not> holds_completion d) \<longleftrightarrow>
      activeWorkPendingTaskIDs trace = [] \<and> \<not> list_ex (\<lambda>d. pd_active d \<and> pd_Purpose d \<noteq> PurposeAnalysis
        \<and> (pd_Kind d = PendingDispatchDirect \<or> pd_TaskID d = [])) (PendingDispatches trace)"
    by (auto simp: activeWorkPendingTaskIDs_def filter_empty_conv holds_completion_def list_ex_iff)
  have tasks: "find (\<lambda>i. task_blocks trace i \<noteq> None) (go_sort string_before (map fst (Tasks trace))) = None
      \<longleftrightarrow> (\<forall>i \<in> fst ` set (Tasks trace). task_blocks trace i = None)"
    by (simp add: find_None_iff)
  show ?thesis
    unfolding no_task_blocks [OF assms, symmetric] pend count [symmetric] tasks [symmetric]
    by (simp add: EvaluateWorkCompletion_def blocked_verdict_def Let_def split: option.split)
qed

section \<open>Revisions\<close>

lemma AdvanceWorkRevision_positive: "WorkRevision (AdvanceWorkRevision trace) \<ge> 1"
  by (simp add: AdvanceWorkRevision_def Let_def)

lemma AdvanceWorkRevision_next:
  "0 \<le> WorkRevision trace \<Longrightarrow> WorkRevision trace < 2 ^ 63 - 1
    \<Longrightarrow> WorkRevision (AdvanceWorkRevision trace) = WorkRevision trace + 1"
  by (simp add: AdvanceWorkRevision_def Let_def wrap64_id_bounds)

lemma AdvanceWorkRevision_frame [simp]:
  "Tasks (AdvanceWorkRevision trace) = Tasks trace"
  "Killed (AdvanceWorkRevision trace) = Killed trace"
  "TraceID (AdvanceWorkRevision trace) = TraceID trace"
  "EnergyBudget (AdvanceWorkRevision trace) = EnergyBudget trace"
  "EnergyRemaining (AdvanceWorkRevision trace) = EnergyRemaining trace"
  "EnergyAdded (AdvanceWorkRevision trace) = EnergyAdded trace"
  "EnergySeed (AdvanceWorkRevision trace) = EnergySeed trace"
  "EnergyPause (AdvanceWorkRevision trace) = EnergyPause trace"
  "PendingReady (AdvanceWorkRevision trace) = PendingReady trace"
  "PendingDispatches (AdvanceWorkRevision trace) = PendingDispatches trace"
  "WorkCompletion (AdvanceWorkRevision trace) = WorkCompletion trace"
  by (simp_all add: AdvanceWorkRevision_def Let_def)

lemma CompletionID_inj:
  "CompletionIDForRevision i r = CompletionIDForRevision i r' \<longleftrightarrow> max 1 r = max 1 r'"
  by (auto simp: CompletionIDForRevision_def Let_def max_def dest: Itoa_inj split: if_splits)

section \<open>The first completion of a revision wins\<close>

definition record_claim ::
  "int \<Rightarrow> time \<times> WorkCompletionSnapshot \<Rightarrow> TraceSnapshot \<Rightarrow> TraceSnapshot \<times> WorkCompletionSnapshot option" where
  "record_claim rv req trace =
    (case RecordWorkCompletion (fst req) trace ((snd req)\<lparr>wc_WorkRevision := rv\<rparr>) of
       Inl _ \<Rightarrow> (trace, None)
     | Inr (trace', c, won) \<Rightarrow> (trace', if won then Some c else None))"

definition completion_publish_claim :: "string \<Rightarrow> TraceSnapshot \<Rightarrow> TraceSnapshot \<times> unit option" where
  "completion_publish_claim i trace = (case MarkWorkCompletionPublished trace i of
     Inl _ \<Rightarrow> (trace, None)
   | Inr (trace', changed) \<Rightarrow> (trace', if changed then Some () else None))"

definition completion_record :: "int \<Rightarrow> time \<times> WorkCompletionSnapshot \<Rightarrow> WorkCompletionSnapshot" where
  "completion_record rv req = (snd req)\<lparr>wc_WorkRevision := rv,
     wc_CompletionID := TrimSpace (wc_CompletionID (snd req)),
     wc_CompletedAt := (if IsZero (wc_CompletedAt (snd req)) then fst req else wc_CompletedAt (snd req))\<rparr>"

lemma completion_record_revision [simp]: "wc_WorkRevision (completion_record rv req) = rv"
  by (simp add: completion_record_def)

definition recorded_revision :: "TraceSnapshot \<Rightarrow> int option" where
  "recorded_revision trace = map_option wc_WorkRevision (WorkCompletion trace)"

lemma record_claim_alt:
  "record_claim rv req trace =
    (if TrimSpace (wc_CompletionID (snd req)) = [] \<or> rv < 1 \<or> recorded_revision trace = Some rv
     then (trace, None)
     else (trace\<lparr>WorkCompletion := Some (completion_record rv req)\<rparr>, Some (completion_record rv req)))"
  by (cases "WorkCompletion trace")
    (simp_all add: record_claim_def RecordWorkCompletion_def completion_record_def
      recorded_revision_def Let_def)

lemma recorded_revision_put [simp]:
  "recorded_revision (trace\<lparr>WorkCompletion := Some c\<rparr>) = Some (wc_WorkRevision c)"
  by (simp add: recorded_revision_def)

definition record_refused :: "int \<Rightarrow> time \<times> WorkCompletionSnapshot \<Rightarrow> TraceSnapshot \<Rightarrow> bool" where
  "record_refused rv req trace \<longleftrightarrow>
     TrimSpace (wc_CompletionID (snd req)) = [] \<or> rv < 1 \<or> recorded_revision trace = Some rv"

lemma record_claim_refused: "record_refused rv req trace \<Longrightarrow> record_claim rv req trace = (trace, None)"
  by (simp only: record_claim_alt record_refused_def if_True)

lemma record_claim_won:
  "\<not> record_refused rv req trace \<Longrightarrow> record_claim rv req trace
    = (trace\<lparr>WorkCompletion := Some (completion_record rv req)\<rparr>, Some (completion_record rv req))"
  by (simp only: record_claim_alt record_refused_def if_False)

lemma record_refused_after: "record_refused rv req (trace\<lparr>WorkCompletion := Some (completion_record rv c)\<rparr>)"
  by (simp add: record_refused_def)

interpretation record_once: first_wins "record_claim rv" for rv
proof
  fix c and trace :: TraceSnapshot
  show "snd (record_claim rv c trace) = None \<Longrightarrow> fst (record_claim rv c trace) = trace"
    by (cases "record_refused rv c trace") (simp_all only: record_claim_refused record_claim_won
      fst_conv snd_conv option.distinct simp_thms)
  fix c'
  show "snd (record_claim rv c trace) \<noteq> None \<Longrightarrow>
      snd (record_claim rv c' (fst (record_claim rv c trace))) = None"
    by (cases "record_refused rv c trace") (simp_all only: record_claim_refused record_claim_won
      fst_conv snd_conv option.distinct record_refused_after simp_thms)
qed

definition publish_refused :: "string \<Rightarrow> TraceSnapshot \<Rightarrow> bool" where
  "publish_refused i trace \<longleftrightarrow> (case WorkCompletion trace of
     None \<Rightarrow> True | Some c \<Rightarrow> wc_CompletionID c \<noteq> i \<or> wc_Published c)"

lemma completion_publish_alt:
  "completion_publish_claim i trace = (if publish_refused i trace then (trace, None)
     else (trace\<lparr>WorkCompletion := map_option (wc_Published_update (\<lambda>_. True)) (WorkCompletion trace)\<rparr>,
           Some ()))"
  by (cases "WorkCompletion trace")
    (simp_all add: completion_publish_claim_def MarkWorkCompletionPublished_def publish_refused_def)

lemma publish_refused_after: "publish_refused i
    (trace\<lparr>WorkCompletion := map_option (wc_Published_update (\<lambda>_. True)) (WorkCompletion trace)\<rparr>)"
  by (simp add: publish_refused_def split: option.split)

interpretation completion_publish_once: first_wins completion_publish_claim
proof
  fix i j and trace :: TraceSnapshot
  show "snd (completion_publish_claim i trace) = None \<Longrightarrow> fst (completion_publish_claim i trace) = trace"
    by (cases "publish_refused i trace") (simp_all only: completion_publish_alt if_True if_False
      fst_conv snd_conv option.distinct simp_thms)
  show "snd (completion_publish_claim i trace) \<noteq> None
      \<Longrightarrow> snd (completion_publish_claim j (fst (completion_publish_claim i trace))) = None"
    by (cases "publish_refused i trace") (simp_all only: completion_publish_alt if_True if_False
      fst_conv snd_conv option.distinct publish_refused_after simp_thms)
qed

end
