(* ===== verification/LedgerApply.thy ===== *)
theory LedgerApply
  imports LedgerCompletion
begin

text \<open>
  \<open>internal/taskledger/apply.go\<close> and \<open>kill.go\<close>: the reducer from one bus event to the next
  snapshot. \<open>time.Now()\<close>, read when a publisher left out \<open>createdAt\<close>, is the argument
  \<open>clock\<close>. Errors are values; on an error the code returns no snapshot at all.
\<close>

section \<open>Results and decoding\<close>

datatype apply_error =
    TraceMismatch string string
  | ParseError string
  | MissingTaskID string
  | MissingStatus
  | AmountNotPositive string
  | InsufficientHoney

record reduceStep =
  rs_trace :: TraceSnapshot
  rs_ready :: "TaskSnapshot list"
  rs_changed :: bool
  rs_pauseClose :: "EnergyPauseClose option"
  rs_skipped :: bool

definition plainStep :: "TraceSnapshot \<Rightarrow> TaskSnapshot list \<Rightarrow> bool \<Rightarrow> reduceStep" where
  "plainStep trace ready changed = \<lparr>rs_trace = trace, rs_ready = ready, rs_changed = changed,
     rs_pauseClose = None, rs_skipped = False\<rparr>"

definition skipStep :: "TraceSnapshot \<Rightarrow> reduceStep" where
  "skipStep trace = \<lparr>rs_trace = trace, rs_ready = [], rs_changed = False, rs_pauseClose = None,
     rs_skipped = True\<rparr>"

definition traceForEvent :: "TraceSnapshot \<Rightarrow> Event \<Rightarrow> apply_error + TraceSnapshot" where
  "traceForEvent trace event =
    (if ev_TraceID event \<noteq> [] \<and> TraceID trace \<noteq> [] \<and> ev_TraceID event \<noteq> TraceID trace
     then Inl (TraceMismatch (ev_TraceID event) (TraceID trace))
     else if TraceID trace = [] \<and> ev_TraceID event \<noteq> []
     then Inr (trace\<lparr>TraceID := ev_TraceID event\<rparr>)
     else Inr trace)"

definition eventStamp :: "time \<Rightarrow> Event \<Rightarrow> time" where
  "eventStamp clock event = (if IsZero (ev_CreatedAt event) then clock else ev_CreatedAt event)"

definition decodePayload :: "schema \<Rightarrow> (json \<Rightarrow> 'p) \<Rightarrow> Event \<Rightarrow> string \<Rightarrow> apply_error + 'p" where
  "decodePayload s of_json event label = (case unmarshal s (ev_Payload event) of
     None \<Rightarrow> Inl (ParseError label) | Some j \<Rightarrow> Inr (of_json j))"

text \<open>\<open>signalKind\<close> ignores the decode error and keeps whatever kind was decoded.\<close>

definition signalKind :: "Event \<Rightarrow> string" where
  "signalKind event = (case ev_Payload event of RawJson j \<Rightarrow> get_str ''kind'' j | _ \<Rightarrow> [])"

definition plannedTaskPhase :: "TaskSpec \<Rightarrow> string \<Rightarrow> TaskPhase" where
  "plannedTaskPhase spec publisher =
    (let phase = DeriveTaskPhase (sp_Phase spec) (sp_Review spec)
     in if phase = TaskPhaseClosing \<and> TrimSpace publisher \<noteq> RuntimeAgentID then TaskPhaseWork
        else phase)"

definition taskOrNew :: "TraceSnapshot \<Rightarrow> string \<Rightarrow> TaskSnapshot" where
  "taskOrNew trace taskID = (case mget (Tasks trace) taskID of
     Some task \<Rightarrow> task | None \<Rightarrow> bareTask taskID)"

definition killBlocks :: "TraceSnapshot \<Rightarrow> bool" where
  "killBlocks trace = Killed trace"

section \<open>INSIGHT: task.plan\<close>

definition plannedTask :: "Event \<Rightarrow> time \<Rightarrow> TaskSpec \<Rightarrow> TaskSnapshot" where
  "plannedTask event now spec =
    \<lparr>t_TaskID = sp_TaskID spec, t_Title = sp_Title spec, t_Body = sp_Body spec, t_Bee = sp_Bee spec,
     t_Sector = sp_Sector spec, t_Intent = sp_Intent spec, t_CueID = sp_CueID spec,
     t_CueInvocationID = sp_CueInvocationID spec,
     t_Review = NormalizeTaskReviewPolicy (sp_Review spec),
     t_Phase = plannedTaskPhase spec (ev_AgentID event), t_Purpose = Purpose event,
     t_AnalysisOf = (if Purpose event = PurposeAnalysis then AnalysisOf event else []),
     t_Status = TaskStatusPlanned, t_DependsOn = sp_DependsOn spec, t_Summary = [], t_Commit = [],
     t_ProposalWorkspace = ProposalWorkspaceUnset, t_CreatedAt = now, t_UpdatedAt = now\<rparr>"

text \<open>One turn of the loop over the specs: the tasks, \<open>acceptedWork\<close>, \<open>changed\<close>.\<close>

definition plan_spec ::
  "Event \<Rightarrow> time \<Rightarrow> TaskSpec \<Rightarrow> (string, TaskSnapshot) gomap \<times> bool \<times> bool
    \<Rightarrow> (string, TaskSnapshot) gomap \<times> bool \<times> bool" where
  "plan_spec event now spec acc = (case acc of (ts, accepted, changed) \<Rightarrow>
     if sp_TaskID spec = [] then acc
     else if (case mget ts (sp_TaskID spec) of None \<Rightarrow> False | Some t \<Rightarrow> t_Status t \<noteq> TaskStatusUnset)
     then acc
     else (mput (sp_TaskID spec) (plannedTask event now spec) ts,
           accepted \<or> plannedTaskPhase spec (ev_AgentID event) = TaskPhaseWork
             \<and> Purpose event \<noteq> PurposeAnalysis, True))"

definition reduceInsight :: "TraceSnapshot \<Rightarrow> Event \<Rightarrow> time \<Rightarrow> apply_error + reduceStep" where
  "reduceInsight trace event now =
    res_bind (decodePayload TaskPlanPayload_schema TaskPlanPayload_of event ''task.plan'') (\<lambda>payload.
      if pl_Kind payload \<noteq> TaskEventPlan then Inr (skipStep trace)
      else
        let (ts, accepted, changed) = fold (plan_spec event now) (pl_Tasks payload) (Tasks trace, False, False);
            planned = trace\<lparr>Tasks := ts\<rparr>;
            revised = (if accepted then AdvanceWorkRevision planned else planned)
        in (case tryPromotePendingReady revised now of
              (trace', None) \<Rightarrow> Inr (plainStep trace' [] changed)
            | (trace', Some task) \<Rightarrow> Inr (plainStep trace' [task] True)))"

section \<open>SIGNAL: system.kill (kill.go)\<close>

definition IsKillableTaskStatus :: "TaskStatus \<Rightarrow> bool" where
  "IsKillableTaskStatus s = (s \<notin> {TaskStatusCompleted, TaskStatusFailed, TaskStatusCancelled,
     TaskStatusSkipped})"

definition kill_task :: "string \<Rightarrow> time \<Rightarrow> TaskSnapshot \<Rightarrow> TaskSnapshot" where
  "kill_task summary now task =
    (if \<not> IsKillableTaskStatus (t_Status task) then task
     else task\<lparr>t_Status := TaskStatusCancelled, t_Summary := summary, t_UpdatedAt := now\<rparr>)"

definition applySystemKill :: "TraceSnapshot \<Rightarrow> string \<Rightarrow> time \<Rightarrow> TraceSnapshot" where
  "applySystemKill trace reason now =
    (if Killed trace then trace
     else
       let summary = (if reason = [] then TraceKilledSummary else reason);
           abandoned = fst (AbandonPendingDispatches (trace\<lparr>Killed := True, PendingReady := None\<rparr>) now)
       in abandoned\<lparr>Tasks := map (\<lambda>(k, t). (k, kill_task summary now t)) (Tasks abandoned)\<rparr>)"

definition reduceSystemKill :: "TraceSnapshot \<Rightarrow> Event \<Rightarrow> time \<Rightarrow> apply_error + reduceStep" where
  "reduceSystemKill trace event now =
    res_bind (decodePayload SystemKillPayload_schema SystemKillPayload_of event ''system.kill'') (\<lambda>payload.
      if sk_Kind payload \<noteq> SignalSystemKill then Inr (skipStep trace)
      else Inr (plainStep (applySystemKill trace (sk_Reason payload) now) [] (\<not> Killed trace)))"

section \<open>SIGNAL: energy\<close>

definition reduceEnergyAdd :: "TraceSnapshot \<Rightarrow> Event \<Rightarrow> apply_error + reduceStep" where
  "reduceEnergyAdd trace event =
    res_bind (decodePayload EnergyAddPayload_schema EnergyAddPayload_of event ''energy.add'') (\<lambda>payload.
      if ea_Amount payload \<le> 0 then Inl (AmountNotPositive ''energy.add'')
      else Inr (plainStep (trace
        \<lparr>EnergyRemaining := wrap64 (EnergyRemaining trace + ea_Amount payload),
         EnergyAdded := (if EnergyBudget trace > 0 then wrap64 (EnergyAdded trace + ea_Amount payload)
                         else EnergyAdded trace)\<rparr>) [] True))"

definition reduceEnergyConsume :: "TraceSnapshot \<Rightarrow> Event \<Rightarrow> apply_error + reduceStep" where
  "reduceEnergyConsume trace event =
    res_bind (decodePayload EnergyConsumePayload_schema EnergyConsumePayload_of event ''energy.consume'')
      (\<lambda>payload.
        if ec_Amount payload \<le> 0 then Inl (AmountNotPositive ''energy.consume'')
        else if EnergyRemaining trace < ec_Amount payload then Inl InsufficientHoney
        else Inr (plainStep (trace
          \<lparr>EnergyRemaining := wrap64 (EnergyRemaining trace - ec_Amount payload)\<rparr>) [] True))"

text \<open>A stipend replaces the reserve, abandons what waited for energy, and closes the pause.\<close>

definition stipend_close :: "TraceSnapshot \<Rightarrow> int \<Rightarrow> EnergyPauseSnapshot \<Rightarrow> EnergyPauseClose" where
  "stipend_close closed pendingBefore pause =
    \<lparr>pc_Episode = pause, pc_Source = EnergyResumeSourceStipend, pc_Remaining = EnergyRemaining closed,
     pc_Budget = Allocated (EnergyBudget closed) (EnergyAdded closed), pc_PendingBefore = pendingBefore,
     pc_PendingAfter = ActivePendingCount closed, pc_Dispatched = 0,
     pc_Abandoned = pendingBefore - ActivePendingCount closed\<rparr>"

definition applyStipend :: "TraceSnapshot \<Rightarrow> int \<Rightarrow> time \<Rightarrow> reduceStep" where
  "applyStipend trace amount now =
    (let pendingBefore = ActivePendingCount trace;
         refilled = trace\<lparr>EnergyRemaining := amount\<rparr>;
         superseded = fst (SupersedeEnergyDeferredDispatches refilled now
                             (SupersededByStipendSummary amount))
     in (case CloseEnergyPause superseded of
           (_, None) \<Rightarrow> plainStep superseded [] True
         | (closed, Some pause) \<Rightarrow>
             (plainStep closed [] True)\<lparr>rs_pauseClose := Some (stipend_close closed pendingBefore pause)\<rparr>))"

definition reduceEnergyStipend :: "TraceSnapshot \<Rightarrow> Event \<Rightarrow> time \<Rightarrow> apply_error + reduceStep" where
  "reduceEnergyStipend trace event now =
    res_bind (decodePayload EnergyStipendPayload_schema EnergyStipendPayload_of event ''energy.stipend'')
      (\<lambda>payload.
        if es_Amount payload \<le> 0 then Inl (AmountNotPositive ''energy.stipend'')
        else Inr (applyStipend trace (es_Amount payload) now))"

definition reduceEnergy :: "TraceSnapshot \<Rightarrow> Event \<Rightarrow> string \<Rightarrow> time \<Rightarrow> apply_error + reduceStep" where
  "reduceEnergy trace event kind now =
    (if kind = SignalEnergyAdd then reduceEnergyAdd trace event
     else if kind = SignalEnergyConsume then reduceEnergyConsume trace event
     else if kind = SignalEnergyStipend then reduceEnergyStipend trace event now
     else if kind = SignalEnergySeeded then Inr (skipStep trace)
     else res_bind (decodePayload TaskReadyPayload_schema TaskReadyPayload_of event ''task.ready'')
            (\<lambda>_. Inr (skipStep trace)))"

section \<open>SIGNAL: task.status and task.ready\<close>

definition reduceTaskStatus :: "TraceSnapshot \<Rightarrow> Event \<Rightarrow> time \<Rightarrow> apply_error + reduceStep" where
  "reduceTaskStatus trace event now =
    res_bind (decodePayload TaskStatusPayload_schema TaskStatusPayload_of event ''task.status'') (\<lambda>payload.
      if st_Kind payload \<noteq> TaskEventStatus then Inr (skipStep trace)
      else if st_TaskID payload = [] then Inl (MissingTaskID ''task.status'')
      else if st_Status payload = TaskStatusUnset then Inl MissingStatus
      else if killBlocks trace then Inr (skipStep trace)
      else
        let old = withCreatedAt (taskOrNew trace (st_TaskID payload)) now;
            task = old\<lparr>t_Status := st_Status payload, t_Summary := st_Summary payload, t_UpdatedAt := now\<rparr>;
            stored = put_task trace (st_TaskID payload) task;
            revised = (if isAcceptedWorkTask task \<and> isReworkReturn (t_Status old)
                          \<and> (st_Status payload = TaskStatusReady \<or> st_Status payload = TaskStatusRunning)
                       then AdvanceWorkRevision stored else stored);
            consumed = (if st_Status payload = TaskStatusRunning
                        then fst (ConsumeTaskPendingDispatches revised (st_TaskID payload) now) else revised)
        in Inr (plainStep consumed [] True))"

definition reduceTaskReady :: "TraceSnapshot \<Rightarrow> Event \<Rightarrow> time \<Rightarrow> apply_error + reduceStep" where
  "reduceTaskReady trace event now =
    res_bind (decodePayload TaskReadyPayload_schema TaskReadyPayload_of event ''task.ready'') (\<lambda>payload.
      if rd_Kind payload \<noteq> TaskEventReady then Inr (skipStep trace)
      else if killBlocks trace then Inr (skipStep trace)
      else if rd_TaskID payload = [] then Inl (MissingTaskID ''task.ready'')
      else
        let parked = trace\<lparr>PendingReady := Some (pendingReadyFromPayload payload)\<rparr>
        in (case mget (Tasks trace) (rd_TaskID payload) of
              None \<Rightarrow> Inr (plainStep parked [] True)
            | Some task0 \<Rightarrow>
                if t_Status task0 = TaskStatusUnset
                then Inr (plainStep (parked\<lparr>Tasks := mdel (rd_TaskID payload) (Tasks parked)\<rparr>) [] True)
                else
                  let task = applyReadyOverlays task0 payload;
                      (base, task', ready, changed) =
                        (if t_Status task = TaskStatusReady then (trace, task, [], False)
                         else if t_Status task = TaskStatusFailed \<or> t_Status task = TaskStatusRunning then
                           (let again = task\<lparr>t_Status := TaskStatusReady, t_Summary := []\<rparr>
                            in (if isAcceptedWorkTask again \<and> isReworkReturn (t_Status task0)
                                then AdvanceWorkRevision trace else trace, again, [again], True))
                         else if \<not> HasReadyTask trace then
                           (case FirstEligiblePlanned trace of
                              None \<Rightarrow> (trace, task, [], False)
                            | Some first \<Rightarrow>
                                if t_TaskID first = rd_TaskID payload
                                then (let kicked = task\<lparr>t_Status := TaskStatusReady\<rparr>
                                      in (trace, kicked, [kicked], True))
                                else (trace, task, [], False))
                         else (trace, task, [], False))
                  in Inr (plainStep (put_task base (rd_TaskID payload) (task'\<lparr>t_UpdatedAt := now\<rparr>))
                            ready changed)))"

definition reduceSignal :: "TraceSnapshot \<Rightarrow> Event \<Rightarrow> time \<Rightarrow> apply_error + reduceStep" where
  "reduceSignal trace event now =
    (let kind = signalKind event
     in if kind = SignalSystemKill then reduceSystemKill trace event now
        else if kind = TaskEventStatus then reduceTaskStatus trace event now
        else if kind = TaskEventReady then reduceTaskReady trace event now
        else if kind = SignalCueIngress then Inr (skipStep trace)
        else reduceEnergy trace event kind now)"

section \<open>VERIFICATION and MUTATION\<close>

definition completed_task :: "TaskSnapshot \<Rightarrow> TaskCompletedPayload \<Rightarrow> time \<Rightarrow> TaskSnapshot" where
  "completed_task task0 payload now =
    (withCreatedAt task0 now)
      \<lparr>t_Status := (if cp_Status payload = TaskStatusUnset then TaskStatusCompleted else cp_Status payload),
       t_Summary := overlay (cp_Summary payload) (t_Summary task0),
       t_Commit := overlay (cp_Commit payload) (t_Commit task0),
       t_UpdatedAt := (if IsZero (cp_CompletedAt payload) then now else cp_CompletedAt payload)\<rparr>"

definition reduceVerification :: "TraceSnapshot \<Rightarrow> Event \<Rightarrow> time \<Rightarrow> apply_error + reduceStep" where
  "reduceVerification trace event now =
    res_bind (decodePayload TaskCompletedPayload_schema TaskCompletedPayload_of event ''task.completed'')
      (\<lambda>payload.
        if cp_Kind payload \<noteq> TaskEventCompleted then Inr (skipStep trace)
        else if cp_TaskID payload = [] then Inl (MissingTaskID ''task.completed'')
        else if killBlocks trace then Inr (skipStep trace)
        else
          let stored = put_task trace (cp_TaskID payload)
                         (completed_task (taskOrNew trace (cp_TaskID payload)) payload now);
              (kicked, promoted) = tryPromotePendingReady stored now;
              (final, candidate) = PromoteFirstEligible kicked now
          in Inr (plainStep final
               ((case promoted of None \<Rightarrow> [] | Some t \<Rightarrow> [t])
                @ (case candidate of None \<Rightarrow> [] | Some t \<Rightarrow> [t])) True))"

definition proposal_task :: "TaskSnapshot \<Rightarrow> MutationPayload \<Rightarrow> time \<Rightarrow> TaskSnapshot" where
  "proposal_task task0 payload now =
    (let kind = NormalizeCodeProposalKind (mu_Kind payload);
         task = withCreatedAt task0 now
     in task
      \<lparr>t_ProposalWorkspace :=
         (if mu_Workspace payload \<noteq> ProposalWorkspaceUnset then mu_Workspace payload
          else if kind = MutationCodeProposalIsolated then ProposalWorkspaceIsolated
          else if kind = MutationCodeProposalRoot then ProposalWorkspaceRoot
          else t_ProposalWorkspace task),
       t_UpdatedAt := now\<rparr>)"

definition reduceMutation :: "TraceSnapshot \<Rightarrow> Event \<Rightarrow> time \<Rightarrow> apply_error + reduceStep" where
  "reduceMutation trace event now =
    res_bind (decodePayload MutationPayload_schema MutationPayload_of event ''mutation'') (\<lambda>payload.
      if \<not> IsCodeProposalKind (mu_Kind payload) \<or> mu_TaskID payload = [] then Inr (skipStep trace)
      else Inr (plainStep (put_task trace (mu_TaskID payload)
             (proposal_task (taskOrNew trace (mu_TaskID payload)) payload now)) [] True))"

section \<open>One event, and many\<close>

definition reduceEvent :: "TraceSnapshot \<Rightarrow> Event \<Rightarrow> time \<Rightarrow> apply_error + reduceStep" where
  "reduceEvent trace event now = (case ev_Type event of
     EventInsight \<Rightarrow> reduceInsight trace event now
   | EventSignal \<Rightarrow> reduceSignal trace event now
   | EventVerification \<Rightarrow> reduceVerification trace event now
   | EventMutation \<Rightarrow> reduceMutation trace event now
   | _ \<Rightarrow> Inr (plainStep trace [] False))"

definition finishStep :: "reduceStep \<Rightarrow> ApplyResult" where
  "finishStep step =
    (if rs_skipped step
     then \<lparr>ar_Trace = rs_trace step, ar_Ready = [], ar_Changed = False, ar_PauseClose = None\<rparr>
     else let (trace, dropped) = dropStalePendingReady (rs_trace step)
          in \<lparr>ar_Trace = trace, ar_Ready = rs_ready step, ar_Changed = (rs_changed step \<or> dropped),
              ar_PauseClose = rs_pauseClose step\<rparr>)"

definition ApplyEvent :: "time \<Rightarrow> TraceSnapshot \<Rightarrow> Event \<Rightarrow> apply_error + ApplyResult" where
  "ApplyEvent clock trace event =
    res_bind (traceForEvent trace event) (\<lambda>trace'.
      res_bind (reduceEvent trace' event (eventStamp clock event)) (\<lambda>step. Inr (finishStep step)))"

fun ApplyEvents :: "time \<Rightarrow> TraceSnapshot \<Rightarrow> Event list \<Rightarrow> apply_error + TraceSnapshot" where
  "ApplyEvents clock trace [] = Inr trace"
| "ApplyEvents clock trace (ev # events) =
     res_bind (ApplyEvent clock trace ev) (\<lambda>res. ApplyEvents clock (ar_Trace res) events)"

end
