(* ===== verification/ValidateLedger.thy ===== *)
theory ValidateLedger
  imports Validate LedgerApply
begin

text \<open>
  The validator and the reducer together: an event built from an accepted input is one the
  reducer can decode. Building the event decodes the payload into \<open>any\<close> and encodes it again;
  on a payload this gives back unchanged, the reducer sees what was validated. Where object
  keys differ only in case it is not unchanged, and the reducer can see another kind.
\<close>

section \<open>Accepted by the validator, decoded by the reducer\<close>

definition ledger_kinds :: "string list" where
  "ledger_kinds = [TaskEventPlan, TaskEventReady, TaskEventStatus, TaskEventCompleted,
     SignalEnergyAdd, SignalEnergyConsume, SignalEnergyStipend, SignalSystemKill]"

lemma ledger_kinds_trimmed: "k \<in> set ledger_kinds \<Longrightarrow> TrimSpace k = k"
proof -
  have "list_all (\<lambda>k. TrimSpace k = k) ledger_kinds" by code_simp
  then show "k \<in> set ledger_kinds \<Longrightarrow> TrimSpace k = k" by (auto simp: list_all_iff)
qed

text \<open>Kind by kind: the reducer of an accepted payload does not fail, but for an overspend.\<close>

lemma unmarshal_RawJson: "unmarshal s (RawJson j) = Some j' \<longleftrightarrow> json_ok s j \<and> j' = j"
  by (auto simp: unmarshal_def)

lemma nonblank: "TrimSpace s \<noteq> [] \<Longrightarrow> s \<noteq> []"
  by auto

lemma accepted_decoded:
  assumes "decoded S f label (RawJson j) check = []" "ev_Payload ev = RawJson j"
  shows "decodePayload S f ev l = Inr (f j)" "check (f j) = []"
  using assms by (auto simp: decoded_Nil unmarshal_RawJson decodePayload_def unmarshal_def split: if_splits)

lemma plan_decodes:
  assumes "validateTaskPlan (RawJson j) = []" "get_str ''kind'' j = TaskEventPlan" "ev_Payload ev = RawJson j"
  shows "reduceInsight trace ev now \<noteq> Inl e"
proof -
  note d = accepted_decoded(1) [OF assms(1) [unfolded validateTaskPlan_def] assms(3)]
  have k: "pl_Kind (TaskPlanPayload_of j) = TaskEventPlan" using assms(2) by (simp add: TaskPlanPayload_of_def)
  show ?thesis unfolding reduceInsight_def d using k by (simp add: Let_def split: prod.splits option.splits)
qed

lemma completed_decodes:
  assumes "validateTaskCompleted (RawJson j) = []" "get_str ''kind'' j = TaskEventCompleted" "ev_Payload ev = RawJson j"
  shows "reduceVerification trace ev now \<noteq> Inl e"
proof -
  note d = accepted_decoded [OF assms(1) [unfolded validateTaskCompleted_def] assms(3)]
  have k: "cp_Kind (TaskCompletedPayload_of j) = TaskEventCompleted" using assms(2) by (simp add: TaskCompletedPayload_of_def)
  have i: "cp_TaskID (TaskCompletedPayload_of j) \<noteq> []" using d(2) by auto
  show ?thesis unfolding reduceVerification_def d(1) using k i by (simp add: Let_def split: prod.splits)
qed

lemma status_decodes:
  assumes "validateTaskStatus (RawJson j) = []" "get_str ''kind'' j = TaskEventStatus" "ev_Payload ev = RawJson j"
  shows "reduceTaskStatus trace ev now \<noteq> Inl e"
proof -
  have ok: "json_ok TaskStatusPayload_schema j" and i: "get_str ''taskId'' j \<noteq> []" and st: "get_str ''status'' j \<noteq> []"
    using assms(1) by (auto simp: validateTaskStatus_def decoded_Nil unmarshal_RawJson TaskStatusPayload_of_def dest: nonblank)
  have "TaskStatus_of (get_str ''status'' j) \<noteq> TaskStatusUnset" using st by (metis TaskStatus_str.simps(1) TaskStatus_str_of)
  with ok i assms(2,3) show ?thesis
    by (simp add: reduceTaskStatus_def decodePayload_def unmarshal_def TaskStatusPayload_of_def Let_def)
qed

lemma ready_decodes:
  assumes "validateTaskReady (RawJson j) = []" "get_str ''kind'' j = TaskEventReady" "ev_Payload ev = RawJson j"
  shows "reduceTaskReady trace ev now \<noteq> Inl e"
proof -
  have ok: "json_ok TaskReadyPayload_schema j" and i: "get_str ''taskId'' j \<noteq> []"
    using assms(1) by (auto simp: validateTaskReady_def decoded_Nil unmarshal_RawJson TaskReadyPayload_of_def dest: nonblank)
  have k: "rd_Kind (TaskReadyPayload_of j) = TaskEventReady" "rd_TaskID (TaskReadyPayload_of j) \<noteq> []"
    using assms(2) i by (simp_all add: TaskReadyPayload_of_def)
  have d: "decodePayload TaskReadyPayload_schema TaskReadyPayload_of ev l = Inr (TaskReadyPayload_of j)" for l
    using ok assms(3) by (simp add: decodePayload_def unmarshal_def)
  show ?thesis
    unfolding reduceTaskReady_def d using k by (simp add: Let_def split: option.splits prod.splits)
qed

lemma kill_decodes:
  assumes "validateSystemKill (RawJson j) = []" "ev_Payload ev = RawJson j"
  shows "reduceSystemKill trace ev now \<noteq> Inl e"
  using assms
  by (auto simp: validateSystemKill_def decoded_Nil unmarshal_RawJson reduceSystemKill_def decodePayload_def unmarshal_def)

lemma add_decodes:
  assumes "validateEnergyAdd (RawJson j) = []" "ev_Payload ev = RawJson j"
  shows "reduceEnergyAdd trace ev \<noteq> Inl e"
proof -
  note d = accepted_decoded [OF assms(1) [unfolded validateEnergyAdd_def] assms(2)]
  show ?thesis unfolding reduceEnergyAdd_def d(1) using d(2) by (simp split: if_splits)
qed

lemma consume_decodes:
  assumes "validateEnergyConsume (RawJson j) = []" "ev_Payload ev = RawJson j" "reduceEnergyConsume trace ev = Inl e"
  shows "e = InsufficientHoney"
proof -
  note d = accepted_decoded [OF assms(1) [unfolded validateEnergyConsume_def] assms(2)]
  show ?thesis using assms(3) unfolding reduceEnergyConsume_def d(1) using d(2) by (simp split: if_splits)
qed

lemma stipend_decodes:
  assumes "validateEnergyStipend (RawJson j) = []" "ev_Payload ev = RawJson j"
  shows "reduceEnergyStipend trace ev now \<noteq> Inl e"
proof -
  note d = accepted_decoded [OF assms(1) [unfolded validateEnergyStipend_def] assms(2)]
  show ?thesis unfolding reduceEnergyStipend_def d(1) using d(2) by (simp split: if_splits)
qed

lemma ledger_checks:
  "validatePayload h TaskEventPlan p = validateTaskPlan p"
  "validatePayload h TaskEventReady p = validateTaskReady p"
  "validatePayload h TaskEventStatus p = validateTaskStatus p"
  "validatePayload h TaskEventCompleted p = validateTaskCompleted p"
  "validatePayload h SignalEnergyAdd p = validateEnergyAdd p"
  "validatePayload h SignalEnergyConsume p = validateEnergyConsume p"
  "validatePayload h SignalEnergyStipend p = validateEnergyStipend p"
  "validatePayload h SignalSystemKill p = validateSystemKill p"
  by (simp_all add: validatePayload_def)

lemma ledger_types:
  "expectedEventType TaskEventPlan = Some EventInsight"
  "expectedEventType TaskEventReady = Some EventSignal"
  "expectedEventType TaskEventStatus = Some EventSignal"
  "expectedEventType TaskEventCompleted = Some EventVerification"
  "expectedEventType SignalEnergyAdd = Some EventSignal"
  "expectedEventType SignalEnergyConsume = Some EventSignal"
  "expectedEventType SignalEnergyStipend = Some EventSignal"
  "expectedEventType SignalSystemKill = Some EventSignal"
  by (simp_all add: expectedEventType_def)

lemma reduceEvent_kinds:
  "ev_Type ev = EventInsight \<Longrightarrow> reduceEvent trace ev now = reduceInsight trace ev now"
  "ev_Type ev = EventVerification \<Longrightarrow> reduceEvent trace ev now = reduceVerification trace ev now"
  "ev_Type ev = EventSignal \<Longrightarrow> signalKind ev = SignalSystemKill
    \<Longrightarrow> reduceEvent trace ev now = reduceSystemKill trace ev now"
  "ev_Type ev = EventSignal \<Longrightarrow> signalKind ev = TaskEventStatus
    \<Longrightarrow> reduceEvent trace ev now = reduceTaskStatus trace ev now"
  "ev_Type ev = EventSignal \<Longrightarrow> signalKind ev = TaskEventReady
    \<Longrightarrow> reduceEvent trace ev now = reduceTaskReady trace ev now"
  "ev_Type ev = EventSignal \<Longrightarrow> signalKind ev = SignalEnergyAdd
    \<Longrightarrow> reduceEvent trace ev now = reduceEnergyAdd trace ev"
  "ev_Type ev = EventSignal \<Longrightarrow> signalKind ev = SignalEnergyConsume
    \<Longrightarrow> reduceEvent trace ev now = reduceEnergyConsume trace ev"
  "ev_Type ev = EventSignal \<Longrightarrow> signalKind ev = SignalEnergyStipend
    \<Longrightarrow> reduceEvent trace ev now = reduceEnergyStipend trace ev now"
  by (simp_all add: reduceEvent_def reduceSignal_def reduceEnergy_def)

lemma accepted_decodes:
  assumes k: "k \<in> set ledger_kinds" and ok: "validatePayload h k (RawJson j) = []"
    and kind: "get_str ''kind'' j = k" and ty: "expectedEventType k = Some (ev_Type ev)"
    and payload: "ev_Payload ev = RawJson j" and fails: "reduceEvent trace ev now = Inl e"
  shows "e = InsufficientHoney"
proof -
  have sk: "signalKind ev = k" using kind payload by (simp add: signalKind_def)
  from k show ?thesis
    unfolding ledger_kinds_def list.set insert_iff empty_iff
  proof (elim disjE FalseE)
    assume k1: "k = TaskEventPlan"
    note t = ty [unfolded k1 ledger_types option.inject, symmetric]
    show ?thesis using plan_decodes [OF ok [unfolded k1 ledger_checks] kind [unfolded k1] payload]
      fails [unfolded reduceEvent_kinds(1) [OF t]] by blast
  next
    assume k2: "k = TaskEventReady"
    note t = ty [unfolded k2 ledger_types option.inject, symmetric]
    show ?thesis using ready_decodes [OF ok [unfolded k2 ledger_checks] kind [unfolded k2] payload]
      fails [unfolded reduceEvent_kinds(5) [OF t sk [unfolded k2]]] by blast
  next
    assume k3: "k = TaskEventStatus"
    note t = ty [unfolded k3 ledger_types option.inject, symmetric]
    show ?thesis using status_decodes [OF ok [unfolded k3 ledger_checks] kind [unfolded k3] payload]
      fails [unfolded reduceEvent_kinds(4) [OF t sk [unfolded k3]]] by blast
  next
    assume k4: "k = TaskEventCompleted"
    note t = ty [unfolded k4 ledger_types option.inject, symmetric]
    show ?thesis using completed_decodes [OF ok [unfolded k4 ledger_checks] kind [unfolded k4] payload]
      fails [unfolded reduceEvent_kinds(2) [OF t]] by blast
  next
    assume k5: "k = SignalEnergyAdd"
    note t = ty [unfolded k5 ledger_types option.inject, symmetric]
    show ?thesis using add_decodes [OF ok [unfolded k5 ledger_checks] payload]
      fails [unfolded reduceEvent_kinds(6) [OF t sk [unfolded k5]]] by blast
  next
    assume k6: "k = SignalEnergyConsume"
    note t = ty [unfolded k6 ledger_types option.inject, symmetric]
    show ?thesis by (rule consume_decodes [OF ok [unfolded k6 ledger_checks] payload
      fails [unfolded reduceEvent_kinds(7) [OF t sk [unfolded k6]]]])
  next
    assume k7: "k = SignalEnergyStipend"
    note t = ty [unfolded k7 ledger_types option.inject, symmetric]
    show ?thesis using stipend_decodes [OF ok [unfolded k7 ledger_checks] payload]
      fails [unfolded reduceEvent_kinds(8) [OF t sk [unfolded k7]]] by blast
  next
    assume k8: "k = SignalSystemKill"
    note t = ty [unfolded k8 ledger_types option.inject, symmetric]
    show ?thesis using kill_decodes [OF ok [unfolded k8 ledger_checks] payload]
      fails [unfolded reduceEvent_kinds(3) [OF t sk [unfolded k8]]] by blast
  qed
qed

text \<open>The event built from a canonical payload carries the payload as it was written.\<close>

lemma ToEvent_event:
  assumes "ToEvent h rnd now input agent = Inr ev" "in_Payload input = RawJson j" "canonical (h_float64 h) j"
    "get_str ''kind'' j \<in> set ledger_kinds"
  shows "EventInput_Validate h input = [] \<and> ev_Payload ev = RawJson j \<and> ev_Type ev = in_Type input
    \<and> ev_TraceID ev = in_TraceID input \<and> rnd \<noteq> None"
proof -
  have v: "EventInput_Validate h input = []" using assms(1) by (auto simp: ToEvent_def split: if_splits)
  obtain j' where j': "in_Payload input = RawJson j'" "PayloadKind (RawJson j') \<noteq> []" using Validate_accepts [OF v] by blast
  with assms(2) have nonempty: "PayloadKind (RawJson j) \<noteq> []" by simp
  have nn: "j \<noteq> JNull" using nonempty by (auto simp: PayloadKind_def unmarshal_def get_str_def members_def last_some_def)
  have "PayloadKind (RawJson j) = get_str ''kind'' j"
    using nonempty ledger_kinds_trimmed [OF assms(4)] by (auto simp: PayloadKind_def split: option.splits dest: unmarshal_RawJson [THEN iffD1])
  with assms(4) have "canonical_payload j x = x" for x
    by (auto simp: canonical_payload_def Let_def ledger_kinds_def)
  moreover have "decode_any (h_float64 h) j \<noteq> JNull"
    using assms(3) nn by (auto simp: canonical_def)
  ultimately show ?thesis
    using assms(1,2,3) v by (auto simp: ToEvent_def NewEvent_def NewEvent_raw_def canonical_def Let_def split: option.splits)
qed

lemma built_event_reduces:
  assumes ev: "ToEvent h rnd now input agent = Inr ev" and j: "in_Payload input = RawJson j"
    and c: "canonical (h_float64 h) j" and k: "get_str ''kind'' j \<in> set ledger_kinds"
    and fails: "ApplyEvent clock trace ev = Inl e"
  shows "e = InsufficientHoney \<or> e = TraceMismatch (in_TraceID input) (TraceID trace)"
proof -
  note built = ToEvent_event [OF ev j c k]
  obtain j' where acc: "in_Payload input = RawJson j'" "PayloadKind (RawJson j') \<noteq> []"
    "expectedEventType (PayloadKind (RawJson j')) \<in> {None, Some (in_Type input)}"
    "validatePayload h (PayloadKind (RawJson j')) (RawJson j') = []"
    using built by (blast elim: Validate_accepts)
  have j': "j' = j" using acc(1) j by simp
  have pk: "PayloadKind (RawJson j) = get_str ''kind'' j"
    using acc(2) j' ledger_kinds_trimmed [OF k] by (auto simp: PayloadKind_def split: option.splits dest: unmarshal_RawJson [THEN iffD1])
  have "expectedEventType (get_str ''kind'' j) \<noteq> None"
    using k by (auto simp: ledger_kinds_def expectedEventType_def)
  then have ty: "expectedEventType (get_str ''kind'' j) = Some (ev_Type ev)" using acc(3) j' pk built by auto
  note only = accepted_decodes [OF k acc(4) [unfolded j' pk] refl ty]
  show ?thesis
  proof (cases "traceForEvent trace ev")
    case (Inl e')
    with fails built show ?thesis by (auto simp: ApplyEvent_def traceForEvent_def split: if_splits)
  next
    case (Inr trace')
    then have "reduceEvent trace' ev (eventStamp clock ev) = Inl e"
      using fails by (cases "reduceEvent trace' ev (eventStamp clock ev)") (simp_all add: ApplyEvent_def)
    with only built show ?thesis by blast
  qed
qed

section \<open>Two members that Go reads as one\<close>

text \<open>Among the members of an object as \<open>encode_any\<close> writes them, keys ascend and are distinct.\<close>

interpretation by_name: key_less "\<lambda>a b. fst a < fst b" "fst :: string \<times> json \<Rightarrow> string"
  by unfold_locales simp

lemma keys_ok_fold_mput: "keys_ok m \<Longrightarrow> keys_ok (fold (\<lambda>kv m. mput (fst kv) (snd kv) m) kvs m)"
  by (induction kvs arbitrary: m) simp_all

lemma mget_fold_mput:
  "mget (fold (\<lambda>kv m. mput (fst kv) (snd kv) m) kvs m) k
    = (case mget (rev kvs) k of None \<Rightarrow> mget m k | Some v \<Rightarrow> Some v)"
  by (induction kvs arbitrary: m) (auto simp: map_add_def split: option.splits)

text \<open>Two entries that are all a sorted list of distinct keys has of a kind come in their order.\<close>

lemma filter_sorted_pair:
  assumes "distinct (map fst xs)" "{x \<in> set xs. P x} = {a, b}" "fst a < (fst b :: string)"
  shows "filter P (go_sort (\<lambda>a b. fst a < fst b) xs) = [a, b :: string \<times> json]"
proof -
  let ?ys = "filter P (go_sort (\<lambda>a b. fst a < fst b) xs)"
  have set: "set ?ys = {a, b}" using assms(2) by auto
  have "distinct (map fst (go_sort (\<lambda>a b. fst a < fst b) xs))"
    using assms(1) by (metis mset_eq_imp_distinct_iff mset_go_sort mset_map)
  then have d: "distinct (map fst ?ys)" by (rule distinct_map_filter)
  have "sorted (map fst ?ys)"
    using by_name.sorted_sort [of xs] by (simp add: sorted_map not_less sorted_wrt_filter)
  then have "map fst ?ys = [fst a, fst b]"
    using d set assms(3) by (intro sorted_distinct_set_unique) auto
  then obtain x y where "?ys = [x, y]" "fst x = fst a" "fst y = fst b" by (auto simp: map_eq_Cons_conv)
  then show ?thesis using set assms(3) by auto
qed

text \<open>The kind of an object with two such members is the later one.\<close>

abbreviation kind_named :: "string \<times> json \<Rightarrow> bool" where
  "kind_named kv \<equiv> field_match ''kind'' (fst kv)"

lemma PayloadKind_last:
  assumes two: "filter kind_named kvs = [(a, JStr x), (b, JStr y)]"
  shows "PayloadKind (RawJson (JObj kvs)) = TrimSpace y"
proof -
  have "snd kv \<in> {JStr x, JStr y}" if "kv \<in> set kvs" "kind_named kv" for kv
  proof -
    have "kv \<in> set (filter kind_named kvs)" using that by simp
    then show ?thesis unfolding two by auto
  qed
  then have "json_ok (SObj [(''kind'', SStr)]) (JObj kvs)" by (fastforce simp: list_all_iff)
  then show ?thesis by (simp add: PayloadKind_def unmarshal_def get_str_def members_def two last_some_def)
qed

lemma mget_filter_key: "Q k \<Longrightarrow> mget (filter (\<lambda>kv. Q (fst kv)) xs) k = mget xs k"
  by (induction xs) auto

lemma normalize_field_obj:
  assumes "keys_ok m"
  shows "\<exists>m'. normalize_field key norm (JObj m) = JObj m' \<and> keys_ok m' \<and> (\<forall>k. k \<noteq> key \<longrightarrow> mget m' k = mget m k)"
  using assms by (simp add: normalize_field_def split: option.splits json.splits prod.splits if_splits)

lemma canonical_payload_obj:
  assumes "keys_ok m"
  shows "\<exists>m'. canonical_payload j (JObj m) = JObj m' \<and> keys_ok m' \<and> (\<forall>k. field_match ''kind'' k \<longrightarrow> mget m' k = mget m k)"
proof -
  have "\<not> field_match ''kind'' ''severity''" "\<not> field_match ''kind'' ''verdict''" by code_simp+
  then show ?thesis
    using normalize_field_obj [OF assms, of "''severity''" NormalizeReviewSeverity]
      normalize_field_obj [OF assms, of "''verdict''" NormalizeFeedbackVerdict] assms
    unfolding canonical_payload_def NormalizeReviewNotePayload_def NormalizeHumanFeedbackPayload_def Let_def
    by (smt (verit))
qed

text \<open>Written with its keys sorted, the member \<open>kind\<close> comes after \<open>Kind\<close>.\<close>

lemma encoded_kinds:
  assumes "keys_ok m" "\<And>k. field_match ''kind'' k \<Longrightarrow> mget m k
      = (if k = ''kind'' then Some (JStr k1) else if k = ''Kind'' then Some (JStr k2) else None)"
  shows "PayloadKind (RawJson (encode_any (JObj m))) = TrimSpace k1"
proof -
  let ?xs = "map (map_prod id encode_any) m"
  have named: "field_match ''kind'' ''kind''" "field_match ''kind'' ''Kind''" by code_simp+
  have d: "distinct (map fst ?xs)" using assms(1) by (simp add: keys_ok_def comp_def)
  have get: "mget ?xs k = map_option encode_any (mget m k)" for k
    by (induction m) (auto simp: map_prod_def split: prod.splits)
  have "kv \<in> set ?xs \<and> kind_named kv \<longleftrightarrow> kv = (''Kind'', JStr k2) \<or> kv = (''kind'', JStr k1)" for kv
  proof -
    have "kv \<in> set ?xs \<longleftrightarrow> mget ?xs (fst kv) = Some (snd kv)" using d by (metis Some_eq_map_of_iff prod.collapse)
    then show ?thesis
      using assms(2) [of "fst kv"] named by (cases kv) (auto simp: get split: if_splits)
  qed
  then have "{kv \<in> set ?xs. kind_named kv} = {(''Kind'', JStr k2), (''kind'', JStr k1)}" by blast
  moreover have "fst (''Kind'', JStr k2) < fst (''kind'', JStr k1)" by (simp only: fst_conv, code_simp)
  ultimately have "filter kind_named (go_sort (\<lambda>a b. fst a < fst b) ?xs) = [(''Kind'', JStr k2), (''kind'', JStr k1)]"
    by (rule filter_sorted_pair [OF d])
  from PayloadKind_last [OF this] show ?thesis by simp
qed

lemma two_kinds_event:
  assumes built: "ToEvent h rnd now input agent = Inr ev" and j: "in_Payload input = RawJson (JObj kvs)"
    and two: "filter kind_named kvs = [(''kind'', JStr k1), (''Kind'', JStr k2)]"
  shows "PayloadKind (ev_Payload ev) = TrimSpace k1"
proof -
  let ?f = "decode_any (h_float64 h)"
  define m where "m = fold (\<lambda>kv m. mput (fst kv) (snd kv) m) (map (map_prod id ?f) kvs) []"
  have ok: "keys_ok m" unfolding m_def by (rule keys_ok_fold_mput) simp
  have get: "mget (rev (map (map_prod id ?f) kvs)) k = map_option ?f (mget (rev kvs) k)" for k
    by (induction kvs rule: rev_induct) (auto simp: map_prod_def split: prod.splits)
  have "mget m k = (if k = ''kind'' then Some (JStr k1) else if k = ''Kind'' then Some (JStr k2) else None)"
    if "field_match ''kind'' k" for k
  proof -
    have "mget (rev kvs) k = mget (rev (filter kind_named kvs)) k"
      unfolding rev_filter by (rule mget_filter_key [of "field_match ''kind''", OF that, symmetric])
    then show ?thesis unfolding two m_def by (auto simp: mget_fold_mput get)
  qed
  with canonical_payload_obj [OF ok, of "JObj kvs"] obtain m' where m': "canonical_payload (JObj kvs) (JObj m) = JObj m'"
    "keys_ok m'" "\<And>k. field_match ''kind'' k \<Longrightarrow> mget m' k
      = (if k = ''kind'' then Some (JStr k1) else if k = ''Kind'' then Some (JStr k2) else None)" by auto
  have "ev_Payload ev = RawJson (encode_any (JObj m'))"
    using built j m'(1) by (auto simp: ToEvent_def NewEvent_def NewEvent_raw_def m_def Let_def split: option.splits if_splits)
  with encoded_kinds [OF m'(2,3)] show ?thesis by simp
qed

end
