(* ===== verification/Encode.thy ===== *)
theory Encode
  imports GoTime ValidateLedger
begin

text \<open>
  \<open>json.Marshal\<close> of the payload structs the platform itself publishes (task.go, insight.go) and the
  events built from them. A field marked \<open>omitempty\<close> is left out when it is empty. What is encoded
  is decoded to the same record, so the reducer sees what the publisher wrote.
\<close>

section \<open>Structs as objects\<close>

definition fld :: "string \<Rightarrow> string \<Rightarrow> (string \<times> json) list" where
  "fld name v = [(name, JStr v)]"

definition fld_opt :: "string \<Rightarrow> string \<Rightarrow> (string \<times> json) list" where
  "fld_opt name v = (if v = [] then [] else [(name, JStr v)])"

definition arr_opt :: "string \<Rightarrow> json list \<Rightarrow> (string \<times> json) list" where
  "arr_opt name js = (if js = [] then [] else [(name, JArr js)])"

definition TaskSpec_json :: "TaskSpec \<Rightarrow> json" where
  "TaskSpec_json s = JObj (fld ''taskId'' (sp_TaskID s) @ fld ''title'' (sp_Title s) @ fld_opt ''body'' (sp_Body s)
     @ fld_opt ''bee'' (sp_Bee s) @ fld_opt ''sector'' (sp_Sector s) @ fld_opt ''intent'' (sp_Intent s)
     @ fld_opt ''review'' (TaskReviewPolicy_str (sp_Review s)) @ fld_opt ''phase'' (TaskPhase_str (sp_Phase s))
     @ arr_opt ''dependsOn'' (map JStr (sp_DependsOn s))
     @ fld_opt ''cueId'' (sp_CueID s) @ fld_opt ''cueInvocationId'' (sp_CueInvocationID s))"

definition TaskPlanPayload_json :: "TaskPlanPayload \<Rightarrow> json" where
  "TaskPlanPayload_json p = JObj (fld ''kind'' (pl_Kind p) @ [(''tasks'', JArr (map TaskSpec_json (pl_Tasks p)))])"

definition TaskReadyPayload_json :: "TaskReadyPayload \<Rightarrow> json" where
  "TaskReadyPayload_json p = JObj (fld ''kind'' (rd_Kind p) @ fld ''taskId'' (rd_TaskID p) @ fld_opt ''title'' (rd_Title p)
     @ fld_opt ''body'' (rd_Body p) @ fld_opt ''bee'' (rd_Bee p) @ fld_opt ''sector'' (rd_Sector p)
     @ fld_opt ''intent'' (rd_Intent p) @ fld_opt ''cueId'' (rd_CueID p)
     @ fld_opt ''cueInvocationId'' (rd_CueInvocationID p))"

definition TaskStatusPayload_json :: "TaskStatusPayload \<Rightarrow> json" where
  "TaskStatusPayload_json p = JObj (fld ''kind'' (st_Kind p) @ fld ''taskId'' (st_TaskID p)
     @ fld ''status'' (TaskStatus_str (st_Status p)) @ fld_opt ''summary'' (st_Summary p))"

text \<open>\<open>omitempty\<close> never omits a \<open>time.Time\<close>; the year may be one that cannot be written.\<close>

definition TaskCompletedPayload_json :: "TaskCompletedPayload \<Rightarrow> json option" where
  "TaskCompletedPayload_json p = map_option (\<lambda>at. JObj (fld ''kind'' (cp_Kind p) @ fld ''taskId'' (cp_TaskID p)
     @ fld ''status'' (TaskStatus_str (cp_Status p)) @ fld_opt ''summary'' (cp_Summary p)
     @ fld_opt ''commit'' (cp_Commit p) @ fld ''completedAt'' at)) (format_rfc3339 (cp_CompletedAt p))"

definition NarrativeInsightPayload_json :: "NarrativeInsightPayload \<Rightarrow> json" where
  "NarrativeInsightPayload_json p = JObj (fld ''kind'' (ni_Kind p) @ fld_opt ''summary'' (ni_Summary p)
     @ fld_opt ''taskId'' (ni_TaskID p) @ fld_opt ''severity'' (ni_Severity p))"

definition HumanFeedbackPayload_json :: "HumanFeedbackPayload \<Rightarrow> json" where
  "HumanFeedbackPayload_json p = JObj (fld ''kind'' (hf_Kind p) @ fld ''taskId'' (hf_TaskID p)
     @ fld ''message'' (hf_Message p) @ fld_opt ''ref'' (hf_Ref p) @ fld_opt ''verdict'' (hf_Verdict p))"

section \<open>Reading an encoded field back\<close>

lemma lower_keys:
  "ToLower ''kind'' = ''kind''"
  "ToLower ''tasks'' = ''tasks''"
  "ToLower ''taskId'' = ''taskid''"
  "ToLower ''title'' = ''title''"
  "ToLower ''body'' = ''body''"
  "ToLower ''bee'' = ''bee''"
  "ToLower ''sector'' = ''sector''"
  "ToLower ''intent'' = ''intent''"
  "ToLower ''review'' = ''review''"
  "ToLower ''phase'' = ''phase''"
  "ToLower ''dependsOn'' = ''dependson''"
  "ToLower ''cueId'' = ''cueid''"
  "ToLower ''cueInvocationId'' = ''cueinvocationid''"
  "ToLower ''status'' = ''status''"
  "ToLower ''summary'' = ''summary''"
  "ToLower ''commit'' = ''commit''"
  "ToLower ''completedAt'' = ''completedat''"
  "ToLower ''severity'' = ''severity''"
  "ToLower ''message'' = ''message''"
  "ToLower ''ref'' = ''ref''"
  "ToLower ''verdict'' = ''verdict''"
  by code_simp+

lemmas keys = field_match_def lower_keys

text \<open>The string an object holds under a key, or \<open>d\<close>; fields are consumed from the left.\<close>

definition reads :: "string \<Rightarrow> (string \<times> json) list \<Rightarrow> string \<Rightarrow> string" where
  "reads f kvs d = (case last_some (\<lambda>v. case v of JStr s \<Rightarrow> Some s | _ \<Rightarrow> None) (members f (JObj kvs)) of
     None \<Rightarrow> d | Some s \<Rightarrow> s)"

lemma get_str_reads: "get_str f (JObj kvs) = reads f kvs []"
  by (simp add: get_str_def reads_def)

lemma last_some_Cons:
  "last_some p (x # xs) = (case last_some p xs of None \<Rightarrow> p x | Some v \<Rightarrow> Some v)"
  by (induction xs rule: rev_induct) (auto simp: last_some_def split: option.splits)

lemma last_some_Nil [simp]: "last_some p [] = None"
  by (simp add: last_some_def)

lemma reads_Nil: "reads f [] d = d"
  by (simp add: reads_def members_def)

lemma reads_other: "\<not> field_match f k \<Longrightarrow> reads f ((k, v) # kvs) d = reads f kvs d"
  by (simp add: reads_def members_def)

lemma reads_str: "field_match f k \<Longrightarrow> reads f ((k, JStr v) # kvs) d = reads f kvs v"
  by (simp add: reads_def members_def last_some_Cons split: option.split)

lemma reads_fld:
  "field_match f k \<Longrightarrow> reads f (fld k v @ kvs) d = reads f kvs v"
  "\<not> field_match f k \<Longrightarrow> reads f (fld k v @ kvs) d = reads f kvs d"
  by (simp_all add: fld_def reads_str reads_other)

lemma reads_opt:
  "field_match f k \<Longrightarrow> reads f (fld_opt k v @ kvs) [] = reads f kvs v"
  "\<not> field_match f k \<Longrightarrow> reads f (fld_opt k v @ kvs) d = reads f kvs d"
  by (simp_all add: fld_opt_def reads_str reads_other)

lemma reads_end:
  "field_match f k \<Longrightarrow> reads f (fld k v) d = v" "\<not> field_match f k \<Longrightarrow> reads f (fld k v) d = d"
  "field_match f k \<Longrightarrow> reads f (fld_opt k v) [] = v" "\<not> field_match f k \<Longrightarrow> reads f (fld_opt k v) d = d"
  using reads_fld [of f k v "[]"] reads_opt [of f k v "[]"] by (simp_all add: reads_Nil)

text \<open>The list field of a task: read as a list by its own key, and as nothing by another.\<close>

lemma reads_arr: "\<not> field_match f k \<Longrightarrow> reads f (arr_opt k js @ kvs) d = reads f kvs d"
  by (simp add: arr_opt_def reads_other)

lemma get_arr_skip:
  "\<not> field_match f k \<Longrightarrow> get_arr f (JObj ((k, v) # kvs)) = get_arr f (JObj kvs)"
  "\<not> field_match f k \<Longrightarrow> get_arr f (JObj (fld k s @ kvs)) = get_arr f (JObj kvs)"
  "\<not> field_match f k \<Longrightarrow> get_arr f (JObj (fld_opt k s @ kvs)) = get_arr f (JObj kvs)"
  by (simp_all add: get_arr_def members_def fld_def fld_opt_def)

lemma get_arr_Nil: "get_arr f (JObj []) = []"
  by (simp add: get_arr_def members_def)

lemma get_arr_here:
  "field_match f k \<Longrightarrow> members f (JObj kvs) = [] \<Longrightarrow> get_arr f (JObj ((k, JArr js) # kvs)) = js"
  by (simp add: get_arr_def members_def last_some_Cons)

lemma get_arr_opt:
  "field_match f k \<Longrightarrow> members f (JObj kvs) = [] \<Longrightarrow> get_arr f (JObj (arr_opt k js @ kvs)) = js"
  by (cases "js = []") (simp_all add: arr_opt_def get_arr_here, simp add: get_arr_def)

lemma members_none:
  "members f (JObj []) = []"
  "\<not> field_match f k \<Longrightarrow> members f (JObj (fld k v @ kvs)) = members f (JObj kvs)"
  "\<not> field_match f k \<Longrightarrow> members f (JObj (fld_opt k v @ kvs)) = members f (JObj kvs)"
  "\<not> field_match f k \<Longrightarrow> members f (JObj (fld k v)) = []"
  "\<not> field_match f k \<Longrightarrow> members f (JObj (fld_opt k v)) = []"
  by (simp_all add: members_def fld_def fld_opt_def)

lemmas read_back = get_str_reads reads_Nil reads_end reads_fld reads_opt reads_arr reads_other get_strs_def get_arr_skip get_arr_here
  get_arr_opt get_arr_Nil members_none comp_def json_str_def keys

section \<open>Schemas accept what was encoded\<close>

definition fields_ok :: "(string \<times> schema) list \<Rightarrow> (string \<times> json) list \<Rightarrow> bool" where
  "fields_ok fs kvs \<longleftrightarrow> list_all (\<lambda>kv. case find (\<lambda>f. field_match (fst f) (fst kv)) fs of
     None \<Rightarrow> True | Some f \<Rightarrow> json_ok (snd f) (snd kv)) kvs"

lemma fields_ok_iff: "json_ok (SObj fs) (JObj kvs) = fields_ok fs kvs"
  by (simp add: fields_ok_def)

lemma fields_ok_append: "fields_ok fs (xs @ ys) \<longleftrightarrow> fields_ok fs xs \<and> fields_ok fs ys"
  by (simp add: fields_ok_def)

lemma fields_ok_Nil: "fields_ok fs []"
  by (simp add: fields_ok_def)

lemma fields_ok_single:
  "fields_ok fs [(k, v)] \<longleftrightarrow> (case find (\<lambda>f. field_match (fst f) k) fs of None \<Rightarrow> True | Some f \<Rightarrow> json_ok (snd f) v)"
  by (auto simp: fields_ok_def split: option.splits)

definition is_text :: "(string \<times> schema) list \<Rightarrow> string \<Rightarrow> bool" where
  "is_text fs k \<longleftrightarrow> (case find (\<lambda>f. field_match (fst f) k) fs of None \<Rightarrow> True | Some f \<Rightarrow> snd f = SStr)"

lemma fields_ok_fld: "is_text fs k \<Longrightarrow> fields_ok fs (fld k v)" "is_text fs k \<Longrightarrow> fields_ok fs (fld_opt k v)"
  by (auto simp: is_text_def fields_ok_single fields_ok_Nil fld_def fld_opt_def split: option.splits)

lemma fields_ok_arr:
  "find (\<lambda>f. field_match (fst f) k) fs = Some (k, SArr s) \<Longrightarrow> list_all (json_ok s) js \<Longrightarrow> fields_ok fs (arr_opt k js)"
  by (simp add: fields_ok_single fields_ok_Nil arr_opt_def)

lemma json_ok_str: "json_ok SStr (JStr v)"
  by simp

lemma texts_ok: "list_all (json_ok SStr) (map JStr xs)"
  by (simp add: list_all_iff)

lemmas encode_ok = fields_ok_iff fields_ok_append fields_ok_fld fields_ok_arr fields_ok_Nil fields_ok_single
  is_text_def texts_ok json_ok_str keys

section \<open>Round trips\<close>

text \<open>Vocabulary values that are not a known spelling in disguise.\<close>

definition canonical_spec :: "TaskSpec \<Rightarrow> bool" where
  "canonical_spec s \<longleftrightarrow> TaskReviewPolicy_of (TaskReviewPolicy_str (sp_Review s)) = sp_Review s
     \<and> TaskPhase_of (TaskPhase_str (sp_Phase s)) = sp_Phase s"

lemma TaskSpec_decoded: "canonical_spec s \<Longrightarrow> TaskSpec_of (TaskSpec_json s) = s"
  unfolding TaskSpec_of_def TaskSpec_json_def canonical_spec_def
  by (simp add: read_back)

lemma TaskSpec_accepted: "json_ok TaskSpec_schema (TaskSpec_json s)"
  unfolding TaskSpec_schema_def TaskSpec_json_def by (simp add: encode_ok del: json_ok.simps)

lemma TaskPlan_decoded:
  assumes "list_all canonical_spec (pl_Tasks p)"
  shows "TaskPlanPayload_of (TaskPlanPayload_json p) = p"
proof -
  have "map TaskSpec_of (map TaskSpec_json (pl_Tasks p)) = pl_Tasks p"
    using assms by (auto simp: list_all_iff TaskSpec_decoded intro: map_idI)
  then show ?thesis
    unfolding TaskPlanPayload_of_def TaskPlanPayload_json_def by (simp add: read_back)
qed

lemma TaskPlan_accepted: "json_ok TaskPlanPayload_schema (TaskPlanPayload_json p)"
proof -
  have "json_ok (SArr TaskSpec_schema) (JArr (map TaskSpec_json (pl_Tasks p)))"
    using TaskSpec_accepted by (simp add: list_all_iff)
  then show ?thesis
    unfolding TaskPlanPayload_schema_def TaskPlanPayload_json_def by (simp add: encode_ok del: json_ok.simps)
qed

lemma TaskReady_decoded: "TaskReadyPayload_of (TaskReadyPayload_json p) = p"
  unfolding TaskReadyPayload_of_def TaskReadyPayload_json_def by (simp add: read_back)

lemma TaskReady_accepted: "json_ok TaskReadyPayload_schema (TaskReadyPayload_json p)"
  unfolding TaskReadyPayload_schema_def TaskReadyPayload_json_def by (simp add: encode_ok del: json_ok.simps)

lemma TaskStatus_decoded:
  "TaskStatus_of (TaskStatus_str (st_Status p)) = st_Status p \<Longrightarrow> TaskStatusPayload_of (TaskStatusPayload_json p) = p"
  unfolding TaskStatusPayload_of_def TaskStatusPayload_json_def by (simp add: read_back)

lemma TaskStatus_accepted: "json_ok TaskStatusPayload_schema (TaskStatusPayload_json p)"
  unfolding TaskStatusPayload_schema_def TaskStatusPayload_json_def by (simp add: encode_ok del: json_ok.simps)

lemma get_time_last:
  "\<not> field_match f k \<Longrightarrow> get_time f (JObj (fld k v @ kvs)) = get_time f (JObj kvs)"
  "\<not> field_match f k \<Longrightarrow> get_time f (JObj (fld_opt k v @ kvs)) = get_time f (JObj kvs)"
  "field_match f k \<Longrightarrow> parse_rfc3339 v = Some t \<Longrightarrow> get_time f (JObj (fld k v)) = t"
  by (simp_all add: get_time_def members_def fld_def fld_opt_def last_some_Cons)

lemma TaskCompleted_decoded:
  assumes "TaskCompletedPayload_json p = Some j" "TaskStatus_of (TaskStatus_str (cp_Status p)) = cp_Status p"
  shows "TaskCompletedPayload_of j = p"
proof -
  obtain at where at: "format_rfc3339 (cp_CompletedAt p) = Some at" "parse_rfc3339 at = Some (cp_CompletedAt p)"
    using assms(1) parse_format by (auto simp: TaskCompletedPayload_json_def)
  with assms show ?thesis
    unfolding TaskCompletedPayload_of_def TaskCompletedPayload_json_def
    by (auto simp: read_back get_time_last)
qed

lemma fields_ok_time:
  assumes "find (\<lambda>f. field_match (fst f) k) fs = Some (k, STime)" "parse_rfc3339 v \<noteq> None"
  shows "fields_ok fs (fld k v)"
  using assms by (simp add: fields_ok_def fld_def)

lemma TaskCompleted_accepted:
  assumes "TaskCompletedPayload_json p = Some j"
  shows "json_ok TaskCompletedPayload_schema j"
proof -
  obtain at where at: "format_rfc3339 (cp_CompletedAt p) = Some at" "parse_rfc3339 at \<noteq> None"
    and j: "j = JObj (fld ''kind'' (cp_Kind p) @ fld ''taskId'' (cp_TaskID p)
     @ fld ''status'' (TaskStatus_str (cp_Status p)) @ fld_opt ''summary'' (cp_Summary p)
     @ fld_opt ''commit'' (cp_Commit p) @ fld ''completedAt'' at)"
    using assms parse_format by (auto simp: TaskCompletedPayload_json_def)
  have "fields_ok [(''kind'', SStr), (''taskId'', SStr), (''status'', SStr), (''summary'', SStr),
      (''commit'', SStr), (''completedAt'', STime)] (fld ''completedAt'' at)"
    by (rule fields_ok_time) (simp_all add: keys at)
  then show ?thesis
    unfolding j TaskCompletedPayload_schema_def by (simp add: encode_ok del: json_ok.simps)
qed

lemma HumanFeedback_decoded: "HumanFeedbackPayload_of (HumanFeedbackPayload_json p) = p"
  unfolding HumanFeedbackPayload_of_def HumanFeedbackPayload_json_def by (simp add: read_back)

lemma Narrative_decoded: "NarrativeInsightPayload_of (NarrativeInsightPayload_json p) = p"
  unfolding NarrativeInsightPayload_of_def NarrativeInsightPayload_json_def by (simp add: read_back)

section \<open>The reducer reads what was written\<close>

lemma decode_plan:
  "ev_Payload ev = RawJson (TaskPlanPayload_json p) \<Longrightarrow> list_all canonical_spec (pl_Tasks p)
    \<Longrightarrow> decodePayload TaskPlanPayload_schema TaskPlanPayload_of ev l = Inr p"
  by (simp add: decodePayload_def unmarshal_def TaskPlan_accepted TaskPlan_decoded)

lemma decode_ready:
  "ev_Payload ev = RawJson (TaskReadyPayload_json p)
    \<Longrightarrow> decodePayload TaskReadyPayload_schema TaskReadyPayload_of ev l = Inr p"
  by (simp add: decodePayload_def unmarshal_def TaskReady_accepted TaskReady_decoded)

lemma decode_status:
  "ev_Payload ev = RawJson (TaskStatusPayload_json p) \<Longrightarrow> TaskStatus_of (TaskStatus_str (st_Status p)) = st_Status p
    \<Longrightarrow> decodePayload TaskStatusPayload_schema TaskStatusPayload_of ev l = Inr p"
  by (simp add: decodePayload_def unmarshal_def TaskStatus_accepted TaskStatus_decoded)

lemma decode_completed:
  "ev_Payload ev = RawJson j \<Longrightarrow> TaskCompletedPayload_json p = Some j
    \<Longrightarrow> TaskStatus_of (TaskStatus_str (cp_Status p)) = cp_Status p
    \<Longrightarrow> decodePayload TaskCompletedPayload_schema TaskCompletedPayload_of ev l = Inr p"
  by (simp add: decodePayload_def unmarshal_def TaskCompleted_accepted TaskCompleted_decoded)

text \<open>Which reducer an encoded payload reaches.\<close>

lemma kind_ready: "ev_Payload ev = RawJson (TaskReadyPayload_json p) \<Longrightarrow> signalKind ev = rd_Kind p"
  by (simp add: signalKind_def TaskReadyPayload_json_def read_back)

lemma kind_status: "ev_Payload ev = RawJson (TaskStatusPayload_json p) \<Longrightarrow> signalKind ev = st_Kind p"
  by (simp add: signalKind_def TaskStatusPayload_json_def read_back)

text \<open>A narrative insight decodes as a plan of another kind, which the reducer skips.\<close>

lemma narrative_skipped:
  assumes "ev_Payload ev = RawJson (NarrativeInsightPayload_json p)" "ni_Kind p \<noteq> TaskEventPlan"
  shows "reduceInsight trace ev now = Inr (skipStep trace)"
proof -
  have "json_ok TaskPlanPayload_schema (NarrativeInsightPayload_json p)"
    unfolding TaskPlanPayload_schema_def NarrativeInsightPayload_json_def by (simp add: encode_ok del: json_ok.simps)
  moreover have "pl_Kind (TaskPlanPayload_of (NarrativeInsightPayload_json p)) = ni_Kind p"
    unfolding TaskPlanPayload_of_def NarrativeInsightPayload_json_def by (simp add: read_back)
  ultimately show ?thesis
    using assms by (simp add: reduceInsight_def decodePayload_def unmarshal_def)
qed

end
