(* ===== verification/LedgerReduce.thy ===== *)
theory LedgerReduce
  imports LedgerApply
begin

text \<open>
  Facts about the reducers of LedgerApply, one per reducer: what a successful reduction can
  be. The invariants of the ledger and the properties of one event rest on these.
\<close>

section \<open>Inversion of the reducers\<close>

lemmas reduce_inv = res_bind_Inr_iff

lemma plainStep_simps [simp]:
  "rs_trace (plainStep trace ready changed) = trace" "rs_ready (plainStep trace ready changed) = ready"
  "rs_changed (plainStep trace ready changed) = changed"
  "rs_pauseClose (plainStep trace ready changed) = None"
  "\<not> rs_skipped (plainStep trace ready changed)"
  by (simp_all add: plainStep_def)

lemma skipStep_simps [simp]:
  "rs_trace (skipStep trace) = trace" "rs_ready (skipStep trace) = []" "\<not> rs_changed (skipStep trace)"
  "rs_pauseClose (skipStep trace) = None" "rs_skipped (skipStep trace)"
  by (simp_all add: skipStep_def)

lemma decodePayload_Inr: "decodePayload s f ev l = Inr p \<longleftrightarrow> (\<exists>j. unmarshal s (ev_Payload ev) = Some j \<and> p = f j)"
  by (auto simp: decodePayload_def split: option.splits)

definition status_step :: "TraceSnapshot \<Rightarrow> TaskStatusPayload \<Rightarrow> time \<Rightarrow> TraceSnapshot" where
  "status_step trace p now =
    (let old = withCreatedAt (taskOrNew trace (st_TaskID p)) now;
         task = old\<lparr>t_Status := st_Status p, t_Summary := st_Summary p, t_UpdatedAt := now\<rparr>;
         stored = put_task trace (st_TaskID p) task;
         revised = (if isAcceptedWorkTask task \<and> isReworkReturn (t_Status old)
                       \<and> (st_Status p = TaskStatusReady \<or> st_Status p = TaskStatusRunning)
                    then AdvanceWorkRevision stored else stored)
     in if st_Status p = TaskStatusRunning
        then fst (ConsumeTaskPendingDispatches revised (st_TaskID p) now) else revised)"

lemma reduceTaskStatus_Inr:
  assumes "reduceTaskStatus trace ev now = Inr s"
  shows "s = skipStep trace \<or> (\<exists>p. \<not> Killed trace \<and> st_TaskID p \<noteq> [] \<and> st_Status p \<noteq> TaskStatusUnset
    \<and> decodePayload TaskStatusPayload_schema TaskStatusPayload_of ev ''task.status'' = Inr p
    \<and> s = plainStep (status_step trace p now) [] True)"
  using assms unfolding reduceTaskStatus_def reduce_inv killBlocks_def status_step_def Let_def
  by (metis Inl_Inr_False sum.inject(2))

definition verify_step :: "TraceSnapshot \<Rightarrow> TaskCompletedPayload \<Rightarrow> time \<Rightarrow> TraceSnapshot" where
  "verify_step trace p now =
    put_task trace (cp_TaskID p) (completed_task (taskOrNew trace (cp_TaskID p)) p now)"

definition promotions :: "TraceSnapshot \<Rightarrow> time \<Rightarrow> TraceSnapshot \<times> TaskSnapshot list" where
  "promotions trace now =
    (let (kicked, promoted) = tryPromotePendingReady trace now;
         (final, candidate) = PromoteFirstEligible kicked now
     in (final, (case promoted of None \<Rightarrow> [] | Some t \<Rightarrow> [t]) @ (case candidate of None \<Rightarrow> [] | Some t \<Rightarrow> [t])))"

lemma reduceVerification_Inr:
  assumes "reduceVerification trace ev now = Inr s"
  shows "s = skipStep trace \<or> (\<exists>p. \<not> Killed trace \<and> cp_TaskID p \<noteq> []
    \<and> decodePayload TaskCompletedPayload_schema TaskCompletedPayload_of ev ''task.completed'' = Inr p
    \<and> s = plainStep (fst (promotions (verify_step trace p now) now))
           (snd (promotions (verify_step trace p now) now)) True)"
proof -
  obtain p where p: "decodePayload TaskCompletedPayload_schema TaskCompletedPayload_of ev ''task.completed'' = Inr p"
    using assms unfolding reduceVerification_def reduce_inv by blast
  show ?thesis
  proof (cases "cp_Kind p \<noteq> TaskEventCompleted \<or> cp_TaskID p = [] \<or> Killed trace")
    case True
    with assms p show ?thesis by (auto simp: reduceVerification_def killBlocks_def split: if_splits)
  next
    case False
    then have "s = plainStep (fst (promotions (verify_step trace p now) now))
           (snd (promotions (verify_step trace p now) now)) True"
      using assms p by (simp add: reduceVerification_def killBlocks_def promotions_def verify_step_def
        Let_def split_beta)
    with False p show ?thesis by blast
  qed
qed

lemma reduceMutation_Inr:
  assumes "reduceMutation trace ev now = Inr s"
  shows "s = skipStep trace \<or> (\<exists>p. mu_TaskID p \<noteq> [] \<and> IsCodeProposalKind (mu_Kind p)
    \<and> decodePayload MutationPayload_schema MutationPayload_of ev ''mutation'' = Inr p
    \<and> s = plainStep (put_task trace (mu_TaskID p) (proposal_task (taskOrNew trace (mu_TaskID p)) p now)) [] True)"
  using assms unfolding reduceMutation_def reduce_inv
  by (metis sum.inject(2))

lemma reduceSystemKill_Inr:
  assumes "reduceSystemKill trace ev now = Inr s"
  shows "s = skipStep trace
    \<or> (\<exists>reason. s = plainStep (applySystemKill trace reason now) [] (\<not> Killed trace))"
  using assms unfolding reduceSystemKill_def reduce_inv by (metis sum.inject(2))

definition plan_step :: "TraceSnapshot \<Rightarrow> Event \<Rightarrow> time \<Rightarrow> TaskSpec list \<Rightarrow> TraceSnapshot" where
  "plan_step trace ev now specs =
    (let (ts, accepted, changed) = fold (plan_spec ev now) specs (Tasks trace, False, False);
         planned = trace\<lparr>Tasks := ts\<rparr>
     in if accepted then AdvanceWorkRevision planned else planned)"

lemma reduceInsight_Inr:
  assumes "reduceInsight trace ev now = Inr s"
  shows "s = skipStep trace \<or> (\<exists>p changed.
    decodePayload TaskPlanPayload_schema TaskPlanPayload_of ev ''task.plan'' = Inr p
    \<and> rs_trace s = fst (tryPromotePendingReady (plan_step trace ev now (pl_Tasks p)) now)
    \<and> rs_ready s = (case snd (tryPromotePendingReady (plan_step trace ev now (pl_Tasks p)) now) of
          None \<Rightarrow> [] | Some t \<Rightarrow> [t])
    \<and> rs_pauseClose s = None \<and> \<not> rs_skipped s)"
proof -
  obtain p where p: "decodePayload TaskPlanPayload_schema TaskPlanPayload_of ev ''task.plan'' = Inr p"
    using assms unfolding reduceInsight_def reduce_inv by blast
  show ?thesis
  proof (cases "pl_Kind p = TaskEventPlan")
    case False
    with assms p show ?thesis by (simp add: reduceInsight_def)
  next
    case True
    obtain ts a c where f: "fold (plan_spec ev now) (pl_Tasks p) (Tasks trace, False, False) = (ts, a, c)"
      by (metis prod_cases3)
    obtain t' r where t: "tryPromotePendingReady (plan_step trace ev now (pl_Tasks p)) now = (t', r)"
      by fastforce
    have "s = (case r of None \<Rightarrow> plainStep t' [] c | Some t \<Rightarrow> plainStep t' [t] True)"
      using assms p True f t by (simp add: reduceInsight_def plan_step_def Let_def split: option.splits)
    with p t show ?thesis by (auto split: option.splits)
  qed
qed

text \<open>\<open>task.ready\<close>: parked, refreshed, or the task made ready.\<close>

definition ready_kicked :: "TraceSnapshot \<Rightarrow> TaskReadyPayload \<Rightarrow> TaskSnapshot \<Rightarrow> bool" where
  "ready_kicked trace p task0 \<longleftrightarrow> t_Status task0 = TaskStatusFailed \<or> t_Status task0 = TaskStatusRunning
     \<or> t_Status task0 \<noteq> TaskStatusReady \<and> \<not> HasReadyTask trace
       \<and> (\<exists>first. FirstEligiblePlanned trace = Some first \<and> t_TaskID first = rd_TaskID p)"

definition again :: "TaskSnapshot \<Rightarrow> bool" where
  "again task0 \<longleftrightarrow> t_Status task0 = TaskStatusFailed \<or> t_Status task0 = TaskStatusRunning"

definition ready_task :: "TraceSnapshot \<Rightarrow> TaskReadyPayload \<Rightarrow> TaskSnapshot \<Rightarrow> TaskSnapshot" where
  "ready_task trace p task0 =
    (let task = applyReadyOverlays task0 p
     in if again task0 then task\<lparr>t_Status := TaskStatusReady, t_Summary := []\<rparr>
        else if ready_kicked trace p task0 then task\<lparr>t_Status := TaskStatusReady\<rparr>
        else task)"

definition ready_step :: "TraceSnapshot \<Rightarrow> TaskReadyPayload \<Rightarrow> time \<Rightarrow> TaskSnapshot \<Rightarrow> reduceStep" where
  "ready_step trace p now task0 =
    (let task = ready_task trace p task0;
         base = (if again task0 \<and> isAcceptedWorkTask task \<and> isReworkReturn (t_Status task0)
                 then AdvanceWorkRevision trace else trace)
     in plainStep (put_task base (rd_TaskID p) (task\<lparr>t_UpdatedAt := now\<rparr>))
          (if ready_kicked trace p task0 then [task] else []) (ready_kicked trace p task0))"

lemma ready_branch:
  "ready_step trace p now task0 =
    (let task = applyReadyOverlays task0 p;
         (base, task', ready, changed) =
           (if t_Status task = TaskStatusReady then (trace, task, [], False)
            else if t_Status task = TaskStatusFailed \<or> t_Status task = TaskStatusRunning then
              (let again = task\<lparr>t_Status := TaskStatusReady, t_Summary := []\<rparr>
               in (if isAcceptedWorkTask again \<and> isReworkReturn (t_Status task0)
                   then AdvanceWorkRevision trace else trace, again, [again], True))
            else if \<not> HasReadyTask trace then
              (case FirstEligiblePlanned trace of
                 None \<Rightarrow> (trace, task, [], False)
               | Some first \<Rightarrow>
                   if t_TaskID first = rd_TaskID p
                   then (let kicked = task\<lparr>t_Status := TaskStatusReady\<rparr> in (trace, kicked, [kicked], True))
                   else (trace, task, [], False))
            else (trace, task, [], False))
     in plainStep (put_task base (rd_TaskID p) (task'\<lparr>t_UpdatedAt := now\<rparr>)) ready changed)"
proof (cases "again task0")
  case True
  then have "t_Status task0 \<noteq> TaskStatusReady" "ready_kicked trace p task0"
    by (auto simp: again_def ready_kicked_def)
  with True show ?thesis by (simp add: ready_step_def ready_task_def again_def Let_def)
next
  case False
  then show ?thesis
    by (cases "t_Status task0 = TaskStatusReady"; cases "HasReadyTask trace"; cases "FirstEligiblePlanned trace")
      (simp_all add: ready_step_def ready_task_def again_def ready_kicked_def Let_def)
qed

definition park :: "TraceSnapshot \<Rightarrow> TaskReadyPayload \<Rightarrow> TraceSnapshot" where
  "park trace p = trace\<lparr>PendingReady := Some (pendingReadyFromPayload p), Tasks := mdel (rd_TaskID p) (Tasks trace)\<rparr>"

lemma reduceTaskReady_Inr:
  assumes "reduceTaskReady trace ev now = Inr s"
  shows "s = skipStep trace \<or> (\<exists>p. \<not> Killed trace \<and> rd_TaskID p \<noteq> []
    \<and> decodePayload TaskReadyPayload_schema TaskReadyPayload_of ev ''task.ready'' = Inr p
    \<and> (s = plainStep (park trace p) [] True
          \<and> (\<forall>t. mget (Tasks trace) (rd_TaskID p) = Some t \<longrightarrow> t_Status t = TaskStatusUnset)
       \<or> (\<exists>t. mget (Tasks trace) (rd_TaskID p) = Some t \<and> t_Status t \<noteq> TaskStatusUnset
            \<and> s = ready_step trace p now t)))"
proof -
  obtain p where p: "decodePayload TaskReadyPayload_schema TaskReadyPayload_of ev ''task.ready'' = Inr p"
    using assms unfolding reduceTaskReady_def reduce_inv by blast
  have park: "park trace p = trace\<lparr>PendingReady := Some (pendingReadyFromPayload p)\<rparr>"
    if "mget (Tasks trace) (rd_TaskID p) = None"
    using that by (simp add: park_def delete_id map_of_eq_None_iff)
  show ?thesis
  proof (cases "rd_Kind p \<noteq> TaskEventReady \<or> Killed trace \<or> rd_TaskID p = []")
    case True
    with assms p show ?thesis by (auto simp: reduceTaskReady_def killBlocks_def split: if_splits)
  next
    case ok: False
    show ?thesis
    proof (cases "mget (Tasks trace) (rd_TaskID p)")
      case None
      with ok assms p park have "s = plainStep (park trace p) [] True"
        by (simp add: reduceTaskReady_def killBlocks_def)
      with ok p None show ?thesis by auto
    next
      case (Some t)
      show ?thesis
      proof (cases "t_Status t = TaskStatusUnset")
        case True
        with ok assms p Some have "s = plainStep (park trace p) [] True"
          by (simp add: reduceTaskReady_def killBlocks_def park_def)
        with ok p Some True show ?thesis by auto
      next
        case False
        with ok assms p Some have "Inr s = (Inr (ready_step trace p now t) :: apply_error + reduceStep)"
          by (simp add: reduceTaskReady_def killBlocks_def ready_branch Let_def case_prod_beta
              split del: if_split del: sum.inject)
        with ok p Some False show ?thesis by blast
      qed
    qed
  qed
qed

end
