(* ===== verification/LedgerInvariant.thy ===== *)
theory LedgerInvariant
  imports LedgerReduce
begin

text \<open>
  The ledger's invariant and the transitions that keep it: every bus event, and every
  mutation the \<open>Ledger\<close> interface offers beside \<open>Apply\<close>.
\<close>

section \<open>The invariant\<close>

definition at_rest :: "TaskStatus \<Rightarrow> bool" where
  "at_rest s \<longleftrightarrow> s \<in> {TaskStatusCompleted, TaskStatusFailed, TaskStatusCancelled, TaskStatusSkipped,
     TaskStatusPlanned, TaskStatusUnset}"

text \<open>What a kill leaves: nothing parked, nothing waiting, and no task ready, running or in review.\<close>

definition frozen :: "TraceSnapshot \<Rightarrow> bool" where
  "frozen trace \<longleftrightarrow> PendingReady trace = None \<and> filter pd_active (PendingDispatches trace) = []
     \<and> (\<forall>k t. mget (Tasks trace) k = Some t \<longrightarrow> at_rest (t_Status t))"

definition ledger_ok :: "TraceSnapshot \<Rightarrow> bool" where
  "ledger_ok trace \<longleftrightarrow> trace_wf trace \<and> queue_ok trace \<and> (Killed trace \<longrightarrow> frozen trace)"

lemma at_rest_simps [simp]:
  "at_rest TaskStatusCompleted" "at_rest TaskStatusFailed" "at_rest TaskStatusCancelled"
  "at_rest TaskStatusSkipped" "at_rest TaskStatusPlanned" "at_rest TaskStatusUnset"
  "\<not> at_rest TaskStatusReady" "\<not> at_rest TaskStatusRunning" "\<not> at_rest TaskStatusWaitingReview"
  by (simp_all add: at_rest_def)

lemma ledger_ok_empty [simp]: "ledger_ok (emptyTrace i)"
  by (simp add: ledger_ok_def queue_ok_def) (simp add: emptyTrace_def)

lemma ledger_ok_wf: "ledger_ok trace \<Longrightarrow> trace_wf trace"
  by (simp add: ledger_ok_def)

lemma ledger_ok_queue: "ledger_ok trace \<Longrightarrow> queue_ok trace"
  by (simp add: ledger_ok_def)

lemma ledger_ok_frozen: "ledger_ok trace \<Longrightarrow> Killed trace \<Longrightarrow> frozen trace"
  by (simp add: ledger_ok_def)

text \<open>Only four fields matter, and an operation that keeps them keeps the invariant.\<close>

lemma ledger_ok_cong:
  "Tasks a = Tasks b \<Longrightarrow> PendingDispatches a = PendingDispatches b \<Longrightarrow> Killed a = Killed b
    \<Longrightarrow> PendingReady a = PendingReady b \<Longrightarrow> ledger_ok a = ledger_ok b"
  by (simp add: ledger_ok_def trace_wf_def queue_ok_def frozen_def)

lemma ledger_ok_put:
  "ledger_ok trace \<Longrightarrow> t_TaskID t = k \<Longrightarrow> (Killed trace \<Longrightarrow> at_rest (t_Status t))
    \<Longrightarrow> ledger_ok (put_task trace k t)"
  by (auto simp: ledger_ok_def queue_ok_def frozen_def intro: trace_wf_put)

lemma ledger_ok_put_alive:
  "ledger_ok trace \<Longrightarrow> t_TaskID t = k \<Longrightarrow> \<not> Killed trace \<Longrightarrow> ledger_ok (put_task trace k t)"
  by (rule ledger_ok_put) simp_all

lemma frozen_not_ready: "trace_wf trace \<Longrightarrow> frozen trace \<Longrightarrow> \<not> HasReadyTask trace"
  using trace_wf_task_list [of trace] by (force simp: HasReadyTask_iff frozen_def)

section \<open>Shape of the tasks an event writes\<close>

lemma taskOrNew_id: "trace_wf trace \<Longrightarrow> t_TaskID (taskOrNew trace i) = i"
  by (auto simp: taskOrNew_def bareTask_def trace_wf_def dest: tasks_wf_mget split: option.split)

lemma withCreatedAt_simps [simp]:
  "t_TaskID (withCreatedAt t now) = t_TaskID t" "t_Status (withCreatedAt t now) = t_Status t"
  "t_Phase (withCreatedAt t now) = t_Phase t" "t_Review (withCreatedAt t now) = t_Review t"
  "t_Purpose (withCreatedAt t now) = t_Purpose t" "t_DependsOn (withCreatedAt t now) = t_DependsOn t"
  by (simp_all add: withCreatedAt_def)

lemma completed_task_simps [simp]:
  "t_TaskID (completed_task t p now) = t_TaskID t"
  "t_Status (completed_task t p now) = (if cp_Status p = TaskStatusUnset then TaskStatusCompleted else cp_Status p)"
  by (simp_all add: completed_task_def)

lemma proposal_task_simps [simp]:
  "t_TaskID (proposal_task t p now) = t_TaskID t" "t_Status (proposal_task t p now) = t_Status t"
  by (simp_all add: proposal_task_def Let_def)

lemma ready_task_id [simp]: "t_TaskID (ready_task trace p t) = t_TaskID t"
  by (simp add: ready_task_def Let_def)

lemma kill_task_simps [simp]:
  "t_TaskID (kill_task s now t) = t_TaskID t" "at_rest (t_Status (kill_task s now t))"
  by (simp_all add: kill_task_def IsKillableTaskStatus_def at_rest_def)

lemma taskOrNew_at_rest: "ledger_ok trace \<Longrightarrow> Killed trace \<Longrightarrow> at_rest (t_Status (taskOrNew trace i))"
  using ledger_ok_frozen [of trace]
  by (auto simp: taskOrNew_def frozen_def bareTask_def split: option.split)

section \<open>Each reducer keeps it\<close>

lemma ledger_ok_AdvanceWorkRevision [simp]: "ledger_ok (AdvanceWorkRevision trace) = ledger_ok trace"
  by (rule ledger_ok_cong) simp_all

lemma ledger_ok_tryPromote: "ledger_ok trace \<Longrightarrow> ledger_ok (fst (tryPromotePendingReady trace now))"
proof (cases "snd (tryPromotePendingReady trace now)")
  case (Some t)
  assume ok: "ledger_ok trace"
  from Some obtain trace' where t: "tryPromotePendingReady trace now = (trace', Some t)"
    by (metis prod.collapse)
  note p = tryPromote_Some [OF t ledger_ok_wf [OF ok]]
  have "ledger_ok (put_task trace (t_TaskID t) t)" using ok p(1) by (simp add: ledger_ok_put_alive)
  moreover have "\<not> Killed trace'" using p(1) tryPromote_frame(2) [of trace now] t by simp
  ultimately show ?thesis
    using p t tryPromote_frame(1) [of trace now] by (simp add: ledger_ok_def trace_wf_def queue_ok_def)
qed (simp add: tryPromote_None)

lemma ledger_ok_PromoteFirst: "ledger_ok trace \<Longrightarrow> ledger_ok (fst (PromoteFirstEligible trace now))"
  by (auto simp: PromoteFirstEligible_def Let_def intro: ledger_ok_put_alive split: option.split)

lemma ledger_ok_promotions: "ledger_ok trace \<Longrightarrow> ledger_ok (fst (promotions trace now))"
  using ledger_ok_PromoteFirst [OF ledger_ok_tryPromote, of trace now now]
  by (simp add: promotions_def split_beta)

lemma ledger_ok_dropStale: "ledger_ok trace \<Longrightarrow> ledger_ok (fst (dropStalePendingReady trace))"
  by (auto simp: ledger_ok_def trace_wf_def queue_ok_def frozen_def dropStalePendingReady_def
      split: option.split)

lemma Consume_none_active:
  "filter pd_active (PendingDispatches trace) = []
    \<Longrightarrow> filter pd_active (PendingDispatches (fst (ConsumeTaskPendingDispatches trace i now))) = []"
  by (simp add: ConsumeTaskPendingDispatches_def close_entries_active) (auto simp: filter_empty_conv)

lemma ledger_ok_Consume: "ledger_ok trace \<Longrightarrow> ledger_ok (fst (ConsumeTaskPendingDispatches trace i now))"
  using Consume_queue_ok [of trace i now]
  by (simp add: ledger_ok_def trace_wf_def frozen_def Consume_none_active)

lemma ledger_ok_status_step:
  "ledger_ok trace \<Longrightarrow> \<not> Killed trace \<Longrightarrow> ledger_ok (status_step trace p now)"
  by (auto simp: status_step_def Let_def taskOrNew_id ledger_ok_wf
      intro!: ledger_ok_Consume ledger_ok_put_alive)

lemma ledger_ok_verify_step:
  "ledger_ok trace \<Longrightarrow> \<not> Killed trace \<Longrightarrow> ledger_ok (verify_step trace p now)"
  by (simp add: verify_step_def taskOrNew_id ledger_ok_wf ledger_ok_put_alive)

lemma ledger_ok_mutation_step:
  "ledger_ok trace \<Longrightarrow> ledger_ok (put_task trace i (proposal_task (taskOrNew trace i) p now))"
  by (simp add: taskOrNew_id ledger_ok_wf ledger_ok_put taskOrNew_at_rest)

lemma ledger_ok_plan_spec:
  "ledger_ok (trace\<lparr>Tasks := ts\<rparr>) \<Longrightarrow> ledger_ok (trace\<lparr>Tasks := fst (plan_spec ev now spec (ts, a, c))\<rparr>)"
  using ledger_ok_put [of "trace\<lparr>Tasks := ts\<rparr>" "plannedTask ev now spec" "sp_TaskID spec"]
  by (simp add: plan_spec_def plannedTask_def)

lemma ledger_ok_plan_specs:
  "ledger_ok (trace\<lparr>Tasks := fst acc\<rparr>)
    \<Longrightarrow> ledger_ok (trace\<lparr>Tasks := fst (fold (plan_spec ev now) specs acc)\<rparr>)"
proof (induction specs arbitrary: acc)
  case (Cons spec specs)
  then show ?case using ledger_ok_plan_spec [where ts = "fst acc" and a = "fst (snd acc)" and c = "snd (snd acc)"]
    by simp
qed simp

lemma ledger_ok_plan_step: "ledger_ok trace \<Longrightarrow> ledger_ok (plan_step trace ev now specs)"
  using ledger_ok_plan_specs [where acc = "(Tasks trace, False, False)"]
  by (simp add: plan_step_def Let_def split_beta)

lemma ledger_ok_kill: "ledger_ok trace \<Longrightarrow> ledger_ok (applySystemKill trace reason now)"
proof (cases "Killed trace")
  case False
  assume ok: "ledger_ok trace"
  define ab where "ab = fst (AbandonPendingDispatches (trace\<lparr>Killed := True, PendingReady := None\<rparr>) now)"
  have "queue_ok (trace\<lparr>Killed := True, PendingReady := None\<rparr>)"
    using ok by (simp add: ledger_ok_def queue_ok_def)
  then have q: "queue_ok ab" "filter pd_active (PendingDispatches ab) = []" "Tasks ab = Tasks trace"
      "Killed ab" "PendingReady ab = None"
    by (simp_all add: ab_def Abandon_none_active Abandon_queue_ok)
  define s where "s = (if reason = [] then TraceKilledSummary else reason)"
  have "applySystemKill trace reason now = ab\<lparr>Tasks := map (\<lambda>(k, t). (k, kill_task s now t)) (Tasks ab)\<rparr>"
    using False by (simp add: applySystemKill_def ab_def s_def Let_def)
  moreover have "tasks_wf (map (\<lambda>(k, t). (k, kill_task s now t)) (Tasks ab))"
    using ok q(3) by (intro tasks_wf_map) (simp_all add: ledger_ok_def trace_wf_def)
  ultimately show ?thesis
    using q by (auto simp: ledger_ok_def trace_wf_def queue_ok_def frozen_def mget_map_snd)
qed (simp add: applySystemKill_def)

lemma ledger_ok_supersede:
  "ledger_ok trace \<Longrightarrow> ledger_ok (fst (SupersedeEnergyDeferredDispatches trace now summary))"
proof -
  assume ok: "ledger_ok trace"
  have "frozen (fst (SupersedeEnergyDeferredDispatches trace now summary))" if "Killed trace"
  proof -
    have fr: "frozen trace" using ok that by (rule ledger_ok_frozen)
    then have "\<not> superseded_task (PendingDispatches trace) k" for k
      by (auto simp: superseded_task_def superseded_entry_def frozen_def filter_empty_conv)
    with fr ok show ?thesis
      by (auto simp: frozen_def Supersede_active Supersede_mget ledger_ok_wf filter_empty_conv)
  qed
  with ok show ?thesis
    using Supersede_wf [of trace now summary] Supersede_queue_ok [of trace now summary]
    by (simp add: ledger_ok_def)
qed

lemma ledger_ok_park: "ledger_ok trace \<Longrightarrow> \<not> Killed trace \<Longrightarrow> ledger_ok (park trace p)"
  by (simp add: ledger_ok_def trace_wf_def queue_ok_def park_def tasks_wf_mdel)

lemma ledger_ok_ready_step:
  assumes "ledger_ok trace" "\<not> Killed trace" "mget (Tasks trace) (rd_TaskID p) = Some t"
  shows "ledger_ok (rs_trace (ready_step trace p now t))"
proof -
  have "t_TaskID t = rd_TaskID p" using assms by (auto simp: ledger_ok_def trace_wf_def dest: tasks_wf_mget)
  with assms show ?thesis by (simp add: ready_step_def Let_def ledger_ok_put_alive)
qed

lemma ledger_ok_CloseEnergyPause: "ledger_ok trace \<Longrightarrow> ledger_ok (fst (CloseEnergyPause trace))"
  by (subst ledger_ok_cong [of _ trace]) simp_all

lemma applyStipend_trace:
  "rs_trace (applyStipend trace amount now) =
    fst (CloseEnergyPause (fst (SupersedeEnergyDeferredDispatches (trace\<lparr>EnergyRemaining := amount\<rparr>) now
      (SupersededByStipendSummary amount))))"
  by (simp add: applyStipend_def Let_def CloseEnergyPause_def split: option.split)

lemma ledger_ok_energy [simp]:
  "ledger_ok (trace\<lparr>EnergyRemaining := r\<rparr>) = ledger_ok trace"
  "ledger_ok (trace\<lparr>EnergyRemaining := r, EnergyAdded := a\<rparr>) = ledger_ok trace"
  "ledger_ok (trace\<lparr>TraceID := i\<rparr>) = ledger_ok trace"
  by (rule ledger_ok_cong; simp)+

lemma ledger_ok_reduceEnergy:
  assumes "ledger_ok trace" "reduceEnergy trace ev kind now = Inr s"
  shows "ledger_ok (rs_trace s)"
  using assms
  by (auto simp: reduceEnergy_def reduceEnergyAdd_def reduceEnergyConsume_def reduceEnergyStipend_def
      reduce_inv applyStipend_trace ledger_ok_CloseEnergyPause ledger_ok_supersede split: if_splits)

lemma ledger_ok_reduceTaskReady:
  "ledger_ok trace \<Longrightarrow> reduceTaskReady trace ev now = Inr s \<Longrightarrow> ledger_ok (rs_trace s)"
  by (drule reduceTaskReady_Inr) (auto simp: ledger_ok_park ledger_ok_ready_step)

lemma ledger_ok_reduceTaskStatus:
  "ledger_ok trace \<Longrightarrow> reduceTaskStatus trace ev now = Inr s \<Longrightarrow> ledger_ok (rs_trace s)"
  by (drule reduceTaskStatus_Inr) (auto simp: ledger_ok_status_step)

lemma ledger_ok_reduceSystemKill:
  "ledger_ok trace \<Longrightarrow> reduceSystemKill trace ev now = Inr s \<Longrightarrow> ledger_ok (rs_trace s)"
  by (drule reduceSystemKill_Inr) (auto simp: ledger_ok_kill)

lemma ledger_ok_reduceEvent:
  assumes "ledger_ok trace" "reduceEvent trace ev now = Inr s"
  shows "ledger_ok (rs_trace s)"
proof (cases "ev_Type ev")
  case EventSignal
  with assms show ?thesis
    by (auto simp: reduceEvent_def reduceSignal_def Let_def ledger_ok_reduceEnergy
        ledger_ok_reduceTaskReady ledger_ok_reduceTaskStatus ledger_ok_reduceSystemKill split: if_splits)
next
  case EventInsight
  with assms reduceInsight_Inr [of trace ev now s] show ?thesis
    by (auto simp: reduceEvent_def ledger_ok_plan_step ledger_ok_tryPromote)
next
  case EventVerification
  with assms reduceVerification_Inr [of trace ev now s] show ?thesis
    by (auto simp: reduceEvent_def ledger_ok_verify_step ledger_ok_promotions)
next
  case EventMutation
  with assms reduceMutation_Inr [of trace ev now s] show ?thesis
    by (auto simp: reduceEvent_def ledger_ok_mutation_step)
qed (use assms in \<open>auto simp: reduceEvent_def\<close>)

end
