(* ===== verification/LedgerEvents.thy ===== *)
theory LedgerEvents
  imports LedgerInvariant
begin

text \<open>
  One bus event as a whole: the frame around the reducers (trace check, event stamp, dropping
  a stale parked kick), what every event keeps, and which tasks it hands out as ready.
\<close>

section \<open>The frame around a reducer\<close>

lemma traceForEvent_Inr:
  "traceForEvent trace ev = Inr trace' \<Longrightarrow> \<exists>i. trace' = trace\<lparr>TraceID := i\<rparr>"
  by (rule exI [of _ "if TraceID trace = [] \<and> ev_TraceID ev \<noteq> [] then ev_TraceID ev else TraceID trace"])
    (auto simp: traceForEvent_def split: if_splits)

lemma ApplyEvent_Inr:
  assumes "ApplyEvent clock trace ev = Inr res"
  obtains i s where "traceForEvent trace ev = Inr (trace\<lparr>TraceID := i\<rparr>)"
    "reduceEvent (trace\<lparr>TraceID := i\<rparr>) ev (eventStamp clock ev) = Inr s" "res = finishStep s"
  using assms traceForEvent_Inr [of trace ev] by (auto simp: ApplyEvent_def reduce_inv)

lemma finishStep_simps [simp]:
  "ar_Ready (finishStep s) = (if rs_skipped s then [] else rs_ready s)"
  "ar_PauseClose (finishStep s) = (if rs_skipped s then None else rs_pauseClose s)"
  "Tasks (ar_Trace (finishStep s)) = Tasks (rs_trace s)"
  "Killed (ar_Trace (finishStep s)) = Killed (rs_trace s)"
  "EnergyRemaining (ar_Trace (finishStep s)) = EnergyRemaining (rs_trace s)"
  "EnergyBudget (ar_Trace (finishStep s)) = EnergyBudget (rs_trace s)"
  "EnergyAdded (ar_Trace (finishStep s)) = EnergyAdded (rs_trace s)"
  "EnergySeed (ar_Trace (finishStep s)) = EnergySeed (rs_trace s)"
  "EnergyPause (ar_Trace (finishStep s)) = EnergyPause (rs_trace s)"
  "PendingDispatches (ar_Trace (finishStep s)) = PendingDispatches (rs_trace s)"
  "WorkRevision (ar_Trace (finishStep s)) = WorkRevision (rs_trace s)"
  "WorkCompletion (ar_Trace (finishStep s)) = WorkCompletion (rs_trace s)"
  by (simp_all add: finishStep_def Let_def split_beta)

text \<open>A property of snapshots that reducers keep is kept by whole histories.\<close>

locale event_invariant =
  fixes I :: "TraceSnapshot \<Rightarrow> bool"
  assumes named: "I trace \<Longrightarrow> I (trace\<lparr>TraceID := i\<rparr>)"
    and reduced: "I trace \<Longrightarrow> reduceEvent trace ev now = Inr s \<Longrightarrow> I (rs_trace s)"
    and dropped: "I trace \<Longrightarrow> I (fst (dropStalePendingReady trace))"
begin

lemma finished: "I (rs_trace s) \<Longrightarrow> I (ar_Trace (finishStep s))"
  using dropped [of "rs_trace s"] by (simp add: finishStep_def Let_def split_beta)

lemma event: "I trace \<Longrightarrow> ApplyEvent clock trace ev = Inr res \<Longrightarrow> I (ar_Trace res)"
  by (erule ApplyEvent_Inr) (metis finished named reduced)

lemma events: "I trace \<Longrightarrow> ApplyEvents clock trace evs = Inr trace' \<Longrightarrow> I trace'"
proof (induction evs arbitrary: trace)
  case (Cons ev evs)
  from Cons.prems(2) obtain res where "ApplyEvent clock trace ev = Inr res"
    "ApplyEvents clock (ar_Trace res) evs = Inr trace'"
    by (auto simp: reduce_inv)
  with Cons event show ?case by blast
qed simp

end

interpretation ok_inv: event_invariant ledger_ok
  by unfold_locales (simp_all add: ledger_ok_reduceEvent ledger_ok_dropStale)

section \<open>A kill is final\<close>

lemma killed_steps [simp]:
  "Killed (status_step trace sp now) = Killed trace"
  "Killed (verify_step trace p now) = Killed trace"
  "Killed (fst (promotions trace now)) = Killed trace"
  "Killed (plan_step trace ev now specs) = Killed trace"
  "Killed (park trace q) = Killed trace"
  "Killed (rs_trace (ready_step trace q now t)) = Killed trace"
  "Killed (rs_trace (applyStipend trace amount now)) = Killed trace"
  "Killed (applySystemKill trace r now)"
  by (simp_all add: status_step_def verify_step_def promotions_def plan_step_def park_def
      ready_step_def applyStipend_trace applySystemKill_def Let_def split_beta PromoteFirstEligible_frame)

lemma reduceEnergy_Inr:
  assumes "reduceEnergy trace ev kind now = Inr s"
  shows "s = skipStep trace
    \<or> (\<exists>p. kind = SignalEnergyAdd \<and> ea_Amount p > 0
         \<and> decodePayload EnergyAddPayload_schema EnergyAddPayload_of ev ''energy.add'' = Inr p
         \<and> s = plainStep (trace\<lparr>EnergyRemaining := wrap64 (EnergyRemaining trace + ea_Amount p),
              EnergyAdded := (if EnergyBudget trace > 0 then wrap64 (EnergyAdded trace + ea_Amount p)
                              else EnergyAdded trace)\<rparr>) [] True)
    \<or> (\<exists>p. kind = SignalEnergyConsume \<and> ec_Amount p > 0 \<and> ec_Amount p \<le> EnergyRemaining trace
         \<and> decodePayload EnergyConsumePayload_schema EnergyConsumePayload_of ev ''energy.consume'' = Inr p
         \<and> s = plainStep (trace\<lparr>EnergyRemaining := wrap64 (EnergyRemaining trace - ec_Amount p)\<rparr>) [] True)
    \<or> (\<exists>p. kind = SignalEnergyStipend \<and> es_Amount p > 0
         \<and> decodePayload EnergyStipendPayload_schema EnergyStipendPayload_of ev ''energy.stipend'' = Inr p
         \<and> s = applyStipend trace (es_Amount p) now)"
proof -
  consider "kind = SignalEnergyAdd" | "kind = SignalEnergyConsume" | "kind = SignalEnergyStipend"
    | "kind \<notin> {SignalEnergyAdd, SignalEnergyConsume, SignalEnergyStipend}" by blast
  then show ?thesis
  proof cases
    case 1
    with assms show ?thesis
      by (auto simp: reduceEnergy_def reduceEnergyAdd_def reduce_inv split: if_splits)
  next
    case 2
    with assms show ?thesis
      by (auto simp: reduceEnergy_def reduceEnergyConsume_def reduce_inv split: if_splits)
  next
    case 3
    with assms show ?thesis
      by (auto simp: reduceEnergy_def reduceEnergyStipend_def reduce_inv split: if_splits)
  next
    case 4
    with assms show ?thesis by (auto simp: reduceEnergy_def reduce_inv split: if_splits)
  qed
qed

text \<open>Which reducer ran, in one case split over the event.\<close>

lemma reduceEvent_cases [consumes 1, case_names cue none insight kill status ready energy verify mutate]:
  assumes "reduceEvent trace ev now = Inr s"
    and "ev_Type ev = EventSignal \<Longrightarrow> signalKind ev = SignalCueIngress \<Longrightarrow> s = skipStep trace \<Longrightarrow> P"
    and "ev_Type ev \<notin> {EventInsight, EventSignal, EventVerification, EventMutation}
      \<Longrightarrow> s = plainStep trace [] False \<Longrightarrow> P"
    and "ev_Type ev = EventInsight \<Longrightarrow> reduceInsight trace ev now = Inr s \<Longrightarrow> P"
    and "ev_Type ev = EventSignal \<Longrightarrow> signalKind ev = SignalSystemKill
      \<Longrightarrow> reduceSystemKill trace ev now = Inr s \<Longrightarrow> P"
    and "ev_Type ev = EventSignal \<Longrightarrow> signalKind ev = TaskEventStatus
      \<Longrightarrow> reduceTaskStatus trace ev now = Inr s \<Longrightarrow> P"
    and "ev_Type ev = EventSignal \<Longrightarrow> signalKind ev = TaskEventReady
      \<Longrightarrow> reduceTaskReady trace ev now = Inr s \<Longrightarrow> P"
    and "ev_Type ev = EventSignal \<Longrightarrow> signalKind ev \<notin> {SignalSystemKill, TaskEventStatus, TaskEventReady, SignalCueIngress}
      \<Longrightarrow> reduceEnergy trace ev (signalKind ev) now = Inr s \<Longrightarrow> P"
    and "ev_Type ev = EventVerification \<Longrightarrow> reduceVerification trace ev now = Inr s \<Longrightarrow> P"
    and "ev_Type ev = EventMutation \<Longrightarrow> reduceMutation trace ev now = Inr s \<Longrightarrow> P"
  shows P
proof (cases "ev_Type ev")
  case EventSignal
  then have sig: "reduceSignal trace ev now = Inr s" using assms(1) by (simp add: reduceEvent_def)
  consider "signalKind ev = SignalSystemKill" | "signalKind ev = TaskEventStatus"
    | "signalKind ev = TaskEventReady" | "signalKind ev = SignalCueIngress"
    | "signalKind ev \<notin> {SignalSystemKill, TaskEventStatus, TaskEventReady, SignalCueIngress}" by blast
  then show ?thesis
  proof cases
    case 1 with sig EventSignal assms(5) show ?thesis by (simp add: reduceSignal_def)
  next
    case 2 with sig EventSignal assms(6) show ?thesis by (simp add: reduceSignal_def)
  next
    case 3 with sig EventSignal assms(7) show ?thesis by (simp add: reduceSignal_def)
  next
    case 4 with sig EventSignal assms(2) show ?thesis by (simp add: reduceSignal_def)
  next
    case 5 with sig EventSignal assms(8) show ?thesis by (simp add: reduceSignal_def Let_def)
  qed
qed (use assms in \<open>auto simp: reduceEvent_def\<close>)

lemma reduceEvent_killed:
  assumes "reduceEvent trace ev now = Inr s" "Killed trace"
  shows "Killed (rs_trace s)"
  using assms
proof (cases rule: reduceEvent_cases)
  case insight
  with assms(2) reduceInsight_Inr [of trace ev now s] show ?thesis by auto
next
  case kill
  with assms(2) reduceSystemKill_Inr [of trace ev now s] show ?thesis by auto
next
  case status
  with assms(2) reduceTaskStatus_Inr [of trace ev now s] show ?thesis by auto
next
  case ready
  with assms(2) reduceTaskReady_Inr [of trace ev now s] show ?thesis by auto
next
  case energy
  with assms(2) reduceEnergy_Inr [OF energy(3)] show ?thesis by auto
next
  case verify
  with assms(2) reduceVerification_Inr [of trace ev now s] show ?thesis by auto
next
  case mutate
  with assms(2) reduceMutation_Inr [of trace ev now s] show ?thesis by auto
qed auto

interpretation killed_inv: event_invariant Killed
  by unfold_locales (simp_all add: reduceEvent_killed)

lemma promotions_killed: "Killed trace \<Longrightarrow> promotions trace now = (trace, [])"
  by (simp add: promotions_def tryPromotePendingReady_def PromoteFirstEligible_def split: option.split)

section \<open>The tasks an event makes ready\<close>

text \<open>What the result reports as ready: stored under its id and ready, in a trace that is alive.\<close>

definition made_ready :: "TraceSnapshot \<Rightarrow> time \<Rightarrow> TaskSnapshot \<Rightarrow> bool" where
  "made_ready trace now t \<longleftrightarrow> \<not> Killed trace \<and> t_Status t = TaskStatusReady
     \<and> mget (Tasks trace) (t_TaskID t) = Some (t\<lparr>t_UpdatedAt := now\<rparr>)"

lemma update_UpdatedAt_same: "t_UpdatedAt t = now \<Longrightarrow> t\<lparr>t_UpdatedAt := now\<rparr> = t"
  by simp

lemma tryPromote_made_ready:
  assumes "trace_wf trace" "snd (tryPromotePendingReady trace now) = Some t"
  shows "made_ready (fst (tryPromotePendingReady trace now)) now t"
proof -
  from assms(2) obtain trace' where p: "tryPromotePendingReady trace now = (trace', Some t)"
    by (metis prod.collapse)
  note tp = tryPromote_Some [OF p assms(1)]
  have "t_UpdatedAt t = now" using tp(6) by auto
  then have "t\<lparr>t_UpdatedAt := now\<rparr> = t" by (rule update_UpdatedAt_same)
  moreover have "\<not> Killed trace'" using tryPromote_frame(2) [of trace now] p tp(1) by simp
  ultimately show ?thesis using tp p by (simp add: made_ready_def)
qed

lemma PromoteFirst_made_ready:
  assumes "snd (PromoteFirstEligible trace now) = Some t"
  shows "made_ready (fst (PromoteFirstEligible trace now)) now t" "\<not> HasReadyTask trace"
    "\<exists>c. FirstEligiblePlanned trace = Some c \<and> t = c\<lparr>t_Status := TaskStatusReady, t_UpdatedAt := now\<rparr>"
    "Tasks (fst (PromoteFirstEligible trace now)) = mput (t_TaskID t) t (Tasks trace)"
proof -
  from assms obtain trace' where p: "PromoteFirstEligible trace now = (trace', Some t)"
    by (metis prod.collapse)
  from PromoteFirstEligible_Some [OF p] obtain c where c: "\<not> Killed trace" "\<not> HasReadyTask trace"
    "FirstEligiblePlanned trace = Some c" "t = c\<lparr>t_Status := TaskStatusReady, t_UpdatedAt := now\<rparr>"
    "trace' = put_task trace (t_TaskID c) t" by metis
  then show "made_ready (fst (PromoteFirstEligible trace now)) now t" "\<not> HasReadyTask trace"
    "\<exists>c. FirstEligiblePlanned trace = Some c \<and> t = c\<lparr>t_Status := TaskStatusReady, t_UpdatedAt := now\<rparr>"
    "Tasks (fst (PromoteFirstEligible trace now)) = mput (t_TaskID t) t (Tasks trace)"
    using p by (simp_all add: made_ready_def)
qed

lemma made_ready_HasReady: "made_ready trace now t \<Longrightarrow> HasReadyTask trace"
  by (force simp: made_ready_def HasReadyTask_iff dest: mget_mvals)

lemma promotions_made_ready:
  assumes "trace_wf trace" "promotions trace now = (trace', ready)"
  shows "length ready \<le> 1" "\<And>t. t \<in> set ready \<Longrightarrow> made_ready trace' now t"
    "ready = [] \<Longrightarrow> Killed trace \<or> HasReadyTask trace' \<or> FirstEligiblePlanned trace' = None"
proof -
  let ?k = "fst (tryPromotePendingReady trace now)"
  have d: "trace' = fst (PromoteFirstEligible ?k now)"
    "ready = (case snd (tryPromotePendingReady trace now) of None \<Rightarrow> [] | Some t \<Rightarrow> [t])
       @ (case snd (PromoteFirstEligible ?k now) of None \<Rightarrow> [] | Some t \<Rightarrow> [t])"
    using assms(2) by (simp_all add: promotions_def split_beta)
  have "length ready \<le> 1 \<and> (\<forall>t \<in> set ready. made_ready trace' now t)
    \<and> (ready = [] \<longrightarrow> Killed trace \<or> HasReadyTask trace' \<or> FirstEligiblePlanned trace' = None)"
  proof (cases "snd (tryPromotePendingReady trace now)")
    case None
    then have k: "?k = trace" using tryPromote_None [OF None] by simp
    show ?thesis
    proof (cases "snd (PromoteFirstEligible trace now)")
      case (Some t)
      with None d k PromoteFirst_made_ready(1) [OF Some] show ?thesis by simp
    next
      case no: None
      with None d k show ?thesis
        by (auto simp: PromoteFirstEligible_def Let_def split: option.splits if_splits)
    qed
  next
    case (Some u)
    have u: "made_ready ?k now u" by (rule tryPromote_made_ready [OF assms(1) Some])
    then have "HasReadyTask ?k" by (rule made_ready_HasReady)
    then have none: "PromoteFirstEligible ?k now = (?k, None)" by (simp add: PromoteFirstEligible_def)
    with d Some have "ready = [u]" "trace' = ?k" by simp_all
    with u show ?thesis by simp
  qed
  then show "length ready \<le> 1" "\<And>t. t \<in> set ready \<Longrightarrow> made_ready trace' now t"
    "ready = [] \<Longrightarrow> Killed trace \<or> HasReadyTask trace' \<or> FirstEligiblePlanned trace' = None" by simp_all
qed

lemma ready_step_made_ready:
  assumes "trace_wf trace" "\<not> Killed trace" "mget (Tasks trace) (rd_TaskID p) = Some t"
  shows "length (rs_ready (ready_step trace p now t)) \<le> 1
    \<and> (\<forall>u \<in> set (rs_ready (ready_step trace p now t)). made_ready (rs_trace (ready_step trace p now t)) now u)"
proof (cases "ready_kicked trace p t")
  case True
  then have "t_Status (ready_task trace p t) = TaskStatusReady"
    by (simp add: ready_task_def Let_def)
  moreover have "t_TaskID t = rd_TaskID p"
    using assms(1,3) unfolding trace_wf_def by (rule tasks_wf_mget)
  ultimately show ?thesis using True assms(2) by (simp add: ready_step_def Let_def made_ready_def)
next
  case False
  then show ?thesis by (simp add: ready_step_def Let_def)
qed

lemma reduceEvent_ready:
  assumes "reduceEvent trace ev now = Inr s" "ledger_ok trace"
  shows "length (rs_ready s) \<le> 1 \<and> (\<forall>t \<in> set (rs_ready s). made_ready (rs_trace s) now t)"
  using assms(1)
proof (cases rule: reduceEvent_cases)
  case insight
  with tryPromote_made_ready [OF ledger_ok_wf [OF ledger_ok_plan_step [OF assms(2)]], of ev now _ now]
    reduceInsight_Inr [of trace ev now s]
  show ?thesis by (auto split: option.splits)
next
  case kill
  with reduceSystemKill_Inr [of trace ev now s] show ?thesis by auto
next
  case status
  with reduceTaskStatus_Inr [of trace ev now s] show ?thesis by auto
next
  case ready
  from reduceTaskReady_Inr [OF ready(3)] show ?thesis
    using ready_step_made_ready [OF ledger_ok_wf [OF assms(2)]] by auto
next
  case energy
  have "rs_ready (applyStipend trace a now) = []" for a
    by (simp add: applyStipend_def Let_def split: option.split prod.split)
  with reduceEnergy_Inr [OF energy(3)] show ?thesis by auto
next
  case verify
  with promotions_made_ready [OF ledger_ok_wf [OF ledger_ok_verify_step [OF assms(2)]]]
    reduceVerification_Inr [of trace ev now s]
  show ?thesis by (metis list.distinct(1) list.set(1) plainStep_simps(1,2) prod.collapse
      skipStep_simps(2) empty_iff le0 list.size(3))
next
  case mutate
  with reduceMutation_Inr [of trace ev now s] show ?thesis by auto
qed auto

lemma ApplyEvent_ready:
  assumes "ApplyEvent clock trace ev = Inr res" "ledger_ok trace"
  shows "length (ar_Ready res) \<le> 1
    \<and> (\<forall>t \<in> set (ar_Ready res). made_ready (ar_Trace res) (eventStamp clock ev) t)"
proof -
  obtain i s where s: "reduceEvent (trace\<lparr>TraceID := i\<rparr>) ev (eventStamp clock ev) = Inr s"
    "res = finishStep s"
    by (rule ApplyEvent_Inr [OF assms(1)])
  with reduceEvent_ready [OF s(1)] assms(2) show ?thesis by (simp add: made_ready_def)
qed

lemma HasReadyTask_cong: "Tasks a = Tasks b \<Longrightarrow> HasReadyTask a = HasReadyTask b"
  by (simp add: HasReadyTask_def)

lemma FirstEligiblePlanned_cong: "Tasks a = Tasks b \<Longrightarrow> FirstEligiblePlanned a = FirstEligiblePlanned b"
proof -
  assume eq: "Tasks a = Tasks b"
  then have "eligible a = eligible b"
    by (intro ext) (simp add: eligible_def allDepsCompleted_def AllWorkCompleted_def)
  with eq show ?thesis by (simp add: FirstEligiblePlanned_first_sorted)
qed

text \<open>After a completion either something is ready or nothing is eligible.\<close>

lemma reduceVerification_progress:
  assumes "reduceVerification trace ev now = Inr s" "ledger_ok trace" "\<not> rs_skipped s"
  shows "HasReadyTask (rs_trace s) \<or> FirstEligiblePlanned (rs_trace s) = None"
proof -
  obtain p where p: "\<not> Killed trace" "s = plainStep (fst (promotions (verify_step trace p now) now))
      (snd (promotions (verify_step trace p now) now)) True"
    using reduceVerification_Inr [OF assms(1)] assms(3) by auto
  have "trace_wf (verify_step trace p now)" by (rule ledger_ok_wf [OF ledger_ok_verify_step [OF assms(2) p(1)]])
  note pr = promotions_made_ready [OF this prod.collapse [symmetric]]
  show ?thesis
  proof (cases "snd (promotions (verify_step trace p now) now)")
    case Nil
    with pr(3) p show ?thesis by simp
  next
    case (Cons t ts)
    then have "made_ready (fst (promotions (verify_step trace p now) now)) now t" by (intro pr(2)) simp
    then have "HasReadyTask (fst (promotions (verify_step trace p now) now))" by (rule made_ready_HasReady)
    with p show ?thesis by simp
  qed
qed

lemma ApplyEvent_progress:
  assumes "ApplyEvent clock trace ev = Inr res" "ledger_ok trace" "ev_Type ev = EventVerification"
    "ar_Changed res"
  shows "HasReadyTask (ar_Trace res) \<or> FirstEligiblePlanned (ar_Trace res) = None"
proof -
  obtain i s where s: "reduceEvent (trace\<lparr>TraceID := i\<rparr>) ev (eventStamp clock ev) = Inr s"
    "res = finishStep s"
    by (rule ApplyEvent_Inr [OF assms(1)])
  then have r: "reduceVerification (trace\<lparr>TraceID := i\<rparr>) ev (eventStamp clock ev) = Inr s"
    using assms(3) by (simp add: reduceEvent_def)
  have "\<not> rs_skipped s" using s(2) assms(4) by (auto simp: finishStep_def)
  with reduceVerification_progress [OF r] assms(2) s(2) show ?thesis
    by (metis HasReadyTask_cong FirstEligiblePlanned_cong finishStep_simps(3) ledger_ok_energy(3))
qed

end
