(* ===== verification/LedgerTasks.thy ===== *)
theory LedgerTasks
  imports LedgerEvents
begin

text \<open>
  What events may do to the task stored under one id. A relation between the stored task
  before and after is kept by every event when it is kept by the few things reducers do to
  a task; two relations are instances: a planned task's contract never changes, and only
  the runtime creates closing rounds.
\<close>

section \<open>Relations on one stored task\<close>

text \<open>An event revises a task: the plan's fields stay, and a status never becomes empty again.\<close>

definition revised :: "TaskSnapshot \<Rightarrow> TaskSnapshot \<Rightarrow> bool" where
  "revised t t' \<longleftrightarrow> t_TaskID t' = t_TaskID t \<and> t_DependsOn t' = t_DependsOn t
     \<and> t_Review t' = t_Review t \<and> t_Phase t' = t_Phase t \<and> t_Purpose t' = t_Purpose t
     \<and> t_AnalysisOf t' = t_AnalysisOf t
     \<and> (t_Status t \<noteq> TaskStatusUnset \<longrightarrow> t_Status t' \<noteq> TaskStatusUnset)"

lemma revised_refl [simp]: "revised t t"
  by (simp add: revised_def)

lemma revised_trans: "revised a b \<Longrightarrow> revised b c \<Longrightarrow> revised a c"
  by (simp add: revised_def)

lemma revised_ops [simp]:
  "revised t (withCreatedAt t now)"
  "revised t (t\<lparr>t_UpdatedAt := now\<rparr>)"
  "revised t (completed_task t cp now)"
  "revised t (proposal_task t mp now)"
  "revised t (kill_task s now t)"
  "revised t (skipped now s t)"
  "st \<noteq> TaskStatusUnset \<Longrightarrow> revised t ((withCreatedAt t now)\<lparr>t_Status := st, t_Summary := x, t_UpdatedAt := y\<rparr>)"
  "revised t ((applyPendingOverlays t q)\<lparr>t_Status := TaskStatusReady, t_UpdatedAt := now\<rparr>)"
  "revised t (t\<lparr>t_Status := TaskStatusReady, t_UpdatedAt := now\<rparr>)"
  "revised t (ready_task trace p t)"
  by (simp_all add: revised_def withCreatedAt_def completed_task_def proposal_task_def Let_def
      kill_task_def skipped_def applyPendingOverlays_def applyReadyOverlays_def ready_task_def)

lemma status_step_Tasks:
  "Tasks (status_step trace p now) = mput (st_TaskID p) ((withCreatedAt (taskOrNew trace (st_TaskID p)) now)
     \<lparr>t_Status := st_Status p, t_Summary := st_Summary p, t_UpdatedAt := now\<rparr>) (Tasks trace)"
  by (simp add: status_step_def Let_def)

lemma plan_step_Tasks:
  "Tasks (plan_step trace ev now specs) = fst (fold (plan_spec ev now) specs (Tasks trace, False, False))"
  by (simp add: plan_step_def Let_def split_beta)

lemma promotions_fst:
  "fst (promotions trace now) = fst (PromoteFirstEligible (fst (tryPromotePendingReady trace now)) now)"
  by (simp add: promotions_def split_beta)

locale task_relation =
  fixes R :: "TaskSnapshot option \<Rightarrow> TaskSnapshot option \<Rightarrow> bool"
  assumes refl: "R x x"
    and trans: "R x y \<Longrightarrow> R y z \<Longrightarrow> R x z"
    and revise: "revised t t' \<Longrightarrow> R (Some t) (Some t')"
    and create: "revised (bareTask i) t \<Longrightarrow> R None (Some t)"
    and unplanned: "t_Status t = TaskStatusUnset \<Longrightarrow> R (Some t) None"
begin

text \<open>The relation at every id of two snapshots.\<close>

definition rel :: "TraceSnapshot \<Rightarrow> TraceSnapshot \<Rightarrow> bool" where
  "rel a b \<longleftrightarrow> (\<forall>k. R (mget (Tasks a) k) (mget (Tasks b) k))"

lemma rel_refl [simp]: "rel a a"
  by (simp add: rel_def refl)

lemma rel_trans: "rel a b \<Longrightarrow> rel b c \<Longrightarrow> rel a c"
  unfolding rel_def using trans by blast

lemma rel_same: "Tasks a = Tasks b \<Longrightarrow> rel a b"
  by (simp add: rel_def refl)

lemma rel_put: "R (mget (Tasks a) k) (Some t) \<Longrightarrow> Tasks b = mput k t (Tasks a) \<Longrightarrow> rel a b"
  by (simp add: rel_def refl)

lemma rel_taskOrNew:
  assumes "revised (taskOrNew a i) t" "Tasks b = mput i t (Tasks a)"
  shows "rel a b"
proof (rule rel_put [OF _ assms(2)])
  show "R (mget (Tasks a) i) (Some t)"
    using assms(1) revise create by (cases "mget (Tasks a) i") (auto simp: taskOrNew_def)
qed

lemma rel_map: "(\<And>k. mget (Tasks b) k = map_option f (mget (Tasks a) k)) \<Longrightarrow> (\<And>t. revised t (f t)) \<Longrightarrow> rel a b"
proof -
  assume a: "\<And>k. mget (Tasks b) k = map_option f (mget (Tasks a) k)" "\<And>t. revised t (f t)"
  have "R (mget (Tasks a) k) (mget (Tasks b) k)" for k
    using a revise refl by (cases "mget (Tasks a) k") simp_all
  then show "rel a b" by (simp add: rel_def)
qed

lemma rel_tryPromote: "trace_wf trace \<Longrightarrow> rel trace (fst (tryPromotePendingReady trace now))"
proof (cases "snd (tryPromotePendingReady trace now)")
  case (Some t)
  assume wf: "trace_wf trace"
  from Some obtain trace' where p: "tryPromotePendingReady trace now = (trace', Some t)"
    by (metis prod.collapse)
  note tp = tryPromote_Some [OF p wf]
  obtain c q where c: "FirstEligiblePlanned trace = Some c" "t_TaskID c = t_TaskID t"
    "t = (applyPendingOverlays c q)\<lparr>t_Status := TaskStatusReady, t_UpdatedAt := now\<rparr>"
    using tp(6) by blast
  have "mget (Tasks trace) (t_TaskID t) = Some c"
    using FirstEligiblePlanned_mget [OF wf c(1)] c(2) by simp
  moreover have "revised c t" unfolding c(3) by simp
  ultimately show ?thesis using tp(4) p by (intro rel_put [of _ "t_TaskID t" t]) (simp_all add: revise)
qed (simp add: tryPromote_None)

lemma rel_PromoteFirst: "trace_wf trace \<Longrightarrow> rel trace (fst (PromoteFirstEligible trace now))"
proof (cases "snd (PromoteFirstEligible trace now)")
  case (Some t)
  assume wf: "trace_wf trace"
  from PromoteFirst_made_ready(3) [OF Some] obtain c where
    c: "FirstEligiblePlanned trace = Some c" "t = c\<lparr>t_Status := TaskStatusReady, t_UpdatedAt := now\<rparr>" by blast
  then have "Tasks (fst (PromoteFirstEligible trace now)) = mput (t_TaskID c) t (Tasks trace)"
    using PromoteFirst_made_ready(4) [OF Some] by simp
  moreover have "mget (Tasks trace) (t_TaskID c) = Some c" using FirstEligiblePlanned_mget [OF wf c(1)] .
  moreover have "revised c t" unfolding c(2) by simp
  ultimately show ?thesis by (intro rel_put [of _ "t_TaskID c" t]) (simp_all add: revise)
next
  case None
  then show ?thesis using PromoteFirstEligible_None [of trace now "fst (PromoteFirstEligible trace now)"]
    by (metis prod.collapse rel_refl)
qed

lemma rel_supersede:
  assumes "trace_wf trace"
  shows "rel trace (fst (SupersedeEnergyDeferredDispatches trace now summary))"
proof -
  have "R (mget (Tasks trace) k) (mget (Tasks (fst (SupersedeEnergyDeferredDispatches trace now summary))) k)" for k
    unfolding Supersede_mget [OF assms]
    using refl revise by (cases "mget (Tasks trace) k") simp_all
  then show ?thesis by (simp add: rel_def)
qed

lemma rel_park:
  assumes "\<And>t. mget (Tasks trace) (rd_TaskID p) = Some t \<Longrightarrow> t_Status t = TaskStatusUnset"
  shows "rel trace (park trace p)"
  using assms unplanned refl
  by (auto simp: rel_def park_def) (metis option.exhaust)

lemma rel_status: "st_Status p \<noteq> TaskStatusUnset \<Longrightarrow> rel trace (status_step trace p now)"
  by (rule rel_taskOrNew [OF _ status_step_Tasks]) simp

lemma rel_ready_step:
  assumes "mget (Tasks trace) (rd_TaskID p) = Some t"
  shows "rel trace (rs_trace (ready_step trace p now t))"
proof (rule rel_put [of _ "rd_TaskID p" "(ready_task trace p t)\<lparr>t_UpdatedAt := now\<rparr>"])
  show "R (mget (Tasks trace) (rd_TaskID p)) (Some ((ready_task trace p t)\<lparr>t_UpdatedAt := now\<rparr>))"
    using assms revised_trans [of t "ready_task trace p t"] by (simp add: revise)
qed (simp add: ready_step_def Let_def)

lemma rel_kill: "rel trace (applySystemKill trace reason now)"
proof (cases "Killed trace")
  case False
  show ?thesis
    by (rule rel_map [where f = "kill_task (if reason = [] then TraceKilledSummary else reason) now"])
      (simp_all add: False applySystemKill_def Let_def mget_map_snd)
qed (simp add: applySystemKill_def)

text \<open>Planning is the one reducer that needs more: what it may do to a free id.\<close>

lemma rel_plan_spec:
  assumes "\<And>spec. R None (Some (plannedTask ev now spec))"
    and "\<And>t spec. t_Status t = TaskStatusUnset \<Longrightarrow> R (Some t) (Some (plannedTask ev now spec))"
  shows "R (mget (fst acc) k) (mget (fst (fold (plan_spec ev now) specs acc)) k)"
proof (induction specs arbitrary: acc)
  case (Cons spec specs)
  have "R (mget (fst acc) k) (mget (fst (plan_spec ev now spec acc)) k)"
    using assms refl by (cases "mget (fst acc) k") (auto simp: plan_spec_def split_beta)
  with Cons [of "plan_spec ev now spec acc"] show ?case using trans by simp
qed (simp add: refl)

lemma rel_plan:
  assumes "\<And>spec. R None (Some (plannedTask ev now spec))"
    and "\<And>t spec. t_Status t = TaskStatusUnset \<Longrightarrow> R (Some t) (Some (plannedTask ev now spec))"
  shows "rel trace (plan_step trace ev now specs)"
  using rel_plan_spec [OF assms, of "(Tasks trace, False, False)" _ specs]
  unfolding rel_def plan_step_Tasks fst_conv by blast

lemma rel_promotions:
  assumes "ledger_ok trace"
  shows "rel trace (fst (promotions trace now))"
  unfolding promotions_fst
  by (rule rel_trans [OF rel_tryPromote rel_PromoteFirst]) (intro ledger_ok_wf ledger_ok_tryPromote assms)+

lemma rel_reduce:
  assumes "reduceEvent trace ev now = Inr s" "ledger_ok trace"
    and plan: "ev_Type ev = EventInsight \<Longrightarrow> (\<forall>spec. R None (Some (plannedTask ev now spec)))
      \<and> (\<forall>t spec. t_Status t = TaskStatusUnset \<longrightarrow> R (Some t) (Some (plannedTask ev now spec)))"
  shows "rel trace (rs_trace s)"
  using assms(1)
proof (cases rule: reduceEvent_cases)
  case insight
  have "rel trace (fst (tryPromotePendingReady (plan_step trace ev now specs) now))" for specs
    by (rule rel_trans [OF rel_plan rel_tryPromote])
      (use plan [OF insight(1)] ledger_ok_wf [OF ledger_ok_plan_step [OF assms(2)]] in blast)+
  with reduceInsight_Inr [OF insight(2)] show ?thesis by auto
next
  case kill
  from reduceSystemKill_Inr [OF kill(3)] show ?thesis by (auto simp: rel_kill)
next
  case status
  from reduceTaskStatus_Inr [OF status(3)] show ?thesis by (auto simp: rel_status)
next
  case ready
  from reduceTaskReady_Inr [OF ready(3)] show ?thesis by (auto simp: rel_park rel_ready_step)
next
  case energy
  have "rel trace (rs_trace (applyStipend trace a now))" for a
    using rel_supersede [of "trace\<lparr>EnergyRemaining := a\<rparr>" now] assms(2)
    by (simp add: applyStipend_trace rel_def ledger_ok_def trace_wf_def)
  with reduceEnergy_Inr [OF energy(3)] show ?thesis by (auto simp: rel_same)
next
  case verify
  have "rel trace (fst (promotions (verify_step trace p now) now))" if "\<not> Killed trace" for p
  proof (rule rel_trans)
    show "rel trace (verify_step trace p now)"
      by (rule rel_taskOrNew [of _ "cp_TaskID p"]) (auto simp: verify_step_def)
    show "rel (verify_step trace p now) (fst (promotions (verify_step trace p now) now))"
      by (rule rel_promotions [OF ledger_ok_verify_step [OF assms(2) that]])
  qed
  with reduceVerification_Inr [OF verify(2)] show ?thesis by auto
next
  case mutate
  have "rel trace (put_task trace i (proposal_task (taskOrNew trace i) p now))" for i p
    by (rule rel_taskOrNew [of _ i]) simp_all
  with reduceMutation_Inr [OF mutate(2)] show ?thesis by auto
qed auto

lemma rel_event:
  assumes "ApplyEvent clock trace ev = Inr res" "ledger_ok trace"
    and "ev_Type ev = EventInsight \<Longrightarrow> (\<forall>now spec. R None (Some (plannedTask ev now spec)))
      \<and> (\<forall>now t spec. t_Status t = TaskStatusUnset \<longrightarrow> R (Some t) (Some (plannedTask ev now spec)))"
  shows "R (mget (Tasks trace) k) (mget (Tasks (ar_Trace res)) k)"
proof -
  obtain i s where "reduceEvent (trace\<lparr>TraceID := i\<rparr>) ev (eventStamp clock ev) = Inr s"
    "res = finishStep s"
    by (rule ApplyEvent_Inr [OF assms(1)])
  then show ?thesis
    using rel_reduce [of "trace\<lparr>TraceID := i\<rparr>" ev _ s] assms(2,3) by (simp add: rel_def)
qed

end

section \<open>A planned task's contract is fixed\<close>

definition contract_kept :: "TaskSnapshot option \<Rightarrow> TaskSnapshot option \<Rightarrow> bool" where
  "contract_kept a b \<longleftrightarrow>
    (\<forall>t. a = Some t \<longrightarrow> t_Status t \<noteq> TaskStatusUnset \<longrightarrow> (\<exists>t'. b = Some t' \<and> revised t t'))"

interpretation contract: task_relation contract_kept
proof
  fix x y z :: "TaskSnapshot option"
  show "contract_kept x y \<Longrightarrow> contract_kept y z \<Longrightarrow> contract_kept x z"
    by (auto simp: contract_kept_def revised_def)
qed (simp_all add: contract_kept_def)

section \<open>Closing rounds come from the runtime\<close>

definition closing_kept :: "TaskSnapshot option \<Rightarrow> TaskSnapshot option \<Rightarrow> bool" where
  "closing_kept a b \<longleftrightarrow> (\<forall>t'. b = Some t' \<longrightarrow> IsClosingTask t' \<longrightarrow> (\<exists>t. a = Some t \<and> IsClosingTask t))"

lemma revised_closing: "revised t t' \<Longrightarrow> IsClosingTask t' = IsClosingTask t"
  by (simp add: revised_def IsClosingTask_def TaskPhaseOf_def)

lemma bareTask_work: "\<not> IsClosingTask (bareTask i)"
  by (simp add: IsClosingTask_def TaskPhaseOf_def bareTask_def DeriveTaskPhase_def NormalizeTaskPhase_def)

lemma DeriveTaskPhase_not_closing:
  "ph \<noteq> TaskPhaseClosing \<Longrightarrow> DeriveTaskPhase ph rv \<noteq> TaskPhaseClosing"
  by (cases ph) (simp_all add: DeriveTaskPhase_def NormalizeTaskPhase_def)

lemma plannedTask_closing:
  assumes "IsClosingTask (plannedTask ev now spec)"
  shows "TrimSpace (ev_AgentID ev) = RuntimeAgentID"
proof (rule ccontr)
  assume "TrimSpace (ev_AgentID ev) \<noteq> RuntimeAgentID"
  then have "plannedTaskPhase spec (ev_AgentID ev) \<noteq> TaskPhaseClosing"
    by (simp add: plannedTaskPhase_def Let_def)
  with assms DeriveTaskPhase_not_closing show False
    by (simp add: IsClosingTask_def TaskPhaseOf_def plannedTask_def)
qed

interpretation closing: task_relation closing_kept
  by unfold_locales (auto simp: closing_kept_def revised_closing bareTask_work)

end
