(* ===== verification/LedgerLaws.thy ===== *)
theory LedgerLaws
  imports LedgerTasks
begin

text \<open>
  Accounting over one event (the reserve and the work revision), what a kill and a stipend
  leave behind, and the histories of a trace: every mutation the \<open>Ledger\<close> interface offers, as
  a step relation, with the invariant at every reachable snapshot.
\<close>

section \<open>The reserve\<close>

datatype honey_effect = Keeps | Adds int | Spends int | Refills int

definition energy_effect :: "Event \<Rightarrow> honey_effect" where
  "energy_effect ev =
    (if ev_Type ev \<noteq> EventSignal then Keeps
     else if signalKind ev = SignalEnergyAdd then
       (case decodePayload EnergyAddPayload_schema EnergyAddPayload_of ev ''energy.add'' of
          Inr p \<Rightarrow> Adds (ea_Amount p) | Inl _ \<Rightarrow> Keeps)
     else if signalKind ev = SignalEnergyConsume then
       (case decodePayload EnergyConsumePayload_schema EnergyConsumePayload_of ev ''energy.consume'' of
          Inr p \<Rightarrow> Spends (ec_Amount p) | Inl _ \<Rightarrow> Keeps)
     else if signalKind ev = SignalEnergyStipend then
       (case decodePayload EnergyStipendPayload_schema EnergyStipendPayload_of ev ''energy.stipend'' of
          Inr p \<Rightarrow> Refills (es_Amount p) | Inl _ \<Rightarrow> Keeps)
     else Keeps)"

fun effect_on :: "honey_effect \<Rightarrow> int \<Rightarrow> int" where
  "effect_on Keeps r = r"
| "effect_on (Adds n) r = wrap64 (r + n)"
| "effect_on (Spends n) r = wrap64 (r - n)"
| "effect_on (Refills n) r = n"

text \<open>A successful event had a positive amount, and spent no more than there was.\<close>

fun effect_paid :: "honey_effect \<Rightarrow> int \<Rightarrow> bool" where
  "effect_paid Keeps r = True"
| "effect_paid (Adds n) r = (n > 0)"
| "effect_paid (Spends n) r = (0 < n \<and> n \<le> r)"
| "effect_paid (Refills n) r = (n > 0)"

lemma remaining_steps [simp]:
  "EnergyRemaining (status_step trace sp now) = EnergyRemaining trace"
  "EnergyRemaining (verify_step trace p now) = EnergyRemaining trace"
  "EnergyRemaining (fst (promotions trace now)) = EnergyRemaining trace"
  "EnergyRemaining (plan_step trace ev now specs) = EnergyRemaining trace"
  "EnergyRemaining (park trace q) = EnergyRemaining trace"
  "EnergyRemaining (rs_trace (ready_step trace q now t)) = EnergyRemaining trace"
  "EnergyRemaining (rs_trace (applyStipend trace amount now)) = amount"
  "EnergyRemaining (applySystemKill trace r now) = EnergyRemaining trace"
  by (simp_all add: status_step_def verify_step_def promotions_def plan_step_def park_def
      ready_step_def applyStipend_trace applySystemKill_def Let_def split_beta PromoteFirstEligible_frame)

lemma reduceEvent_energy:
  assumes "reduceEvent trace ev now = Inr s"
  shows "EnergyRemaining (rs_trace s) = effect_on (energy_effect ev) (EnergyRemaining trace)
    \<and> effect_paid (energy_effect ev) (EnergyRemaining trace)"
  using assms
proof (cases rule: reduceEvent_cases)
  case insight
  with reduceInsight_Inr [OF insight(2)] show ?thesis by (auto simp: energy_effect_def)
next
  case kill
  with reduceSystemKill_Inr [OF kill(3)] show ?thesis by (auto simp: energy_effect_def)
next
  case status
  with reduceTaskStatus_Inr [OF status(3)] show ?thesis by (auto simp: energy_effect_def)
next
  case ready
  with reduceTaskReady_Inr [OF ready(3)] show ?thesis by (auto simp: energy_effect_def)
next
  case energy
  show ?thesis
  proof (cases "signalKind ev \<in> {SignalEnergyAdd, SignalEnergyConsume, SignalEnergyStipend}")
    case True
    with energy(1,3) show ?thesis
      by (auto simp: energy_effect_def reduceEnergy_def reduceEnergyAdd_def reduceEnergyConsume_def
          reduceEnergyStipend_def reduce_inv split: if_splits)
  next
    case False
    with reduceEnergy_Inr [OF energy(3)] show ?thesis by (auto simp: energy_effect_def)
  qed
next
  case verify
  with reduceVerification_Inr [OF verify(2)] show ?thesis by (auto simp: energy_effect_def)
next
  case mutate
  with reduceMutation_Inr [OF mutate(2)] show ?thesis by (auto simp: energy_effect_def)
qed (auto simp: energy_effect_def)

lemma ApplyEvent_energy:
  assumes "ApplyEvent clock trace ev = Inr res"
  shows "EnergyRemaining (ar_Trace res) = effect_on (energy_effect ev) (EnergyRemaining trace)"
    "effect_paid (energy_effect ev) (EnergyRemaining trace)"
proof -
  obtain i s where s: "reduceEvent (trace\<lparr>TraceID := i\<rparr>) ev (eventStamp clock ev) = Inr s"
    "res = finishStep s"
    by (rule ApplyEvent_Inr [OF assms])
  from reduceEvent_energy [OF s(1)] s(2)
  show "EnergyRemaining (ar_Trace res) = effect_on (energy_effect ev) (EnergyRemaining trace)"
    "effect_paid (energy_effect ev) (EnergyRemaining trace)" by simp_all
qed

section \<open>The work revision\<close>

lemma reduceEvent_revision:
  assumes "reduceEvent trace ev now = Inr s"
  shows "WorkRevision (rs_trace s) \<in> {WorkRevision trace, WorkRevision (AdvanceWorkRevision trace)}"
proof -
  have adv: "WorkRevision (AdvanceWorkRevision a) = WorkRevision (AdvanceWorkRevision b)"
    if "WorkRevision a = WorkRevision b" for a b
    using that by (simp add: AdvanceWorkRevision_def Let_def)
  from assms show ?thesis
  proof (cases rule: reduceEvent_cases)
    case insight
    have "WorkRevision (plan_step trace ev now specs) \<in> {WorkRevision trace, WorkRevision (AdvanceWorkRevision trace)}"
      for specs by (auto simp: plan_step_def Let_def split_beta intro: adv)
    then have "WorkRevision (fst (tryPromotePendingReady (plan_step trace ev now specs) now))
        \<in> {WorkRevision trace, WorkRevision (AdvanceWorkRevision trace)}" for specs by simp
    with reduceInsight_Inr [OF insight(2)] show ?thesis by (metis insertI1 skipStep_simps(1))
  next
    case kill
    with reduceSystemKill_Inr [OF kill(3)] show ?thesis by (auto simp: applySystemKill_def Let_def)
  next
    case status
    have "WorkRevision (status_step trace p now) \<in> {WorkRevision trace, WorkRevision (AdvanceWorkRevision trace)}"
      for p by (auto simp: status_step_def Let_def intro: adv)
    with reduceTaskStatus_Inr [OF status(3)] show ?thesis
      by (metis insertI1 plainStep_simps(1) skipStep_simps(1))
  next
    case ready
    with reduceTaskReady_Inr [OF ready(3)] show ?thesis by (auto simp: ready_step_def park_def Let_def)
  next
    case energy
    with reduceEnergy_Inr [OF energy(3)] show ?thesis by (auto simp: applyStipend_trace)
  next
    case verify
    with reduceVerification_Inr [OF verify(2)] show ?thesis
      by (auto simp: verify_step_def promotions_fst PromoteFirstEligible_frame)
  next
    case mutate
    with reduceMutation_Inr [OF mutate(2)] show ?thesis by auto
  qed auto
qed

lemma ApplyEvent_revision:
  assumes "ApplyEvent clock trace ev = Inr res"
  shows "WorkRevision (ar_Trace res) \<in> {WorkRevision trace, WorkRevision (AdvanceWorkRevision trace)}"
proof -
  obtain i s where s: "reduceEvent (trace\<lparr>TraceID := i\<rparr>) ev (eventStamp clock ev) = Inr s"
    "res = finishStep s"
    by (rule ApplyEvent_Inr [OF assms])
  from reduceEvent_revision [OF s(1)] s(2) show ?thesis
    by (simp add: AdvanceWorkRevision_def Let_def)
qed

section \<open>Kills and stipends\<close>

lemma applySystemKill_frozen:
  assumes "\<not> Killed trace"
  shows "frozen (applySystemKill trace reason now)"
proof -
  let ?ab = "fst (AbandonPendingDispatches (trace\<lparr>Killed := True, PendingReady := None\<rparr>) now)"
  have "filter pd_active (PendingDispatches ?ab) = []" by (rule Abandon_none_active)
  with assms show ?thesis
    by (auto simp: frozen_def applySystemKill_def Let_def mget_map_snd)
qed

lemma applySystemKill_mget:
  "\<not> Killed trace \<Longrightarrow> mget (Tasks (applySystemKill trace reason now)) k =
    map_option (kill_task (if reason = [] then TraceKilledSummary else reason) now) (mget (Tasks trace) k)"
  by (simp add: applySystemKill_def Let_def mget_map_snd)

text \<open>Counting the entries a stipend leaves waiting.\<close>

definition superseded_count :: "TraceSnapshot \<Rightarrow> int" where
  "superseded_count trace = int (length (filter superseded_entry (PendingDispatches trace)))"

lemma count_split: "length (filter P xs) = length (filter (\<lambda>x. P x \<and> Q x) xs) + length (filter (\<lambda>x. P x \<and> \<not> Q x) xs)"
  by (induction xs) auto

lemma superseded_active: "superseded_entry e \<Longrightarrow> pd_active e"
  by (simp add: superseded_entry_def)

lemma Supersede_count:
  "ActivePendingCount trace - ActivePendingCount (fst (SupersedeEnergyDeferredDispatches trace now summary))
    = superseded_count trace"
proof -
  have "filter superseded_entry q = filter (\<lambda>e. pd_active e \<and> superseded_entry e) q" for q
    using superseded_active by (induction q) auto
  then show ?thesis
    using count_split [where P = pd_active and Q = superseded_entry and xs = "PendingDispatches trace"]
    by (simp add: ActivePendingCount_def Supersede_active superseded_count_def)
qed

lemma ActivePendingCount_energy [simp]:
  "ActivePendingCount (trace\<lparr>EnergyRemaining := r\<rparr>) = ActivePendingCount trace"
  "superseded_count (trace\<lparr>EnergyRemaining := r\<rparr>) = superseded_count trace"
  by (simp_all add: ActivePendingCount_def superseded_count_def)

lemma ActivePendingCount_cong: "PendingDispatches a = PendingDispatches b \<Longrightarrow> ActivePendingCount a = ActivePendingCount b"
  by (simp add: ActivePendingCount_def)

lemma applyStipend_pauseClose:
  "rs_pauseClose (applyStipend trace amount now) = (case EnergyPause trace of
     None \<Rightarrow> None
   | Some p \<Rightarrow> Some \<lparr>pc_Episode = p\<lparr>pa_Pending := ActivePendingCount trace - superseded_count trace\<rparr>,
       pc_Source = EnergyResumeSourceStipend, pc_Remaining = amount,
       pc_Budget = Allocated (EnergyBudget trace) (EnergyAdded trace),
       pc_PendingBefore = ActivePendingCount trace,
       pc_PendingAfter = ActivePendingCount trace - superseded_count trace, pc_Dispatched = 0,
       pc_Abandoned = superseded_count trace\<rparr>)"
proof -
  let ?s = "fst (SupersedeEnergyDeferredDispatches (trace\<lparr>EnergyRemaining := amount\<rparr>) now
    (SupersededByStipendSummary amount))"
  have c: "ActivePendingCount ?s = ActivePendingCount trace - superseded_count trace"
    using Supersede_count [of "trace\<lparr>EnergyRemaining := amount\<rparr>" now "SupersededByStipendSummary amount"]
    by simp
  have c': "ActivePendingCount (?s\<lparr>EnergyPause := None\<rparr>) = ActivePendingCount ?s"
    by (rule ActivePendingCount_cong) simp
  show ?thesis
    by (simp add: applyStipend_def Let_def CloseEnergyPause_def stipend_close_def c c' split: option.split)
qed

section \<open>Histories\<close>

text \<open>
  One mutation of the \<open>Ledger\<close> interface. Resolving with \<open>pending\<close> would reopen an entry; no
  caller does (internal/runtime/pending_dispatch.go resolves as consumed or abandoned), so a
  resolution closes.
\<close>

inductive ledger_step :: "TraceSnapshot \<Rightarrow> TraceSnapshot \<Rightarrow> bool" where
  event: "ApplyEvent clock a ev = Inr res \<Longrightarrow> ledger_step a (ar_Trace res)"
| seed: "EnsureEnergySeed now body a budget = (b, seed, created) \<Longrightarrow> ledger_step a b"
| seed_published: "MarkEnergySeedPublished a i = Inr (b, changed) \<Longrightarrow> ledger_step a b"
| deferral: "DeferPendingDispatch now body a d = (b, added) \<Longrightarrow> ledger_step a b"
| resolved: "st \<noteq> PendingDispatchPending \<Longrightarrow> ResolvePendingDispatch now a i st = (b, changed)
    \<Longrightarrow> ledger_step a b"
| unresolved: "MarkPendingDispatchUnresolved now a i diag = (b, changed) \<Longrightarrow> ledger_step a b"
| pause_claimed: "ClaimEnergyPausePublished a = (b, r) \<Longrightarrow> ledger_step a b"
| pause_cleared: "CloseEnergyPause a = (b, r) \<Longrightarrow> ledger_step a b"
| completion: "RecordWorkCompletion now a c = Inr (b, w, won) \<Longrightarrow> ledger_step a b"
| completion_published: "MarkWorkCompletionPublished a i = Inr (b, changed) \<Longrightarrow> ledger_step a b"

inductive_cases ledger_stepE: "ledger_step a b"

inductive reachable :: "string \<Rightarrow> TraceSnapshot \<Rightarrow> bool" for i :: string where
  start: "reachable i (emptyTrace i)"
| step: "reachable i a \<Longrightarrow> ledger_step a b \<Longrightarrow> reachable i b"

text \<open>The mutations beside \<open>Apply\<close> leave the tasks, the kill flag and the parked kick alone.\<close>

definition side_step :: "TraceSnapshot \<Rightarrow> TraceSnapshot \<Rightarrow> bool" where
  "side_step a b \<longleftrightarrow> Tasks b = Tasks a \<and> Killed b = Killed a \<and> PendingReady b = PendingReady a
     \<and> (queue_ok a \<longrightarrow> queue_ok b)
     \<and> (Killed a \<longrightarrow> filter pd_active (PendingDispatches a) = []
        \<longrightarrow> filter pd_active (PendingDispatches b) = [])"

lemma side_step_ok: "side_step a b \<Longrightarrow> ledger_ok a \<Longrightarrow> ledger_ok b"
  by (auto simp: side_step_def ledger_ok_def trace_wf_def frozen_def)

lemma side_same: "Tasks b = Tasks a \<Longrightarrow> Killed b = Killed a \<Longrightarrow> PendingReady b = PendingReady a
    \<Longrightarrow> PendingDispatches b = PendingDispatches a \<Longrightarrow> side_step a b"
  by (simp add: side_step_def queue_ok_def)

lemma none_active_ids: "filter pd_active q = [] \<longleftrightarrow> active_ids q = []"
  by (simp add: active_ids_def)

lemma side_Defer: "DeferPendingDispatch now body a d = (b, added) \<Longrightarrow> side_step a b"
  using Defer_frame [of now body a d] Defer_queue [of now body a d] Defer_queue_ok [of a now body d]
  by (auto simp: side_step_def)

lemma Resolve_frame:
  "Tasks (fst (ResolvePendingDispatch now a i st)) = Tasks a"
  "Killed (fst (ResolvePendingDispatch now a i st)) = Killed a"
  "PendingReady (fst (ResolvePendingDispatch now a i st)) = PendingReady a"
  by (simp_all add: Resolve_alt split: option.split)

lemma side_Resolve:
  assumes "st \<noteq> PendingDispatchPending" "ResolvePendingDispatch now a i st = (b, changed)"
  shows "side_step a b"
proof -
  have b: "b = fst (ResolvePendingDispatch now a i st)" using assms(2) by simp
  have "active_ids (PendingDispatches b) = []" if "active_ids (PendingDispatches a) = []"
  proof (cases "i = []")
    case True
    with b that show ?thesis by (simp add: Resolve_alt)
  next
    case False
    have "queue_ok a" using that by (simp add: queue_ok_def)
    with Resolve_closes [of a i st now] False assms(1) that b show ?thesis by simp
  qed
  with b Resolve_frame [of now a i st] Resolve_queue_ok [of a now i st] show ?thesis
    by (simp add: side_step_def none_active_ids)
qed

lemma side_MarkUnresolved:
  assumes "MarkPendingDispatchUnresolved now a i diag = (b, changed)"
  shows "side_step a b"
proof -
  have b: "b = fst (MarkPendingDispatchUnresolved now a i diag)" using assms by simp
  have none: "b = a" if "filter pd_active (PendingDispatches a) = []"
  proof -
    have "first_index (\<lambda>e. pd_ID e = i \<and> pd_active e) (PendingDispatches a) = None"
      using that by (auto simp: first_index_None filter_empty_conv)
    with b show ?thesis by (simp add: MarkPendingDispatchUnresolved_def)
  qed
  have "Tasks b = Tasks a" "Killed b = Killed a" "PendingReady b = PendingReady a"
    using b by (simp_all add: MarkPendingDispatchUnresolved_def Let_def split: option.split)
  with none b MarkUnresolved_queue_ok [of a now i diag] show ?thesis by (auto simp: side_step_def)
qed

lemma side_seed: "EnsureEnergySeed now body a budget = (b, seed, created) \<Longrightarrow> side_step a b"
  using EnsureEnergySeed_frame [of now body a budget] by (intro side_same) simp_all

lemma side_seed_published: "MarkEnergySeedPublished a i = Inr (b, changed) \<Longrightarrow> side_step a b"
  by (auto simp: MarkEnergySeedPublished_def intro!: side_same split: option.splits if_splits)

lemma side_claim: "ClaimEnergyPausePublished a = (b, r) \<Longrightarrow> side_step a b"
  by (auto simp: ClaimEnergyPausePublished_def Let_def intro!: side_same split: option.splits if_splits)

lemma side_close: "CloseEnergyPause a = (b, r) \<Longrightarrow> side_step a b"
  by (auto simp: CloseEnergyPause_def intro!: side_same split: option.splits)

lemma side_record: "RecordWorkCompletion now a c = Inr (b, w, won) \<Longrightarrow> side_step a b"
  by (auto simp: RecordWorkCompletion_def Let_def intro!: side_same split: option.splits if_splits)

lemma side_completion_published: "MarkWorkCompletionPublished a i = Inr (b, changed) \<Longrightarrow> side_step a b"
  by (auto simp: MarkWorkCompletionPublished_def intro!: side_same split: option.splits if_splits)

lemmas side_steps = side_seed side_seed_published side_Defer side_Resolve side_MarkUnresolved side_claim
  side_close side_record side_completion_published

text \<open>Either an event, or a mutation that leaves the tasks alone.\<close>

lemma ledger_step_split:
  "ledger_step a b \<Longrightarrow> (\<exists>clock ev res. ApplyEvent clock a ev = Inr res \<and> b = ar_Trace res) \<or> side_step a b"
  by (erule ledger_stepE) (blast intro: side_steps)+

lemma ledger_step_ok: "ledger_step a b \<Longrightarrow> ledger_ok a \<Longrightarrow> ledger_ok b"
  using ledger_step_split ok_inv.event side_step_ok by blast

lemma reachable_ok: "reachable i trace \<Longrightarrow> ledger_ok trace"
  by (induction rule: reachable.induct) (auto intro: ledger_step_ok)

lemma ledger_step_killed: "ledger_step a b \<Longrightarrow> Killed a \<Longrightarrow> Killed b"
  using ledger_step_split killed_inv.event by (metis side_step_def)

end
