(* ===== verification/LedgerStore.thy ===== *)
theory LedgerStore
  imports LedgerLaws
begin

text \<open>
  The two implementations of the \<open>Ledger\<close> interface: memory.go, a map of snapshots behind a
  mutex, and kv_ledger.go, snapshots in a JetStream key-value bucket written by
  compare-and-set. The bucket is third-party code: its operations and the JSON codec are the
  argument \<open>kv\<close>, the writes of other processes between two bucket calls the argument
  \<open>rivals\<close>.
\<close>

section \<open>Mutations of one snapshot\<close>

datatype store_error =
    TraceIDRequired
  | EventMissingTraceID
  | ReduceError apply_error
  | PublishError publish_error
  | CompletionError completion_error
  | KvGetError
  | DecodeSnapshotError
  | EncodeSnapshotError
  | KvPutError
  | ApplyConflict nat

text \<open>The updated snapshot, whether it changed, and what the caller is told.\<close>

type_synonym 'r mutation = "TraceSnapshot \<Rightarrow> store_error + (TraceSnapshot \<times> bool \<times> 'r)"

definition m_Apply :: "time \<Rightarrow> Event \<Rightarrow> ApplyResult mutation" where
  "m_Apply clock ev trace = (case ApplyEvent clock trace ev of
     Inl e \<Rightarrow> Inl (ReduceError e)
   | Inr res \<Rightarrow> Inr (ar_Trace res, ar_Changed res, res))"

definition m_EnsureEnergySeed :: "time \<Rightarrow> string option \<Rightarrow> int \<Rightarrow> (EnergySeedSnapshot \<times> bool) mutation" where
  "m_EnsureEnergySeed now body budget trace =
    (let (updated, seed, created) = EnsureEnergySeed now body trace budget
     in Inr (updated, created, (seed, created)))"

definition m_MarkEnergySeedPublished :: "string \<Rightarrow> unit mutation" where
  "m_MarkEnergySeedPublished seedID trace = (case MarkEnergySeedPublished trace seedID of
     Inl e \<Rightarrow> Inl (PublishError e) | Inr (updated, changed) \<Rightarrow> Inr (updated, changed, ()))"

definition m_DeferPendingDispatch :: "time \<Rightarrow> string option \<Rightarrow> PendingDispatch \<Rightarrow> bool mutation" where
  "m_DeferPendingDispatch now body d trace =
    (let (updated, changed) = DeferPendingDispatch now body trace d in Inr (updated, changed, changed))"

definition m_ResolvePendingDispatch :: "time \<Rightarrow> string \<Rightarrow> PendingDispatchStatus \<Rightarrow> unit mutation" where
  "m_ResolvePendingDispatch now i st trace =
    (let (updated, changed) = ResolvePendingDispatch now trace i st in Inr (updated, changed, ()))"

definition m_MarkPendingDispatchUnresolved :: "time \<Rightarrow> string \<Rightarrow> string \<Rightarrow> unit mutation" where
  "m_MarkPendingDispatchUnresolved now i diag trace =
    (let (updated, changed) = MarkPendingDispatchUnresolved now trace i diag in Inr (updated, changed, ()))"

definition m_ClaimEnergyPausePublished :: "EnergyPauseSnapshot option mutation" where
  "m_ClaimEnergyPausePublished trace =
    (let (updated, pause) = ClaimEnergyPausePublished trace in Inr (updated, pause \<noteq> None, pause))"

definition m_ClearEnergyPause :: "EnergyPauseSnapshot option mutation" where
  "m_ClearEnergyPause trace =
    (let (updated, pause) = CloseEnergyPause trace in Inr (updated, pause \<noteq> None, pause))"

definition m_RecordWorkCompletion ::
  "time \<Rightarrow> WorkCompletionSnapshot \<Rightarrow> (WorkCompletionSnapshot \<times> bool) mutation" where
  "m_RecordWorkCompletion now c trace = (case RecordWorkCompletion now trace c of
     Inl e \<Rightarrow> Inl (CompletionError e)
   | Inr (updated, recorded, created) \<Rightarrow> Inr (updated, created, (recorded, created)))"

definition m_MarkWorkCompletionPublished :: "string \<Rightarrow> unit mutation" where
  "m_MarkWorkCompletionPublished i trace = (case MarkWorkCompletionPublished trace i of
     Inl e \<Rightarrow> Inl (PublishError e) | Inr (updated, changed) \<Rightarrow> Inr (updated, changed, ()))"

section \<open>MemoryLedger (memory.go)\<close>

type_synonym MemoryLedger = "(string, TraceSnapshot) gomap"

definition mem_TraceIDs :: "MemoryLedger \<Rightarrow> string list" where
  "mem_TraceIDs l = go_sort string_before (map fst l)"

definition mem_view :: "MemoryLedger \<Rightarrow> string \<Rightarrow> TraceSnapshot" where
  "mem_view l traceID = (case mget l traceID of None \<Rightarrow> emptyTrace traceID | Some t \<Rightarrow> t)"

definition mem_Snapshot :: "MemoryLedger \<Rightarrow> string \<Rightarrow> store_error + TraceSnapshot" where
  "mem_Snapshot l traceID = (if traceID = [] then Inl TraceIDRequired else Inr (mem_view l traceID))"

text \<open>
  \<open>Apply\<close> copies the snapshot struct, but the copy shares the stored task map, which the
  reducer writes in place: when the result says nothing changed, the task map of a stored
  trace is the reducer's all the same.
\<close>

definition mem_Apply :: "time \<Rightarrow> MemoryLedger \<Rightarrow> Event \<Rightarrow> MemoryLedger \<times> (store_error + ApplyResult)" where
  "mem_Apply clock l ev =
    (let traceID = ev_TraceID ev
     in if traceID = [] then (l, Inl EventMissingTraceID)
        else (case ApplyEvent clock (mem_view l traceID) ev of
            Inl e \<Rightarrow> (l, Inl (ReduceError e))
          | Inr res \<Rightarrow>
              (if ar_Changed res then mput traceID (ar_Trace res) l
               else (case mget l traceID of
                   None \<Rightarrow> l
                 | Some stored \<Rightarrow> mput traceID (stored\<lparr>Tasks := Tasks (ar_Trace res)\<rparr>) l),
               Inr res)))"

text \<open>
  Every other method: the trace id is required, and the snapshot is stored when it changed.
  Some of them read a missing trace as Go's zero snapshot, which has no trace id.
\<close>

definition mem_index :: "MemoryLedger \<Rightarrow> string \<Rightarrow> TraceSnapshot" where
  "mem_index l traceID = (case mget l traceID of None \<Rightarrow> emptyTrace [] | Some t \<Rightarrow> t)"

definition mem_mutate ::
  "(MemoryLedger \<Rightarrow> string \<Rightarrow> TraceSnapshot) \<Rightarrow> 'r mutation \<Rightarrow> MemoryLedger \<Rightarrow> string
    \<Rightarrow> MemoryLedger \<times> (store_error + 'r)" where
  "mem_mutate load m l traceID =
    (if traceID = [] then (l, Inl TraceIDRequired)
     else (case m (load l traceID) of
         Inl e \<Rightarrow> (l, Inl e)
       | Inr (updated, changed, r) \<Rightarrow> (if changed then mput traceID updated l else l, Inr r)))"

definition mem_EnsureEnergySeed ::
  "time \<Rightarrow> string option \<Rightarrow> MemoryLedger \<Rightarrow> string \<Rightarrow> int
    \<Rightarrow> MemoryLedger \<times> (store_error + (EnergySeedSnapshot \<times> bool))" where
  "mem_EnsureEnergySeed now body l traceID budget = mem_mutate mem_view (m_EnsureEnergySeed now body budget) l traceID"

definition mem_MarkEnergySeedPublished ::
  "MemoryLedger \<Rightarrow> string \<Rightarrow> string \<Rightarrow> MemoryLedger \<times> (store_error + unit)" where
  "mem_MarkEnergySeedPublished l traceID seedID = mem_mutate mem_index (m_MarkEnergySeedPublished seedID) l traceID"

definition mem_DeferPendingDispatch ::
  "time \<Rightarrow> string option \<Rightarrow> MemoryLedger \<Rightarrow> string \<Rightarrow> PendingDispatch \<Rightarrow> MemoryLedger \<times> (store_error + bool)" where
  "mem_DeferPendingDispatch now body l traceID d = mem_mutate mem_view (m_DeferPendingDispatch now body d) l traceID"

definition mem_ResolvePendingDispatch ::
  "time \<Rightarrow> MemoryLedger \<Rightarrow> string \<Rightarrow> string \<Rightarrow> PendingDispatchStatus \<Rightarrow> MemoryLedger \<times> (store_error + unit)" where
  "mem_ResolvePendingDispatch now l traceID i st =
    (if traceID \<noteq> [] \<and> mget l traceID = None then (l, Inr ())
     else mem_mutate mem_view (m_ResolvePendingDispatch now i st) l traceID)"

definition mem_MarkPendingDispatchUnresolved ::
  "time \<Rightarrow> MemoryLedger \<Rightarrow> string \<Rightarrow> string \<Rightarrow> string \<Rightarrow> MemoryLedger \<times> (store_error + unit)" where
  "mem_MarkPendingDispatchUnresolved now l traceID i diag =
    (if traceID \<noteq> [] \<and> mget l traceID = None then (l, Inr ())
     else mem_mutate mem_view (m_MarkPendingDispatchUnresolved now i diag) l traceID)"

definition mem_ClaimEnergyPausePublished ::
  "MemoryLedger \<Rightarrow> string \<Rightarrow> MemoryLedger \<times> (store_error + EnergyPauseSnapshot option)" where
  "mem_ClaimEnergyPausePublished l traceID = mem_mutate mem_index m_ClaimEnergyPausePublished l traceID"

definition mem_ClearEnergyPause ::
  "MemoryLedger \<Rightarrow> string \<Rightarrow> MemoryLedger \<times> (store_error + EnergyPauseSnapshot option)" where
  "mem_ClearEnergyPause l traceID = mem_mutate mem_index m_ClearEnergyPause l traceID"

definition mem_RecordWorkCompletion ::
  "time \<Rightarrow> MemoryLedger \<Rightarrow> string \<Rightarrow> WorkCompletionSnapshot
    \<Rightarrow> MemoryLedger \<times> (store_error + (WorkCompletionSnapshot \<times> bool))" where
  "mem_RecordWorkCompletion now l traceID c = mem_mutate mem_view (m_RecordWorkCompletion now c) l traceID"

definition mem_MarkWorkCompletionPublished ::
  "MemoryLedger \<Rightarrow> string \<Rightarrow> string \<Rightarrow> MemoryLedger \<times> (store_error + unit)" where
  "mem_MarkWorkCompletionPublished l traceID i = mem_mutate mem_index (m_MarkWorkCompletionPublished i) l traceID"

section \<open>KVLedger (kv_ledger.go)\<close>

datatype 'd kv_entry = KvMissing | KvFailed | KvEntry 'd nat

datatype put_outcome = PutOk | PutConflict | PutFailed

record ('s, 'd) kv =
  kv_Get :: "'s \<Rightarrow> string \<Rightarrow> 'd kv_entry"
  kv_Create :: "'s \<Rightarrow> string \<Rightarrow> 'd \<Rightarrow> 's \<times> put_outcome"
  kv_Update :: "'s \<Rightarrow> string \<Rightarrow> 'd \<Rightarrow> nat \<Rightarrow> 's \<times> put_outcome"
  snap_encode :: "TraceSnapshot \<Rightarrow> 'd option"
  snap_decode :: "'d \<Rightarrow> TraceSnapshot option"

definition loadTrace :: "('s, 'd) kv \<Rightarrow> 's \<Rightarrow> string \<Rightarrow> store_error + (TraceSnapshot \<times> nat)" where
  "loadTrace kv s traceID = (case kv_Get kv s traceID of
     KvMissing \<Rightarrow> Inr (emptyTrace traceID, 0)
   | KvFailed \<Rightarrow> Inl KvGetError
   | KvEntry d rv \<Rightarrow> (case snap_decode kv d of
         None \<Rightarrow> Inl DecodeSnapshotError
       | Some snap \<Rightarrow> Inr (if TraceID snap = [] then snap\<lparr>TraceID := traceID\<rparr> else snap, rv)))"

abbreviation kvApplyMaxRetries :: nat where "kvApplyMaxRetries \<equiv> 16"

text \<open>\<open>n\<close> attempts are left; other writers act before each read and before each write.\<close>

fun mutateCAS ::
  "nat \<Rightarrow> ('s, 'd) kv \<Rightarrow> (nat \<Rightarrow> 's \<Rightarrow> 's) \<Rightarrow> 'r mutation \<Rightarrow> 's \<Rightarrow> string \<Rightarrow> 's \<times> (store_error + 'r)" where
  "mutateCAS 0 kv rivals m s traceID = (s, Inl (ApplyConflict kvApplyMaxRetries))"
| "mutateCAS (Suc n) kv rivals m s0 traceID =
    (let s = rivals (2 * n + 1) s0
     in (case loadTrace kv s traceID of
           Inl e \<Rightarrow> (s, Inl e)
         | Inr (trace, revision) \<Rightarrow>
             (case m trace of
                Inl e \<Rightarrow> (s, Inl e)
              | Inr (updated, changed, r) \<Rightarrow>
                  if \<not> changed then (s, Inr r)
                  else (case snap_encode kv updated of
                      None \<Rightarrow> (s, Inl EncodeSnapshotError)
                    | Some d \<Rightarrow>
                        let s' = rivals (2 * n) s
                        in (case (if revision = 0 then kv_Create kv s' traceID d
                                  else kv_Update kv s' traceID d revision) of
                              (s'', PutOk) \<Rightarrow> (s'', Inr r)
                            | (s'', PutConflict) \<Rightarrow> mutateCAS n kv rivals m s'' traceID
                            | (s'', PutFailed) \<Rightarrow> (s'', Inl KvPutError))))))"

definition kv_mutate ::
  "('s, 'd) kv \<Rightarrow> (nat \<Rightarrow> 's \<Rightarrow> 's) \<Rightarrow> 'r mutation \<Rightarrow> 's \<Rightarrow> string \<Rightarrow> 's \<times> (store_error + 'r)" where
  "kv_mutate kv rivals m s traceID =
    (if traceID = [] then (s, Inl TraceIDRequired)
     else mutateCAS kvApplyMaxRetries kv rivals m s traceID)"

definition kv_Apply ::
  "('s, 'd) kv \<Rightarrow> (nat \<Rightarrow> 's \<Rightarrow> 's) \<Rightarrow> time \<Rightarrow> 's \<Rightarrow> Event \<Rightarrow> 's \<times> (store_error + ApplyResult)" where
  "kv_Apply kv rivals clock s ev =
    (if ev_TraceID ev = [] then (s, Inl EventMissingTraceID)
     else mutateCAS kvApplyMaxRetries kv rivals (m_Apply clock ev) s (ev_TraceID ev))"

definition kv_Snapshot :: "('s, 'd) kv \<Rightarrow> 's \<Rightarrow> string \<Rightarrow> store_error + TraceSnapshot" where
  "kv_Snapshot kv s traceID =
    (if traceID = [] then Inl TraceIDRequired
     else res_bind (loadTrace kv s traceID) (\<lambda>(trace, _). Inr trace))"

definition kv_EnsureEnergySeed where
  "kv_EnsureEnergySeed kv rivals now body s traceID budget =
    kv_mutate kv rivals (m_EnsureEnergySeed now body budget) s traceID"

definition kv_MarkEnergySeedPublished where
  "kv_MarkEnergySeedPublished kv rivals s traceID seedID =
    kv_mutate kv rivals (m_MarkEnergySeedPublished seedID) s traceID"

definition kv_DeferPendingDispatch where
  "kv_DeferPendingDispatch kv rivals now body s traceID d =
    kv_mutate kv rivals (m_DeferPendingDispatch now body d) s traceID"

definition kv_ResolvePendingDispatch where
  "kv_ResolvePendingDispatch kv rivals now s traceID i st =
    kv_mutate kv rivals (m_ResolvePendingDispatch now i st) s traceID"

definition kv_MarkPendingDispatchUnresolved where
  "kv_MarkPendingDispatchUnresolved kv rivals now s traceID i diag =
    kv_mutate kv rivals (m_MarkPendingDispatchUnresolved now i diag) s traceID"

definition kv_ClaimEnergyPausePublished where
  "kv_ClaimEnergyPausePublished kv rivals s traceID = kv_mutate kv rivals m_ClaimEnergyPausePublished s traceID"

definition kv_ClearEnergyPause where
  "kv_ClearEnergyPause kv rivals s traceID = kv_mutate kv rivals m_ClearEnergyPause s traceID"

definition kv_RecordWorkCompletion where
  "kv_RecordWorkCompletion kv rivals now s traceID c =
    kv_mutate kv rivals (m_RecordWorkCompletion now c) s traceID"

definition kv_MarkWorkCompletionPublished where
  "kv_MarkWorkCompletionPublished kv rivals s traceID i =
    kv_mutate kv rivals (m_MarkWorkCompletionPublished i) s traceID"

section \<open>A store of snapshots\<close>

text \<open>
  What the mutations rely on: a store shows one snapshot per trace, and committing one trace
  shows it and leaves every other trace as it was.
\<close>

definition commit ::
  "('l \<Rightarrow> string \<Rightarrow> TraceSnapshot) \<Rightarrow> ('l \<Rightarrow> string \<Rightarrow> TraceSnapshot \<Rightarrow> 'l) \<Rightarrow> 'r mutation
    \<Rightarrow> 'l \<Rightarrow> string \<Rightarrow> 'l \<times> (store_error + 'r)" where
  "commit view put m l i = (case m (view l i) of
     Inl e \<Rightarrow> (l, Inl e)
   | Inr (updated, changed, r) \<Rightarrow> (if changed then put l i updated else l, Inr r))"

text \<open>A mutation that keeps a property of snapshots whenever it changes one.\<close>

definition keeps :: "(TraceSnapshot \<Rightarrow> bool) \<Rightarrow> 'r mutation \<Rightarrow> bool" where
  "keeps I m \<longleftrightarrow> (\<forall>t u c r. m t = Inr (u, c, r) \<longrightarrow> I t \<longrightarrow> I u)"

locale snapshot_store =
  fixes view :: "'l \<Rightarrow> string \<Rightarrow> TraceSnapshot" and put :: "'l \<Rightarrow> string \<Rightarrow> TraceSnapshot \<Rightarrow> 'l"
  assumes put_same: "view (put l i t) i = t"
    and put_other: "j \<noteq> i \<Longrightarrow> view (put l i t) j = view l j"
begin

lemma commit_other: "j \<noteq> i \<Longrightarrow> view (fst (commit view put m l i)) j = view l j"
  by (auto simp: commit_def put_other split: sum.split)

lemma commit_error: "m (view l i) = Inl e \<Longrightarrow> commit view put m l i = (l, Inl e)"
  by (simp add: commit_def)

lemma commit_changed:
  "m (view l i) = Inr (u, True, r) \<Longrightarrow> view (fst (commit view put m l i)) i = u"
  by (simp add: commit_def put_same)

lemma commit_keeps:
  assumes "\<And>j. I (view l j)" "keeps I m"
  shows "I (view (fst (commit view put m l i)) j)"
proof (cases "j = i")
  case False
  with assms show ?thesis by (simp add: commit_other)
next
  case True
  show ?thesis
  proof (cases "m (view l i)")
    case (Inl e)
    with assms True show ?thesis by (simp add: commit_def)
  next
    case (Inr x)
    obtain u c r where x: "x = (u, c, r)" by (metis prod_cases3)
    have "I u" using assms(2) [unfolded keeps_def, rule_format, OF Inr [unfolded x] assms(1)] .
    with Inr x True assms(1) show ?thesis by (simp add: commit_def put_same)
  qed
qed

end

abbreviation mem_put :: "MemoryLedger \<Rightarrow> string \<Rightarrow> TraceSnapshot \<Rightarrow> MemoryLedger" where
  "mem_put l i t \<equiv> mput i t l"

interpretation mem: snapshot_store mem_view mem_put
  by unfold_locales (simp_all add: mem_view_def)

lemma mem_mutate_commit: "i \<noteq> [] \<Longrightarrow> mem_mutate mem_view m l i = commit mem_view mem_put m l i"
  by (simp add: mem_mutate_def commit_def)

section \<open>Every mutation keeps the ledger's invariant\<close>

lemma keeps_ledger_ok:
  "keeps ledger_ok (m_Apply clock ev)"
  "keeps ledger_ok (m_EnsureEnergySeed now body budget)"
  "keeps ledger_ok (m_MarkEnergySeedPublished i)"
  "keeps ledger_ok (m_DeferPendingDispatch now body d)"
  "st \<noteq> PendingDispatchPending \<Longrightarrow> keeps ledger_ok (m_ResolvePendingDispatch now i st)"
  "keeps ledger_ok (m_MarkPendingDispatchUnresolved now i diag)"
  "keeps ledger_ok m_ClaimEnergyPausePublished"
  "keeps ledger_ok m_ClearEnergyPause"
  "keeps ledger_ok (m_RecordWorkCompletion now c)"
  "keeps ledger_ok (m_MarkWorkCompletionPublished i)"
  unfolding keeps_def
  by (auto simp: m_Apply_def m_EnsureEnergySeed_def m_MarkEnergySeedPublished_def m_DeferPendingDispatch_def
      m_ResolvePendingDispatch_def m_MarkPendingDispatchUnresolved_def m_ClaimEnergyPausePublished_def
      m_ClearEnergyPause_def m_RecordWorkCompletion_def m_MarkWorkCompletionPublished_def
      split: sum.splits prod.splits intro: ok_inv.event side_step_ok side_steps)

section \<open>Compare-and-set\<close>

text \<open>
  Documented behaviour of the bucket: creating succeeds only on a missing key, updating only
  at the current revision; a success stores the value at a positive revision and leaves other
  keys; a refusal changes nothing.
\<close>

definition kv_laws :: "('s, 'd) kv \<Rightarrow> bool" where
  "kv_laws kv \<longleftrightarrow>
    (\<forall>s k d s'. kv_Create kv s k d = (s', PutOk) \<longrightarrow>
       kv_Get kv s k = KvMissing \<and> (\<exists>r > 0. kv_Get kv s' k = KvEntry d r)
       \<and> (\<forall>j. j \<noteq> k \<longrightarrow> kv_Get kv s' j = kv_Get kv s j))
    \<and> (\<forall>s k d r s'. kv_Update kv s k d r = (s', PutOk) \<longrightarrow>
       (\<exists>d0. kv_Get kv s k = KvEntry d0 r) \<and> (\<exists>r' > 0. kv_Get kv s' k = KvEntry d r')
       \<and> (\<forall>j. j \<noteq> k \<longrightarrow> kv_Get kv s' j = kv_Get kv s j))
    \<and> (\<forall>s k d s' p. kv_Create kv s k d = (s', p) \<longrightarrow> p \<noteq> PutOk \<longrightarrow> s' = s)
    \<and> (\<forall>s k d r s' p. kv_Update kv s k d r = (s', p) \<longrightarrow> p \<noteq> PutOk \<longrightarrow> s' = s)
    \<and> (\<forall>s k d r. kv_Get kv s k = KvEntry d r \<longrightarrow> r > 0)"

text \<open>A revision names one value: other writers never store another value under it.\<close>

definition rivals_ok :: "('s, 'd) kv \<Rightarrow> (nat \<Rightarrow> 's \<Rightarrow> 's) \<Rightarrow> bool" where
  "rivals_ok kv rivals \<longleftrightarrow> (\<forall>n s k d d' r.
     kv_Get kv s k = KvEntry d r \<longrightarrow> kv_Get kv (rivals n s) k = KvEntry d' r \<longrightarrow> d' = d)"

text \<open>What is encoded decodes to the same snapshot.\<close>

definition codec_ok :: "('s, 'd) kv \<Rightarrow> bool" where
  "codec_ok kv \<longleftrightarrow> (\<forall>t d. snap_encode kv t = Some d \<longrightarrow> snap_decode kv d = Some t)"

lemma loadTrace_missing: "kv_Get kv s i = KvMissing \<Longrightarrow> loadTrace kv s i = Inr (emptyTrace i, 0)"
  by (simp add: loadTrace_def)

lemma loadTrace_revision:
  assumes "loadTrace kv s i = Inr (t, r)" "kv_laws kv"
  shows "r = 0 \<longleftrightarrow> kv_Get kv s i = KvMissing" "r \<noteq> 0 \<Longrightarrow> \<exists>d. kv_Get kv s i = KvEntry d r"
  using assms unfolding loadTrace_def kv_laws_def
  by (auto split: kv_entry.splits option.splits)

lemma loadTrace_cong: "kv_Get kv s i = kv_Get kv s' i \<Longrightarrow> loadTrace kv s i = loadTrace kv s' i"
  by (simp add: loadTrace_def)

text \<open>
  A successful call took effect at one instant: in some state of the bucket the mutation was
  applied to the snapshot stored there and then, and its result is what the bucket holds next.
\<close>

definition took_effect :: "('s, 'd) kv \<Rightarrow> 'r mutation \<Rightarrow> string \<Rightarrow> 'r \<Rightarrow> 's \<Rightarrow> 's \<Rightarrow> bool" where
  "took_effect kv m i r at s' \<longleftrightarrow> (\<exists>t rv u c.
     loadTrace kv at i = Inr (t, rv) \<and> m t = Inr (u, c, r)
     \<and> (if c then (\<exists>rv'. loadTrace kv s' i = Inr (if TraceID u = [] then u\<lparr>TraceID := i\<rparr> else u, rv'))
                 \<and> (\<forall>j. j \<noteq> i \<longrightarrow> kv_Get kv s' j = kv_Get kv at j)
        else s' = at))"

lemma kv_create_ok:
  assumes "kv_laws kv" "kv_Create kv s k d = (s', PutOk)"
  shows "kv_Get kv s k = KvMissing \<and> (\<exists>r. kv_Get kv s' k = KvEntry d r)
    \<and> (\<forall>j. j \<noteq> k \<longrightarrow> kv_Get kv s' j = kv_Get kv s j)"
  using assms(1) [unfolded kv_laws_def, THEN conjunct1, rule_format, OF assms(2)] by blast

lemma kv_update_ok:
  assumes "kv_laws kv" "kv_Update kv s k d r = (s', PutOk)"
  shows "(\<exists>d0. kv_Get kv s k = KvEntry d0 r) \<and> (\<exists>r. kv_Get kv s' k = KvEntry d r)
    \<and> (\<forall>j. j \<noteq> k \<longrightarrow> kv_Get kv s' j = kv_Get kv s j)"
  using assms(1) [unfolded kv_laws_def, THEN conjunct2, THEN conjunct1, rule_format, OF assms(2)] by blast

lemma put_ok:
  assumes laws: "kv_laws kv" "rivals_ok kv rivals" and load: "loadTrace kv s i = Inr (t, rv)"
    and put: "(if rv = 0 then kv_Create kv (rivals n s) i d else kv_Update kv (rivals n s) i d rv) = (s', PutOk)"
  shows "(\<exists>rv'. kv_Get kv s' i = KvEntry d rv') \<and> kv_Get kv (rivals n s) i = kv_Get kv s i
    \<and> (\<forall>j. j \<noteq> i \<longrightarrow> kv_Get kv s' j = kv_Get kv (rivals n s) j)"
proof (cases "rv = 0")
  case True
  then have "kv_Create kv (rivals n s) i d = (s', PutOk)" using put by simp
  with kv_create_ok [OF laws(1) this] loadTrace_revision(1) [OF load laws(1)] True show ?thesis by simp
next
  case False
  then have "kv_Update kv (rivals n s) i d rv = (s', PutOk)" using put by simp
  note u = kv_update_ok [OF laws(1) this]
  obtain d1 where d1: "kv_Get kv s i = KvEntry d1 rv"
    using loadTrace_revision(2) [OF load laws(1) False] by blast
  obtain d0 where d0: "kv_Get kv (rivals n s) i = KvEntry d0 rv" using u by blast
  have "d0 = d1" using laws(2) d0 d1 unfolding rivals_ok_def by blast
  with u d0 d1 show ?thesis by simp
qed

lemma put_took_effect:
  assumes laws: "kv_laws kv" "codec_ok kv" "rivals_ok kv rivals"
    and load: "loadTrace kv s i = Inr (t, rv)" and m: "m t = Inr (u, True, r)"
    and enc: "snap_encode kv u = Some d"
    and put: "(if rv = 0 then kv_Create kv (rivals n s) i d else kv_Update kv (rivals n s) i d rv) = (s', PutOk)"
  shows "took_effect kv m i r (rivals n s) s'"
proof -
  note ok = put_ok [OF laws(1,3) load put]
  obtain rv' where stored: "kv_Get kv s' i = KvEntry d rv'" using ok by blast
  have "snap_decode kv d = Some u" using laws(2) enc by (simp add: codec_ok_def)
  with stored have after: "loadTrace kv s' i = Inr (if TraceID u = [] then u\<lparr>TraceID := i\<rparr> else u, rv')"
    by (simp add: loadTrace_def)
  have "loadTrace kv (rivals n s) i = Inr (t, rv)" using loadTrace_cong [of kv "rivals n s" i s] ok load by simp
  with m ok after show ?thesis unfolding took_effect_def by (intro exI [of _ t] exI [of _ rv] exI [of _ u] exI [of _ True]) simp
qed

text \<open>One attempt of the loop, by what it reads and what the bucket answers.\<close>

lemma mutateCAS_Suc:
  assumes s1: "s1 = rivals (Suc (2 * n)) s" and load: "loadTrace kv s1 i = Inr (t, rv)" and m: "m t = Inr (u, c, r)"
  shows "\<not> c \<Longrightarrow> mutateCAS (Suc n) kv rivals m s i = (s1, Inr r)"
    and "c \<Longrightarrow> snap_encode kv u = None \<Longrightarrow> mutateCAS (Suc n) kv rivals m s i = (s1, Inl EncodeSnapshotError)"
    and "c \<Longrightarrow> snap_encode kv u = Some d
      \<Longrightarrow> (if rv = 0 then kv_Create kv (rivals (2 * n) s1) i d else kv_Update kv (rivals (2 * n) s1) i d rv) = (s2, p)
      \<Longrightarrow> mutateCAS (Suc n) kv rivals m s i = (case p of PutOk \<Rightarrow> (s2, Inr r)
        | PutConflict \<Rightarrow> mutateCAS n kv rivals m s2 i | PutFailed \<Rightarrow> (s2, Inl KvPutError))"
  using load m unfolding s1 by (simp_all add: Let_def)

lemma mutateCAS_reads:
  assumes "mutateCAS (Suc n) kv rivals m s i = (s', Inr r)"
  shows "\<exists>t rv u c r'. loadTrace kv (rivals (Suc (2 * n)) s) i = Inr (t, rv) \<and> m t = Inr (u, c, r')"
proof (cases "loadTrace kv (rivals (Suc (2 * n)) s) i")
  case (Inl e)
  with assms show ?thesis by (simp add: Let_def)
next
  case (Inr x)
  obtain t rv where x: "x = (t, rv)" by (cases x)
  show ?thesis
  proof (cases "m t")
    case (Inl e)
    with Inr x assms show ?thesis by (simp add: Let_def)
  next
    case m: (Inr y)
    obtain u c r' where "y = (u, c, r')" by (cases y) auto
    with m Inr x show ?thesis by blast
  qed
qed

lemma mutateCAS_took_effect:
  assumes laws: "kv_laws kv" "codec_ok kv" "rivals_ok kv rivals"
    and run: "mutateCAS n kv rivals m s i = (s', Inr r)"
  shows "\<exists>at. took_effect kv m i r at s'"
  using run
proof (induction n arbitrary: s)
  case (Suc n)
  define s1 where "s1 = rivals (Suc (2 * n)) s"
  obtain t rv u c r' where load: "loadTrace kv s1 i = Inr (t, rv)" and m: "m t = Inr (u, c, r')"
    using mutateCAS_reads [OF Suc.prems] unfolding s1_def by blast
  note one = mutateCAS_Suc [of s1 rivals n s kv i t rv m u c r', OF s1_def load m]
  show ?case
  proof (cases c)
    case False
    with one(1) Suc.prems have "s' = s1" "r' = r" by simp_all
    with load m False show ?thesis unfolding took_effect_def by (intro exI [of _ s1]) auto
  next
    case True
    show ?thesis
    proof (cases "snap_encode kv u")
      case None
      with one(2) [OF True] Suc.prems show ?thesis by simp
    next
      case (Some d)
      obtain s2 p where put: "(if rv = 0 then kv_Create kv (rivals (2 * n) s1) i d
        else kv_Update kv (rivals (2 * n) s1) i d rv) = (s2, p)" by fastforce
      have run: "(case p of PutOk \<Rightarrow> (s2, Inr r') | PutConflict \<Rightarrow> mutateCAS n kv rivals m s2 i
          | PutFailed \<Rightarrow> (s2, Inl KvPutError)) = (s', Inr r)"
        using one(3) [OF True Some put] Suc.prems by simp
      show ?thesis
      proof (cases p)
        case PutOk
        with run have "s' = s2" "r' = r" by simp_all
        have mt: "m t = Inr (u, True, r)" using m True \<open>r' = r\<close> by simp
        show ?thesis using put_took_effect [where m = m and n = "2 * n" and s = s1, OF laws load mt Some put [unfolded PutOk]] \<open>s' = s2\<close> by blast
      next
        case PutConflict
        with run have "mutateCAS n kv rivals m s2 i = (s', Inr r)" by simp
        with Suc.IH show ?thesis by blast
      next
        case PutFailed
        with run show ?thesis by simp
      qed
    qed
  qed
qed simp

lemma kv_mutate_took_effect:
  assumes "kv_laws kv" "codec_ok kv" "rivals_ok kv rivals" "kv_mutate kv rivals m s i = (s', Inr r)"
  shows "\<exists>at. took_effect kv m i r at s'"
proof (cases "i = []")
  case True
  with assms(4) show ?thesis by (simp add: kv_mutate_def)
next
  case False
  with assms(4) have "mutateCAS kvApplyMaxRetries kv rivals m s i = (s', Inr r)" by (simp only: kv_mutate_def if_False)
  then show ?thesis by (rule mutateCAS_took_effect [OF assms(1-3)])
qed

section \<open>A failed call changes nothing\<close>

lemma mem_mutate_error: "snd (mem_mutate load m l i) = Inl e \<Longrightarrow> fst (mem_mutate load m l i) = l"
  by (auto simp: mem_mutate_def split: if_splits sum.splits)

lemma mem_Apply_error: "snd (mem_Apply clock l ev) = Inl e \<Longrightarrow> fst (mem_Apply clock l ev) = l"
  by (auto simp: mem_Apply_def Let_def split: if_splits sum.splits)

text \<open>No other writer is active.\<close>

abbreviation quiet :: "nat \<Rightarrow> 's \<Rightarrow> 's" where "quiet \<equiv> \<lambda>_ s. s"

lemma kv_refused:
  assumes "kv_laws kv" "(if rv = 0 then kv_Create kv s i d else kv_Update kv s i d rv) = (s', p)" "p \<noteq> PutOk"
  shows "s' = s"
  using assms(2,3) assms(1) [unfolded kv_laws_def, THEN conjunct2, THEN conjunct2]
  by (cases "rv = 0") auto

lemma mutateCAS_error:
  assumes laws: "kv_laws kv" and run: "mutateCAS n kv quiet m s i = (s', Inl e)"
  shows "s' = s"
  using run
proof (induction n)
  case (Suc n)
  show ?case
  proof (cases "loadTrace kv s i")
    case (Inl e')
    with Suc.prems show ?thesis by (simp add: Let_def)
  next
    case load: (Inr x)
    obtain t rv where x: "x = (t, rv)" by (cases x)
    show ?thesis
    proof (cases "m t")
      case (Inl e')
      with Suc.prems load x show ?thesis by (simp add: Let_def)
    next
      case (Inr y)
      obtain u c r where y: "y = (u, c, r)" by (cases y) auto
      note one = mutateCAS_Suc [of s quiet n s kv i t rv m u c r, OF refl load [unfolded x] Inr [unfolded y]]
      obtain d where d: "c" "snap_encode kv u = Some d \<or> s' = s"
        using one(1,2) Suc.prems by (cases "snap_encode kv u") auto
      obtain s2 p where put: "(if rv = 0 then kv_Create kv s i d else kv_Update kv s i d rv) = (s2, p)" by fastforce
      show ?thesis
        using d one(3) [OF d(1) _ put] kv_refused [OF laws put] Suc.prems Suc.IH by (cases p) auto
    qed
  qed
qed simp

lemma kv_mutate_error:
  assumes "kv_laws kv" "snd (kv_mutate kv quiet m s i) = Inl e"
  shows "fst (kv_mutate kv quiet m s i) = s"
proof (cases "i = []")
  case False
  then have run: "kv_mutate kv quiet m s i = mutateCAS kvApplyMaxRetries kv quiet m s i" by (simp only: kv_mutate_def if_False)
  have "kv_mutate kv quiet m s i = (fst (kv_mutate kv quiet m s i), Inl e)"
    by (rule prod_eqI) (simp_all add: assms(2))
  from mutateCAS_error [OF assms(1) this [unfolded run]] show ?thesis unfolding run .
qed (simp add: kv_mutate_def)

lemma kv_Apply_error:
  assumes "kv_laws kv" "snd (kv_Apply kv quiet clock s ev) = Inl e"
  shows "fst (kv_Apply kv quiet clock s ev) = s"
proof (cases "ev_TraceID ev = []")
  case False
  then have run: "kv_Apply kv quiet clock s ev = kv_mutate kv quiet (m_Apply clock ev) s (ev_TraceID ev)"
    by (simp only: kv_mutate_def kv_Apply_def if_False)
  show ?thesis unfolding run using assms(2) [unfolded run] by (rule kv_mutate_error [OF assms(1)])
qed (simp add: kv_Apply_def)

section \<open>The bucket refines the map\<close>

text \<open>A bucket that is up: permitted writes succeed and every snapshot can be encoded.\<close>

definition kv_live :: "('s, 'd) kv \<Rightarrow> bool" where
  "kv_live kv \<longleftrightarrow>
    (\<forall>s k d. kv_Get kv s k = KvMissing \<longrightarrow> snd (kv_Create kv s k d) = PutOk)
    \<and> (\<forall>s k d d0 r. kv_Get kv s k = KvEntry d0 r \<longrightarrow> snd (kv_Update kv s k d r) = PutOk)
    \<and> (\<forall>t. snap_encode kv t \<noteq> None)"

text \<open>The bucket shows what the map holds.\<close>

definition same_store :: "('s, 'd) kv \<Rightarrow> 's \<Rightarrow> MemoryLedger \<Rightarrow> bool" where
  "same_store kv s l \<longleftrightarrow> (\<forall>j. j \<noteq> [] \<longrightarrow> (\<exists>rv. loadTrace kv s j = Inr (mem_view l j, rv)))"

lemma live_encode: "kv_live kv \<Longrightarrow> \<exists>d. snap_encode kv u = Some d"
  by (simp add: kv_live_def)

lemma live_put:
  assumes "kv_live kv" "kv_laws kv" "loadTrace kv s i = Inr (t, rv)"
  shows "snd (if rv = 0 then kv_Create kv s i d else kv_Update kv s i d rv) = PutOk"
proof (cases "rv = 0")
  case True
  then show ?thesis using loadTrace_revision(1) [OF assms(3,2)] assms(1) by (simp add: kv_live_def)
next
  case False
  then show ?thesis using loadTrace_revision(2) [OF assms(3,2) False] assms(1) by (auto simp: kv_live_def)
qed

lemma quiet_rivals_ok: "rivals_ok kv quiet"
  by (simp add: rivals_ok_def)

text \<open>One call on a bucket nobody else writes: the mutation of what is stored, committed.\<close>

lemma kv_commit:
  assumes kv: "kv_laws kv" "codec_ok kv" "kv_live kv" and i: "i \<noteq> []" and load: "loadTrace kv s i = Inr (t, rv)"
  shows kv_commit_error: "m t = Inl e \<Longrightarrow> kv_mutate kv quiet m s i = (s, Inl e)"
    and kv_commit_same: "m t = Inr (u, False, r) \<Longrightarrow> kv_mutate kv quiet m s i = (s, Inr r)"
    and kv_commit_stored: "m t = Inr (u, True, r) \<Longrightarrow> TraceID u = i \<Longrightarrow>
      \<exists>s2 rv'. kv_mutate kv quiet m s i = (s2, Inr r) \<and> loadTrace kv s2 i = Inr (u, rv')
        \<and> (\<forall>j. j \<noteq> i \<longrightarrow> loadTrace kv s2 j = loadTrace kv s j)"
proof -
  have run: "kv_mutate kv quiet m s i = mutateCAS (Suc 15) kv quiet m s i"
    using i by (simp add: kv_mutate_def numeral_eq_Suc)
  show "m t = Inl e \<Longrightarrow> kv_mutate kv quiet m s i = (s, Inl e)"
    using load unfolding run by (simp only: mutateCAS.simps Let_def sum.case prod.case)
  show "m t = Inr (u, False, r) \<Longrightarrow> kv_mutate kv quiet m s i = (s, Inr r)"
    unfolding run using mutateCAS_Suc(1) [of s quiet 15 s kv i t rv m u False r, OF refl load] by simp
  assume m: "m t = Inr (u, True, r)" and u: "TraceID u = i"
  obtain d where d: "snap_encode kv u = Some d" using live_encode [OF kv(3)] by blast
  obtain s2 p where put': "(if rv = 0 then kv_Create kv s i d else kv_Update kv s i d rv) = (s2, p)" by fastforce
  have "p = PutOk" using live_put [OF kv(3,1) load, of d, unfolded put'] by simp
  note put = put' [unfolded this]
  have fin: "kv_mutate kv quiet m s i = (s2, Inr r)"
    unfolding run using mutateCAS_Suc(3) [of s quiet 15 s kv i t rv m u True r, OF refl load m TrueI d put] by simp
  note ok = put_ok [OF kv(1) quiet_rivals_ok load put]
  obtain rv' where stored: "kv_Get kv s2 i = KvEntry d rv'" using ok by blast
  have "snap_decode kv d = Some u" using kv(2) d by (simp add: codec_ok_def)
  with stored u i have "loadTrace kv s2 i = Inr (u, rv')" by (simp add: loadTrace_def)
  moreover have "loadTrace kv s2 j = loadTrace kv s j" if "j \<noteq> i" for j
    using ok that by (auto intro: loadTrace_cong)
  ultimately show "\<exists>s2 rv'. kv_mutate kv quiet m s i = (s2, Inr r) \<and> loadTrace kv s2 i = Inr (u, rv')
      \<and> (\<forall>j. j \<noteq> i \<longrightarrow> loadTrace kv s2 j = loadTrace kv s j)"
    using fin by blast
qed

lemma kv_mutate_refines:
  assumes kv: "kv_laws kv" "codec_ok kv" "kv_live kv" and same: "same_store kv s l"
    and named: "TraceID (mem_view l i) = i" "keeps (\<lambda>t. TraceID t = i) m"
  shows "snd (kv_mutate kv quiet m s i) = snd (mem_mutate mem_view m l i)
    \<and> same_store kv (fst (kv_mutate kv quiet m s i)) (fst (mem_mutate mem_view m l i))"
proof (cases "i = []")
  case True
  with same show ?thesis by (simp add: kv_mutate_def mem_mutate_def)
next
  case False
  then obtain rv where load: "loadTrace kv s i = Inr (mem_view l i, rv)"
    using same by (auto simp: same_store_def)
  note one = kv_commit [OF kv False load, of m]
  show ?thesis
  proof (cases "m (mem_view l i)")
    case (Inl e)
    with one(1) [OF Inl] same False show ?thesis by (simp add: mem_mutate_def)
  next
    case (Inr y)
    obtain u c r where y: "y = (u, c, r)" by (cases y) auto
    show ?thesis
    proof (cases c)
      case unchanged: False
      with one(2) [of u r] Inr y same False show ?thesis by (simp add: mem_mutate_def)
    next
      case True
      with Inr y have m: "m (mem_view l i) = Inr (u, True, r)" by simp
      have "TraceID u = i" using named(2) [unfolded keeps_def, rule_format, OF m named(1)] .
      from one(3) [OF m this] obtain s2 rv' where s2: "kv_mutate kv quiet m s i = (s2, Inr r)"
        "loadTrace kv s2 i = Inr (u, rv')" "\<forall>j. j \<noteq> i \<longrightarrow> loadTrace kv s2 j = loadTrace kv s j" by blast
      have "same_store kv s2 (mem_put l i u)"
        unfolding same_store_def using same [unfolded same_store_def] s2(2,3)
        by (metis mem.put_same mem.put_other)
      with s2(1) m False show ?thesis by (simp add: mem_mutate_def)
    qed
  qed
qed

section \<open>The methods, one by one\<close>

lemma keeps_name:
  "keeps (\<lambda>t. TraceID t = i) (m_EnsureEnergySeed now body budget)"
  "keeps (\<lambda>t. TraceID t = i) (m_MarkEnergySeedPublished j)"
  "keeps (\<lambda>t. TraceID t = i) m_ClaimEnergyPausePublished"
  "keeps (\<lambda>t. TraceID t = i) m_ClearEnergyPause"
  "keeps (\<lambda>t. TraceID t = i) (m_RecordWorkCompletion now c)"
  "keeps (\<lambda>t. TraceID t = i) (m_MarkWorkCompletionPublished j)"
  "keeps (\<lambda>t. TraceID t = i) (m_DeferPendingDispatch now body d)"
  "keeps (\<lambda>t. TraceID t = i) (m_ResolvePendingDispatch now j st)"
  "keeps (\<lambda>t. TraceID t = i) (m_MarkPendingDispatchUnresolved now j diag)"
  unfolding keeps_def
  by (auto simp: m_EnsureEnergySeed_def m_MarkEnergySeedPublished_def m_ClaimEnergyPausePublished_def
      m_ClearEnergyPause_def m_RecordWorkCompletion_def m_MarkWorkCompletionPublished_def
      m_DeferPendingDispatch_def m_ResolvePendingDispatch_def m_MarkPendingDispatchUnresolved_def
      EnsureEnergySeed_def MarkEnergySeedPublished_def ClaimEnergyPausePublished_def CloseEnergyPause_def
      RecordWorkCompletion_def MarkWorkCompletionPublished_def DeferPendingDispatch_def OpenEnergyPause_def
      ResolvePendingDispatch_def MarkPendingDispatchUnresolved_def Let_def
      split: sum.splits prod.splits option.splits if_splits)

text \<open>Reading a missing trace as the zero snapshot makes no difference to the methods that do so.\<close>

lemma mem_index_same:
  "mem_mutate mem_index (m_MarkEnergySeedPublished j) l i = mem_mutate mem_view (m_MarkEnergySeedPublished j) l i"
  "mem_mutate mem_index m_ClaimEnergyPausePublished l i = mem_mutate mem_view m_ClaimEnergyPausePublished l i"
  "mem_mutate mem_index m_ClearEnergyPause l i = mem_mutate mem_view m_ClearEnergyPause l i"
  "mem_mutate mem_index (m_MarkWorkCompletionPublished j) l i = mem_mutate mem_view (m_MarkWorkCompletionPublished j) l i"
  by (auto simp: mem_mutate_def mem_index_def mem_view_def emptyTrace_def m_MarkEnergySeedPublished_def
      m_ClaimEnergyPausePublished_def m_ClearEnergyPause_def m_MarkWorkCompletionPublished_def
      MarkEnergySeedPublished_def ClaimEnergyPausePublished_def CloseEnergyPause_def
      MarkWorkCompletionPublished_def split: option.split)

text \<open>Whoever loads a missing trace finds nothing to resolve there.\<close>

lemma Resolve_empty: "PendingDispatches trace = [] \<Longrightarrow> ResolvePendingDispatch now trace j st = (trace, False)"
  by (simp add: ResolvePendingDispatch_def first_index_None last_index_def Let_def)

lemma Unresolved_empty: "PendingDispatches trace = [] \<Longrightarrow> MarkPendingDispatchUnresolved now trace j diag = (trace, False)"
  by (simp add: MarkPendingDispatchUnresolved_def first_index_None Let_def)

lemma mem_Resolve_view:
  "mem_ResolvePendingDispatch now l i j st = mem_mutate mem_view (m_ResolvePendingDispatch now j st) l i"
  by (simp add: mem_ResolvePendingDispatch_def mem_mutate_def mem_view_def emptyTrace_def
      m_ResolvePendingDispatch_def Resolve_empty)

lemma mem_Unresolved_view:
  "mem_MarkPendingDispatchUnresolved now l i j diag = mem_mutate mem_view (m_MarkPendingDispatchUnresolved now j diag) l i"
  by (simp add: mem_MarkPendingDispatchUnresolved_def mem_mutate_def mem_view_def emptyTrace_def
      m_MarkPendingDispatchUnresolved_def Unresolved_empty)

lemmas mem_methods = mem_EnsureEnergySeed_def mem_MarkEnergySeedPublished_def mem_DeferPendingDispatch_def
  mem_Resolve_view mem_Unresolved_view mem_ClaimEnergyPausePublished_def mem_ClearEnergyPause_def
  mem_RecordWorkCompletion_def mem_MarkWorkCompletionPublished_def mem_index_same

lemmas kv_methods = kv_EnsureEnergySeed_def kv_MarkEnergySeedPublished_def kv_DeferPendingDispatch_def
  kv_ResolvePendingDispatch_def kv_MarkPendingDispatchUnresolved_def kv_ClaimEnergyPausePublished_def
  kv_ClearEnergyPause_def kv_RecordWorkCompletion_def kv_MarkWorkCompletionPublished_def

section \<open>Histories of the in-memory ledger\<close>

text \<open>A method call: what it does to the map.\<close>

datatype call =
    CallApply time Event
  | CallSeed time "string option" string int
  | CallSeedPublished string string
  | CallDefer time "string option" string PendingDispatch
  | CallResolve time string string PendingDispatchStatus
  | CallUnresolved time string string string
  | CallClaim string
  | CallClear string
  | CallRecord time string WorkCompletionSnapshot
  | CallCompletionPublished string string

fun mem_call :: "call \<Rightarrow> MemoryLedger \<Rightarrow> MemoryLedger" where
  "mem_call (CallApply clock ev) l = fst (mem_Apply clock l ev)"
| "mem_call (CallSeed now body i b) l = fst (mem_EnsureEnergySeed now body l i b)"
| "mem_call (CallSeedPublished i j) l = fst (mem_MarkEnergySeedPublished l i j)"
| "mem_call (CallDefer now body i d) l = fst (mem_DeferPendingDispatch now body l i d)"
| "mem_call (CallResolve now i j st) l = fst (mem_ResolvePendingDispatch now l i j st)"
| "mem_call (CallUnresolved now i j diag) l = fst (mem_MarkPendingDispatchUnresolved now l i j diag)"
| "mem_call (CallClaim i) l = fst (mem_ClaimEnergyPausePublished l i)"
| "mem_call (CallClear i) l = fst (mem_ClearEnergyPause l i)"
| "mem_call (CallRecord now i c) l = fst (mem_RecordWorkCompletion now l i c)"
| "mem_call (CallCompletionPublished i j) l = fst (mem_MarkWorkCompletionPublished l i j)"

fun call_trace :: "call \<Rightarrow> string" where
  "call_trace (CallApply clock ev) = ev_TraceID ev"
| "call_trace (CallSeed now body i b) = i"
| "call_trace (CallSeedPublished i j) = i"
| "call_trace (CallDefer now body i d) = i"
| "call_trace (CallResolve now i j st) = i"
| "call_trace (CallUnresolved now i j diag) = i"
| "call_trace (CallClaim i) = i"
| "call_trace (CallClear i) = i"
| "call_trace (CallRecord now i c) = i"
| "call_trace (CallCompletionPublished i j) = i"

text \<open>The reactor resolves a dispatch to an end state, never back to waiting.\<close>

fun proper_call :: "call \<Rightarrow> bool" where
  "proper_call (CallResolve now i j st) = (st \<noteq> PendingDispatchPending)"
| "proper_call _ = True"

lemma mem_mutate_other: "j \<noteq> i \<Longrightarrow> mem_view (fst (mem_mutate mem_view m l i)) j = mem_view l j"
  by (cases "i = []") (simp_all add: mem_mutate_def [of mem_view m l "[]"] mem_mutate_commit mem.commit_other)

lemma mem_Apply_other: "j \<noteq> ev_TraceID ev \<Longrightarrow> mem_view (fst (mem_Apply clock l ev)) j = mem_view l j"
  by (auto simp: mem_Apply_def Let_def mem_view_def split: sum.split option.split)

lemma mem_call_other: "j \<noteq> call_trace c \<Longrightarrow> mem_view (mem_call c l) j = mem_view l j"
  by (cases c) (simp_all add: mem_methods mem_mutate_other mem_Apply_other)

lemma mem_mutate_keeps:
  "(\<And>j. I (mem_view l j)) \<Longrightarrow> keeps I m \<Longrightarrow> I (mem_view (fst (mem_mutate mem_view m l i)) j)"
  by (cases "i = []") (simp_all add: mem_mutate_def [of mem_view m l "[]"] mem_mutate_commit mem.commit_keeps)

definition mem_ok :: "MemoryLedger \<Rightarrow> bool" where
  "mem_ok l \<longleftrightarrow> (\<forall>j. ledger_ok (mem_view l j))"

text \<open>The task map a stored trace shares with a result that reported no change is sound too.\<close>

lemma ledger_ok_shared_tasks:
  assumes "ledger_ok stored" "ledger_ok next" "Killed stored \<Longrightarrow> Killed next"
  shows "ledger_ok (stored\<lparr>Tasks := Tasks next\<rparr>)"
  using assms by (auto simp: ledger_ok_def trace_wf_def queue_ok_def frozen_def)

lemma mem_Apply_ok:
  assumes "mem_ok l"
  shows "mem_ok (fst (mem_Apply clock l ev))"
proof (cases "ApplyEvent clock (mem_view l (ev_TraceID ev)) ev")
  case (Inl e)
  with assms show ?thesis by (simp add: mem_Apply_def Let_def)
next
  case (Inr res)
  note t = assms [unfolded mem_ok_def, rule_format, of "ev_TraceID ev"]
  have ok: "ledger_ok (ar_Trace res)" by (rule ok_inv.event [OF t Inr])
  have k: "Killed (mem_view l (ev_TraceID ev)) \<Longrightarrow> Killed (ar_Trace res)" by (rule killed_inv.event [OF _ Inr])
  have sh: "ledger_ok ((mem_view l (ev_TraceID ev))\<lparr>Tasks := Tasks (ar_Trace res)\<rparr>)"
    by (rule ledger_ok_shared_tasks [OF t ok k])
  show ?thesis
    using assms ok sh Inr
    by (auto simp: mem_ok_def mem_Apply_def Let_def mem_view_def split: option.splits)
qed

lemma mem_mutate_ok: "mem_ok l \<Longrightarrow> keeps ledger_ok m \<Longrightarrow> mem_ok (fst (mem_mutate mem_view m l i))"
  unfolding mem_ok_def by (blast intro: mem_mutate_keeps)

lemma mem_call_ok: "mem_ok l \<Longrightarrow> proper_call c \<Longrightarrow> mem_ok (mem_call c l)"
  by (cases c) (simp_all add: mem_methods mem_mutate_ok keeps_ledger_ok mem_Apply_ok)

lemma mem_calls_ok: "list_all proper_call cs \<Longrightarrow> mem_ok l \<Longrightarrow> mem_ok (fold mem_call cs l)"
  by (induction cs arbitrary: l) (simp_all add: mem_call_ok)

lemma mem_ok_empty: "mem_ok []"
  by (simp add: mem_ok_def mem_view_def)

section \<open>Racing to allocate the honey\<close>

lemma seed_took_effect:
  assumes "took_effect kv (m_EnsureEnergySeed now body budget) i (seed, created) at s'"
  shows "\<exists>t rv. loadTrace kv s' i = Inr (t, rv) \<and> allocated t
    \<and> (if created then EnergySeed t = Some seed \<and> sd_Budget seed = (if budget \<le> 0 then 12 else budget)
       else seed = (case EnergySeed t of Some w \<Rightarrow> w | None \<Rightarrow> noSeed))"
proof -
  obtain t rv u c where load: "loadTrace kv at i = Inr (t, rv)"
    and m: "m_EnsureEnergySeed now body budget t = Inr (u, c, (seed, created))"
    and eff: "if c then (\<exists>rv'. loadTrace kv s' i = Inr (if TraceID u = [] then u\<lparr>TraceID := i\<rparr> else u, rv')) else s' = at"
    using assms unfolding took_effect_def by (auto split: if_splits)
  have e: "EnsureEnergySeed now body t budget = (u, seed, created)" "c = created"
    using m by (auto simp: m_EnsureEnergySeed_def split: prod.splits)
  show ?thesis
  proof (cases created)
    case True
    then have "EnsureEnergySeed now body t budget = (u, seed, True)" using e(1) by simp
    note made = EnsureEnergySeed_created [OF this]
    show ?thesis using eff made True e(2) EnsureEnergySeed_allocates [of now body t budget] e(1)
      by (auto simp: allocated_def)
  next
    case False
    have "allocated t" using False e(1) by (auto simp: EnsureEnergySeed_def allocated_def Let_def split: option.splits if_splits)
    with EnsureEnergySeed_allocated [OF this, of now body budget] False e eff load show ?thesis by auto
  qed
qed

end
