(* ===== verification/Hive.thy ===== *)
theory Hive
  imports Encode LedgerStore
begin

text \<open>
  The \<open>Ledger\<close> interface as its clients call it, and the effects a client has: events built from a
  fresh id and the clock, applied to the ledger, remembered, published (\<open>internal/review/write.go\<close>).
  A client's function is an action: the state after it and an error or a value.
\<close>

section \<open>The interface\<close>

record 'l Ledger =
  lg_Snapshot :: "'l \<Rightarrow> string \<Rightarrow> store_error + TraceSnapshot"
  lg_Apply :: "'l \<Rightarrow> Event \<Rightarrow> 'l \<times> (store_error + ApplyResult)"

text \<open>
  The laws a client relies on: a snapshot shows one trace, applying an event does what the reducer
  does to that trace and to no other, and a failed application does nothing. A result that says
  nothing changed may still have refreshed the tasks, as the in-memory ledger does.
\<close>

definition applied_to :: "TraceSnapshot \<Rightarrow> ApplyResult \<Rightarrow> TraceSnapshot \<Rightarrow> bool" where
  "applied_to before res after \<longleftrightarrow> after = ar_Trace res
     \<or> \<not> ar_Changed res \<and> (after = before \<or> after = before\<lparr>Tasks := Tasks (ar_Trace res)\<rparr>)"

locale ledger_api =
  fixes L :: "'l Ledger" and view :: "'l \<Rightarrow> string \<Rightarrow> TraceSnapshot" and usable :: "'l \<Rightarrow> bool"
  assumes snapshot: "usable l \<Longrightarrow> i \<noteq> [] \<Longrightarrow> lg_Snapshot L l i = Inr (view l i)"
    and unnamed: "lg_Snapshot L l [] = Inl TraceIDRequired"
    and apply_usable: "usable l \<Longrightarrow> usable (fst (lg_Apply L l ev))"
    and apply_error: "usable l \<Longrightarrow> snd (lg_Apply L l ev) = Inl e \<Longrightarrow> view (fst (lg_Apply L l ev)) = view l"
    and apply_other: "usable l \<Longrightarrow> j \<noteq> ev_TraceID ev \<Longrightarrow> view (fst (lg_Apply L l ev)) j = view l j"
    and apply_done: "usable l \<Longrightarrow> snd (lg_Apply L l ev) = Inr res \<Longrightarrow>
      \<exists>clock. ApplyEvent clock (view l (ev_TraceID ev)) ev = Inr res
        \<and> applied_to (view l (ev_TraceID ev)) res (view (fst (lg_Apply L l ev)) (ev_TraceID ev))"
    and apply_total: "usable l \<Longrightarrow> ev_TraceID ev \<noteq> [] \<Longrightarrow> \<forall>clock. \<not> isl (ApplyEvent clock (view l (ev_TraceID ev)) ev) \<Longrightarrow>
      \<exists>res. snd (lg_Apply L l ev) = Inr res"

section \<open>Actions\<close>

record 'l hive =
  hv_ledger :: 'l
  hv_local :: "Event list" \<comment> \<open>what \<open>AfterApply\<close> was called with, oldest first\<close>
  hv_bus :: "Event list" \<comment> \<open>what was published, oldest first\<close>
  hv_made :: nat \<comment> \<open>how many events have been built\<close>

text \<open>
  What the n-th built event gets: its random id body, its creation time, and the time read for a
  \<open>completedAt\<close> field. \<open>en_pub\<close> is the publisher, absent or telling whether a publication succeeds.
\<close>

record env =
  en_rnd :: "nat \<Rightarrow> string option"
  en_now :: "nat \<Rightarrow> time"
  en_done :: "nat \<Rightarrow> time"
  en_pub :: "(Event \<Rightarrow> bool) option"
  en_watch :: bool \<comment> \<open>the write options have an \<open>AfterApply\<close>\<close>

datatype 'e hive_error =
    LedgerFailed store_error
  | MarshalFailed
  | EventIDFailed
  | PublishFailed
  | TemplateFailed 'e
  | Refused string
  | HostFailed string \<comment> \<open>a call outside the repository's own state, by name\<close>

type_synonym ('l, 'e, 'a) act = "'l hive \<Rightarrow> 'l hive \<times> ('e hive_error + 'a)"

definition ret :: "'a \<Rightarrow> ('l, 'e, 'a) act" where
  "ret x s = (s, Inr x)"

definition throw :: "'e hive_error \<Rightarrow> ('l, 'e, 'a) act" where
  "throw e s = (s, Inl e)"

definition bind_act :: "('l, 'e, 'a) act \<Rightarrow> ('a \<Rightarrow> ('l, 'e, 'b) act) \<Rightarrow> ('l, 'e, 'b) act" where
  "bind_act m f s = (case m s of (s', Inl e) \<Rightarrow> (s', Inl e) | (s', Inr x) \<Rightarrow> f x s')"

definition lift_sum :: "'e hive_error + 'a \<Rightarrow> ('l, 'e, 'a) act" where
  "lift_sum r s = (s, r)"

definition read_trace :: "'l Ledger \<Rightarrow> string \<Rightarrow> ('l, 'e, TraceSnapshot) act" where
  "read_trace L traceID s = (s, map_sum LedgerFailed id (lg_Snapshot L (hv_ledger s) traceID))"

text \<open>Building an event: marshalling comes first, then the id is drawn.\<close>

definition build :: "env \<Rightarrow> string \<Rightarrow> string \<Rightarrow> EventType \<Rightarrow> (nat \<Rightarrow> json option) \<Rightarrow> ('l, 'e, Event) act" where
  "build E traceID agentID typ payload s =
    (let n = hv_made s
     in (s\<lparr>hv_made := Suc n\<rparr>, case payload n of
           None \<Rightarrow> Inl MarshalFailed
         | Some j \<Rightarrow> (case NewEvent_raw (en_rnd E n) (en_now E n) traceID agentID 0 typ (RawJson j) of
               None \<Rightarrow> Inl EventIDFailed
             | Some ev \<Rightarrow> Inr ev)))"

definition apply_event :: "'l Ledger \<Rightarrow> Event \<Rightarrow> ('l, 'e, ApplyResult) act" where
  "apply_event L ev s = (case lg_Apply L (hv_ledger s) ev of
     (l, r) \<Rightarrow> (s\<lparr>hv_ledger := l\<rparr>, map_sum LedgerFailed id r))"

definition remember :: "env \<Rightarrow> Event \<Rightarrow> ('l, 'e, unit) act" where
  "remember E ev s = (if en_watch E then s\<lparr>hv_local := hv_local s @ [ev]\<rparr> else s, Inr ())"

definition publish_event :: "env \<Rightarrow> Event \<Rightarrow> ('l, 'e, unit) act" where
  "publish_event E ev s = (case en_pub E of
     None \<Rightarrow> (s, Inr ())
   | Some send \<Rightarrow> if send ev then (s\<lparr>hv_bus := hv_bus s @ [ev]\<rparr>, Inr ()) else (s, Inl PublishFailed))"

definition WriteEvent :: "'l Ledger \<Rightarrow> env \<Rightarrow> Event \<Rightarrow> ('l, 'e, unit) act" where
  "WriteEvent L E ev = bind_act (apply_event L ev) (\<lambda>_. bind_act (remember E ev) (\<lambda>_. publish_event E ev))"

section \<open>Inversion\<close>

lemma bind_act_Inr:
  "bind_act m f s = (s', Inr y) \<longleftrightarrow> (\<exists>s1 x. m s = (s1, Inr x) \<and> f x s1 = (s', Inr y))"
  by (auto simp: bind_act_def split: prod.splits sum.splits)

lemma bind_act_Inl:
  "bind_act m f s = (s', Inl e) \<longleftrightarrow> m s = (s', Inl e) \<or> (\<exists>s1 x. m s = (s1, Inr x) \<and> f x s1 = (s', Inl e))"
  by (auto simp: bind_act_def split: prod.splits sum.splits)

lemma ret_eq: "ret x s = (s', r) \<longleftrightarrow> s' = s \<and> r = Inr x"
  by (auto simp: ret_def)

lemma throw_eq: "throw e s = (s', r) \<longleftrightarrow> s' = s \<and> r = Inl e"
  by (auto simp: throw_def)

lemma lift_sum_eq: "lift_sum x s = (s', r) \<longleftrightarrow> s' = s \<and> r = x"
  by (auto simp: lift_sum_def)

lemma build_Inr:
  "build E i a ty p s = (s', Inr ev) \<longleftrightarrow> s' = s\<lparr>hv_made := Suc (hv_made s)\<rparr>
    \<and> (\<exists>j body. p (hv_made s) = Some j \<and> en_rnd E (hv_made s) = Some body
        \<and> ev = the (NewEvent_raw (Some body) (en_now E (hv_made s)) i a 0 ty (RawJson j)))"
  by (auto simp: build_def NewEvent_raw_def Let_def split: option.splits)

lemma build_state: "build E i a ty p s = (s', r) \<Longrightarrow> s' = s\<lparr>hv_made := Suc (hv_made s)\<rparr>"
  by (simp add: build_def Let_def)

text \<open>The fields of a built event.\<close>

definition built_as :: "string \<Rightarrow> string \<Rightarrow> EventType \<Rightarrow> json \<Rightarrow> Event \<Rightarrow> bool" where
  "built_as i a ty j ev \<longleftrightarrow> ev_TraceID ev = i \<and> ev_AgentID ev = a \<and> ev_Type ev = ty
     \<and> ev_Payload ev = RawJson j \<and> Purpose ev = PurposeUnset"

lemma build_built:
  assumes "build E i a ty p s = (s', Inr ev)"
  obtains j where "p (hv_made s) = Some j" "built_as i a ty j ev" "s' = s\<lparr>hv_made := Suc (hv_made s)\<rparr>"
  using assms by (auto simp: build_Inr built_as_def NewEvent_raw_def)

lemma WriteEvent_Inr:
  assumes "WriteEvent L E ev s = (s', Inr ())"
  obtains l res where "lg_Apply L (hv_ledger s) ev = (l, Inr res)" "hv_ledger s' = l"
    "hv_local s' = hv_local s @ (if en_watch E then [ev] else [])" "hv_made s' = hv_made s"
    "hv_bus s' = hv_bus s @ (if en_pub E = None then [] else [ev])"
  using assms
  by (cases "lg_Apply L (hv_ledger s) ev"; cases "snd (lg_Apply L (hv_ledger s) ev)")
    (auto simp: WriteEvent_def bind_act_def apply_event_def remember_def publish_event_def
      split: option.splits if_splits)

text \<open>Whatever happens: nothing was applied, or exactly this event was.\<close>

lemma WriteEvent_any:
  assumes "WriteEvent L E ev s = (s', r)"
  obtains (failed) e where "snd (lg_Apply L (hv_ledger s) ev) = Inl e" "hv_ledger s' = fst (lg_Apply L (hv_ledger s) ev)"
    "hv_local s' = hv_local s" "hv_bus s' = hv_bus s" "r = Inl (LedgerFailed e)"
  | (taken) res where "snd (lg_Apply L (hv_ledger s) ev) = Inr res" "hv_ledger s' = fst (lg_Apply L (hv_ledger s) ev)"
    "hv_local s' = hv_local s @ (if en_watch E then [ev] else [])" "hv_bus s' = hv_bus s \<or> hv_bus s' = hv_bus s @ [ev]"
    "r = Inr () \<or> r = Inl PublishFailed"
  using assms
  by (cases "lg_Apply L (hv_ledger s) ev"; cases "snd (lg_Apply L (hv_ledger s) ev)")
    (auto simp: WriteEvent_def bind_act_def apply_event_def remember_def publish_event_def
      split: option.splits if_splits)

section \<open>The in-memory ledger provides the interface\<close>

definition mem_ledger :: "time \<Rightarrow> MemoryLedger Ledger" where
  "mem_ledger clock = \<lparr>lg_Snapshot = mem_Snapshot, lg_Apply = mem_Apply clock\<rparr>"

interpretation mem_api: ledger_api "mem_ledger clock" mem_view "\<lambda>_. True"
proof
  fix l :: MemoryLedger and ev :: Event and e
  assume "snd (lg_Apply (mem_ledger clock) l ev) = Inl e"
  then show "mem_view (fst (lg_Apply (mem_ledger clock) l ev)) = mem_view l"
    using mem_Apply_error [of clock l ev e] by (simp add: mem_ledger_def)
next
  fix l :: MemoryLedger and ev :: Event and j
  assume "j \<noteq> ev_TraceID ev"
  then show "mem_view (fst (lg_Apply (mem_ledger clock) l ev)) j = mem_view l j"
    using mem_Apply_other by (simp add: mem_ledger_def)
next
  fix l :: MemoryLedger and ev :: Event and res
  assume "snd (lg_Apply (mem_ledger clock) l ev) = Inr res"
  then have run: "ApplyEvent clock (mem_view l (ev_TraceID ev)) ev = Inr res"
    and l': "fst (lg_Apply (mem_ledger clock) l ev) = (if ar_Changed res then mput (ev_TraceID ev) (ar_Trace res) l
      else (case mget l (ev_TraceID ev) of None \<Rightarrow> l
        | Some stored \<Rightarrow> mput (ev_TraceID ev) (stored\<lparr>Tasks := Tasks (ar_Trace res)\<rparr>) l))"
    by (auto simp: mem_ledger_def mem_Apply_def Let_def split: if_splits sum.splits)
  have "applied_to (mem_view l (ev_TraceID ev)) res (mem_view (fst (lg_Apply (mem_ledger clock) l ev)) (ev_TraceID ev))"
    unfolding l' applied_to_def by (auto simp: mem_view_def split: option.splits)
  with run show "\<exists>clock'. ApplyEvent clock' (mem_view l (ev_TraceID ev)) ev = Inr res
      \<and> applied_to (mem_view l (ev_TraceID ev)) res (mem_view (fst (lg_Apply (mem_ledger clock) l ev)) (ev_TraceID ev))"
    by blast
next
  fix l :: MemoryLedger and ev :: Event
  assume i: "ev_TraceID ev \<noteq> []" and ok: "\<forall>clock'. \<not> isl (ApplyEvent clock' (mem_view l (ev_TraceID ev)) ev)"
  obtain res where "ApplyEvent clock (mem_view l (ev_TraceID ev)) ev = Inr res"
    using ok by (metis isl_def sum.exhaust)
  with i show "\<exists>res. snd (lg_Apply (mem_ledger clock) l ev) = Inr res"
    by (simp add: mem_ledger_def mem_Apply_def Let_def)
qed (simp_all add: mem_ledger_def mem_Snapshot_def)

section \<open>So does the bucket, while nobody else writes it\<close>

lemma reduceEvent_TraceID: "reduceEvent trace ev now = Inr s \<Longrightarrow> TraceID (rs_trace s) = TraceID trace"
proof (induct rule: reduceEvent_cases)
  case insight
  then show ?case
    by (auto dest!: reduceInsight_Inr simp: plan_step_def Let_def split_beta frame_simps)
next
  case kill
  then show ?case by (auto dest!: reduceSystemKill_Inr simp: applySystemKill_def Let_def frame_simps)
next
  case status
  then show ?case by (auto dest!: reduceTaskStatus_Inr simp: status_step_def Let_def frame_simps)
next
  case ready
  then show ?case by (auto dest!: reduceTaskReady_Inr simp: park_def ready_step_def Let_def frame_simps)
next
  case energy
  then show ?case by (auto dest!: reduceEnergy_Inr simp: applyStipend_trace frame_simps)
next
  case verify
  then show ?case by (auto dest!: reduceVerification_Inr simp: verify_step_def promotions_def Let_def split_beta frame_simps)
next
  case mutate
  then show ?case by (auto dest!: reduceMutation_Inr)
qed simp_all

lemma ApplyEvent_TraceID:
  assumes "ApplyEvent clock trace ev = Inr res" "TraceID trace = i" "ev_TraceID ev = i"
  shows "TraceID (ar_Trace res) = i"
proof -
  from assms(1) obtain i' st where st: "traceForEvent trace ev = Inr (trace\<lparr>TraceID := i'\<rparr>)"
    "reduceEvent (trace\<lparr>TraceID := i'\<rparr>) ev (eventStamp clock ev) = Inr st" "res = finishStep st"
    by (rule ApplyEvent_Inr)
  have "trace\<lparr>TraceID := i'\<rparr> = trace" using st(1) assms(2,3) by (auto simp: traceForEvent_def split: if_splits)
  then have "i' = i" using assms(2) by (metis TraceSnapshot.select_convs(1) TraceSnapshot.surjective TraceSnapshot.update_convs(1))
  with reduceEvent_TraceID [OF st(2)] st(3) show ?thesis
    by (auto simp: finishStep_def Let_def split_beta dropStalePendingReady_def split: option.splits)
qed

text \<open>
  Nobody else writing, \<open>Apply\<close> on the bucket answers as \<open>Apply\<close> on the map does, and leaves both
  showing the same snapshots unless the reducer wrote into the task map and reported no change.
\<close>

lemma keeps_name_Apply: "ev_TraceID ev = i \<Longrightarrow> keeps (\<lambda>t. TraceID t = i) (m_Apply clock ev)"
  by (auto simp: keeps_def m_Apply_def split: sum.splits intro: ApplyEvent_TraceID)

lemma mem_Apply_result:
  "ev_TraceID ev \<noteq> [] \<Longrightarrow>
    snd (mem_Apply clock l ev) = snd (mem_mutate mem_view (m_Apply clock ev) l (ev_TraceID ev))"
  by (simp add: mem_Apply_def mem_mutate_def m_Apply_def Let_def split: sum.split)

lemma mem_Apply_view:
  assumes "ev_TraceID ev \<noteq> []"
    and "\<And>res. ApplyEvent clock (mem_view l (ev_TraceID ev)) ev = Inr res
      \<Longrightarrow> ar_Changed res \<or> Tasks (ar_Trace res) = Tasks (mem_view l (ev_TraceID ev))"
  shows "mem_view (fst (mem_Apply clock l ev)) j
    = mem_view (fst (mem_mutate mem_view (m_Apply clock ev) l (ev_TraceID ev))) j"
  using assms
  by (auto simp: mem_Apply_def mem_mutate_def m_Apply_def Let_def mem_view_def split: sum.split option.splits)

lemma kv_Apply_mutate:
  "ev_TraceID ev \<noteq> [] \<Longrightarrow> kv_Apply kv rivals clock s ev = kv_mutate kv rivals (m_Apply clock ev) s (ev_TraceID ev)"
  by (simp add: kv_Apply_def kv_mutate_def)

lemma kv_Apply_refines:
  assumes kv: "kv_laws kv" "codec_ok kv" "kv_live kv" and same: "same_store kv s l"
    and named: "TraceID (mem_view l (ev_TraceID ev)) = ev_TraceID ev"
  shows "snd (kv_Apply kv quiet clock s ev) = snd (mem_Apply clock l ev)"
    and "(\<And>res. ApplyEvent clock (mem_view l (ev_TraceID ev)) ev = Inr res
        \<Longrightarrow> ar_Changed res \<or> Tasks (ar_Trace res) = Tasks (mem_view l (ev_TraceID ev)))
      \<Longrightarrow> same_store kv (fst (kv_Apply kv quiet clock s ev)) (fst (mem_Apply clock l ev))"
proof -
  have "snd (kv_Apply kv quiet clock s ev) = snd (mem_Apply clock l ev)
    \<and> ((\<forall>res. ApplyEvent clock (mem_view l (ev_TraceID ev)) ev = Inr res
        \<longrightarrow> ar_Changed res \<or> Tasks (ar_Trace res) = Tasks (mem_view l (ev_TraceID ev)))
      \<longrightarrow> same_store kv (fst (kv_Apply kv quiet clock s ev)) (fst (mem_Apply clock l ev)))"
  proof (cases "ev_TraceID ev = []")
    case True
    with same show ?thesis by (simp add: kv_Apply_def mem_Apply_def)
  next
    case False
    from kv_mutate_refines [OF kv same named keeps_name_Apply [OF refl], of clock]
    show ?thesis using mem_Apply_view [OF False, of clock l]
      by (auto simp: kv_Apply_mutate [OF False] mem_Apply_result [OF False] same_store_def)
  qed
  then show "snd (kv_Apply kv quiet clock s ev) = snd (mem_Apply clock l ev)"
    "(\<And>res. ApplyEvent clock (mem_view l (ev_TraceID ev)) ev = Inr res
        \<Longrightarrow> ar_Changed res \<or> Tasks (ar_Trace res) = Tasks (mem_view l (ev_TraceID ev)))
      \<Longrightarrow> same_store kv (fst (kv_Apply kv quiet clock s ev)) (fst (mem_Apply clock l ev))" by blast+
qed

definition kv_ledger :: "('s, 'd) kv \<Rightarrow> time \<Rightarrow> 's Ledger" where
  "kv_ledger kv clock = \<lparr>lg_Snapshot = kv_Snapshot kv, lg_Apply = kv_Apply kv quiet clock\<rparr>"

definition kv_view :: "('s, 'd) kv \<Rightarrow> 's \<Rightarrow> string \<Rightarrow> TraceSnapshot" where
  "kv_view kv s i = (case loadTrace kv s i of Inl _ \<Rightarrow> emptyTrace i | Inr (t, _) \<Rightarrow> t)"

text \<open>Every trace can be read and is stored under its own id.\<close>

definition kv_usable :: "('s, 'd) kv \<Rightarrow> 's \<Rightarrow> bool" where
  "kv_usable kv s \<longleftrightarrow> (\<forall>i. i \<noteq> [] \<longrightarrow> (\<exists>t rv. loadTrace kv s i = Inr (t, rv) \<and> TraceID t = i))"

locale live_bucket =
  fixes kv :: "('s, 'd) kv"
  assumes laws: "kv_laws kv" and codec: "codec_ok kv" and live: "kv_live kv"
begin

lemma apply_cases:
  assumes "kv_usable kv s" "ev_TraceID ev \<noteq> []"
  obtains (failed) e where "ApplyEvent clock (kv_view kv s (ev_TraceID ev)) ev = Inl e"
      "kv_Apply kv quiet clock s ev = (s, Inl (ReduceError e))"
  | (taken) res s' where "ApplyEvent clock (kv_view kv s (ev_TraceID ev)) ev = Inr res"
      "kv_Apply kv quiet clock s ev = (s', Inr res)" "kv_usable kv s'"
      "kv_view kv s' (ev_TraceID ev) = (if ar_Changed res then ar_Trace res else kv_view kv s (ev_TraceID ev))"
      "\<And>j. j \<noteq> ev_TraceID ev \<Longrightarrow> kv_view kv s' j = kv_view kv s j"
proof -
  let ?i = "ev_TraceID ev"
  obtain t rv where t: "loadTrace kv s ?i = Inr (t, rv)" "TraceID t = ?i"
    using assms by (auto simp: kv_usable_def)
  have view: "kv_view kv s ?i = t" by (simp add: kv_view_def t(1))
  note run = kv_Apply_mutate [OF assms(2), of kv quiet clock s]
  note one = kv_commit [OF laws codec live assms(2) t(1), of "m_Apply clock ev"]
  show thesis
  proof (cases "ApplyEvent clock t ev")
    case (Inl e)
    with one(1) [of "ReduceError e"] that(1) view run show thesis by (simp add: m_Apply_def)
  next
    case (Inr res)
    have m: "m_Apply clock ev t = Inr (ar_Trace res, ar_Changed res, res)" by (simp add: m_Apply_def Inr)
    show thesis
    proof (cases "ar_Changed res")
      case False
      with one(2) [of "ar_Trace res" res] m that(2) [of res s] Inr view run assms(1) show thesis by simp
    next
      case True
      have id: "TraceID (ar_Trace res) = ?i" by (rule ApplyEvent_TraceID [OF Inr t(2) refl])
      from one(3) [of "ar_Trace res" res] m True id obtain s2 rv' where s2:
        "kv_mutate kv quiet (m_Apply clock ev) s ?i = (s2, Inr res)"
        "loadTrace kv s2 ?i = Inr (ar_Trace res, rv')" "\<forall>j. j \<noteq> ?i \<longrightarrow> loadTrace kv s2 j = loadTrace kv s j" by auto
      have "kv_usable kv s2" using assms(1) s2(2,3) id unfolding kv_usable_def by metis
      moreover have "kv_view kv s2 ?i = ar_Trace res" by (simp add: kv_view_def s2(2))
      moreover have "\<And>j. j \<noteq> ?i \<Longrightarrow> kv_view kv s2 j = kv_view kv s j" by (simp add: kv_view_def s2(3))
      ultimately show thesis using that(2) [of res s2] Inr view run s2(1) True by simp
    qed
  qed
qed

lemma apply_unnamed: "ev_TraceID ev = [] \<Longrightarrow> kv_Apply kv quiet clock s ev = (s, Inl EventMissingTraceID)"
  by (simp add: kv_Apply_def)

lemma apply_facts:
  "kv_usable kv s \<Longrightarrow> kv_usable kv (fst (kv_Apply kv quiet clock s ev))"
  "kv_usable kv s \<Longrightarrow> snd (kv_Apply kv quiet clock s ev) = Inl e \<Longrightarrow> fst (kv_Apply kv quiet clock s ev) = s"
  "kv_usable kv s \<Longrightarrow> j \<noteq> ev_TraceID ev \<Longrightarrow> kv_view kv (fst (kv_Apply kv quiet clock s ev)) j = kv_view kv s j"
proof -
  assume s: "kv_usable kv s"
  show "kv_usable kv (fst (kv_Apply kv quiet clock s ev))"
  proof (cases "ev_TraceID ev = []")
    case False
    with s show ?thesis by (rule apply_cases [where clock = clock]) (simp_all add: s)
  qed (simp add: apply_unnamed s)
  show "fst (kv_Apply kv quiet clock s ev) = s" if "snd (kv_Apply kv quiet clock s ev) = Inl e"
  proof (cases "ev_TraceID ev = []")
    case False
    with s show ?thesis by (rule apply_cases [where clock = clock]) (use that in simp_all)
  qed (simp add: apply_unnamed)
  show "kv_view kv (fst (kv_Apply kv quiet clock s ev)) j = kv_view kv s j" if "j \<noteq> ev_TraceID ev"
  proof (cases "ev_TraceID ev = []")
    case False
    with s show ?thesis by (rule apply_cases [where clock = clock]) (use that in simp_all)
  qed (simp add: apply_unnamed)
qed

end

sublocale live_bucket \<subseteq> kv_api: ledger_api "kv_ledger kv clock" "kv_view kv" "kv_usable kv" for clock
proof
  fix l and i :: string assume "kv_usable kv l" "i \<noteq> []"
  then show "lg_Snapshot (kv_ledger kv clock) l i = Inr (kv_view kv l i)"
    by (auto simp: kv_ledger_def kv_Snapshot_def kv_view_def kv_usable_def)
next
  fix l and ev :: Event assume "kv_usable kv l"
  then show "kv_usable kv (fst (lg_Apply (kv_ledger kv clock) l ev))"
    using apply_facts(1) [where s = l and ev = ev and clock = clock] by (simp add: kv_ledger_def)
next
  fix l and ev :: Event and e assume "kv_usable kv l" "snd (lg_Apply (kv_ledger kv clock) l ev) = Inl e"
  then show "kv_view kv (fst (lg_Apply (kv_ledger kv clock) l ev)) = kv_view kv l"
    using apply_facts(2) [where s = l and ev = ev and clock = clock and e = e] by (simp add: kv_ledger_def)
next
  fix l and ev :: Event and j :: string assume "kv_usable kv l" "j \<noteq> ev_TraceID ev"
  then show "kv_view kv (fst (lg_Apply (kv_ledger kv clock) l ev)) j = kv_view kv l j"
    using apply_facts(3) [where s = l and ev = ev and clock = clock and j = j] by (simp add: kv_ledger_def)
next
  fix l and ev :: Event and res assume l: "kv_usable kv l" and r: "snd (lg_Apply (kv_ledger kv clock) l ev) = Inr res"
  then have "ev_TraceID ev \<noteq> []" by (auto simp: kv_ledger_def apply_unnamed)
  with l show "\<exists>clock'. ApplyEvent clock' (kv_view kv l (ev_TraceID ev)) ev = Inr res
      \<and> applied_to (kv_view kv l (ev_TraceID ev)) res (kv_view kv (fst (lg_Apply (kv_ledger kv clock) l ev)) (ev_TraceID ev))"
    by (rule apply_cases [where clock = clock]) (use r in \<open>auto simp: kv_ledger_def applied_to_def\<close>)
next
  fix l and ev :: Event
  assume l: "kv_usable kv l" "ev_TraceID ev \<noteq> []" and ok: "\<forall>clock'. \<not> isl (ApplyEvent clock' (kv_view kv l (ev_TraceID ev)) ev)"
  from l show "\<exists>res. snd (lg_Apply (kv_ledger kv clock) l ev) = Inr res"
  proof (rule apply_cases [where clock = clock])
    fix e assume "ApplyEvent clock (kv_view kv l (ev_TraceID ev)) ev = Inl e"
    with ok show ?thesis by (metis isl_def)
  qed (auto simp: kv_ledger_def)
qed (simp add: kv_ledger_def kv_Snapshot_def)

end
