(* ===== verification/Contract.thy ===== *)
theory Contract
  imports GoText Protocol
begin

text \<open>
  \<open>internal/colony/completion.go\<close>: what a Bee's run must have published before it counts as
  complete. A contract lists rules (so many events of a type with one of some kinds); an intent
  may replace the rules. The load-time check makes the choice of the intent's rules
  independent of the order in which the map of intents is visited.
\<close>

section \<open>Contracts\<close>

record CompletionRule =
  cr_Type :: string
  cr_KindOneOf :: "string list"
  cr_Count :: int

record CompletionOverride =
  co_Required :: "CompletionRule list"

record CompletionContract =
  cc_Required :: "CompletionRule list"
  cc_Intents :: "(string, CompletionOverride) gomap"

record CompletionObservation =
  obs_Type :: string
  obs_KindOneOf :: "string list"
  obs_Want :: int
  obs_Got :: int

datatype contract_error =
    RuleTypeRequired "string option" nat
  | ContractInvalidType "string option" nat string
  | KindOneOfRequired "string option" nat
  | IntentKeyRequired
  | DuplicateIntent string
  | IntentNeedsRule string

text \<open>The first argument of the rule errors is the intent whose override holds the rule.\<close>

fun validateCompletionRules ::
  "string option \<Rightarrow> nat \<Rightarrow> CompletionRule list \<Rightarrow> contract_error + unit" where
  "validateCompletionRules pre i [] = Inr ()"
| "validateCompletionRules pre i (rule # rest) =
    (if TrimSpace (cr_Type rule) = [] then Inl (RuleTypeRequired pre i)
     else if \<not> IsDomainEvent (EventType_of (cr_Type rule)) then Inl (ContractInvalidType pre i (cr_Type rule))
     else if cr_KindOneOf rule = [] then Inl (KindOneOfRequired pre i)
     else validateCompletionRules pre (Suc i) rest)"

definition intent_name :: "string \<Rightarrow> string" where
  "intent_name s = TrimSpace (ToLower s)"

fun validate_intents ::
  "(string, CompletionOverride) gomap \<Rightarrow> string list \<Rightarrow> string list \<Rightarrow> contract_error + unit" where
  "validate_intents intents seen [] = Inr ()"
| "validate_intents intents seen (key # keys) =
    (let normalized = intent_name key
     in if normalized = [] then Inl IntentKeyRequired
        else if normalized \<in> set seen then Inl (DuplicateIntent normalized)
        else (case mget intents key of
            None \<Rightarrow> Inl (IntentNeedsRule normalized)
          | Some override \<Rightarrow>
              if co_Required override = [] then Inl (IntentNeedsRule normalized)
              else res_bind (validateCompletionRules (Some normalized) 0 (co_Required override))
                (\<lambda>_. validate_intents intents (normalized # seen) keys)))"

definition key_before :: "string \<Rightarrow> string \<Rightarrow> bool" where
  "key_before a b \<longleftrightarrow> a < b"

definition ValidateCompletionContract :: "CompletionContract \<Rightarrow> contract_error + unit" where
  "ValidateCompletionContract c =
    res_bind (validateCompletionRules None 0 (cc_Required c))
      (\<lambda>_. validate_intents (cc_Intents c) [] (go_sort key_before (map fst (cc_Intents c))))"

text \<open>The loop over the map stops at the first key whose normalized form is the intent.\<close>

definition ForIntent :: "CompletionContract \<Rightarrow> string \<Rightarrow> CompletionContract" where
  "ForIntent c raw =
    (let intent = intent_name raw
     in case (if intent = [] then None
              else find (\<lambda>(key, override). intent_name key = intent) (cc_Intents c)) of
          Some (key, override) \<Rightarrow> \<lparr>cc_Required = co_Required override, cc_Intents = []\<rparr>
        | None \<Rightarrow> \<lparr>cc_Required = cc_Required c, cc_Intents = []\<rparr>)"

section \<open>Measuring a run\<close>

definition trimKinds :: "string list \<Rightarrow> string list" where
  "trimKinds kinds = map TrimSpace kinds"

definition rule_count :: "CompletionRule \<Rightarrow> int" where
  "rule_count r = (if cr_Count r \<le> 0 then 1 else cr_Count r)"

definition observe :: "CompletionRule \<Rightarrow> Event list \<Rightarrow> CompletionObservation" where
  "observe r events =
    \<lparr>obs_Type = TrimSpace (cr_Type r), obs_KindOneOf = trimKinds (cr_KindOneOf r), obs_Want = rule_count r,
     obs_Got = fold (\<lambda>ev got. if EventType_str (ev_Type ev) \<noteq> TrimSpace (cr_Type r) then got
        else if PayloadKind (ev_Payload ev) \<notin> set (map TrimSpace (cr_KindOneOf r)) then got
        else got + 1) events 0\<rparr>"

definition Satisfied :: "CompletionObservation \<Rightarrow> bool" where
  "Satisfied obs \<longleftrightarrow> obs_Got obs = obs_Want obs"

definition ObserveRunEvents :: "CompletionContract \<Rightarrow> Event list \<Rightarrow> CompletionObservation list" where
  "ObserveRunEvents c events = map (\<lambda>rule. observe rule events) (cc_Required c)"

definition EffectiveRules :: "CompletionContract \<Rightarrow> CompletionRule list" where
  "EffectiveRules c = map (\<lambda>rule. \<lparr>cr_Type = TrimSpace (cr_Type rule),
     cr_KindOneOf = trimKinds (cr_KindOneOf rule), cr_Count = rule_count rule\<rparr>) (cc_Required c)"

datatype run_error = TooFewEvents CompletionObservation | TooManyEvents CompletionObservation

definition validate_observation :: "CompletionObservation \<Rightarrow> run_error + unit" where
  "validate_observation obs =
    (if obs_Got obs < obs_Want obs then Inl (TooFewEvents obs)
     else if obs_Got obs > obs_Want obs then Inl (TooManyEvents obs)
     else Inr ())"

fun first_failure :: "CompletionObservation list \<Rightarrow> run_error + unit" where
  "first_failure [] = Inr ()"
| "first_failure (obs # rest) = res_bind (validate_observation obs) (\<lambda>_. first_failure rest)"

definition ValidateRunEvents :: "CompletionContract \<Rightarrow> Event list \<Rightarrow> run_error + unit" where
  "ValidateRunEvents c events = first_failure (ObserveRunEvents c events)"

section \<open>Facts\<close>

interpretation key_order: key_less key_before "\<lambda>s. s"
  by unfold_locales (simp add: key_before_def)

lemma observe_Got:
  "obs_Got (observe r events) = int (length (filter (\<lambda>ev. EventType_str (ev_Type ev) = TrimSpace (cr_Type r)
    \<and> PayloadKind (ev_Payload ev) \<in> TrimSpace ` set (cr_KindOneOf r)) events))"
proof -
  have "fold (\<lambda>ev got. if EventType_str (ev_Type ev) \<noteq> t then got
      else if PayloadKind (ev_Payload ev) \<notin> ks then got else got + 1) events n
    = n + int (length (filter (\<lambda>ev. EventType_str (ev_Type ev) = t \<and> PayloadKind (ev_Payload ev) \<in> ks) events))"
    for t ks and n :: int
    by (induction events arbitrary: n) auto
  then show ?thesis by (simp add: observe_def)
qed

lemma validate_observation_Inr: "validate_observation obs = Inr u \<longleftrightarrow> Satisfied obs"
  by (auto simp: validate_observation_def Satisfied_def)

lemma first_failure_Inr: "first_failure xs = Inr u \<longleftrightarrow> (\<forall>obs \<in> set xs. Satisfied obs)"
  by (induction xs) (auto simp: res_bind_Inr_iff validate_observation_Inr)

lemma first_failure_Inl:
  "first_failure xs = Inl e \<Longrightarrow> \<exists>obs \<in> set xs. \<not> Satisfied obs \<and> validate_observation obs = Inl e"
proof (induction xs)
  case (Cons x xs)
  then show ?case
    by (cases "validate_observation x") (auto simp: validate_observation_def Satisfied_def split: if_splits)
qed simp

text \<open>A run satisfies its contract exactly when every rule counts the number it asks for.\<close>

lemma ValidateRunEvents_Inr:
  "ValidateRunEvents c events = Inr u \<longleftrightarrow> (\<forall>rule \<in> set (cc_Required c).
    int (length (filter (\<lambda>ev. EventType_str (ev_Type ev) = TrimSpace (cr_Type rule)
      \<and> PayloadKind (ev_Payload ev) \<in> TrimSpace ` set (cr_KindOneOf rule)) events))
    = (if cr_Count rule \<le> 0 then 1 else cr_Count rule))"
  by (simp add: ValidateRunEvents_def first_failure_Inr ObserveRunEvents_def Satisfied_def observe_Got)
    (simp add: observe_def rule_count_def)

lemma validateCompletionRules_Inr:
  "validateCompletionRules pre i rules = Inr u \<longleftrightarrow> (\<forall>r \<in> set rules. TrimSpace (cr_Type r) \<noteq> []
    \<and> IsDomainEvent (EventType_of (cr_Type r)) \<and> cr_KindOneOf r \<noteq> [])"
  by (induction rules arbitrary: i) auto

lemma validate_intents_Inr:
  "validate_intents intents seen keys = Inr u \<Longrightarrow>
    distinct (map intent_name keys) \<and> set seen \<inter> intent_name ` set keys = {}
    \<and> (\<forall>k \<in> set keys. intent_name k \<noteq> [] \<and> (\<exists>ov. mget intents k = Some ov \<and> co_Required ov \<noteq> []))"
proof (induction keys arbitrary: seen)
  case (Cons k ks)
  obtain ov where "intent_name k \<noteq> []" "intent_name k \<notin> set seen" "mget intents k = Some ov" "co_Required ov \<noteq> []"
    "validate_intents intents (intent_name k # seen) ks = Inr u"
    using Cons.prems by (auto simp: Let_def res_bind_Inr_iff split: if_splits option.splits)
  with Cons.IH [of "intent_name k # seen"] show ?case by auto
qed simp

lemma ForIntent_find:
  "cc_Required (ForIntent c raw) = (if intent_name raw = [] then cc_Required c
    else (case find (\<lambda>p. intent_name (fst p) = intent_name raw) (cc_Intents c) of
        Some p \<Rightarrow> co_Required (snd p) | None \<Rightarrow> cc_Required c))"
proof -
  have "(\<lambda>(key, override :: CompletionOverride). intent_name key = i) = (\<lambda>p. intent_name (fst p) = i)" for i
    by auto
  then show ?thesis by (auto simp: ForIntent_def Let_def split: option.split prod.split)
qed

lemma find_unique:
  assumes "mset xs = mset ys" "\<And>x y. x \<in> set xs \<Longrightarrow> y \<in> set xs \<Longrightarrow> P x \<Longrightarrow> P y \<Longrightarrow> x = y"
  shows "find P xs = find P ys"
proof -
  have s: "set xs = set ys" using assms(1) by (metis mset_eq_setD)
  show ?thesis
  proof (cases "find P xs")
    case None
    with s have "find P ys = None" by (simp add: find_None_iff)
    with None show ?thesis by simp
  next
    case (Some x)
    then have x: "x \<in> set xs" "P x" by (auto simp: find_Some_iff)
    then obtain y where y: "find P ys = Some y" using s by (metis find_None_iff not_None_eq)
    then have "y \<in> set ys" "P y" by (auto simp: find_Some_iff)
    with x s assms(2) have "x = y" by blast
    with Some y show ?thesis by simp
  qed
qed

lemma validated_intents:
  assumes "ValidateCompletionContract c = Inr ()"
  shows "distinct (map (intent_name \<circ> fst) (cc_Intents c))"
    and "\<And>k ov. (k, ov) \<in> set (cc_Intents c) \<Longrightarrow> intent_name k \<noteq> []"
proof -
  let ?ks = "map fst (cc_Intents c)"
  from assms have "validate_intents (cc_Intents c) [] (go_sort key_before ?ks) = Inr ()"
    by (auto simp: ValidateCompletionContract_def res_bind_Inr_iff)
  note v = validate_intents_Inr [OF this]
  have "mset (map intent_name (go_sort key_before ?ks)) = mset (map intent_name ?ks)"
    by (simp only: mset_map mset_go_sort)
  with v have "distinct (map intent_name ?ks)" using mset_eq_imp_distinct_iff by blast
  then show "distinct (map (intent_name \<circ> fst) (cc_Intents c))" by simp
  show "intent_name k \<noteq> []" if "(k, ov) \<in> set (cc_Intents c)" for k ov
    using v that by force
qed

text \<open>After the load-time check the rules an intent selects do not depend on the map's order.\<close>

lemma ForIntent_order_free:
  assumes "ValidateCompletionContract c = Inr ()" "mset (cc_Intents c') = mset (cc_Intents c)"
    "cc_Required c' = cc_Required c"
  shows "ForIntent c' raw = ForIntent c raw"
proof -
  have inj: "x = y" if "x \<in> set (cc_Intents c)" "y \<in> set (cc_Intents c)" "intent_name (fst x) = i"
    "intent_name (fst y) = i" for x y i
    using validated_intents(1) [OF assms(1)] that by (auto simp: distinct_map inj_on_def)
  have "find (\<lambda>p. intent_name (fst p) = intent_name raw) (cc_Intents c)
      = find (\<lambda>p. intent_name (fst p) = intent_name raw) (cc_Intents c')"
    by (rule find_unique) (use assms(2) inj in auto)
  then have "cc_Required (ForIntent c' raw) = cc_Required (ForIntent c raw)"
    using assms(3) by (simp add: ForIntent_find split: option.split)
  moreover have "cc_Intents (ForIntent d raw) = []" for d
    by (auto simp: ForIntent_def Let_def split: option.split)
  ultimately show ?thesis by (simp add: CompletionContract.equality)
qed

lemma ForIntent_override:
  assumes "ValidateCompletionContract c = Inr ()" "(k, ov) \<in> set (cc_Intents c)" "intent_name raw = intent_name k"
  shows "cc_Required (ForIntent c raw) = co_Required ov"
proof -
  let ?P = "\<lambda>p. intent_name (fst p) = intent_name raw"
  obtain p where p: "find ?P (cc_Intents c) = Some p"
    using assms(2,3) by (cases "find ?P (cc_Intents c)") (auto simp: find_None_iff)
  then have "p \<in> set (cc_Intents c)" "?P p" by (auto simp: find_Some_iff)
  with validated_intents(1) [OF assms(1)] assms(2,3) have "p = (k, ov)"
    by (auto simp: distinct_map inj_on_def)
  with p validated_intents(2) [OF assms(1,2)] assms(3) show ?thesis by (simp add: ForIntent_find)
qed

end
