(* ===== verification/Routing.thy ===== *)
theory Routing
  imports Contract
begin

text \<open>
  \<open>internal/colony/routing.go\<close>: which Bee reacts to an event, and with which purpose; with the
  rules on code proposals of proposal.go, intents.go, sector.go, run_summary.go and the fallbacks
  of bee.go. A Bee has the fields these read.
\<close>

section \<open>Rules\<close>

record EventRule =
  ru_Type :: string
  ru_Kind :: string

datatype DispatchMode = DispatchUnset | DispatchTask | DispatchDirect | DispatchOther string

record SubscriptionRule = EventRule +
  su_Dispatch :: DispatchMode
  su_Purpose :: ExecutionPurpose

type_synonym PublicationRule = EventRule

record DirectReaction =
  dr_Bee :: string
  dr_Purpose :: ExecutionPurpose

record Bee =
  be_Role :: string
  be_Adapter :: string
  be_Command :: "string list"
  be_Params :: "(string, json) gomap"
  be_SystemTemplate :: string
  be_Sector :: string
  be_Worktree :: bool
  be_Intents :: "string list"
  be_DefaultIntent :: string
  be_Subscribes :: "SubscriptionRule list"
  be_Publishes :: "PublicationRule list"
  be_CompletionContract :: CompletionContract
  be_RunSummary :: string

definition AnalysisReaction :: "SubscriptionRule \<Rightarrow> bool" where
  "AnalysisReaction s = (su_Purpose s = PurposeAnalysis)"

datatype rule_error =
    RuleMissingType
  | RuleInvalidType string
  | RuleInvalidDispatch DispatchMode
  | UnsupportedPurpose ExecutionPurpose
  | RuntimeOwnedPurpose ExecutionPurpose
  | AnalysisNotDirect
  | AnalysisWrongEvent

definition RuleEventType :: "('a) EventRule_scheme \<Rightarrow> rule_error + EventType" where
  "RuleEventType r =
    (let t = TrimSpace (ru_Type r)
     in if t = [] then Inl RuleMissingType
        else if \<not> IsDomainEvent (EventType_of t) then Inl (RuleInvalidType t)
        else Inr (EventType_of t))"

definition Matches :: "('a) EventRule_scheme \<Rightarrow> EventType \<Rightarrow> string \<Rightarrow> bool" where
  "Matches r evType kind = (case RuleEventType r of
     Inl _ \<Rightarrow> False
   | Inr ruleType \<Rightarrow>
       if ruleType \<noteq> evType then False
       else let ruleKind = TrimSpace (ru_Kind r); eventKind = TrimSpace kind
         in if ruleKind = [] then True
            else if evType = EventMutation \<and> (IsCodeProposalKind ruleKind \<or> IsCodeProposalKind eventKind)
            then CodeProposalKindsMatch ruleKind eventKind
            else ruleKind = eventKind)"

definition ResolvedDispatch :: "SubscriptionRule \<Rightarrow> DispatchMode" where
  "ResolvedDispatch s =
    (if su_Dispatch s \<noteq> DispatchUnset then su_Dispatch s
     else if HasPrefix (TrimSpace (ru_Kind s)) ''task.'' then DispatchTask
     else DispatchDirect)"

section \<open>Load-time checks\<close>

definition validateSubscriptionPurpose :: "SubscriptionRule \<Rightarrow> rule_error + unit" where
  "validateSubscriptionPurpose sub =
    (let purpose = su_Purpose sub
     in if purpose = PurposeUnset then Inr ()
        else if \<not> IsKnownExecutionPurpose purpose then Inl (UnsupportedPurpose purpose)
        else if purpose \<noteq> PurposeAnalysis then Inl (RuntimeOwnedPurpose purpose)
        else if ResolvedDispatch sub \<noteq> DispatchDirect then Inl AnalysisNotDirect
        else res_bind (RuleEventType sub) (\<lambda>evType.
          if evType \<noteq> EventSignal \<or> TrimSpace (ru_Kind sub) \<noteq> SignalTrailWorkCompleted
          then Inl AnalysisWrongEvent else Inr ()))"

text \<open>One turn of each loop; the loops stop at the first error and report its index.\<close>

definition validateSubscription :: "SubscriptionRule \<Rightarrow> rule_error + unit" where
  "validateSubscription sub =
    res_bind (RuleEventType sub) (\<lambda>_.
      if ResolvedDispatch sub \<in> {DispatchTask, DispatchDirect} then validateSubscriptionPurpose sub
      else Inl (RuleInvalidDispatch (su_Dispatch sub)))"

fun first_error :: "('a \<Rightarrow> 'e + unit) \<Rightarrow> nat \<Rightarrow> 'a list \<Rightarrow> (nat \<times> 'e) + unit" where
  "first_error check i [] = Inr ()"
| "first_error check i (x # xs) =
    (case check x of Inl e \<Rightarrow> Inl (i, e) | Inr _ \<Rightarrow> first_error check (Suc i) xs)"

datatype rules_error =
    SubscribesError nat rule_error
  | PublishesError nat rule_error
  | ContractError contract_error

definition ValidateEventRules :: "Bee \<Rightarrow> rules_error + unit" where
  "ValidateEventRules b = (case first_error validateSubscription 0 (be_Subscribes b) of
     Inl (i, e) \<Rightarrow> Inl (SubscribesError i e)
   | Inr _ \<Rightarrow> (case first_error (\<lambda>p. map_sum id (\<lambda>_. ()) (RuleEventType p)) 0 (be_Publishes b) of
       Inl (i, e) \<Rightarrow> Inl (PublishesError i e)
     | Inr _ \<Rightarrow> map_sum ContractError id (ValidateCompletionContract (be_CompletionContract b))))"

section \<open>Who reacts\<close>

definition CanHandleTaskReady :: "Bee \<Rightarrow> bool" where
  "CanHandleTaskReady b =
    (if be_Subscribes b = [] then True
     else list_ex (\<lambda>sub. ResolvedDispatch sub = DispatchTask \<and> Matches sub EventSignal TaskEventReady)
       (be_Subscribes b))"

text \<open>The loop over one Bee's rules: whether an ordinary rule was seen, and an analysis rule found.\<close>

fun scan_rules :: "EventType \<Rightarrow> string \<Rightarrow> bool \<Rightarrow> SubscriptionRule list \<Rightarrow> bool \<times> bool" where
  "scan_rules evType kind ordinary [] = (ordinary, False)"
| "scan_rules evType kind ordinary (sub # rest) =
    (if ResolvedDispatch sub \<noteq> DispatchDirect then scan_rules evType kind ordinary rest
     else if \<not> Matches sub evType kind then scan_rules evType kind ordinary rest
     else if AnalysisReaction sub then (ordinary, True)
     else scan_rules evType kind True rest)"

definition reaction_of :: "EventType \<Rightarrow> string \<Rightarrow> string \<Rightarrow> Bee \<Rightarrow> DirectReaction list" where
  "reaction_of evType kind role bee = (case scan_rules evType kind False (be_Subscribes bee) of
     (ordinary, analysis) \<Rightarrow>
       if analysis then [\<lparr>dr_Bee = role, dr_Purpose = PurposeAnalysis\<rparr>]
       else if ordinary then [\<lparr>dr_Bee = role, dr_Purpose = PurposeWork\<rparr>]
       else [])"

definition role_before :: "string \<Rightarrow> string \<Rightarrow> bool" where
  "role_before a b \<longleftrightarrow> a < b"

definition DirectReactions :: "(string, Bee) gomap \<Rightarrow> EventType \<Rightarrow> string \<Rightarrow> DirectReaction list" where
  "DirectReactions bees evType kind =
    (if IsPlatformObservation kind then []
     else concat (map (\<lambda>role. case mget bees role of None \<Rightarrow> [] | Some bee \<Rightarrow> reaction_of evType kind role bee)
       (go_sort role_before (map fst bees))))"

definition DirectSubscribers :: "(string, Bee) gomap \<Rightarrow> EventType \<Rightarrow> string \<Rightarrow> string list" where
  "DirectSubscribers bees evType kind = map dr_Bee (DirectReactions bees evType kind)"

definition ExplicitlyDeclaresPublish :: "Bee \<Rightarrow> EventType \<Rightarrow> string \<Rightarrow> bool" where
  "ExplicitlyDeclaresPublish b evType kind =
    (if be_Publishes b = [] then False else list_ex (\<lambda>pub. Matches pub evType kind) (be_Publishes b))"

definition DeclaresPublish :: "Bee \<Rightarrow> EventType \<Rightarrow> string \<Rightarrow> bool" where
  "DeclaresPublish b evType kind =
    (if be_Publishes b = [] then True else ExplicitlyDeclaresPublish b evType kind)"

definition DeclaresCodeProposalIsolated :: "Bee \<Rightarrow> bool" where
  "DeclaresCodeProposalIsolated b \<longleftrightarrow> ExplicitlyDeclaresPublish b EventMutation MutationCodeProposal
     \<or> ExplicitlyDeclaresPublish b EventMutation MutationCodeProposalIsolated"

definition DeclaresCodeProposalRoot :: "Bee \<Rightarrow> bool" where
  "DeclaresCodeProposalRoot b = ExplicitlyDeclaresPublish b EventMutation MutationCodeProposalRoot"

definition AnyBeeDeclaresPublish :: "(string, Bee) gomap \<Rightarrow> EventType \<Rightarrow> string \<Rightarrow> bool" where
  "AnyBeeDeclaresPublish bees evType kind =
    list_ex (\<lambda>bee. ExplicitlyDeclaresPublish bee evType kind) (mvals bees)"

section \<open>Code proposals\<close>

definition ExpectedProposalWorkspace :: "Bee \<Rightarrow> ProposalWorkspace option" where
  "ExpectedProposalWorkspace b =
    (let root = DeclaresCodeProposalRoot b; isolated = DeclaresCodeProposalIsolated b
     in if root \<and> \<not> isolated then Some ProposalWorkspaceRoot
        else if isolated \<and> \<not> root then Some ProposalWorkspaceIsolated
        else None)"

datatype proposal_error =
    RootWithWorktree | IsolatedWithoutWorktree | SubscribesIsolatedWithoutWorktree | SubscribesRootWithWorktree

definition ValidateCodeProposalWorktreeInvariants :: "Bee \<Rightarrow> proposal_error + unit" where
  "ValidateCodeProposalWorktreeInvariants b =
    (let isolated = DeclaresCodeProposalIsolated b; root = DeclaresCodeProposalRoot b
     in if be_Worktree b then (if root \<and> \<not> isolated then Inl RootWithWorktree else Inr ())
        else (if isolated \<and> \<not> root then Inl IsolatedWithoutWorktree else Inr ()))"

definition proposal_subscription :: "bool \<Rightarrow> SubscriptionRule \<Rightarrow> proposal_error + unit" where
  "proposal_subscription worktree sub =
    (let kind = TrimSpace (ru_Kind sub)
     in if kind = [] then Inr ()
        else if CodeProposalKindsMatch kind MutationCodeProposalIsolated \<and> \<not> worktree
        then Inl SubscribesIsolatedWithoutWorktree
        else if CodeProposalKindsMatch kind MutationCodeProposalRoot \<and> worktree
        then Inl SubscribesRootWithWorktree
        else Inr ())"

definition ValidateCodeProposalSubscriberInvariants :: "Bee \<Rightarrow> proposal_error + unit" where
  "ValidateCodeProposalSubscriberInvariants b =
    map_sum snd id (first_error (proposal_subscription (be_Worktree b)) 0 (be_Subscribes b))"

definition UsesBareCodeProposalAlias :: "Bee \<Rightarrow> bool" where
  "UsesBareCodeProposalAlias b \<longleftrightarrow>
    list_ex (\<lambda>pub. TrimSpace (ru_Kind pub) = MutationCodeProposal) (be_Publishes b)
    \<or> list_ex (\<lambda>sub. TrimSpace (ru_Kind sub) = MutationCodeProposal) (be_Subscribes b)"

definition SubscribesToCodeProposalRoot :: "Bee \<Rightarrow> bool" where
  "SubscribesToCodeProposalRoot b \<longleftrightarrow>
    list_ex (\<lambda>sub. ResolvedDispatch sub = DispatchDirect \<and> Matches sub EventMutation MutationCodeProposalRoot)
      (be_Subscribes b)"

record CodeProposalDiagnosis =
  cpd_Errors :: "(string \<times> proposal_error) list"
  cpd_Warnings :: "string list"
  cpd_Unrouted :: "(string \<times> string) list"
  cpd_MissingVerdicts :: "string list"

text \<open>A finding is the role with what the message says of it, in the order the loops visit the map.\<close>

definition DiagnoseCodeProposal :: "(string, Bee) gomap \<Rightarrow> CodeProposalDiagnosis" where
  "DiagnoseCodeProposal bees =
    (let err = (\<lambda>role r. case r of Inl e \<Rightarrow> [(role, e)] | Inr _ \<Rightarrow> []);
         unrouted = (\<lambda>kind. DirectSubscribers bees EventMutation kind = [])
     in \<lparr>cpd_Errors = concat (map (\<lambda>(role, bee). err role (ValidateCodeProposalWorktreeInvariants bee)
            @ err role (ValidateCodeProposalSubscriberInvariants bee)) bees),
         cpd_Warnings = map fst (filter (\<lambda>(role, bee). UsesBareCodeProposalAlias bee) bees),
         cpd_Unrouted = concat (map (\<lambda>(role, bee).
            (if DeclaresCodeProposalIsolated bee \<and> unrouted MutationCodeProposalIsolated
             then [(role, MutationCodeProposalIsolated)] else [])
            @ (if DeclaresCodeProposalRoot bee \<and> unrouted MutationCodeProposalRoot
               then [(role, MutationCodeProposalRoot)] else [])) bees),
         cpd_MissingVerdicts = map fst (filter (\<lambda>(role, bee). SubscribesToCodeProposalRoot bee
            \<and> (\<not> ExplicitlyDeclaresPublish bee EventVerification VerificationSuccess
              \<or> \<not> ExplicitlyDeclaresPublish bee EventVerification VerificationFailed)) bees)\<rparr>)"

section \<open>Fallbacks\<close>

record Defaults =
  df_SystemTemplate :: string
  df_EnergyBudget :: int
  df_DefaultBee :: string
  df_Delivery :: string

definition EffectiveTaskBee :: "string \<Rightarrow> Defaults \<Rightarrow> string" where
  "EffectiveTaskBee taskBee defaults =
    (let bee = TrimSpace taskBee; fallback = TrimSpace (df_DefaultBee defaults)
     in if bee \<noteq> [] then bee else if fallback \<noteq> [] then fallback else ''builder'')"

definition ResolvedEnergyBudget :: "Defaults \<Rightarrow> int" where
  "ResolvedEnergyBudget d = (if df_EnergyBudget d > 0 then df_EnergyBudget d else DefaultEnergyBudget)"

definition ResolvedDelivery :: "Defaults \<Rightarrow> string" where
  "ResolvedDelivery d = (let v = TrimSpace (df_Delivery d) in if v = [] then ''local_merge'' else v)"

definition ValidateDelivery :: "string \<Rightarrow> bool" where
  "ValidateDelivery delivery \<longleftrightarrow> TrimSpace delivery \<in> {[], ''local_merge'', ''pull_request''}"

definition ResolvedSystemTemplate :: "Bee \<Rightarrow> string \<Rightarrow> Defaults \<Rightarrow> string" where
  "ResolvedSystemTemplate bee overlay defaults =
    (if TrimSpace overlay \<noteq> [] then TrimSpace overlay
     else if TrimSpace (be_SystemTemplate bee) \<noteq> [] then TrimSpace (be_SystemTemplate bee)
     else TrimSpace (df_SystemTemplate defaults))"

definition validateRole :: "string \<Rightarrow> bool" where
  "validateRole raw = (let role = TrimSpace raw
     in role \<noteq> [] \<and> \<not> (Contains role ''/'' \<or> Contains role ''..''))"

definition ValidateTaskReviewPolicy :: "TaskSpec \<Rightarrow> (string, Bee) gomap \<Rightarrow> Defaults \<Rightarrow> bool" where
  "ValidateTaskReviewPolicy spec bees defaults =
    (if NormalizeTaskReviewPolicy (sp_Review spec) \<noteq> TaskReviewFinal then True
     else (case mget bees (EffectiveTaskBee (sp_Bee spec) defaults) of
         None \<Rightarrow> True
       | Some bee \<Rightarrow> ExpectedProposalWorkspace bee \<noteq> Some ProposalWorkspaceRoot))"

definition ResolvedRunSummaryPolicy :: "Bee \<Rightarrow> string" where
  "ResolvedRunSummaryPolicy b =
    (let raw = TrimSpace (be_RunSummary b)
     in if raw \<in> {''auto'', ''required'', ''disabled''} then raw else ''auto'')"

definition ValidateRunSummaryPolicy :: "Bee \<Rightarrow> bool" where
  "ValidateRunSummaryPolicy b \<longleftrightarrow> TrimSpace (be_RunSummary b) \<in> {[], ''auto'', ''required'', ''disabled''}"

fun normalize_intents :: "string list \<Rightarrow> string list \<Rightarrow> string list" where
  "normalize_intents seen [] = []"
| "normalize_intents seen (item # rest) =
    (let name = intent_name item
     in if name = [] \<or> name \<in> set seen then normalize_intents seen rest
        else name # normalize_intents (name # seen) rest)"

definition normalizeIntentList :: "string list \<Rightarrow> string list" where
  "normalizeIntentList raw = normalize_intents [] raw"

definition resolveDefaultIntent :: "string \<Rightarrow> string list \<Rightarrow> string" where
  "resolveDefaultIntent configured0 intents =
    (let configured = intent_name configured0
     in if configured \<noteq> [] \<and> configured \<in> set intents then configured
        else if ''general'' \<in> set intents then ''general''
        else (case intents of [] \<Rightarrow> [] | i # _ \<Rightarrow> i))"

definition normalizeSectorPath :: "string \<Rightarrow> string option" where
  "normalizeSectorPath raw =
    (let path = TrimSpace raw
     in if path = [] \<or> path = ''.'' then Some []
        else if HasPrefix path ''/'' then None
        else let clean = path_Clean path
             in if clean = ''..'' \<or> HasPrefix clean ''../'' then None else Some clean)"

definition EffectiveSector :: "string \<Rightarrow> string \<Rightarrow> string" where
  "EffectiveSector taskSector beeSector =
    (if TrimSpace taskSector \<noteq> [] then TrimSpace taskSector else TrimSpace beeSector)"

section \<open>Facts\<close>

interpretation role_order: key_less role_before "\<lambda>s. s"
  by unfold_locales (simp add: role_before_def)

lemma scan_rules_snd:
  "snd (scan_rules t k o1 subs) \<longleftrightarrow>
    (\<exists>s \<in> set subs. ResolvedDispatch s = DispatchDirect \<and> Matches s t k \<and> AnalysisReaction s)"
  by (induction subs arbitrary: o1) auto

lemma scan_rules_fst:
  "\<not> snd (scan_rules t k o1 subs) \<Longrightarrow> fst (scan_rules t k o1 subs) \<longleftrightarrow>
    o1 \<or> (\<exists>s \<in> set subs. ResolvedDispatch s = DispatchDirect \<and> Matches s t k)"
  by (induction subs arbitrary: o1) (auto split: if_splits)

definition listens :: "EventType \<Rightarrow> string \<Rightarrow> Bee \<Rightarrow> SubscriptionRule \<Rightarrow> bool" where
  "listens t k b s \<longleftrightarrow> s \<in> set (be_Subscribes b) \<and> ResolvedDispatch s = DispatchDirect \<and> Matches s t k"

lemma reaction_of_iff:
  "r \<in> set (reaction_of t k role b) \<longleftrightarrow> dr_Bee r = role \<and> (\<exists>s. listens t k b s)
    \<and> dr_Purpose r = (if \<exists>s. listens t k b s \<and> AnalysisReaction s then PurposeAnalysis else PurposeWork)"
proof -
  obtain o1 a where sc: "scan_rules t k False (be_Subscribes b) = (o1, a)" by fastforce
  have a: "a \<longleftrightarrow> (\<exists>s. listens t k b s \<and> AnalysisReaction s)"
    using scan_rules_snd [of t k False "be_Subscribes b"] sc by (auto simp: listens_def)
  have o1: "\<not> a \<Longrightarrow> o1 \<longleftrightarrow> (\<exists>s. listens t k b s)"
    using scan_rules_fst [of t k False "be_Subscribes b"] sc by (auto simp: listens_def)
  have eq: "r = \<lparr>dr_Bee = x, dr_Purpose = y\<rparr> \<longleftrightarrow> dr_Bee r = x \<and> dr_Purpose r = y" for x y
    by (cases r) auto
  show ?thesis
    using a o1 by (auto simp: reaction_of_def sc eq)
qed

lemma length_reaction_of: "length (reaction_of t k role b) \<le> 1"
  by (simp add: reaction_of_def split: prod.split)

text \<open>Exactly the Bees with a matching direct rule react; an analysis rule decides the purpose.\<close>

lemma DirectReactions_iff:
  "r \<in> set (DirectReactions bees t k) \<longleftrightarrow> \<not> IsPlatformObservation k
    \<and> (\<exists>b. mget bees (dr_Bee r) = Some b \<and> (\<exists>s. listens t k b s)
      \<and> dr_Purpose r = (if \<exists>s. listens t k b s \<and> AnalysisReaction s then PurposeAnalysis else PurposeWork))"
proof -
  let ?f = "\<lambda>role. case mget bees role of None \<Rightarrow> [] | Some bee \<Rightarrow> reaction_of t k role bee"
  have dom: "role \<in> fst ` set bees" if "mget bees role = Some b" for role b
    using mget_in [OF that] by force
  have "r \<in> set (DirectReactions bees t k) \<longleftrightarrow> \<not> IsPlatformObservation k \<and> (\<exists>role \<in> fst ` set bees. r \<in> set (?f role))"
    by (simp add: DirectReactions_def)
  also have "(\<exists>role \<in> fst ` set bees. r \<in> set (?f role)) \<longleftrightarrow>
      (\<exists>role b. mget bees role = Some b \<and> r \<in> set (reaction_of t k role b))"
  proof
    assume "\<exists>role \<in> fst ` set bees. r \<in> set (?f role)"
    then obtain role where "r \<in> set (?f role)" by blast
    then show "\<exists>role b. mget bees role = Some b \<and> r \<in> set (reaction_of t k role b)"
      by (cases "mget bees role") auto
  next
    assume "\<exists>role b. mget bees role = Some b \<and> r \<in> set (reaction_of t k role b)"
    then obtain role b where b: "mget bees role = Some b" "r \<in> set (reaction_of t k role b)" by blast
    show "\<exists>role \<in> fst ` set bees. r \<in> set (?f role)"
      by (rule bexI [OF _ dom [OF b(1)]]) (simp add: b)
  qed
  finally show ?thesis by (simp add: reaction_of_iff conj_ac)
qed

lemma sorted_concat_roles:
  assumes "sorted_wrt (<) roles" "\<And>x. length (f x) \<le> 1" "\<And>x r. r \<in> set (f x) \<Longrightarrow> dr_Bee r = x"
  shows "sorted_wrt (<) (map dr_Bee (concat (map f roles)))"
  using assms(1)
proof (induction roles)
  case (Cons x xs)
  have "f x = [] \<or> (\<exists>r. f x = [r] \<and> dr_Bee r = x)"
  proof (cases "f x")
    case (Cons r rs)
    with assms(2) [of x] assms(3) [of r x] show ?thesis by simp
  qed simp
  moreover have "\<forall>r \<in> set (concat (map f xs)). x < dr_Bee r"
    using Cons.prems assms(3) by fastforce
  ultimately show ?case using Cons by auto
qed simp

text \<open>The reactions come in the order of the roles, each role at most once.\<close>

lemma DirectSubscribers_sorted:
  assumes "keys_ok bees"
  shows "sorted_wrt (<) (DirectSubscribers bees t k)"
proof -
  let ?roles = "go_sort role_before (map fst bees)"
  have "sorted ?roles"
    using role_order.sorted_sort [of "map fst bees"] by (simp add: role_before_def not_less)
  moreover have "distinct ?roles"
    using assms mset_eq_imp_distinct_iff [of ?roles "map fst bees"] by (simp add: keys_ok_def)
  ultimately have "sorted_wrt (<) ?roles" by (simp add: strict_sorted_iff)
  then have "sorted_wrt (<) (map dr_Bee (concat (map
      (\<lambda>role. case mget bees role of None \<Rightarrow> [] | Some bee \<Rightarrow> reaction_of t k role bee) ?roles)))"
    by (rule sorted_concat_roles)
      (auto simp: length_reaction_of [simplified] reaction_of_iff split: option.splits)
  then show ?thesis by (simp add: DirectSubscribers_def DirectReactions_def)
qed

lemma first_error_Inr: "first_error check i xs = Inr u \<longleftrightarrow> (\<forall>x \<in> set xs. check x = Inr ())"
  by (induction xs arbitrary: i) (auto split: sum.splits)

text \<open>Only the completion milestone starts an analysis, in a colony that loaded.\<close>

lemma analysis_milestone:
  assumes "ValidateEventRules b = Inr ()" "listens t k b s" "AnalysisReaction s"
  shows "t = EventSignal \<and> TrimSpace k = SignalTrailWorkCompleted"
proof -
  have "first_error validateSubscription 0 (be_Subscribes b) = Inr ()"
    using assms(1) by (auto simp: ValidateEventRules_def split: sum.splits)
  then have v: "validateSubscription s = Inr ()"
    using assms(2) by (simp add: first_error_Inr listens_def)
  obtain ty where ty: "RuleEventType s = Inr ty"
    using v by (cases "RuleEventType s") (simp_all add: validateSubscription_def)
  have p: "su_Purpose s = PurposeAnalysis" using assms(3) by (simp add: AnalysisReaction_def)
  have "ty = EventSignal" "TrimSpace (ru_Kind s) = SignalTrailWorkCompleted"
    using v ty p assms(2)
    by (auto simp: validateSubscription_def validateSubscriptionPurpose_def Let_def listens_def
        IsKnownExecutionPurpose_def split: if_splits)
  then show ?thesis
    using assms(2) ty by (auto simp: listens_def Matches_def Let_def split: if_splits)
qed

end
