(* ===== verification/Params.thy ===== *)
theory Params
  imports Routing
begin

text \<open>
  \<open>internal/colony/params.go\<close> and checks.go: the \<open>params\<close> block of a Bee. A decoded YAML mapping is
  a Go map from keys to \<open>json\<close> values. Layers record which keys they declared, so that the merge
  can tell an explicit \<open>false\<close> from a missing key. \<open>fmt.Sprint\<close> is an argument.
\<close>

section \<open>time.ParseDuration\<close>

text \<open>
  Nanoseconds. The fraction of a number is scaled exactly and truncated, where the library
  computes in float64; a value beyond the range of int64 is an error.
\<close>

definition digit :: "char \<Rightarrow> bool" where
  "digit c \<longleftrightarrow> digit_val c \<noteq> None"

definition duration_unit :: "string \<Rightarrow> int option" where
  "duration_unit u = map_of [(''ns'', 1), (''us'', 1000), ([CHR 0xC2, CHR 0xB5, CHR ''s''], 1000),
     ([CHR 0xCE, CHR 0xBC, CHR ''s''], 1000), (''ms'', 1000000), (''s'', 1000000000),
     (''m'', 60000000000), (''h'', 3600000000000)] u"

definition leading_int :: "string \<Rightarrow> int" where
  "leading_int s = fold (\<lambda>c v. v * 10 + (case digit_val c of Some d \<Rightarrow> d | None \<Rightarrow> 0)) s 0"

text \<open>The next number and unit: whole digits, digits after a dot, unit, and what is left.\<close>

definition next_part :: "string \<Rightarrow> string \<times> string \<times> string \<times> string" where
  "next_part s =
    (let whole = takeWhile digit s; s1 = dropWhile digit s;
         dotted = (s1 \<noteq> [] \<and> hd s1 = CHR ''.'');
         frac = (if dotted then takeWhile digit (tl s1) else []);
         s2 = (if dotted then dropWhile digit (tl s1) else s1)
     in (whole, frac, takeWhile (\<lambda>c. c \<noteq> CHR ''.'' \<and> \<not> digit c) s2,
         dropWhile (\<lambda>c. c \<noteq> CHR ''.'' \<and> \<not> digit c) s2))"

lemma next_part_shorter:
  assumes "next_part s = (whole, frac, u, rest)" "whole \<noteq> [] \<or> frac \<noteq> []"
  shows "length rest < length s"
proof -
  let ?d = "dropWhile digit s"
  have w: "length whole + length ?d = length s"
    using assms(1) by (auto simp: next_part_def Let_def simp flip: length_append)
  have len: "length (dropWhile P xs) \<le> length xs" for P and xs :: string by (rule length_dropWhile_le)
  show ?thesis
  proof (cases "?d \<noteq> [] \<and> hd ?d = CHR ''.''")
    case True
    have "rest = dropWhile (\<lambda>c. c \<noteq> CHR ''.'' \<and> \<not> digit c) (dropWhile digit (tl ?d))"
      using assms(1) True by (simp add: next_part_def Let_def)
    moreover have "length (dropWhile P (dropWhile digit (tl ?d))) \<le> length (tl ?d)" for P
      by (rule order_trans [OF len len])
    ultimately have "length rest \<le> length (tl ?d)" by simp
    moreover have "length (tl ?d) < length ?d" using True by (cases ?d) auto
    ultimately show ?thesis using w by linarith
  next
    case False
    then have "rest = dropWhile (\<lambda>c. c \<noteq> CHR ''.'' \<and> \<not> digit c) ?d" and f: "frac = []"
      using assms(1) by (auto simp: next_part_def Let_def)
    then have "length rest \<le> length ?d" by (simp add: len)
    moreover have "0 < length whole" using assms(2) f by simp
    ultimately show ?thesis using w by linarith
  qed
qed

function duration_parts :: "int \<Rightarrow> string \<Rightarrow> int option" where
  "duration_parts d s =
    (if s = [] then Some d
     else (case next_part s of (whole, frac, u, rest) \<Rightarrow>
       if whole = [] \<and> frac = [] then None
       else (case duration_unit u of
           None \<Rightarrow> None
         | Some k \<Rightarrow>
             let v = leading_int whole * k + leading_int frac * k div 10 ^ length frac
             in if leading_int whole * k > 2 ^ 63 \<or> v > 2 ^ 63 \<or> d + v > 2 ^ 63 then None
                else duration_parts (d + v) rest)))"
  by auto

termination duration_parts
  by (relation "measure (length \<circ> snd)") (auto dest: next_part_shorter [OF sym])

definition ParseDuration :: "string \<Rightarrow> int option" where
  "ParseDuration s0 =
    (let signed = (s0 \<noteq> [] \<and> hd s0 \<in> {CHR ''-'', CHR ''+''}); neg = (signed \<and> hd s0 = CHR ''-'');
         s = (if signed then tl s0 else s0)
     in if s = ''0'' then Some 0
        else if s = [] then None
        else (case duration_parts 0 s of
            None \<Rightarrow> None
          | Some d \<Rightarrow> if neg then Some (- d) else if d > 2 ^ 63 - 1 then None else Some d))"

section \<open>The params block\<close>

type_synonym params = "(string, json) gomap"

definition RunParamKeys :: "string list" where
  "RunParamKeys = [''binary'', ''env'', ''env_mode'', ''force'', ''model'', ''options'', ''output_format'',
     ''plan'', ''provider'', ''reasoning'', ''thinking'', ''timeout'', ''trust'', ''yolo'']"

definition RemovedRunParamKeys :: "(string \<times> string) list" where
  "RemovedRunParamKeys = [(''trust'', ''yolo''), (''force'', ''yolo''), (''thinking'', ''reasoning''),
     (''provider'', ''model''), (''output_format'', [])]"

definition isDefaultParamValue :: "string \<Rightarrow> json \<Rightarrow> bool" where
  "isDefaultParamValue key v =
    (if key \<in> {''trust'', ''force'', ''yolo''} then v = JBool True
     else if key = ''plan'' then v = JBool False
     else if key \<in> {''env'', ''options''} then v = JNull \<or> v = JObj []
     else v = JStr [])"

definition NonDefaultParamKeys :: "params \<Rightarrow> string list" where
  "NonDefaultParamKeys ps = go_sort key_before
    (map fst (filter (\<lambda>(key, v). key \<noteq> ''timeout'' \<and> \<not> isDefaultParamValue key v) ps))"

definition ParamsAreDefault :: "params \<Rightarrow> bool" where
  "ParamsAreDefault ps \<longleftrightarrow> NonDefaultParamKeys ps = []"

datatype params_error =
    BadParamKeys "string list" "string list" \<comment> \<open>removed and unknown keys, sorted\<close>
  | EnvModeNotString | EnvModeUnknown string | EnvNotMap | OptionsNotMap
  | TimeoutNotString | TimeoutUnparsable string | TimeoutNotPositive string

definition ValidateRunParamKeys :: "params \<Rightarrow> params_error + unit" where
  "ValidateRunParamKeys ps =
    (let bad = filter (\<lambda>key. key \<notin> set RunParamKeys) (map fst ps);
         removed = filter (\<lambda>key. key \<in> fst ` set RemovedRunParamKeys) bad;
         unknown = filter (\<lambda>key. key \<notin> fst ` set RemovedRunParamKeys) bad
     in if removed = [] \<and> unknown = [] then Inr ()
        else Inl (BadParamKeys (go_sort key_before removed) (go_sort key_before unknown)))"

text \<open>A key that is there with a value other than null.\<close>

definition declared_param :: "params \<Rightarrow> string \<Rightarrow> json option" where
  "declared_param ps key = (case mget ps key of Some JNull \<Rightarrow> None | r \<Rightarrow> r)"

definition timeout_error :: "json \<Rightarrow> params_error + unit" where
  "timeout_error v = (case v of
     JStr s \<Rightarrow> (case ParseDuration (TrimSpace s) of
         None \<Rightarrow> Inl (TimeoutUnparsable s)
       | Some d \<Rightarrow> if d \<le> 0 then Inl (TimeoutNotPositive s) else Inr ())
   | _ \<Rightarrow> Inl TimeoutNotString)"

definition ValidateRunParamValues :: "params \<Rightarrow> params_error + unit" where
  "ValidateRunParamValues ps =
    res_bind (case declared_param ps ''env_mode'' of
        None \<Rightarrow> Inr ()
      | Some (JStr s) \<Rightarrow> if TrimSpace s \<in> {[], ''strict''} then Inr () else Inl (EnvModeUnknown s)
      | Some _ \<Rightarrow> Inl EnvModeNotString) (\<lambda>_.
    res_bind (case declared_param ps ''env'' of
        None \<Rightarrow> Inr () | Some (JObj _) \<Rightarrow> Inr () | Some _ \<Rightarrow> Inl EnvNotMap) (\<lambda>_.
    res_bind (case declared_param ps ''options'' of
        None \<Rightarrow> Inr () | Some (JObj _) \<Rightarrow> Inr () | Some _ \<Rightarrow> Inl OptionsNotMap) (\<lambda>_.
      case declared_param ps ''timeout'' of None \<Rightarrow> Inr () | Some v \<Rightarrow> timeout_error v)))"

definition ValidateRunParams :: "params \<Rightarrow> params_error + unit" where
  "ValidateRunParams ps = res_bind (ValidateRunParamKeys ps) (\<lambda>_. ValidateRunParamValues ps)"

section \<open>Layers\<close>

record RunParams =
  rp_Model :: string
  rp_Trust :: bool
  rp_Force :: bool
  rp_Plan :: bool
  rp_Binary :: string
  rp_APIKey :: string
  rp_Provider :: string
  rp_Reasoning :: string
  rp_Env :: "(string, string) gomap"
  rp_EnvMode :: string
  rp_Timeout :: int
  rp_Options :: "(string, string) gomap"

record RunParamsLayer =
  ly_Params :: RunParams
  ly_Declared :: "string list"

abbreviation Declares :: "RunParamsLayer \<Rightarrow> string \<Rightarrow> bool" where
  "Declares l key \<equiv> key \<in> set (ly_Declared l)"

definition no_params :: RunParams where
  "no_params = \<lparr>rp_Model = [], rp_Trust = False, rp_Force = False, rp_Plan = False, rp_Binary = [],
     rp_APIKey = [], rp_Provider = [], rp_Reasoning = [], rp_Env = [], rp_EnvMode = [], rp_Timeout = 0,
     rp_Options = []\<rparr>"

definition stringParam :: "params \<Rightarrow> string \<Rightarrow> string option" where
  "stringParam ps key = (case mget ps key of Some (JStr s) \<Rightarrow> Some s | _ \<Rightarrow> None)"

definition boolParam :: "params \<Rightarrow> string \<Rightarrow> bool option" where
  "boolParam ps key = (case mget ps key of Some (JBool b) \<Rightarrow> Some b | _ \<Rightarrow> None)"

definition envParam :: "(json \<Rightarrow> string) \<Rightarrow> params \<Rightarrow> string \<Rightarrow> (string, string) gomap option" where
  "envParam sprint ps key = (case mget ps key of
     Some (JObj raw) \<Rightarrow> Some (map (\<lambda>(name, v). (name, sprint v)) raw) | _ \<Rightarrow> None)"

fun scalar :: "json \<Rightarrow> bool" where
  "scalar (JObj _) = False"
| "scalar (JArr _) = False"
| "scalar _ = True"

definition optionsParam :: "(json \<Rightarrow> string) \<Rightarrow> params \<Rightarrow> string \<Rightarrow> (string, string) gomap option" where
  "optionsParam sprint ps key = (case mget ps key of
     Some (JObj raw) \<Rightarrow>
       let out = map (\<lambda>(name, v). (name, sprint v)) (filter (\<lambda>(name, v). scalar v) raw)
       in if out = [] then None else Some out
   | _ \<Rightarrow> None)"

definition durationParam :: "params \<Rightarrow> string \<Rightarrow> int option" where
  "durationParam ps key = (case stringParam ps key of
     None \<Rightarrow> None | Some s \<Rightarrow> ParseDuration (TrimSpace s))"

text \<open>One key of \<open>LayerFromBee\<close>: when the parameter is there, set fields and declare keys.\<close>

definition layer_key :: "'a option \<Rightarrow> ('a \<Rightarrow> RunParams \<Rightarrow> RunParams) \<Rightarrow> string list \<Rightarrow> RunParamsLayer \<Rightarrow> RunParamsLayer" where
  "layer_key v upd keys l = (case v of
     None \<Rightarrow> l
   | Some x \<Rightarrow> l\<lparr>ly_Params := upd x (ly_Params l), ly_Declared := keys @ ly_Declared l\<rparr>)"

definition LayerFromBee :: "(json \<Rightarrow> string) \<Rightarrow> params \<Rightarrow> RunParamsLayer" where
  "LayerFromBee sprint ps =
    (let l = \<lparr>ly_Params = no_params\<lparr>rp_Trust := True, rp_Force := True\<rparr>, ly_Declared = []\<rparr>;
         l = layer_key (stringParam ps ''model'') (\<lambda>v p. p\<lparr>rp_Model := v\<rparr>) [''model''] l;
         l = layer_key (boolParam ps ''trust'') (\<lambda>v p. p\<lparr>rp_Trust := v\<rparr>) [''trust''] l;
         l = layer_key (boolParam ps ''force'') (\<lambda>v p. p\<lparr>rp_Force := v\<rparr>) [''force''] l;
         l = layer_key (boolParam ps ''yolo'') (\<lambda>v p. p\<lparr>rp_Trust := v, rp_Force := v\<rparr>) [''trust'', ''force''] l;
         l = layer_key (boolParam ps ''plan'') (\<lambda>v p. p\<lparr>rp_Plan := v\<rparr>) [''plan''] l;
         l = layer_key (stringParam ps ''binary'') (\<lambda>v p. p\<lparr>rp_Binary := v\<rparr>) [''binary''] l;
         l = layer_key (stringParam ps ''provider'') (\<lambda>v p. p\<lparr>rp_Provider := v\<rparr>) [''provider''] l;
         l = layer_key (stringParam ps ''reasoning'') (\<lambda>v p. p\<lparr>rp_Reasoning := v\<rparr>) [''reasoning''] l;
         l = layer_key (if Declares l ''reasoning'' then None else stringParam ps ''thinking'')
               (\<lambda>v p. p\<lparr>rp_Reasoning := v\<rparr>) [''reasoning''] l;
         l = layer_key (envParam sprint ps ''env'') (\<lambda>v p. p\<lparr>rp_Env := v\<rparr>) [''env''] l;
         l = layer_key (optionsParam sprint ps ''options'') (\<lambda>v p. p\<lparr>rp_Options := v\<rparr>) [''options''] l;
         l = layer_key (stringParam ps ''env_mode'') (\<lambda>v p. p\<lparr>rp_EnvMode := TrimSpace v\<rparr>) [''env_mode''] l
     in layer_key (durationParam ps ''timeout'') (\<lambda>v p. p\<lparr>rp_Timeout := v\<rparr>) [''timeout''] l)"

text \<open>The entries of the first map, overwritten by those of the second.\<close>

definition overlay_map :: "('k, 'v) gomap \<Rightarrow> ('k, 'v) gomap \<Rightarrow> ('k, 'v) gomap" where
  "overlay_map base over = fold (\<lambda>(k, v). mput k v) over base"

definition WithParams :: "params \<Rightarrow> params \<Rightarrow> params" where
  "WithParams ps overlay = (if overlay = [] then ps else overlay_map ps overlay)"

definition MergeRunParamsLayers :: "RunParamsLayer \<Rightarrow> RunParamsLayer \<Rightarrow> RunParams" where
  "MergeRunParamsLayers base over =
    (let b = ly_Params base; p = ly_Params over; pick = (\<lambda>key f. if Declares over key then f p else f b)
     in \<lparr>rp_Model = pick ''model'' rp_Model,
         rp_Trust = (if Declares over ''trust'' then rp_Trust p else rp_Trust b),
         rp_Force = (if Declares over ''force'' then rp_Force p else rp_Force b),
         rp_Plan = (if Declares over ''plan'' then rp_Plan p else rp_Plan b),
         rp_Binary = (if Declares over ''binary'' \<and> rp_Binary b = [] then rp_Binary p else rp_Binary b),
         rp_APIKey = pick ''api_key'' rp_APIKey,
         rp_Provider = pick ''provider'' rp_Provider,
         rp_Reasoning = pick ''reasoning'' rp_Reasoning,
         rp_Env = (if Declares over ''env'' then overlay_map (overlay_map [] (rp_Env b)) (rp_Env p) else rp_Env b),
         rp_EnvMode = pick ''env_mode'' rp_EnvMode,
         rp_Timeout = (if Declares over ''timeout'' then rp_Timeout p else rp_Timeout b),
         rp_Options = (if Declares over ''options''
           then overlay_map (overlay_map [] (rp_Options p)) (rp_Options b) else rp_Options b)\<rparr>)"

section \<open>Checks and the adapter\<close>

record Checks =
  ck_Command :: "string list"
  ck_Timeout :: "string option"
  ck_RejectionCap :: "int option"

datatype check_error =
    ChecksCommandRequired | ChecksTimeoutUnparsable | ChecksTimeoutNotPositive string | ChecksCapNegative int

definition TimeoutDuration :: "Checks option \<Rightarrow> check_error + int" where
  "TimeoutDuration c = (case Option.bind c ck_Timeout of
     None \<Rightarrow> Inr 600000000000
   | Some raw \<Rightarrow> (case ParseDuration (TrimSpace raw) of
       None \<Rightarrow> Inl ChecksTimeoutUnparsable
     | Some d \<Rightarrow> if d \<le> 0 then Inl (ChecksTimeoutNotPositive raw) else Inr d))"

definition ResolvedRejectionCap :: "Checks option \<Rightarrow> int" where
  "ResolvedRejectionCap c = (case Option.bind c ck_RejectionCap of None \<Rightarrow> 2 | Some n \<Rightarrow> n)"

definition CheckGate :: "Checks option \<Rightarrow> Checks option" where
  "CheckGate c = (case c of Some ck \<Rightarrow> if ck_Command ck \<noteq> [] then Some ck else None | None \<Rightarrow> None)"

definition ValidateChecks :: "Checks option \<Rightarrow> check_error + unit" where
  "ValidateChecks c = (case c of
     None \<Rightarrow> Inr ()
   | Some ck \<Rightarrow>
       if ck_Command ck = [] then Inl ChecksCommandRequired
       else res_bind (TimeoutDuration c) (\<lambda>_.
         case ck_RejectionCap ck of
           Some n \<Rightarrow> if n < 0 then Inl (ChecksCapNegative n) else Inr ()
         | None \<Rightarrow> Inr ()))"

definition ResolveAdapter :: "string \<Rightarrow> string option" where
  "ResolveAdapter adapter =
    (let name = (if adapter = [] then ''cursor'' else adapter)
     in if name \<in> {''cursor'', ''pi'', ''claude'', ''opencode'', ''opencodev1'', ''opencodev2'', ''script''}
        then Some name else None)"

datatype adapter_error = UnknownAdapter | ScriptNeedsCommand | CommandWithParams "string list"

definition ValidateAdapterRequirements :: "Bee \<Rightarrow> adapter_error + unit" where
  "ValidateAdapterRequirements b = (case ResolveAdapter (be_Adapter b) of
     None \<Rightarrow> Inl UnknownAdapter
   | Some name \<Rightarrow>
       if name = ''script'' \<and> be_Command b = [] then Inl ScriptNeedsCommand
       else if be_Command b \<noteq> [] \<and> \<not> ParamsAreDefault (be_Params b)
       then Inl (CommandWithParams (NonDefaultParamKeys (be_Params b)))
       else Inr ())"

section \<open>Facts\<close>

lemma overlay_map_get: "keys_ok over \<Longrightarrow> mget (overlay_map base over) k =
    (case mget over k of Some v \<Rightarrow> Some v | None \<Rightarrow> mget base k)"
proof (induction over arbitrary: base)
  case (Cons p over)
  obtain i v where p: "p = (i, v)" by fastforce
  have "keys_ok over" "mget over i = None"
    using Cons.prems by (auto simp: keys_ok_def p map_of_eq_None_iff)
  with Cons.IH [of "mput i v base"] show ?case
    by (simp add: overlay_map_def p split: option.split)
qed (simp add: overlay_map_def)

text \<open>A declared key of the machine layer decides, an explicit \<open>false\<close> included, except that the
  committed binary and the committed options win.\<close>

lemma merge_layers:
  assumes "keys_ok (rp_Env (ly_Params base))" "keys_ok (rp_Env (ly_Params over))"
    "keys_ok (rp_Options (ly_Params base))" "keys_ok (rp_Options (ly_Params over))"
  defines "m \<equiv> MergeRunParamsLayers base over"
  shows "rp_Trust m = (if Declares over ''trust'' then rp_Trust (ly_Params over) else rp_Trust (ly_Params base))"
    and "rp_Binary (ly_Params base) \<noteq> [] \<Longrightarrow> rp_Binary m = rp_Binary (ly_Params base)"
    and "mget (rp_Env m) k = (case if Declares over ''env'' then mget (rp_Env (ly_Params over)) k else None of
      Some v \<Rightarrow> Some v | None \<Rightarrow> mget (rp_Env (ly_Params base)) k)"
    and "mget (rp_Options m) k = (case mget (rp_Options (ly_Params base)) k of
      Some v \<Rightarrow> Some v | None \<Rightarrow> if Declares over ''options'' then mget (rp_Options (ly_Params over)) k else None)"
  using assms(1-4)
  by (auto simp: m_def MergeRunParamsLayers_def Let_def overlay_map_get split: option.splits)

text \<open>\<open>yolo\<close> wins over its legacy aliases, and \<open>reasoning\<close> over \<open>thinking\<close>.\<close>

lemma layer_key_simps [simp]:
  "layer_key None upd ks l = l"
  "ly_Params (layer_key (Some v) upd ks l) = upd v (ly_Params l)"
  "ly_Declared (layer_key (Some v) upd ks l) = ks @ ly_Declared l"
  by (simp_all add: layer_key_def)

lemma layer_key_frame:
  "(\<And>x p. rp_Trust (upd x p) = rp_Trust p) \<Longrightarrow> rp_Trust (ly_Params (layer_key v upd ks l)) = rp_Trust (ly_Params l)"
  "(\<And>x p. rp_Force (upd x p) = rp_Force p) \<Longrightarrow> rp_Force (ly_Params (layer_key v upd ks l)) = rp_Force (ly_Params l)"
  "(\<And>x p. rp_Reasoning (upd x p) = rp_Reasoning p) \<Longrightarrow>
    rp_Reasoning (ly_Params (layer_key v upd ks l)) = rp_Reasoning (ly_Params l)"
  by (simp_all add: layer_key_def split: option.split)

lemma layer_yolo:
  "boolParam ps ''yolo'' = Some v \<Longrightarrow> rp_Trust (ly_Params (LayerFromBee sprint ps)) = v
    \<and> rp_Force (ly_Params (LayerFromBee sprint ps)) = v"
  by (simp add: LayerFromBee_def Let_def layer_key_frame)

lemma layer_reasoning:
  "stringParam ps ''reasoning'' = Some v \<Longrightarrow> rp_Reasoning (ly_Params (LayerFromBee sprint ps)) = v"
  by (simp add: LayerFromBee_def Let_def layer_key_frame)

lemma ValidateRunParamKeys_Inr: "ValidateRunParamKeys ps = Inr u \<longleftrightarrow> fst ` set ps \<subseteq> set RunParamKeys"
  by (force simp: ValidateRunParamKeys_def Let_def filter_empty_conv)

text \<open>An accepted timeout is a positive duration.\<close>

lemma accepted_timeout:
  assumes "ValidateRunParams ps = Inr ()" "mget ps ''timeout'' = Some (JStr s)"
  shows "\<exists>d > 0. durationParam ps ''timeout'' = Some d"
proof -
  have "timeout_error (JStr s) = Inr ()"
    using assms by (auto simp: ValidateRunParams_def ValidateRunParamValues_def res_bind_Inr_iff
        declared_param_def)
  then show ?thesis
    using assms(2) by (auto simp: timeout_error_def durationParam_def stringParam_def
        split: option.splits if_splits)
qed

lemma ValidateChecks_gate:
  assumes "ValidateChecks c = Inr ()"
  shows "CheckGate c = c \<and> (\<exists>d > 0. TimeoutDuration c = Inr d) \<and> ResolvedRejectionCap c \<ge> 0"
  using assms
  by (auto simp: ValidateChecks_def CheckGate_def ResolvedRejectionCap_def TimeoutDuration_def res_bind_Inr_iff
      split: option.splits if_splits)

text \<open>An accepted block gives a layer whose settings have their documented values.\<close>

lemma layer_key_frame2:
  "(\<And>x p. rp_EnvMode (upd x p) = rp_EnvMode p) \<Longrightarrow> rp_EnvMode (ly_Params (layer_key v upd ks l)) = rp_EnvMode (ly_Params l)"
  "(\<And>x p. rp_Timeout (upd x p) = rp_Timeout p) \<Longrightarrow> rp_Timeout (ly_Params (layer_key v upd ks l)) = rp_Timeout (ly_Params l)"
  by (simp_all add: layer_key_def split: option.split)

lemma layer_key_declares:
  "Declares (layer_key v upd ks l) key \<longleftrightarrow> v \<noteq> None \<and> key \<in> set ks \<or> Declares l key"
  by (auto simp: layer_key_def split: option.split)

lemma layer_shape:
  "\<exists>v l. LayerFromBee sprint ps = layer_key (durationParam ps ''timeout'') (\<lambda>v p. p\<lparr>rp_Timeout := v\<rparr>) [''timeout'']
      (layer_key (stringParam ps ''env_mode'') (\<lambda>v p. p\<lparr>rp_EnvMode := TrimSpace v\<rparr>) [''env_mode'']
      (layer_key (optionsParam sprint ps ''options'') (\<lambda>v p. p\<lparr>rp_Options := v\<rparr>) [''options'']
      (layer_key (envParam sprint ps ''env'') (\<lambda>v p. p\<lparr>rp_Env := v\<rparr>) [''env'']
      (layer_key v (\<lambda>v p. p\<lparr>rp_Reasoning := v\<rparr>) [''reasoning''] l))))
    \<and> rp_EnvMode (ly_Params l) = [] \<and> rp_Timeout (ly_Params l) = 0
    \<and> \<not> Declares l ''timeout'' \<and> \<not> Declares l ''env''"
  unfolding LayerFromBee_def Let_def
  by (intro exI conjI, rule refl) (simp_all add: layer_key_frame2 layer_key_declares no_params_def)

lemma layer_values:
  "rp_EnvMode (ly_Params (LayerFromBee sprint ps)) =
    (case stringParam ps ''env_mode'' of None \<Rightarrow> [] | Some s \<Rightarrow> TrimSpace s)"
  "rp_Timeout (ly_Params (LayerFromBee sprint ps)) = (case durationParam ps ''timeout'' of None \<Rightarrow> 0 | Some d \<Rightarrow> d)"
  "Declares (LayerFromBee sprint ps) ''timeout'' \<longleftrightarrow> durationParam ps ''timeout'' \<noteq> None"
  "Declares (LayerFromBee sprint ps) ''env'' \<longleftrightarrow> envParam sprint ps ''env'' \<noteq> None"
proof -
  obtain v l where l: "LayerFromBee sprint ps = layer_key (durationParam ps ''timeout'') (\<lambda>v p. p\<lparr>rp_Timeout := v\<rparr>) [''timeout'']
      (layer_key (stringParam ps ''env_mode'') (\<lambda>v p. p\<lparr>rp_EnvMode := TrimSpace v\<rparr>) [''env_mode'']
      (layer_key (optionsParam sprint ps ''options'') (\<lambda>v p. p\<lparr>rp_Options := v\<rparr>) [''options'']
      (layer_key (envParam sprint ps ''env'') (\<lambda>v p. p\<lparr>rp_Env := v\<rparr>) [''env'']
      (layer_key v (\<lambda>v p. p\<lparr>rp_Reasoning := v\<rparr>) [''reasoning''] l))))"
    "rp_EnvMode (ly_Params l) = []" "rp_Timeout (ly_Params l) = 0" "\<not> Declares l ''timeout''" "\<not> Declares l ''env''"
    using layer_shape by blast
  show "rp_EnvMode (ly_Params (LayerFromBee sprint ps)) =
      (case stringParam ps ''env_mode'' of None \<Rightarrow> [] | Some s \<Rightarrow> TrimSpace s)"
    unfolding l(1) by (cases "stringParam ps ''env_mode''") (simp_all add: layer_key_frame2 l(2))
  show "rp_Timeout (ly_Params (LayerFromBee sprint ps)) = (case durationParam ps ''timeout'' of None \<Rightarrow> 0 | Some d \<Rightarrow> d)"
    unfolding l(1) by (cases "durationParam ps ''timeout''") (simp_all add: layer_key_frame2 l(3))
  show "Declares (LayerFromBee sprint ps) ''timeout'' \<longleftrightarrow> durationParam ps ''timeout'' \<noteq> None"
    unfolding l(1) by (simp add: layer_key_declares l(4))
  show "Declares (LayerFromBee sprint ps) ''env'' \<longleftrightarrow> envParam sprint ps ''env'' \<noteq> None"
    unfolding l(1) by (simp add: layer_key_declares l(5))
qed

lemma res_bind_unit: "res_bind r f = Inr b \<longleftrightarrow> r = Inr () \<and> f () = Inr b"
  by (simp add: res_bind_Inr_iff)

lemma accepted_values:
  assumes "ValidateRunParams ps = Inr ()"
  shows "rp_EnvMode (ly_Params (LayerFromBee sprint ps)) \<in> {[], ''strict''}"
    and "Declares (LayerFromBee sprint ps) ''timeout'' \<longleftrightarrow> declared_param ps ''timeout'' \<noteq> None"
    and "Declares (LayerFromBee sprint ps) ''timeout'' \<Longrightarrow> rp_Timeout (ly_Params (LayerFromBee sprint ps)) > 0"
    and "Declares (LayerFromBee sprint ps) ''env'' \<longleftrightarrow> declared_param ps ''env'' \<noteq> None"
    and "fst ` set ps \<subseteq> set RunParamKeys"
proof -
  have keys: "ValidateRunParamKeys ps = Inr ()"
    and mode: "(case declared_param ps ''env_mode'' of None \<Rightarrow> Inr ()
      | Some (JStr s) \<Rightarrow> if TrimSpace s \<in> {[], ''strict''} then Inr () else Inl (EnvModeUnknown s)
      | Some _ \<Rightarrow> Inl EnvModeNotString) = Inr ()"
    and env: "(case declared_param ps ''env'' of None \<Rightarrow> Inr () | Some (JObj _) \<Rightarrow> Inr () | Some _ \<Rightarrow> Inl EnvNotMap) = Inr ()"
    and time: "(case declared_param ps ''timeout'' of None \<Rightarrow> Inr () | Some v \<Rightarrow> timeout_error v) = Inr ()"
    using assms unfolding ValidateRunParams_def ValidateRunParamValues_def res_bind_unit by blast+
  show "rp_EnvMode (ly_Params (LayerFromBee sprint ps)) \<in> {[], ''strict''}"
  proof (cases "mget ps ''env_mode''")
    case (Some v)
    then show ?thesis
      using mode by (cases v) (auto simp: layer_values stringParam_def declared_param_def split: if_splits)
  qed (simp add: layer_values stringParam_def)
  have parse: "(durationParam ps ''timeout'' \<noteq> None \<longleftrightarrow> declared_param ps ''timeout'' \<noteq> None)
      \<and> (\<forall>d. durationParam ps ''timeout'' = Some d \<longrightarrow> d > 0)"
  proof (cases "mget ps ''timeout''")
    case (Some v)
    then show ?thesis
      using time by (cases v) (auto simp: durationParam_def stringParam_def declared_param_def timeout_error_def
          split: option.splits if_splits)
  qed (simp add: durationParam_def stringParam_def declared_param_def)
  then show "Declares (LayerFromBee sprint ps) ''timeout'' \<longleftrightarrow> declared_param ps ''timeout'' \<noteq> None"
    by (simp only: layer_values)
  show "rp_Timeout (ly_Params (LayerFromBee sprint ps)) > 0" if "Declares (LayerFromBee sprint ps) ''timeout''"
    using that parse by (auto simp: layer_values)
  show "Declares (LayerFromBee sprint ps) ''env'' \<longleftrightarrow> declared_param ps ''env'' \<noteq> None"
  proof (cases "mget ps ''env''")
    case (Some v)
    then show ?thesis
      using env by (cases v) (auto simp: layer_values envParam_def declared_param_def)
  qed (simp add: layer_values envParam_def declared_param_def)
  show "fst ` set ps \<subseteq> set RunParamKeys"
    using keys by (simp add: ValidateRunParamKeys_Inr)
qed

end
