(* ===== verification/Closing.thy ===== *)
theory Closing
  imports Params
begin

text \<open>
  \<open>internal/colony/closing.go\<close>: the closing policy of a colony and the copy of its merge gate. The
  template engine is an argument \<open>render name body inventory\<close>.
\<close>

section \<open>Policies\<close>

record ClosingPolicy =
  cl_Enabled :: bool
  cl_MinWorkTasks :: int
  cl_HasIsolatedProposal :: bool
  cl_Bee :: string
  cl_Intent :: string
  cl_Title :: string
  cl_Review :: string
  cl_Params :: params
  cl_Phase :: string
  cl_MaxRounds :: "int option"

definition no_closing :: ClosingPolicy where
  "no_closing = \<lparr>cl_Enabled = False, cl_MinWorkTasks = 0, cl_HasIsolatedProposal = False, cl_Bee = [],
     cl_Intent = [], cl_Title = [], cl_Review = [], cl_Params = [], cl_Phase = [], cl_MaxRounds = None\<rparr>"

definition closing_Configured :: "ClosingPolicy \<Rightarrow> bool" where
  "closing_Configured p \<longleftrightarrow> cl_Enabled p \<or> cl_MinWorkTasks p \<noteq> 0 \<or> cl_HasIsolatedProposal p
     \<or> cl_Bee p \<noteq> [] \<or> cl_Intent p \<noteq> [] \<or> cl_Title p \<noteq> [] \<or> TrimSpace (cl_Review p) \<noteq> []
     \<or> length (cl_Params p) > 0 \<or> TrimSpace (cl_Phase p) \<noteq> [] \<or> cl_MaxRounds p \<noteq> None"

definition ResolvedMaxRounds :: "ClosingPolicy \<Rightarrow> int" where
  "ResolvedMaxRounds p = (case cl_MaxRounds p of None \<Rightarrow> 2 | Some n \<Rightarrow> n)"

definition closing_Resolved :: "ClosingPolicy \<Rightarrow> Defaults \<Rightarrow> ClosingPolicy" where
  "closing_Resolved p defaults =
    (let p = (if cl_MaxRounds p = None then p\<lparr>cl_MaxRounds := Some 2\<rparr> else p)
     in if TrimSpace (cl_Bee p) = [] then p\<lparr>cl_Bee := EffectiveTaskBee [] defaults\<rparr> else p)"

definition closing_Matches :: "ClosingPolicy \<Rightarrow> int \<Rightarrow> bool \<Rightarrow> bool" where
  "closing_Matches p workTasks hasIsolatedProposal =
    (if cl_MinWorkTasks p > 0 \<and> workTasks < cl_MinWorkTasks p then False
     else if cl_HasIsolatedProposal p \<and> \<not> hasIsolatedProposal then False
     else True)"

datatype closing_error =
    NegativeMinWorkTasks int
  | FinalReviewNotAllowed
  | UnknownReview string
  | PhaseNotAllowed string
  | ClosingParams params_error
  | TooFewRounds int
  | ClosingBeeMissing string
  | ClosingBeeCannotRun string

definition review_error :: "string \<Rightarrow> closing_error + unit" where
  "review_error review = (case TaskReviewPolicy_of review of
     TaskReviewFinal \<Rightarrow> Inl FinalReviewNotAllowed
   | TaskReviewOther _ \<Rightarrow> Inl (UnknownReview review)
   | _ \<Rightarrow> Inr ())"

definition closing_Validate ::
  "ClosingPolicy \<Rightarrow> (string, Bee) gomap option \<Rightarrow> Defaults \<Rightarrow> closing_error + unit" where
  "closing_Validate p bees defaults =
    res_bind (fail_if (cl_MinWorkTasks p < 0) (NegativeMinWorkTasks (cl_MinWorkTasks p))) (\<lambda>_.
    res_bind (review_error (TrimSpace (cl_Review p))) (\<lambda>_.
    res_bind (fail_if (TrimSpace (cl_Phase p) \<noteq> []) (PhaseNotAllowed (TrimSpace (cl_Phase p)))) (\<lambda>_.
    res_bind (map_sum ClosingParams id (ValidateRunParams (cl_Params p))) (\<lambda>_.
    res_bind (case cl_MaxRounds p of None \<Rightarrow> Inr () | Some n \<Rightarrow> fail_if (n < 1) (TooFewRounds n)) (\<lambda>_.
      if \<not> cl_Enabled p then Inr ()
      else (case bees of
          None \<Rightarrow> Inr ()
        | Some bs \<Rightarrow>
            let beeName = EffectiveTaskBee (cl_Bee p) defaults
            in (case mget bs beeName of
                None \<Rightarrow> Inl (ClosingBeeMissing beeName)
              | Some bee \<Rightarrow> fail_if (\<not> CanHandleTaskReady bee) (ClosingBeeCannotRun beeName))))))))"

section \<open>The copy of the merge gate\<close>

record TrailTask =
  tt_TaskID :: string
  tt_Title :: string
  tt_Phase :: TaskPhase
  tt_Intent :: string
  tt_Status :: TaskStatus
  tt_Commit :: string
  tt_Summary :: string
  tt_DependsOn :: "string list"

record TrailInventory =
  ti_TraceID :: string
  ti_TraceTitle :: string
  ti_Tasks :: "TrailTask list"

record MergePolicy =
  mp_Title :: string
  mp_Body :: string

type_synonym 'e engine = "string \<Rightarrow> string \<Rightarrow> TrailInventory \<Rightarrow> 'e + string"

definition merge_Configured :: "MergePolicy \<Rightarrow> bool" where
  "merge_Configured p \<longleftrightarrow> TrimSpace (mp_Title p) \<noteq> [] \<or> TrimSpace (mp_Body p) \<noteq> []"

definition renderCopy :: "'e engine \<Rightarrow> 'e engine" where
  "renderCopy engine name body inventory = (if TrimSpace body = [] then Inr [] else engine name body inventory)"

definition RenderTitle :: "'e engine \<Rightarrow> MergePolicy \<Rightarrow> TrailInventory \<Rightarrow> 'e + string" where
  "RenderTitle engine p inventory = renderCopy engine ''merge.task.title'' (mp_Title p) inventory"

definition RenderBody :: "'e engine \<Rightarrow> MergePolicy \<Rightarrow> TrailInventory \<Rightarrow> 'e + string" where
  "RenderBody engine p inventory = renderCopy engine ''merge.task.body'' (mp_Body p) inventory"

definition ResolvedTitle :: "'e engine \<Rightarrow> MergePolicy \<Rightarrow> TrailInventory \<Rightarrow> 'e + string" where
  "ResolvedTitle engine p inventory = res_bind (RenderTitle engine p inventory) (\<lambda>title.
     Inr (if TrimSpace title = [] then ''Human review and merge'' else title))"

definition ResolvedBody :: "'e engine \<Rightarrow> MergePolicy \<Rightarrow> TrailInventory \<Rightarrow> 'e + string" where
  "ResolvedBody engine p inventory = res_bind (RenderBody engine p inventory) (\<lambda>body.
     Inr (if TrimSpace body = [] then ''Review accumulated changes and merge into the default branch.'' else body))"

definition merge_Validate :: "'e engine \<Rightarrow> MergePolicy \<Rightarrow> 'e + unit" where
  "merge_Validate engine p =
    (let inventory = \<lparr>ti_TraceID = [], ti_TraceTitle = [], ti_Tasks = []\<rparr>
     in res_bind (RenderTitle engine p inventory) (\<lambda>_. res_bind (RenderBody engine p inventory) (\<lambda>_. Inr ())))"

section \<open>Facts\<close>

text \<open>A policy that loaded seeds rounds that a Bee of the colony can run, and at least one.\<close>

lemma closing_Validate_enabled:
  assumes "closing_Validate p (Some bees) defaults = Inr ()" "cl_Enabled p"
  shows "ResolvedMaxRounds p \<ge> 1"
    and "\<exists>bee. mget bees (EffectiveTaskBee (cl_Bee p) defaults) = Some bee \<and> CanHandleTaskReady bee"
  using assms
  by (auto simp: closing_Validate_def res_bind_Inr_iff ResolvedMaxRounds_def Let_def split: option.splits)

text \<open>The policy pinned at the start of a trail names the same Bee and rounds.\<close>

lemma EffectiveTaskBee_trimmed: "TrimSpace (EffectiveTaskBee b d) = EffectiveTaskBee b d \<and> EffectiveTaskBee b d \<noteq> []"
proof -
  have "TrimSpace ''builder'' = ''builder''" by code_simp
  then show ?thesis by (simp add: EffectiveTaskBee_def Let_def)
qed

lemma closing_Resolved_same:
  "EffectiveTaskBee (cl_Bee (closing_Resolved p d)) d' = EffectiveTaskBee (cl_Bee p) d"
  "cl_MaxRounds (closing_Resolved p d) = Some (ResolvedMaxRounds p)"
  "closing_Matches (closing_Resolved p d) = closing_Matches p"
proof -
  have eff: "EffectiveTaskBee x e = (if TrimSpace x \<noteq> [] then TrimSpace x else EffectiveTaskBee [] e)" for x e
    by (simp add: EffectiveTaskBee_def Let_def)
  show "EffectiveTaskBee (cl_Bee (closing_Resolved p d)) d' = EffectiveTaskBee (cl_Bee p) d"
    by (subst eff, subst (2) eff) (auto simp: closing_Resolved_def Let_def EffectiveTaskBee_trimmed)
qed (auto simp: closing_Resolved_def ResolvedMaxRounds_def closing_Matches_def Let_def fun_eq_iff
    split: option.splits)

lemma closing_Matches_iff:
  "closing_Matches p n isolated \<longleftrightarrow> (cl_MinWorkTasks p > 0 \<longrightarrow> n \<ge> cl_MinWorkTasks p)
    \<and> (cl_HasIsolatedProposal p \<longrightarrow> isolated)"
  by (auto simp: closing_Matches_def)

lemma ResolvedTitle_nonblank:
  "ResolvedTitle engine p inventory = Inr t \<Longrightarrow> TrimSpace t \<noteq> []"
proof -
  have "TrimSpace ''Human review and merge'' \<noteq> []" by code_simp
  then show "ResolvedTitle engine p inventory = Inr t \<Longrightarrow> ?thesis"
    by (auto simp: ResolvedTitle_def res_bind_Inr_iff split: if_splits)
qed

end
