(* ===== verification/ReviewText.thy ===== *)
theory ReviewText
  imports GoText LedgerState
begin

text \<open>
  The texts of a review: the merge commit message (\<open>internal/review/merge_compose.go\<close>), the messages to
  the operator (\<open>message.go\<close>, discard.go) and the packet of annotated comments (\<open>comments.go\<close>) with its
  validation and its Markdown.
\<close>

abbreviation newline :: char where "newline \<equiv> CHR 0x0A"

definition em_dash :: string where
  "em_dash = [CHR 0xE2, CHR 0x80, CHR 0x94]"

definition en_dash :: string where
  "en_dash = [CHR 0xE2, CHR 0x80, CHR 0x93]"

section \<open>strings.Cut\<close>

fun Cut :: "string \<Rightarrow> string \<Rightarrow> (string \<times> string) option" where
  "Cut sep s = (if HasPrefix s sep then Some ([], drop (length sep) s)
     else case s of [] \<Rightarrow> None | c # cs \<Rightarrow> map_option (\<lambda>(a, b). (c # a, b)) (Cut sep cs))"

declare Cut.simps [simp del]

lemma cut_Some:
  "Cut sep s = Some (a, b) \<Longrightarrow> sep \<noteq> [] \<Longrightarrow> s = a @ sep @ b \<and> Cut sep a = None"
proof (induction s arbitrary: a)
  case Nil
  then show ?case by (auto simp: Cut.simps [of sep "[]"] HasPrefix_def split: if_splits)
next
  case (Cons c cs)
  show ?case
  proof (cases "HasPrefix (c # cs) sep")
    case True
    with Cons.prems HasPrefix_ex [OF True] show ?thesis
      by (auto simp: Cut.simps [of sep "c # cs"] Cut.simps [of sep "[]"] HasPrefix_def)
  next
    case False
    with Cons.prems obtain a' where a': "a = c # a'" "Cut sep cs = Some (a', b)"
      by (auto simp: Cut.simps [of sep "c # cs"])
    from Cons.IH [OF a'(2) Cons.prems(2)] have ih: "cs = a' @ sep @ b" "Cut sep a' = None" by simp_all
    have "\<not> HasPrefix (c # a') sep" using False HasPrefix_longer [of "c # a'" sep "sep @ b"] ih(1) by auto
    with ih a' show ?thesis by (simp add: Cut.simps [of sep "c # a'"])
  qed
qed

lemma cut_None_iff: "Cut sep s = None \<longleftrightarrow> (\<nexists>p q. s = p @ sep @ q)"
proof (induction s)
  case Nil
  show ?case by (auto simp: Cut.simps [of sep "[]"] HasPrefix_def)
next
  case (Cons c cs)
  have "(\<exists>p q. c # cs = p @ sep @ q) \<longleftrightarrow> HasPrefix (c # cs) sep \<or> (\<exists>p q. cs = p @ sep @ q)"
    by (metis (no_types, lifting) HasPrefix_append HasPrefix_ex append_Cons append_Nil append_eq_Cons_conv)
  with Cons show ?case by (auto simp: Cut.simps [of sep "c # cs"])
qed

lemma cut_inner: "Cut sep (p @ s @ q) = None \<Longrightarrow> Cut sep s = None"
  unfolding cut_None_iff by (metis append.assoc)

abbreviation blank_line :: string where "blank_line \<equiv> [newline, newline]"

lemma cut_at_blank:
  "Cut blank_line a = None \<Longrightarrow> a = [] \<or> last a \<noteq> newline \<Longrightarrow> Cut blank_line (a @ blank_line @ b) = Some (a, b)"
proof (induction a)
  case Nil
  show ?case by (simp add: Cut.simps [of _ "newline # _"] HasPrefix_def)
next
  case (Cons c a)
  have "\<not> HasPrefix (c # a) blank_line" "Cut blank_line a = None"
    using Cons.prems(1) by (auto simp: Cut.simps [of _ "c # a"] split: if_splits)
  moreover have "\<not> HasPrefix (c # a @ blank_line @ b) blank_line"
    using calculation(1) Cons.prems(2) by (cases a) (auto simp: HasPrefix_def)
  moreover have "a = [] \<or> last a \<noteq> newline" using Cons.prems(2) by (cases a) simp_all
  ultimately show ?case using Cons.IH by (simp add: Cut.simps [of _ "c # a @ newline # newline # b"])
qed

text \<open>What trimming leaves is a part of the text and does not end in a newline.\<close>

lemma TrimSpace_part: "\<exists>p q. s = p @ TrimSpace s @ q"
proof -
  obtain p where "s = p @ TrimLeft s" using trim_left_suffix unfolding TrimLeft_def by blast
  moreover obtain q where "TrimLeft s = TrimSpace s @ q" using TrimRight_prefix unfolding TrimSpace_def by blast
  ultimately show ?thesis by (metis append.assoc)
qed

lemma TrimSpace_cut: "Cut sep s = None \<Longrightarrow> Cut sep (TrimSpace s) = None"
  using TrimSpace_part [of s] cut_inner by metis

lemma TrimSpace_last: "TrimSpace s = [] \<or> last (TrimSpace s) \<noteq> newline"
proof (rule disjCI)
  assume l: "\<not> last (TrimSpace s) \<noteq> newline"
  have "find (HasPrefix (rev (TrimSpace s))) (map rev space_runes) = None"
    unfolding TrimSpace_def by (rule TrimRight_no_space)
  moreover have "[newline] \<in> set (map rev space_runes)" by (simp add: space_runes_def)
  ultimately have "\<not> HasPrefix (rev (TrimSpace s)) [newline]" unfolding find_None_iff by blast
  with l show "TrimSpace s = []" by (cases "TrimSpace s" rule: rev_cases) (simp_all add: HasPrefix_def)
qed

section \<open>The merge message\<close>

record MergeMessageParts =
  mm_Subject :: string
  mm_Body :: string

definition FormatMessage :: "MergeMessageParts \<Rightarrow> string" where
  "FormatMessage p =
    (let subject = TrimSpace (mm_Subject p); body = TrimSpace (mm_Body p)
     in if body = [] then subject else subject @ blank_line @ body)"

definition defaultMergeSubject :: "string \<Rightarrow> string" where
  "defaultMergeSubject traceID = ''paseka: merge trace '' @ traceID"

definition splitMergeMessage :: "string \<Rightarrow> string \<times> string" where
  "splitMergeMessage raw =
    (if raw = [] then ([], [])
     else (case Cut blank_line raw of
         Some (before, after) \<Rightarrow> (TrimSpace before, TrimSpace after)
       | None \<Rightarrow> (let lines = split_on newline raw; subject = TrimSpace (hd lines)
                 in if length lines = 1 then (subject, [])
                    else (subject, TrimSpace (join [newline] (tl lines))))))"

definition ComposeMergeMessage :: "string \<Rightarrow> string \<Rightarrow> string \<Rightarrow> MergeMessageParts" where
  "ComposeMergeMessage traceID mergeMessage traceSummary =
    (let (subject, hitlBody) = splitMergeMessage (TrimSpace mergeMessage);
         subject = (if subject = [] then defaultMergeSubject traceID else subject);
         body = (if TrimSpace hitlBody = [] then TrimSpace traceSummary else TrimSpace hitlBody)
     in \<lparr>mm_Subject = subject, mm_Body = body\<rparr>)"

lemma cut_one_line: "newline \<notin> set s \<Longrightarrow> Cut blank_line s = None"
  by (auto simp: cut_None_iff)

lemma splitMergeMessage_subject:
  "Cut blank_line (fst (splitMergeMessage raw)) = None" "TrimSpace (fst (splitMergeMessage raw)) = fst (splitMergeMessage raw)"
proof -
  have "hd (split_on newline raw) \<in> set (split_on newline raw)" by (simp del: hd_in_set add: hd_in_set)
  then have "Cut blank_line (hd (split_on newline raw)) = None" by (intro cut_one_line split_on_parts)
  then show "Cut blank_line (fst (splitMergeMessage raw)) = None"
    using cut_one_line [of "[]"] TrimSpace_cut cut_Some [of blank_line raw]
    by (auto simp: splitMergeMessage_def Let_def split: option.split)
  show "TrimSpace (fst (splitMergeMessage raw)) = fst (splitMergeMessage raw)"
    by (auto simp: splitMergeMessage_def Let_def split: option.split)
qed

text \<open>A trace id that can stand at the end of a subject line.\<close>

definition plain_id :: "string \<Rightarrow> bool" where
  "plain_id traceID \<longleftrightarrow> newline \<notin> set traceID \<and> TrimSpace (defaultMergeSubject traceID) = defaultMergeSubject traceID"

lemma Compose_parts:
  assumes "plain_id i"
  shows "Cut blank_line (mm_Subject (ComposeMergeMessage i m s)) = None"
    and "TrimSpace (mm_Subject (ComposeMergeMessage i m s)) = mm_Subject (ComposeMergeMessage i m s)"
    and "TrimSpace (mm_Body (ComposeMergeMessage i m s)) = mm_Body (ComposeMergeMessage i m s)"
proof -
  have "newline \<notin> set (defaultMergeSubject i)" using assms by (auto simp: plain_id_def defaultMergeSubject_def)
  then have "Cut blank_line (defaultMergeSubject i) = None" by (rule cut_one_line)
  then show "Cut blank_line (mm_Subject (ComposeMergeMessage i m s)) = None"
    "TrimSpace (mm_Subject (ComposeMergeMessage i m s)) = mm_Subject (ComposeMergeMessage i m s)"
    using splitMergeMessage_subject [of "TrimSpace m"] assms
    by (auto simp: ComposeMergeMessage_def Let_def split_beta plain_id_def)
  show "TrimSpace (mm_Body (ComposeMergeMessage i m s)) = mm_Body (ComposeMergeMessage i m s)"
    by (simp add: ComposeMergeMessage_def Let_def split_beta)
qed

lemma split_Format:
  assumes "plain_id i" "mm_Body (ComposeMergeMessage i m s) \<noteq> []"
  shows "splitMergeMessage (FormatMessage (ComposeMergeMessage i m s))
    = (mm_Subject (ComposeMergeMessage i m s), mm_Body (ComposeMergeMessage i m s))"
proof -
  let ?p = "ComposeMergeMessage i m s"
  note c = Compose_parts [OF assms(1), of m s]
  have "Cut blank_line (mm_Subject ?p @ blank_line @ mm_Body ?p) = Some (mm_Subject ?p, mm_Body ?p)"
    by (rule cut_at_blank [OF c(1)]) (use TrimSpace_last [of "mm_Subject ?p"] c(2) in simp)
  with assms(2) c show ?thesis by (simp add: FormatMessage_def splitMergeMessage_def Let_def)
qed

section \<open>Messages to the operator\<close>

datatype StashOutcome = StashOutcomeUnset | StashOutcomeNone | StashOutcomeRestored | StashOutcomeLeftOnFailure | StashOutcomeRestoreConflicted

record ApproveMessageOptions =
  ao_ProposalWorkspace :: ProposalWorkspace
  ao_CommitSHA :: string
  ao_StashOutcome :: StashOutcome
  ao_Published :: bool
  ao_PRURL :: string
  ao_Experimental :: bool

definition ApproveMessage :: "ApproveMessageOptions \<Rightarrow> string" where
  "ApproveMessage opts =
    (if ao_Experimental opts then ''Task approved (experimental trail '' @ em_dash @ '' no branch merge or publication).''
     else if ao_Published opts then
       (let u = TrimSpace (ao_PRURL opts)
        in if u \<noteq> [] then ''Pull request published. Trail stays open until the PR is merged: '' @ u
           else ''Pull request published. Trail stays open until the PR is merged on the forge.'')
     else if ao_ProposalWorkspace opts = ProposalWorkspaceRoot then ''Task approved (root proposal '' @ em_dash @ '' no worktree merge).''
     else if ao_CommitSHA opts = [] then ''Task approved.''
     else (case ao_StashOutcome opts of
         StashOutcomeRestored \<Rightarrow> ''Task approved and worktree merged. Local changes were restored.''
       | StashOutcomeRestoreConflicted \<Rightarrow> ''Task approved and worktree merged. Warning: restoring local changes conflicted ''
           @ em_dash @ '' resolve stash/working-tree conflicts manually.''
       | _ \<Rightarrow> ''Task approved and worktree merged.''))"

definition CLIApproveMessage :: "ApproveMessageOptions \<Rightarrow> string" where
  "CLIApproveMessage opts =
    (if ao_Experimental opts then ''Approved (experimental trail '' @ em_dash @ '' no branch merge or publication).''
     else if ao_Published opts then
       (let u = TrimSpace (ao_PRURL opts)
        in if u \<noteq> [] then ''Published pull request. Trail stays open until the PR is merged: '' @ u
           else ''Published pull request. Trail stays open until the PR is merged on the forge.'')
     else if ao_ProposalWorkspace opts = ProposalWorkspaceRoot then ''Approved (root proposal '' @ em_dash @ '' no worktree merge).''
     else if ao_CommitSHA opts = [] then ''Approved.''
     else (case ao_StashOutcome opts of
         StashOutcomeRestored \<Rightarrow> ''Approved and worktree merged. Local changes were restored.''
       | StashOutcomeRestoreConflicted \<Rightarrow> ''Approved and worktree merged. Warning: restoring local changes conflicted ''
           @ em_dash @ '' resolve stash/working-tree conflicts manually.''
       | _ \<Rightarrow> ''Approved and worktree merged.''))"

definition DiscardResponseMessage :: string where
  "DiscardResponseMessage = ''Discarded '' @ em_dash @ '' closed without merging and without rework.''"

definition RejectResponseMessage :: "bool \<Rightarrow> bool \<Rightarrow> string \<Rightarrow> string" where
  "RejectResponseMessage isFinal annotated reworkTaskID =
    (if annotated then
       (if isFinal then
          (let i = TrimSpace reworkTaskID
           in if i \<noteq> [] then ''Request changes sent. Rework task '' @ i @ '' planned; merge gate remains open '' @ em_dash @ '' approve when ready.''
              else ''Review comments saved to comb. Merge gate remains open '' @ em_dash @ '' approve when ready.'')
        else ''Review comments saved to comb. For review: required tasks the runtime will return the task to ready.'')
     else if isFinal then ''Feedback published. Merge gate remains open.''
     else ''Feedback published. For review: required tasks the runtime will return the task to ready.'')"

section \<open>Annotated comments\<close>

record ReviewComment =
  rc_Path :: string
  rc_Side :: string
  rc_StartLine :: int
  rc_EndLine :: int
  rc_Snippet :: string
  rc_Body :: string

record CommentsPacket =
  pk_HeadSHA :: string
  pk_Summary :: string
  pk_Comments :: "ReviewComment list"

datatype comment_error = PathRequired | SideNotNewOrOld | StartLineTooSmall | EndBeforeStart | BodyRequired

datatype packet_error = NothingToSay | BadComment nat comment_error

definition validateReviewComment :: "ReviewComment \<Rightarrow> comment_error + unit" where
  "validateReviewComment c =
    (let side = TrimSpace (ToLower (rc_Side c));
         last_line = (if rc_EndLine c = 0 then rc_StartLine c else rc_EndLine c)
     in if TrimSpace (rc_Path c) = [] then Inl PathRequired
        else if side \<noteq> ''new'' \<and> side \<noteq> ''old'' then Inl SideNotNewOrOld
        else if rc_StartLine c < 1 then Inl StartLineTooSmall
        else if last_line < rc_StartLine c then Inl EndBeforeStart
        else if TrimSpace (rc_Body c) = [] then Inl BodyRequired
        else Inr ())"

fun validate_comments :: "nat \<Rightarrow> ReviewComment list \<Rightarrow> packet_error + unit" where
  "validate_comments i [] = Inr ()"
| "validate_comments i (c # cs) = (case validateReviewComment c of
     Inl e \<Rightarrow> Inl (BadComment i e) | Inr _ \<Rightarrow> validate_comments (Suc i) cs)"

definition ValidateCommentsPacket :: "CommentsPacket \<Rightarrow> packet_error + unit" where
  "ValidateCommentsPacket pkt =
    (if pk_Comments pkt = [] \<and> TrimSpace (pk_Summary pkt) = [] then Inl NothingToSay
     else validate_comments 0 (pk_Comments pkt))"

text \<open>One comment, in the section of its path.\<close>

definition comment_text :: "ReviewComment \<Rightarrow> string" where
  "comment_text c =
    (let last_line = (if rc_EndLine c = 0 then rc_StartLine c else rc_EndLine c);
         label = (if last_line \<noteq> rc_StartLine c then ''L'' @ Itoa (rc_StartLine c) @ en_dash @ Itoa last_line
                  else ''L'' @ Itoa (rc_StartLine c));
         snippet = TrimSpace (rc_Snippet c)
     in ''- **'' @ ToLower (TrimSpace (rc_Side c)) @ ''** '' @ label @ [newline]
        @ (if snippet \<noteq> [] then ''  ```'' @ [newline] @ ''  '' @ join (newline # ''  '') (split_on newline snippet)
             @ [newline] @ ''  ```'' @ [newline] else [])
        @ ''  '' @ TrimSpace (rc_Body c) @ blank_line)"

definition path_heading :: "string \<Rightarrow> string" where
  "path_heading path = ''## `'' @ path @ ''`'' @ blank_line"

definition packet_heading :: "CommentsPacket \<Rightarrow> string" where
  "packet_heading pkt = ''# Review comments'' @ blank_line
     @ (let sha = TrimSpace (pk_HeadSHA pkt) in if sha \<noteq> [] then ''headSha: `'' @ sha @ ''`'' @ blank_line else [])
     @ (let summary = TrimSpace (pk_Summary pkt) in if summary \<noteq> [] then summary @ blank_line else [])"

text \<open>The loop that groups the comments: the map by path and the paths in order of appearance.\<close>

definition group_step :: "ReviewComment \<Rightarrow> (string, ReviewComment list) gomap \<times> string list \<Rightarrow> (string, ReviewComment list) gomap \<times> string list" where
  "group_step c acc = (case acc of (byPath, order) \<Rightarrow>
     (mput (rc_Path c) ((case mget byPath (rc_Path c) of None \<Rightarrow> [] | Some cs \<Rightarrow> cs) @ [c]) byPath,
      if mget byPath (rc_Path c) = None then order @ [rc_Path c] else order))"

definition RenderCommentsMarkdown :: "CommentsPacket \<Rightarrow> string" where
  "RenderCommentsMarkdown pkt =
    (let (byPath, order) = fold group_step (pk_Comments pkt) ([], [])
     in packet_heading pkt @ concat (map (\<lambda>path. path_heading path
          @ concat (map comment_text (case mget byPath path of None \<Rightarrow> [] | Some cs \<Rightarrow> cs))) order))"

definition ShortFeedbackMessage :: "string \<Rightarrow> string" where
  "ShortFeedbackMessage summary =
    (if TrimSpace summary \<noteq> [] then TrimSpace summary else ''Review comments written to comb'')"

text \<open>The reference: a section per path in order of first appearance, with the comments on it in order.\<close>

fun first_seen :: "'a list \<Rightarrow> 'a list" where
  "first_seen [] = []"
| "first_seen (x # xs) = x # filter (\<lambda>y. y \<noteq> x) (first_seen xs)"

lemma first_seen_snoc: "first_seen (xs @ [x]) = (if x \<in> set xs then first_seen xs else first_seen xs @ [x])"
  by (induction xs) auto

lemma first_seen_set [simp]: "set (first_seen xs) = set xs"
  by (induction xs) auto

lemma first_seen_distinct [simp]: "distinct (first_seen xs)"
  by (induction xs) auto

lemma grouped:
  "fst (fold group_step cs ([], [])) = byPath \<Longrightarrow> snd (fold group_step cs ([], [])) = order \<Longrightarrow>
    order = first_seen (map rc_Path cs)
    \<and> (\<forall>p. mget byPath p = (if p \<in> rc_Path ` set cs then Some (filter (\<lambda>c. rc_Path c = p) cs) else None))"
proof (induction cs arbitrary: byPath order rule: rev_induct)
  case (snoc c cs)
  obtain b p where bp: "fold group_step cs ([], []) = (b, p)" by fastforce
  with snoc.IH have ih: "p = first_seen (map rc_Path cs)"
    "\<And>q. mget b q = (if q \<in> rc_Path ` set cs then Some (filter (\<lambda>c. rc_Path c = q) cs) else None)" by auto
  have step: "byPath = fst (group_step c (b, p))" "order = snd (group_step c (b, p))" using snoc.prems bp by simp_all
  have "order = first_seen (map rc_Path (cs @ [c]))"
    unfolding step ih(1) by (simp add: group_step_def ih(2) first_seen_snoc)
  moreover have "mget byPath q = (if q \<in> rc_Path ` set (cs @ [c]) then Some (filter (\<lambda>c. rc_Path c = q) (cs @ [c])) else None)" for q
  proof -
    have "filter (\<lambda>d. rc_Path d = rc_Path c) cs = []" if "rc_Path c \<notin> rc_Path ` set cs"
      using that by (auto simp: filter_empty_conv image_iff)
    then show ?thesis unfolding step by (auto simp: group_step_def ih(2))
  qed
  ultimately show ?case by blast
qed simp

lemma Render_sections:
  "RenderCommentsMarkdown pkt = packet_heading pkt
    @ concat (map (\<lambda>path. path_heading path @ concat (map comment_text (filter (\<lambda>c. rc_Path c = path) (pk_Comments pkt))))
        (first_seen (map rc_Path (pk_Comments pkt))))"
proof -
  obtain b p where bp: "fold group_step (pk_Comments pkt) ([], []) = (b, p)" by fastforce
  with grouped [of "pk_Comments pkt" b p] have p: "p = first_seen (map rc_Path (pk_Comments pkt))"
    and b: "\<And>q. q \<in> set p \<Longrightarrow> mget b q = Some (filter (\<lambda>c. rc_Path c = q) (pk_Comments pkt))" by auto
  have same: "map (\<lambda>path. path_heading path @ concat (map comment_text (case mget b path of None \<Rightarrow> [] | Some cs \<Rightarrow> cs))) p
      = map (\<lambda>path. path_heading path @ concat (map comment_text (filter (\<lambda>c. rc_Path c = path) (pk_Comments pkt)))) p"
    by (rule map_cong) (simp_all add: b)
  have "RenderCommentsMarkdown pkt = packet_heading pkt @ concat (map (\<lambda>path. path_heading path
      @ concat (map comment_text (case mget b path of None \<Rightarrow> [] | Some cs \<Rightarrow> cs))) p)"
    by (simp only: RenderCommentsMarkdown_def bp Let_def prod.case)
  then show ?thesis unfolding same unfolding p .
qed

text \<open>Nothing is lost: the sections hold every comment as often as the packet does.\<close>

lemma sections_complete:
  fixes cs :: "ReviewComment list"
  shows "mset (concat (map (\<lambda>p. filter (\<lambda>c. rc_Path c = p) cs) (first_seen (map rc_Path cs)))) = mset cs"
proof -
  have "mset (concat (map (\<lambda>p. filter (\<lambda>c. f c = p) cs) ps)) = mset (filter (\<lambda>c. f c \<in> set ps) cs)" if "distinct ps" for ps and f :: "ReviewComment \<Rightarrow> string"
    using that
  proof (induction ps)
    case (Cons p ps)
    have "mset (filter (\<lambda>c. f c = p) cs) + mset (filter (\<lambda>c. f c \<in> set ps) cs) = mset (filter (\<lambda>c. f c = p \<or> f c \<in> set ps) cs)"
      using Cons.prems by (induction cs) auto
    with Cons show ?case by simp
  qed simp
  from this [of "first_seen (map rc_Path cs)" rc_Path] show ?thesis by (simp cong: filter_cong)
qed

lemma validate_comments_Inr:
  "validate_comments i cs = Inr () \<longleftrightarrow> (\<forall>c \<in> set cs. validateReviewComment c = Inr ())"
  by (induction cs arbitrary: i) (auto split: sum.split)

end
