(* ===== verification/FinalGate.thy ===== *)
theory FinalGate
  imports Hive Closing LedgerCompletion ReviewText
begin

text \<open>
  \<open>internal/review/final_gate.go\<close>: the gate boundary. At every boundary of a trail the runtime first
  ensures a closing round, then the merge gate. Arguments: the ledger \<open>L\<close>, the environment \<open>E\<close>, and
  what is read outside the repository's own state, \<open>G\<close>: the text quoting of \<open>%q\<close>, the git merge diff, the
  trace title on disk and the template engine of the merge gate's copy.
\<close>

record 'e gate_host =
  gh_quote :: "string \<Rightarrow> string"
  gh_root :: string \<comment> \<open>the colony root\<close>
  gh_diff :: "(bool \<times> bool) option" \<comment> \<open>\<open>MergeDiff\<close>: missing, empty; \<open>None\<close> its error\<close>
  gh_title :: "string option" \<comment> \<open>\<open>ResolveTraceTitle\<close>\<close>
  gh_engine :: "'e engine"

record GatePolicies =
  gp_Closing :: ClosingPolicy
  gp_Merge :: MergePolicy

section \<open>Notes about a skipped round\<close>

definition predicateSkipNote :: "ClosingPolicy \<Rightarrow> TraceSnapshot \<Rightarrow> string" where
  "predicateSkipNote p snap =
    (let work = WorkTaskCount snap
     in if cl_MinWorkTasks p > 0 \<and> work < cl_MinWorkTasks p
        then ''Closing round skipped: the pinned policy requires at least '' @ Itoa (cl_MinWorkTasks p)
          @ '' work task(s) and this trail has '' @ Itoa work @ ''. No closing round will be seeded.''
        else if cl_HasIsolatedProposal p \<and> \<not> HasIsolatedProposal snap
        then ''Closing round skipped: the pinned policy requires an isolated code change and this trail has none. No closing round will be seeded.''
        else [])"

definition capSkipNote :: "(string \<Rightarrow> string) \<Rightarrow> TraceSnapshot \<Rightarrow> int \<Rightarrow> string" where
  "capSkipNote quote snap maxRounds =
    (let lastID = (case LatestClosingTask snap of None \<Rightarrow> ''the previous closing round'' | Some t \<Rightarrow> quote (t_TaskID t))
     in ''Closing round skipped: the pinned policy allows '' @ Itoa maxRounds @ '' round(s) and follow-up work completed after ''
        @ lastID @ ''. No further review round will be seeded.'')"

definition recordClosingSkipNote :: "'l Ledger \<Rightarrow> env \<Rightarrow> string \<Rightarrow> string \<Rightarrow> ('l, 'e, unit) act" where
  "recordClosingSkipNote L E traceID summary =
    (if TrimSpace summary = [] then ret ()
     else bind_act (build E traceID RuntimeAgentID EventInsight (\<lambda>_. Some (NarrativeInsightPayload_json
         \<lparr>ni_Kind = InsightContextNote, ni_Summary = summary, ni_TaskID = [], ni_Severity = []\<rparr>)))
       (\<lambda>ev. WriteEvent L E ev))"

definition statusEvent :: "env \<Rightarrow> string \<Rightarrow> string \<Rightarrow> TaskStatus \<Rightarrow> string \<Rightarrow> ('l, 'e, Event) act" where
  "statusEvent E traceID taskID status summary = build E traceID RuntimeAgentID EventSignal (\<lambda>_. Some (TaskStatusPayload_json
     \<lparr>st_Kind = TaskEventStatus, st_TaskID = taskID, st_Status = status, st_Summary = summary\<rparr>))"

section \<open>The closing round\<close>

text \<open>Zero, or the reason: nothing is seeded and the note to record; or the id of the round to seed.\<close>

datatype closing_verdict = NoRound string | SeedRound int

definition closing_decision :: "(string \<Rightarrow> string) \<Rightarrow> ClosingPolicy \<Rightarrow> TraceSnapshot \<Rightarrow> closing_verdict" where
  "closing_decision quote p snap =
    (if \<not> cl_Enabled p then NoRound []
     else if MergeTaskCompleted snap then NoRound []
     else if \<not> AllWorkCompleted snap then NoRound []
     else if \<not> closing_Matches p (WorkTaskCount snap) (HasIsolatedProposal snap) then NoRound (predicateSkipNote p snap)
     else if ClosingInFlight snap \<noteq> None then NoRound []
     else if HasUnfinishedClosingTask snap then NoRound []
     else if ClosingCoversLatestWork snap then NoRound []
     else let round = wrap64 (HighestClosingRound snap + 1); maxRounds = ResolvedMaxRounds p
          in if round > maxRounds then NoRound (capSkipNote quote snap maxRounds) else SeedRound round)"

definition no_defaults :: Defaults where
  "no_defaults = \<lparr>df_SystemTemplate = [], df_EnergyBudget = 0, df_DefaultBee = [], df_Delivery = []\<rparr>"

definition closing_spec :: "ClosingPolicy \<Rightarrow> string \<Rightarrow> int \<Rightarrow> TaskSpec" where
  "closing_spec p taskID round =
    \<lparr>sp_TaskID = taskID,
     sp_Title = (if TrimSpace (cl_Title p) = [] then ''Review the trail and prepare the pull request'' else TrimSpace (cl_Title p)),
     sp_Body = ''Review the accumulated changes of this trail before the merge gate (closing round '' @ Itoa round
       @ '' of '' @ Itoa (ResolvedMaxRounds p) @ '').'',
     sp_Bee = EffectiveTaskBee (cl_Bee p) no_defaults, sp_Sector = [], sp_Intent = TrimSpace (cl_Intent p),
     sp_Review = NormalizeTaskReviewPolicy (TaskReviewPolicy_of (cl_Review p)), sp_Phase = TaskPhaseClosing,
     sp_DependsOn = [], sp_CueID = [], sp_CueInvocationID = []\<rparr>"

definition plan_one :: "TaskSpec \<Rightarrow> json" where
  "plan_one spec = TaskPlanPayload_json \<lparr>pl_Kind = TaskEventPlan, pl_Tasks = [spec]\<rparr>"

definition ready_of :: "TaskSpec \<Rightarrow> TaskReadyPayload" where
  "ready_of spec = \<lparr>rd_Kind = TaskEventReady, rd_TaskID = sp_TaskID spec, rd_Title = sp_Title spec, rd_Body = sp_Body spec,
     rd_Bee = sp_Bee spec, rd_Sector = [], rd_Intent = sp_Intent spec, rd_CueID = [], rd_CueInvocationID = []\<rparr>"

text \<open>
  The round named by the id: the id is searched from the highest round on and skips ids in use, so it
  may carry a later number than the round that was decided. The search cannot fail for lack of fuel.
\<close>

definition seeded_spec :: "ClosingPolicy \<Rightarrow> TraceSnapshot \<Rightarrow> int \<Rightarrow> TaskSpec option" where
  "seeded_spec p snap round = map_option (\<lambda>taskID.
     closing_spec p taskID (case ClosingRoundNumber taskID of None \<Rightarrow> round | Some r \<Rightarrow> r)) (NextClosingTaskID snap)"

definition ensureClosingRound ::
  "'l Ledger \<Rightarrow> env \<Rightarrow> 'e gate_host \<Rightarrow> string \<Rightarrow> TraceSnapshot \<Rightarrow> ClosingPolicy
    \<Rightarrow> ('l, 'e, TaskSnapshot option \<times> string) act" where
  "ensureClosingRound L E G traceID snap p = (case closing_decision (gh_quote G) p snap of
     NoRound note \<Rightarrow> ret (None, note)
   | SeedRound round \<Rightarrow> (case seeded_spec p snap round of
         None \<Rightarrow> throw (Refused ''no free closing round id'')
       | Some spec \<Rightarrow>
           bind_act (build E traceID RuntimeAgentID EventInsight (\<lambda>_. Some (plan_one spec))) (\<lambda>planEv.
           bind_act (WriteEvent L E planEv) (\<lambda>_.
           bind_act (build E traceID RuntimeAgentID EventSignal (\<lambda>_. Some (TaskReadyPayload_json (ready_of spec)))) (\<lambda>readyEv.
           bind_act (WriteEvent L E readyEv) (\<lambda>_.
           bind_act (read_trace L traceID) (\<lambda>updated. case mget (Tasks updated) (sp_TaskID spec) of
               None \<Rightarrow> throw (Refused (''review: closing task '' @ gh_quote G (sp_TaskID spec) @ '' was not recorded''))
             | Some task \<Rightarrow> ret (Some task, []))))))))"

definition ClosingRoundGuaranteed :: "ClosingPolicy \<Rightarrow> TraceSnapshot \<Rightarrow> bool" where
  "ClosingRoundGuaranteed p trace =
    (if \<not> cl_Enabled p then False
     else if MergeTaskCompleted trace then False
     else if \<not> closing_Matches p (WorkTaskCount trace) (HasIsolatedProposal trace) then False
     else if HasUnfinishedClosingTask trace then False
     else wrap64 (HighestClosingRound trace + 1) \<le> ResolvedMaxRounds p)"

section \<open>The merge gate\<close>

definition BuildTrailInventory :: "'e gate_host \<Rightarrow> string \<Rightarrow> TraceSnapshot \<Rightarrow> TrailInventory" where
  "BuildTrailInventory G traceID snap =
    \<lparr>ti_TraceID = traceID, ti_TraceTitle = (case gh_title G of None \<Rightarrow> [] | Some t \<Rightarrow> t),
     ti_Tasks = map (\<lambda>t. \<lparr>tt_TaskID = t_TaskID t, tt_Title = t_Title t, tt_Phase = TaskPhaseOf t, tt_Intent = t_Intent t,
         tt_Status = t_Status t, tt_Commit = t_Commit t, tt_Summary = t_Summary t, tt_DependsOn = t_DependsOn t\<rparr>)
       (filter (\<lambda>t. \<not> IsAnalysisTask t)
         (map (\<lambda>i. the (mget (Tasks snap) i)) (go_sort string_before (map fst (Tasks snap)))))\<rparr>"

definition needsIsolatedMerge :: "'e gate_host \<Rightarrow> TraceSnapshot \<Rightarrow> string \<Rightarrow> bool" where
  "needsIsolatedMerge G snap traceID =
    (if HasIsolatedProposal snap then True
     else if gh_root G = [] \<or> traceID = [] then False
     else (case gh_diff G of None \<Rightarrow> False | Some (gone, nothing) \<Rightarrow> \<not> gone \<and> \<not> nothing))"

definition gate_settled :: "TaskStatus \<Rightarrow> bool" where
  "gate_settled s \<longleftrightarrow> s \<in> {TaskStatusCompleted, TaskStatusFailed, TaskStatusBlocked, TaskStatusSkipped}"

definition completeEmptyFinalGate :: "'l Ledger \<Rightarrow> env \<Rightarrow> string \<Rightarrow> TaskSnapshot \<Rightarrow> ('l, 'e, unit) act" where
  "completeEmptyFinalGate L E traceID final =
    (if gate_settled (t_Status final) then ret ()
     else bind_act (build E traceID RuntimeAgentID EventVerification (\<lambda>n. TaskCompletedPayload_json
         \<lparr>cp_Kind = TaskEventCompleted, cp_TaskID = t_TaskID final, cp_Status = TaskStatusCompleted,
          cp_Summary = ''Nothing to merge '' @ em_dash @ '' skipped final review gate'', cp_Commit = [],
          cp_CompletedAt = en_done E n\<rparr>))
       (\<lambda>ev. WriteEvent L E ev))"

definition gate_summary :: string where
  "gate_summary = ''All tasks completed '' @ em_dash @ '' awaiting human review and merge''"

definition merge_spec :: "string \<Rightarrow> string \<Rightarrow> TaskSpec" where
  "merge_spec title body =
    \<lparr>sp_TaskID = FinalReviewTaskID, sp_Title = title, sp_Body = body, sp_Bee = [], sp_Sector = [], sp_Intent = [],
     sp_Review = TaskReviewFinal, sp_Phase = TaskPhaseMerge, sp_DependsOn = [], sp_CueID = [], sp_CueInvocationID = []\<rparr>"

definition openGate :: "'l Ledger \<Rightarrow> env \<Rightarrow> string \<Rightarrow> string \<Rightarrow> ('l, 'e, unit) act" where
  "openGate L E traceID taskID =
    bind_act (statusEvent E traceID taskID TaskStatusWaitingReview gate_summary) (\<lambda>ev. WriteEvent L E ev)"

definition ensureMergeGate ::
  "'l Ledger \<Rightarrow> env \<Rightarrow> 'e gate_host \<Rightarrow> MergePolicy \<Rightarrow> string \<Rightarrow> TraceSnapshot \<Rightarrow> string \<Rightarrow> ('l, 'e, unit) act" where
  "ensureMergeGate L E G merge traceID snap skipNote =
    (let needsMerge = needsIsolatedMerge G snap traceID; noteSkip = recordClosingSkipNote L E traceID skipNote
     in (case FindFinalReviewTask snap of
          Some final \<Rightarrow>
            if \<not> needsMerge then
              (if gate_settled (t_Status final) then ret ()
               else bind_act noteSkip (\<lambda>_. completeEmptyFinalGate L E traceID final))
            else if HasWaitingReview snap \<and> t_Status final \<noteq> TaskStatusWaitingReview then ret ()
            else if t_Status final = TaskStatusPlanned \<or> t_Status final = TaskStatusReady then
              bind_act noteSkip (\<lambda>_. openGate L E traceID (t_TaskID final))
            else ret ()
        | None \<Rightarrow>
            if \<not> needsMerge \<or> HasWaitingReview snap then ret ()
            else
              let inventory = BuildTrailInventory G traceID snap
              in bind_act (lift_sum (map_sum TemplateFailed id (ResolvedTitle (gh_engine G) merge inventory))) (\<lambda>title.
                 bind_act (lift_sum (map_sum TemplateFailed id (ResolvedBody (gh_engine G) merge inventory))) (\<lambda>body.
                 bind_act noteSkip (\<lambda>_.
                 bind_act (build E traceID RuntimeAgentID EventInsight (\<lambda>_. Some (plan_one (merge_spec title body)))) (\<lambda>planEv.
                 bind_act (WriteEvent L E planEv) (\<lambda>_.
                 openGate L E traceID FinalReviewTaskID)))))))"

definition EnsureTrailPhases ::
  "'l Ledger \<Rightarrow> env \<Rightarrow> 'e gate_host \<Rightarrow> GatePolicies \<Rightarrow> string \<Rightarrow> ('l, 'e, TaskSnapshot option) act" where
  "EnsureTrailPhases L E G policies traceID =
    (if traceID = [] then ret None
     else bind_act (read_trace L traceID) (\<lambda>snap.
       bind_act (ensureClosingRound L E G traceID snap (gp_Closing policies)) (\<lambda>(seeded, skipNote).
         if seeded \<noteq> None then ret seeded
         else if \<not> AllPreMergeCompleted snap then ret None
         else bind_act (ensureMergeGate L E G (gp_Merge policies) traceID snap skipNote) (\<lambda>_. ret None))))"

end
