(* ===== verification/HumanGate.thy ===== *)
theory HumanGate
  imports FinalGate
begin

text \<open>
  What a person decides at a review gate, as far as it concerns the ledger and the bus
  (\<open>internal/review/gate.go\<close>, \<open>discard.go\<close>, \<open>rework.go\<close>): the guards, rejecting with feedback, discarding,
  planning the rework of a rejected change. Approval, which also merges or publishes, is in Delivery.
\<close>

section \<open>Why the merge gate cannot be approved yet\<close>

definition blocker :: "string \<times> TaskSnapshot \<Rightarrow> string" where
  "blocker e = fst e @ '' ('' @ TaskStatus_str (if t_Status (snd e) = TaskStatusUnset then TaskStatusPlanned else t_Status (snd e)) @ '')''"

definition unfinished :: "TraceSnapshot \<Rightarrow> string \<Rightarrow> (string \<times> TaskSnapshot) list" where
  "unfinished trace taskID = filter (\<lambda>(i, other). \<not> (i = taskID \<or> IsMergeTask other) \<and> t_Status other \<noteq> TaskStatusCompleted) (Tasks trace)"

definition ApproveBlockedReason :: "TraceSnapshot \<Rightarrow> string \<Rightarrow> string" where
  "ApproveBlockedReason trace taskID = (case mget (Tasks trace) taskID of
     None \<Rightarrow> []
   | Some task \<Rightarrow>
       if \<not> IsMergeTask task then []
       else if t_Status task \<noteq> TaskStatusWaitingReview then []
       else let blockers = map blocker (unfinished trace taskID)
            in if length blockers = 0 then []
               else Itoa (int (length blockers)) @ '' unfinished task(s): '' @ join '', '' (go_sort string_before blockers))"

definition EnsureApprovable :: "(string \<Rightarrow> string) \<Rightarrow> TraceSnapshot \<Rightarrow> string \<Rightarrow> 'e hive_error + unit" where
  "EnsureApprovable quote trace taskID =
    (let reason = ApproveBlockedReason trace taskID
     in if reason = [] then Inr () else Inl (Refused (''cannot approve merge gate '' @ quote taskID @ '': '' @ reason)))"

section \<open>The guard of every decision\<close>

text \<open>The task exists and is a review gate stopped for a person.\<close>

definition waiting_gate :: "(string \<Rightarrow> string) \<Rightarrow> TraceSnapshot \<Rightarrow> string \<Rightarrow> string \<Rightarrow> 'e hive_error + TaskSnapshot" where
  "waiting_gate quote snap traceID taskID = (case mget (Tasks snap) taskID of
     None \<Rightarrow> Inl (Refused (''task '' @ quote taskID @ '' not found in trace '' @ traceID))
   | Some task \<Rightarrow>
       if t_Status task \<noteq> TaskStatusWaitingReview then
         Inl (Refused (''task '' @ quote taskID @ '' is '' @ quote (TaskStatus_str (t_Status task)) @ '', expected waiting_review''))
       else if \<not> IsReviewGate task then Inl (Refused (''task '' @ quote taskID @ '' is not a review gate task''))
       else Inr task)"

definition ensureWaitingReviewGate :: "'l Ledger \<Rightarrow> (string \<Rightarrow> string) \<Rightarrow> string \<Rightarrow> string \<Rightarrow> ('l, 'e, unit) act" where
  "ensureWaitingReviewGate L quote traceID taskID =
    (if traceID = [] \<or> taskID = [] then throw (Refused ''trace and task id are required'')
     else bind_act (read_trace L traceID) (\<lambda>snap. lift_sum (map_sum id (\<lambda>_. ()) (waiting_gate quote snap traceID taskID))))"

definition EnsureRejectable :: "'l Ledger \<Rightarrow> (string \<Rightarrow> string) \<Rightarrow> string \<Rightarrow> string \<Rightarrow> ('l, 'e, unit) act" where
  "EnsureRejectable L quote traceID taskID = ensureWaitingReviewGate L quote traceID taskID"

definition EnsureDiscardable :: "'l Ledger \<Rightarrow> (string \<Rightarrow> string) \<Rightarrow> string \<Rightarrow> string \<Rightarrow> ('l, 'e, unit) act" where
  "EnsureDiscardable L quote traceID taskID = ensureWaitingReviewGate L quote traceID taskID"

section \<open>Rejecting\<close>

text \<open>Publishing without applying: the reactor of the hive applies what arrives on the bus.\<close>

definition send_event :: "env \<Rightarrow> Event \<Rightarrow> ('l, 'e, unit) act" where
  "send_event E ev = (case en_pub E of
     None \<Rightarrow> throw (Refused ''nats client is required'')
   | Some send \<Rightarrow> publish_event E ev)"

record RejectInput =
  rj_TraceID :: string
  rj_TaskID :: string
  rj_Feedback :: string
  rj_AgentID :: string
  rj_Ref :: string

definition human :: "string \<Rightarrow> string" where
  "human agentID = (if agentID = [] then ''human'' else agentID)"

definition feedback_payload :: "RejectInput \<Rightarrow> HumanFeedbackPayload" where
  "feedback_payload r =
    \<lparr>hf_Kind = InsightHumanFeedback, hf_TaskID = rj_TaskID r,
     hf_Message = (if TrimSpace (rj_Feedback r) = [] then ''Please revise the proposal.'' else TrimSpace (rj_Feedback r)),
     hf_Ref = TrimSpace (rj_Ref r), hf_Verdict = ''negative''\<rparr>"

definition Reject :: "'l Ledger \<Rightarrow> env \<Rightarrow> (string \<Rightarrow> string) \<Rightarrow> RejectInput \<Rightarrow> ('l, 'e, unit) act" where
  "Reject L E quote r =
    bind_act (EnsureRejectable L quote (rj_TraceID r) (rj_TaskID r)) (\<lambda>_.
      if en_pub E = None then throw (Refused ''nats client is required'')
      else bind_act (build E (rj_TraceID r) (human (rj_AgentID r)) EventInsight (\<lambda>_. Some (HumanFeedbackPayload_json (feedback_payload r))))
        (\<lambda>ev. send_event E ev))"

section \<open>Discarding\<close>

record DiscardInput =
  dc_TraceID :: string
  dc_TaskID :: string
  dc_Reason :: string
  dc_AgentID :: string

definition discard_payload :: "DiscardInput \<Rightarrow> TaskStatusPayload" where
  "discard_payload d =
    \<lparr>st_Kind = TaskEventStatus, st_TaskID = dc_TaskID d, st_Status = TaskStatusCancelled,
     st_Summary = (if TrimSpace (dc_Reason d) = [] then ''discarded by human'' else TrimSpace (dc_Reason d))\<rparr>"

definition Discard :: "'l Ledger \<Rightarrow> env \<Rightarrow> (string \<Rightarrow> string) \<Rightarrow> DiscardInput \<Rightarrow> ('l, 'e, unit) act" where
  "Discard L E quote d =
    bind_act (EnsureDiscardable L quote (dc_TraceID d) (dc_TaskID d)) (\<lambda>_.
    bind_act (build E (dc_TraceID d) (human (dc_AgentID d)) EventSignal (\<lambda>_. Some (TaskStatusPayload_json (discard_payload d))))
      (\<lambda>ev. WriteEvent L (E\<lparr>en_watch := False\<rparr>) ev))"

section \<open>Rework of a rejected change\<close>

definition EnsureRequestChanges :: "TraceSnapshot \<Rightarrow> 'e hive_error + TaskSnapshot" where
  "EnsureRequestChanges snap = (case LastCompletedIsolatedProposalTask snap of
     None \<Rightarrow> Inl (Refused ''request changes: no completed isolated code.proposal on this trail'')
   | Some source \<Rightarrow> (case InFlightRework snap of
       Some inflight \<Rightarrow> Inl (Refused (''request changes: rework already in flight ('' @ t_TaskID inflight @ '' is ''
         @ TaskStatus_str (t_Status inflight) @ '')''))
     | None \<Rightarrow> Inr source))"

definition ReworkTaskBody :: "TaskSnapshot \<Rightarrow> string" where
  "ReworkTaskBody source =
    ''Apply Beekeeper review comments from the trail comb file `review-comments.md` under ArtifactsDir. ''
    @ ''Open that file for path, line, and body details '' @ em_dash @ '' do not wait for the full review to appear in Insights.'' @ blank_line
    @ ''Keep edits on this Flight Trail worktree. Do not merge to the default branch.'' @ blank_line
    @ ''Original task: `'' @ t_TaskID source @ ''`''
    @ (let title = TrimSpace (t_Title source) in if title \<noteq> [] then '' '' @ em_dash @ '' '' @ title else [])
    @ [newline]
    @ (let body = TrimSpace (t_Body source) in if body \<noteq> [] then [newline] @ body @ [newline] else [])"

definition rework_spec :: "Defaults \<Rightarrow> TaskSnapshot \<Rightarrow> string \<Rightarrow> TaskSpec" where
  "rework_spec defaults source taskID =
    \<lparr>sp_TaskID = taskID, sp_Title = ''Apply review comments'', sp_Body = ReworkTaskBody source,
     sp_Bee = EffectiveTaskBee (t_Bee source) defaults, sp_Sector = t_Sector source, sp_Intent = t_Intent source,
     sp_Review = TaskReviewNone, sp_Phase = TaskPhaseUnset, sp_DependsOn = [], sp_CueID = [], sp_CueInvocationID = []\<rparr>"

text \<open>\<open>tasks.ReadyEvent\<close> resolves the Bee once more.\<close>

definition rework_ready :: "Defaults \<Rightarrow> TaskSnapshot \<Rightarrow> string \<Rightarrow> TaskReadyPayload" where
  "rework_ready defaults source taskID =
    \<lparr>rd_Kind = TaskEventReady, rd_TaskID = taskID, rd_Title = ''Apply review comments'', rd_Body = ReworkTaskBody source,
     rd_Bee = EffectiveTaskBee (EffectiveTaskBee (t_Bee source) defaults) defaults, rd_Sector = t_Sector source,
     rd_Intent = t_Intent source, rd_CueID = [], rd_CueInvocationID = []\<rparr>"

text \<open>The new id is drawn by \<open>colony.NewTaskID\<close>; the defaults are those of the colony, or none.\<close>

definition PlanReworkTask ::
  "env \<Rightarrow> string option \<Rightarrow> Defaults \<Rightarrow> TaskSnapshot \<Rightarrow> string \<Rightarrow> string \<Rightarrow> ('l, 'e, string) act" where
  "PlanReworkTask E drawn defaults source traceID agentID =
    (if en_pub E = None then throw (Refused ''nats client is required'')
     else (case drawn of
         None \<Rightarrow> throw (HostFailed ''task id'')
       | Some taskID \<Rightarrow>
           let agent = (if TrimSpace agentID = [] then ''human'' else agentID)
           in bind_act (build E traceID agent EventInsight (\<lambda>_. Some (plan_one (rework_spec defaults source taskID)))) (\<lambda>planEv.
              bind_act (send_event E planEv) (\<lambda>_.
              bind_act (build E traceID agent EventSignal (\<lambda>_. Some (TaskReadyPayload_json (rework_ready defaults source taskID)))) (\<lambda>readyEv.
              bind_act (send_event E readyEv) (\<lambda>_. ret taskID))))))"

end
