(* ===== verification/TrailConfig.thy ===== *)
theory TrailConfig
  imports Closing GoCrypto LedgerState
begin

text \<open>
  \<open>internal/trailconfig\<close>, trailconfig.go and the helpers of apply.go: the manifest that binds a trail
  to immutable configuration snapshots, the record of configuration changes in it, and the
  check that a candidate still fits the accepted work.
\<close>

section \<open>The manifest\<close>

datatype ConfigPolicy = PolicyEditable | PolicyPinned | PolicyOther string

datatype ApplySource =
    SourceUnset | SourceColony | SourceOverrides | SourceSnapshot | SourceSkillTrial | SourceOther string

datatype Outcome =
    OutcomePending | OutcomeApplied | OutcomeUnchanged | OutcomeRejected | OutcomeCancelled

record Resolved =
  rs_Profile :: string
  rs_Closing :: "ClosingPolicy option"
  rs_Merge :: "MergePolicy option"

record Entry =
  en_Path :: string
  en_SHA256 :: string
  en_Mode :: nat
  en_Size :: int
  en_Private :: bool

record Inventory =
  iv_Entries :: "Entry list"
  iv_Resolved :: Resolved

record Snapshot =
  sn_ConfigRef :: string
  sn_Path :: string
  sn_Source :: ApplySource
  sn_CreatedAt :: time
  sn_Files :: int

record Change =
  ch_Revision :: int
  ch_InitialConfigRef :: string
  ch_ActiveConfigRef :: string
  ch_Source :: ApplySource
  ch_ChangeID :: string
  ch_RequestID :: string
  ch_RequestFingerprint :: string
  ch_Actor :: string
  ch_Reason :: string
  ch_ExpectedRevision :: int
  ch_OldConfigRef :: string
  ch_NewConfigRef :: string
  ch_Outcome :: Outcome
  ch_RequestedAt :: time
  ch_AppliedAt :: "time option"
  ch_Blockers :: "string list"
  ch_Detail :: string
  ch_CreatedAt :: time

record Manifest =
  mf_TraceID :: string
  mf_InitialConfigRef :: string
  mf_ActiveConfigRef :: string
  mf_ConfigRevision :: int
  mf_Policy :: ConfigPolicy
  mf_InitialCodeBaseSHA :: string
  mf_InitialCodeBaseDirty :: bool
  mf_WorkspaceRoot :: string
  mf_CreatedAt :: time
  mf_UpdatedAt :: time
  mf_Snapshots :: "Snapshot list"
  mf_Closing :: "ClosingPolicy option"
  mf_Merge :: "MergePolicy option"
  mf_Pending :: "Change option"
  mf_History :: "Change list"

definition mf_ClosingPolicy :: "Manifest \<Rightarrow> ClosingPolicy" where
  "mf_ClosingPolicy m = (case mf_Closing m of None \<Rightarrow> no_closing | Some p \<Rightarrow> p)"

definition mf_MergePolicy :: "Manifest \<Rightarrow> MergePolicy" where
  "mf_MergePolicy m = (case mf_Merge m of None \<Rightarrow> \<lparr>mp_Title = [], mp_Body = []\<rparr> | Some p \<Rightarrow> p)"

datatype config_error =
    NoBinding
  | TraceIDInvalid string
  | ConfigRefInvalid string
  | RevisionNotPositive | MissingReferences | UnknownPolicy
  | ManifestBelongsTo string
  | SourceRequired | SourceInvalid ApplySource
  | ColonyNotCombined | SnapshotRefRequired | SnapshotNotCombined
  | OverrideRequired | OverridesNotCombined | TrialNeedsBundle | TrialNeedsRole | TrialNotCombined
  | TrailKilled string
  | TrailPinned string
  | RequestReused string
  | NotRetained string
  | RevisionMismatch int int
  | CannotActivate "string list"
  | RemainingIncompatible "string list"
  | NoPendingChange
  | PendingIsOther string
  | AlreadyBound int
  | UnsafeBoundary "string list"
  | ExpectedNotZero int
  | TaskIDRequired | ChainKeyRequired | AttemptIDRequired | AttemptNotFound string
  | CandidateColony string | CandidateBees string
  | MissingBee string string | AdapterInvalid string adapter_error | UnknownSector string string
  | ReviewNotAllowed string
  | FileError string

definition validateTraceID :: "string \<Rightarrow> config_error + unit" where
  "validateTraceID raw =
    (let traceID = TrimSpace raw
     in fail_if (traceID = [] \<or> traceID = ''.'' \<or> traceID = ''..''
          \<or> (\<exists>c \<in> set traceID. c \<in> {CHR ''/'', CHR 0x5C})) (TraceIDInvalid traceID))"

definition validateConfigRef :: "string \<Rightarrow> config_error + unit" where
  "validateConfigRef raw =
    (let ref = TrimSpace raw
     in fail_if (\<not> HasPrefix ref ''sha256:'' \<or> length ref \<noteq> 7 + 64
          \<or> hex_DecodeString (TrimPrefix ref ''sha256:'') = None) (ConfigRefInvalid ref))"

definition validateManifest :: "Manifest \<Rightarrow> config_error + unit" where
  "validateManifest m =
    (if mf_ConfigRevision m < 1 then Inl RevisionNotPositive
     else if TrimSpace (mf_InitialConfigRef m) = [] \<or> TrimSpace (mf_ActiveConfigRef m) = []
     then Inl MissingReferences
     else if mf_Policy m \<noteq> PolicyEditable \<and> mf_Policy m \<noteq> PolicyPinned then Inl UnknownPolicy
     else Inr ())"

text \<open>The manifest file of a trail, if there is one, as \<open>Load\<close> reads it.\<close>

definition LoadManifest :: "string \<Rightarrow> Manifest option \<Rightarrow> config_error + Manifest" where
  "LoadManifest traceID file =
    res_bind (validateTraceID traceID) (\<lambda>_. case file of
      None \<Rightarrow> Inl NoBinding
    | Some m \<Rightarrow>
        if mf_TraceID m \<noteq> [] \<and> mf_TraceID m \<noteq> traceID then Inl (ManifestBelongsTo (mf_TraceID m))
        else res_bind (validateManifest m) (\<lambda>_. Inr m))"

definition PrivatePath :: "string \<Rightarrow> bool" where
  "PrivatePath logical =
    (let p = TrimSpace logical
     in p = ''home'' \<or> HasPrefix p ''home/'' \<or> HasSuffix p ''.local.yaml'')"

section \<open>Changes\<close>

definition addSnapshot :: "Manifest \<Rightarrow> Snapshot \<Rightarrow> Manifest" where
  "addSnapshot m s =
    (if list_ex (\<lambda>old. sn_ConfigRef old = sn_ConfigRef s) (mf_Snapshots m)
     then m\<lparr>mf_Snapshots :=
       (case find (\<lambda>i. sn_ConfigRef (mf_Snapshots m ! i) = sn_ConfigRef s) [0 ..< length (mf_Snapshots m)] of
          None \<Rightarrow> mf_Snapshots m
        | Some i \<Rightarrow> if sn_Source (mf_Snapshots m ! i) = SourceUnset
            then (mf_Snapshots m)[i := (mf_Snapshots m ! i)\<lparr>sn_Source := sn_Source s\<rparr>]
            else mf_Snapshots m)\<rparr>
     else m\<lparr>mf_Snapshots := mf_Snapshots m @ [s]\<rparr>)"

definition retainsSnapshot :: "Manifest \<Rightarrow> string \<Rightarrow> bool" where
  "retainsSnapshot m ref = list_ex (\<lambda>s. sn_ConfigRef s = TrimSpace ref) (mf_Snapshots m)"

definition findChangeByRequest :: "Manifest \<Rightarrow> string \<Rightarrow> Change option" where
  "findChangeByRequest m requestID = (case mf_Pending m of
     Some p \<Rightarrow> if ch_RequestID p = requestID then Some p
       else find (\<lambda>c. ch_RequestID c = requestID) (mf_History m)
   | None \<Rightarrow> find (\<lambda>c. ch_RequestID c = requestID) (mf_History m))"

text \<open>The change record and the manifest that \<open>activate\<close> leaves behind.\<close>

definition activated :: "time \<Rightarrow> Manifest \<Rightarrow> Change \<Rightarrow> Change" where
  "activated now m c = c\<lparr>ch_Revision := mf_ConfigRevision m + 1, ch_ActiveConfigRef := ch_NewConfigRef c,
     ch_InitialConfigRef := mf_InitialConfigRef m, ch_Outcome := OutcomeApplied, ch_AppliedAt := Some now,
     ch_Blockers := []\<rparr>"

definition activate :: "time \<Rightarrow> Manifest \<Rightarrow> Change \<Rightarrow> Manifest \<times> Change" where
  "activate now m c =
    (m\<lparr>mf_ActiveConfigRef := ch_NewConfigRef c, mf_ConfigRevision := mf_ConfigRevision m + 1,
       mf_Pending := None, mf_History := mf_History m @ [activated now m c], mf_UpdatedAt := now\<rparr>,
     activated now m c)"

text \<open>Ending a pending change without activating it.\<close>

definition close_pending :: "time \<Rightarrow> Change \<Rightarrow> Manifest \<Rightarrow> Manifest" where
  "close_pending now c m = m\<lparr>mf_Pending := None, mf_History := mf_History m @ [c], mf_UpdatedAt := now\<rparr>"

fun unique_from :: "string list \<Rightarrow> string list \<Rightarrow> string list" where
  "unique_from seen [] = []"
| "unique_from seen (b # bs) =
    (if b \<in> set seen then unique_from seen bs else b # unique_from (b # seen) bs)"

definition uniqueBlockers :: "string list \<Rightarrow> string list" where
  "uniqueBlockers blockers = unique_from [] blockers"

definition entry_at :: "Entry list \<Rightarrow> string \<Rightarrow> Entry option" where
  "entry_at es path = find (\<lambda>e. en_Path e = path) (rev es)"

definition diffInventories :: "Entry list \<Rightarrow> Entry list \<Rightarrow> string list" where
  "diffInventories base candidate =
    (let gone = concat (map (\<lambda>path. case (entry_at base path, entry_at candidate path) of
           (Some b, None) \<Rightarrow> [''removed '' @ path]
         | (Some b, Some c) \<Rightarrow> if en_SHA256 b \<noteq> en_SHA256 c \<or> en_Mode b \<noteq> en_Mode c
             then [''changed '' @ path] else []
         | _ \<Rightarrow> []) (remdups (map en_Path base)));
         new = concat (map (\<lambda>path. if entry_at base path = None then [''added '' @ path] else [])
           (remdups (map en_Path candidate)))
     in go_sort key_before (gone @ new))"

section \<open>The work a candidate must still serve\<close>

record ProcedureWork =
  pw_TaskID :: string
  pw_Title :: string
  pw_Body :: string
  pw_Bee :: string
  pw_Sector :: string
  pw_Intent :: string
  pw_Review :: TaskReviewPolicy

definition unstarted :: "TaskSnapshot \<Rightarrow> bool" where
  "unstarted t \<longleftrightarrow> \<not> IsFinalReviewTask t
     \<and> t_Status t \<in> {TaskStatusPlanned, TaskStatusReady, TaskStatusBlocked, TaskStatusFailed}"

definition RemainingProcedureWork :: "TraceSnapshot \<Rightarrow> ProcedureWork list" where
  "RemainingProcedureWork snap = map (\<lambda>t. \<lparr>pw_TaskID = t_TaskID t, pw_Title = t_Title t, pw_Body = t_Body t,
     pw_Bee = t_Bee t, pw_Sector = t_Sector t, pw_Intent = t_Intent t, pw_Review = t_Review t\<rparr>)
     (filter unstarted (task_list snap))"

text \<open>What loading a candidate tree gives: the colony file with its sectors, and the Bees.\<close>

record Tree =
  tr_Colony :: "string + (Defaults \<times> (string, string) gomap)"
  tr_Bees :: "string + (string, Bee) gomap"

definition ResolveSector :: "(string, string) gomap \<Rightarrow> string \<Rightarrow> string option" where
  "ResolveSector sectors name0 =
    (let name = TrimSpace name0 in if name = [] then Some [] else mget sectors name)"

definition work_spec :: "ProcedureWork \<Rightarrow> string \<Rightarrow> TaskSpec" where
  "work_spec w bee = \<lparr>sp_TaskID = pw_TaskID w, sp_Title = pw_Title w, sp_Body = pw_Body w, sp_Bee = bee,
     sp_Sector = pw_Sector w, sp_Intent = pw_Intent w, sp_Review = pw_Review w, sp_Phase = TaskPhaseUnset,
     sp_DependsOn = [], sp_CueID = [], sp_CueInvocationID = []\<rparr>"

definition validateProcedureWork ::
  "Defaults \<Rightarrow> (string, string) gomap \<Rightarrow> (string, Bee) gomap \<Rightarrow> ProcedureWork \<Rightarrow> config_error + unit" where
  "validateProcedureWork defaults sectors bees w =
    (let beeRole = EffectiveTaskBee (pw_Bee w) defaults
     in case mget bees beeRole of
          None \<Rightarrow> Inl (MissingBee beeRole (pw_TaskID w))
        | Some bee \<Rightarrow>
            res_bind (map_sum (AdapterInvalid (pw_TaskID w)) id (ValidateAdapterRequirements bee)) (\<lambda>_.
            res_bind (fail_if (TrimSpace (pw_Sector w) \<noteq> [] \<and> ResolveSector sectors (TrimSpace (pw_Sector w)) = None)
              (UnknownSector (TrimSpace (pw_Sector w)) (pw_TaskID w))) (\<lambda>_.
              fail_if (\<not> ValidateTaskReviewPolicy (work_spec w beeRole) bees defaults)
                (ReviewNotAllowed (pw_TaskID w)))))"

record RemainingWorkPreview =
  rw_Compatible :: bool
  rw_Checked :: "string list"
  rw_Problems :: "config_error list"

definition EvaluateRemaining :: "Tree \<Rightarrow> TraceSnapshot \<Rightarrow> RemainingWorkPreview" where
  "EvaluateRemaining tree snap = (case (tr_Colony tree, tr_Bees tree) of
     (Inl e, _) \<Rightarrow> \<lparr>rw_Compatible = False, rw_Checked = [], rw_Problems = [CandidateColony e]\<rparr>
   | (Inr _, Inl e) \<Rightarrow> \<lparr>rw_Compatible = False, rw_Checked = [], rw_Problems = [CandidateBees e]\<rparr>
   | (Inr (defaults, sectors), Inr bees) \<Rightarrow>
       let work = RemainingProcedureWork snap;
           problems = concat (map (\<lambda>w. case validateProcedureWork defaults sectors bees w of
             Inl e \<Rightarrow> [e] | Inr _ \<Rightarrow> []) work)
       in \<lparr>rw_Compatible = (problems = []), rw_Checked = map pw_TaskID work, rw_Problems = problems\<rparr>)"

section \<open>Facts\<close>

lemma map_sum_unit [simp]: "map_sum f id r = Inr (u :: unit) \<longleftrightarrow> r = Inr ()"
  by (cases r) auto

lemma not_Inl_unit: "(\<forall>e. r \<noteq> Inl e) \<longleftrightarrow> r = Inr ()"
  by (cases r) auto

lemma unique_from_set: "set (unique_from seen bs) = set bs - set seen"
  by (induction bs arbitrary: seen) auto

lemma set_uniqueBlockers [simp]: "set (uniqueBlockers bs) = set bs"
  by (simp add: uniqueBlockers_def unique_from_set)

lemma uniqueBlockers_Nil [simp]: "uniqueBlockers bs = [] \<longleftrightarrow> bs = []"
  by (metis set_empty set_uniqueBlockers)

lemma distinct_unique_from: "distinct (unique_from seen bs)"
  by (induction bs arbitrary: seen) (auto simp: unique_from_set)

lemma addSnapshot_refs: "sn_ConfigRef ` set (mf_Snapshots (addSnapshot m s))
    = insert (sn_ConfigRef s) (sn_ConfigRef ` set (mf_Snapshots m))"
proof (cases "\<exists>old \<in> set (mf_Snapshots m). sn_ConfigRef old = sn_ConfigRef s")
  case True
  have upd: "map sn_ConfigRef (xs[i := (xs ! i)\<lparr>sn_Source := r\<rparr>]) = map sn_ConfigRef xs" for xs i r
    by (cases "i < length xs") (simp_all add: map_update list_update_same_conv list_update_beyond)
  have "map sn_ConfigRef (mf_Snapshots (addSnapshot m s)) = map sn_ConfigRef (mf_Snapshots m)"
    using True by (simp add: addSnapshot_def list_ex_iff upd split: option.split)
  then have "sn_ConfigRef ` set (mf_Snapshots (addSnapshot m s)) = sn_ConfigRef ` set (mf_Snapshots m)"
    by (metis list.set_map)
  with True show ?thesis by (metis image_eqI insert_absorb)
qed (simp add: addSnapshot_def list_ex_iff)

lemma addSnapshot_frame [simp]:
  "mf_ActiveConfigRef (addSnapshot m s) = mf_ActiveConfigRef m"
  "mf_ConfigRevision (addSnapshot m s) = mf_ConfigRevision m"
  "mf_InitialConfigRef (addSnapshot m s) = mf_InitialConfigRef m"
  "mf_Policy (addSnapshot m s) = mf_Policy m" "mf_TraceID (addSnapshot m s) = mf_TraceID m"
  "mf_Pending (addSnapshot m s) = mf_Pending m" "mf_History (addSnapshot m s) = mf_History m"
  by (simp_all add: addSnapshot_def)

lemma activate_simps [simp]:
  "mf_ActiveConfigRef (fst (activate now m c)) = ch_NewConfigRef c"
  "mf_ConfigRevision (fst (activate now m c)) = mf_ConfigRevision m + 1"
  "mf_Pending (fst (activate now m c)) = None"
  "mf_History (fst (activate now m c)) = mf_History m @ [activated now m c]"
  "mf_Snapshots (fst (activate now m c)) = mf_Snapshots m"
  "mf_InitialConfigRef (fst (activate now m c)) = mf_InitialConfigRef m"
  "mf_Policy (fst (activate now m c)) = mf_Policy m" "mf_TraceID (fst (activate now m c)) = mf_TraceID m"
  "snd (activate now m c) = activated now m c"
  by (simp_all add: activate_def)

lemma activated_simps [simp]:
  "ch_Outcome (activated now m c) = OutcomeApplied" "ch_Revision (activated now m c) = mf_ConfigRevision m + 1"
  "ch_ActiveConfigRef (activated now m c) = ch_NewConfigRef c" "ch_RequestID (activated now m c) = ch_RequestID c"
  "ch_Blockers (activated now m c) = []" "ch_NewConfigRef (activated now m c) = ch_NewConfigRef c"
  "ch_RequestFingerprint (activated now m c) = ch_RequestFingerprint c"
  by (simp_all add: activated_def)

lemma findChange_None: "findChangeByRequest m r = None \<longleftrightarrow>
    (\<forall>c \<in> set (mf_History m) \<union> set_option (mf_Pending m). ch_RequestID c \<noteq> r)"
  by (auto simp: findChangeByRequest_def find_None_iff split: option.split)

lemma findChange_Some: "findChangeByRequest m r = Some c \<Longrightarrow>
    ch_RequestID c = r \<and> (c \<in> set (mf_History m) \<or> mf_Pending m = Some c)"
  by (auto simp: findChangeByRequest_def find_Some_iff split: option.splits if_splits)

text \<open>A compatible candidate serves every accepted task that has not started.\<close>

lemma EvaluateRemaining_compatible:
  "rw_Compatible (EvaluateRemaining tree snap) \<longleftrightarrow>
    (\<exists>defaults sectors bees. tr_Colony tree = Inr (defaults, sectors) \<and> tr_Bees tree = Inr bees
      \<and> (\<forall>w \<in> set (RemainingProcedureWork snap). validateProcedureWork defaults sectors bees w = Inr ()))"
  by (auto simp: EvaluateRemaining_def Let_def not_Inl_unit split: sum.splits)

lemma validateProcedureWork_bee:
  assumes "validateProcedureWork defaults sectors bees w = Inr ()"
  obtains bee where "mget bees (EffectiveTaskBee (pw_Bee w) defaults) = Some bee"
    "ValidateAdapterRequirements bee = Inr ()"
    "NormalizeTaskReviewPolicy (pw_Review w) = TaskReviewFinal \<longrightarrow>
      ExpectedProposalWorkspace bee \<noteq> Some ProposalWorkspaceRoot"
proof (cases "mget bees (EffectiveTaskBee (pw_Bee w) defaults)")
  case None
  with assms show ?thesis by (simp add: validateProcedureWork_def)
next
  case (Some bee)
  with assms have a: "ValidateAdapterRequirements bee = Inr ()"
    "ValidateTaskReviewPolicy (work_spec w (EffectiveTaskBee (pw_Bee w) defaults)) bees defaults"
    by (auto simp: validateProcedureWork_def res_bind_Inr_iff)
  have "EffectiveTaskBee (EffectiveTaskBee (pw_Bee w) defaults) defaults = EffectiveTaskBee (pw_Bee w) defaults"
    using EffectiveTaskBee_trimmed [of "pw_Bee w" defaults] by (simp add: EffectiveTaskBee_def [of "EffectiveTaskBee _ _"] Let_def)
  with a(2) Some have "NormalizeTaskReviewPolicy (pw_Review w) = TaskReviewFinal \<longrightarrow>
      ExpectedProposalWorkspace bee \<noteq> Some ProposalWorkspaceRoot"
    by (simp add: ValidateTaskReviewPolicy_def work_spec_def split: if_splits)
  with Some a(1) that show ?thesis by blast
qed

end
