(* ===== verification/Delivery.thy ===== *)
theory Delivery
  imports HumanGate Routing TrailConfig
begin

text \<open>
  Approving a review gate (\<open>internal/review/gate.go\<close>, \<open>proposal.go\<close>, \<open>completion.go\<close>, \<open>experimental.go\<close>,
  \<open>publish.go\<close>), completing a published trail (\<open>reconcile.go\<close>) and handing in annotated comments
  (\<open>comments.go\<close>). Merging, pushing, the forge, the evidence files and the comb are calls to the host:
  an approval yields, beside the new state, the list of the effects it had outside, oldest first.
  The host's answers are an argument and do not change during one call.
\<close>

section \<open>Actions with effects outside\<close>

record ForgeRequest =
  fr_Op :: string
  fr_Head :: string
  fr_Base :: string
  fr_Title :: string
  fr_Body :: string
  fr_Draft :: bool
  fr_TraceID :: string
  fr_Origin :: string

record ForgeResponse =
  fo_Found :: bool
  fo_Number :: int
  fo_URL :: string
  fo_Head :: string
  fo_Base :: string
  fo_State :: string
  fo_Draft :: bool

record PullRequestEntry =
  pr_TraceID :: string
  pr_URL :: string
  pr_Number :: int
  pr_Head :: string
  pr_Base :: string
  pr_State :: string
  pr_Draft :: bool

datatype effect =
    Captured TraceSnapshot
  | Merged string
  | Pushed string
  | Asked ForgeRequest
  | Remembered PullRequestEntry
  | Removed string
  | BranchDeleted string
  | Forgotten string
  | CombWritten string

type_synonym ('l, 'e, 'a) fx = "'l hive \<Rightarrow> 'l hive \<times> effect list \<times> ('e hive_error + 'a)"

definition lift_act :: "('l, 'e, 'a) act \<Rightarrow> ('l, 'e, 'a) fx" where
  "lift_act m s = (case m s of (s', r) \<Rightarrow> (s', [], r))"

definition perform :: "effect \<Rightarrow> 'e hive_error + 'a \<Rightarrow> ('l, 'e, 'a) fx" where
  "perform e r s = (s, [e], r)"

definition bind_fx :: "('l, 'e, 'a) fx \<Rightarrow> ('a \<Rightarrow> ('l, 'e, 'b) fx) \<Rightarrow> ('l, 'e, 'b) fx" where
  "bind_fx m f s = (case m s of
     (s', es, Inl e) \<Rightarrow> (s', es, Inl e)
   | (s', es, Inr x) \<Rightarrow> (case f x s' of (s'', es', r) \<Rightarrow> (s'', es @ es', r)))"

abbreviation give :: "'a \<Rightarrow> ('l, 'e, 'a) fx" where "give x \<equiv> lift_act (ret x)"

abbreviation fails :: "'e hive_error \<Rightarrow> ('l, 'e, 'a) fx" where "fails e \<equiv> lift_act (throw e)"

text \<open>An answer of the host that may be missing.\<close>

definition asked :: "string \<Rightarrow> 'a option \<Rightarrow> ('l, 'e, 'a) fx" where
  "asked name x = (case x of None \<Rightarrow> fails (HostFailed name) | Some v \<Rightarrow> give v)"

section \<open>The host\<close>

datatype binding = Bound ConfigPolicy | Unbound | BindingUnreadable

datatype lineage = Forked | NoLineage | LineageUnreadable

datatype capture = CaptureWritten | NoTrail | CaptureFailed

record 'e review_host =
  rh_gate :: "'e gate_host" \<comment> \<open>the colony root, quoting, the trace title\<close>
  rh_slug :: string
  rh_policies :: "GatePolicies option" \<comment> \<open>\<open>pinnedGatePolicies\<close>\<close>
  rh_bees :: "(string, Bee) gomap option" \<comment> \<open>\<open>LoadAllBees\<close>\<close>
  rh_defaults :: "Defaults option" \<comment> \<open>\<open>LoadColony\<close>\<close>
  rh_binding :: binding \<comment> \<open>\<open>trailconfig.Load\<close>\<close>
  rh_lineage :: lineage \<comment> \<open>\<open>trailfork.LoadLineage\<close>\<close>
  rh_capture :: "TraceSnapshot \<Rightarrow> capture" \<comment> \<open>\<open>CaptureWorkCompletion\<close>\<close>
  rh_worktree :: bool \<comment> \<open>the trail's worktree is there\<close>
  rh_summary :: "string option"
  rh_body :: "string option"
  rh_merge :: "string \<Rightarrow> (string \<times> StashOutcome) option" \<comment> \<open>\<open>worktree.Merge\<close>\<close>
  rh_origin :: "string option"
  rh_forge :: bool \<comment> \<open>a forge command is configured\<close>
  rh_forge_runs :: bool \<comment> \<open>\<open>CheckCommand\<close>\<close>
  rh_branch :: "string option"
  rh_push :: "string \<Rightarrow> bool \<Rightarrow> bool" \<comment> \<open>the branch, and whether hooks run\<close>
  rh_base :: "string option"
  rh_ask :: "ForgeRequest \<Rightarrow> ForgeResponse option" \<comment> \<open>\<open>forge.Invoke\<close>\<close>
  rh_remember :: "PullRequestEntry \<Rightarrow> bool" \<comment> \<open>\<open>UpsertPullRequest\<close>\<close>
  rh_published :: "PullRequestEntry option option" \<comment> \<open>\<open>FindPullRequest\<close>: unreadable, none, one\<close>
  rh_remove :: bool \<comment> \<open>\<open>worktree.Remove\<close>\<close>
  rh_comb :: "string \<Rightarrow> string \<Rightarrow> string option" \<comment> \<open>writes and announces the packet in the comb, for a producer\<close>
  rh_task_id :: "string option" \<comment> \<open>\<open>colony.NewTaskID\<close>\<close>

abbreviation rh_root :: "'e review_host \<Rightarrow> string" where "rh_root H \<equiv> gh_root (rh_gate H)"

abbreviation rh_quote :: "'e review_host \<Rightarrow> string \<Rightarrow> string" where "rh_quote H \<equiv> gh_quote (rh_gate H)"

section \<open>Which way a result is delivered (proposal.go)\<close>

definition IsRootProposalTask :: "TaskSnapshot \<Rightarrow> (string, Bee) gomap \<Rightarrow> Defaults \<Rightarrow> bool" where
  "IsRootProposalTask task bees defaults = (case t_ProposalWorkspace task of
     ProposalWorkspaceRoot \<Rightarrow> True
   | ProposalWorkspaceIsolated \<Rightarrow> False
   | _ \<Rightarrow> (case mget bees (EffectiveTaskBee (t_Bee task) defaults) of
         None \<Rightarrow> False
       | Some bee \<Rightarrow> ExpectedProposalWorkspace bee = Some ProposalWorkspaceRoot))"

definition ShouldMergeOnApprove :: "TaskSnapshot \<Rightarrow> (string, Bee) gomap \<Rightarrow> Defaults \<Rightarrow> bool" where
  "ShouldMergeOnApprove task bees defaults =
    (if \<not> IsFinalReviewTask task then False
     else if IsRootProposalTask task bees defaults then False
     else ResolvedDelivery defaults \<noteq> ''pull_request'')"

definition ShouldPublishOnApprove :: "TaskSnapshot \<Rightarrow> (string, Bee) gomap \<Rightarrow> Defaults \<Rightarrow> bool" where
  "ShouldPublishOnApprove task bees defaults =
    (if \<not> IsFinalReviewTask task then False
     else if IsRootProposalTask task bees defaults then False
     else ResolvedDelivery defaults = ''pull_request'')"

definition IsExperimentalTrail :: "'e review_host \<Rightarrow> string \<Rightarrow> 'e hive_error + bool" where
  "IsExperimentalTrail H traceID =
    (if TrimSpace (rh_root H) = [] \<or> TrimSpace traceID = [] then Inr False
     else if rh_binding H = Bound PolicyPinned then Inr True
     else if rh_binding H = BindingUnreadable then Inl (HostFailed ''trail policy'')
     else (case rh_lineage H of
         Forked \<Rightarrow> Inr True
       | NoLineage \<Rightarrow> Inr False
       | LineageUnreadable \<Rightarrow> Inl (HostFailed ''fork lineage'')))"

definition errExperimentalDelivery :: "string \<Rightarrow> 'e hive_error" where
  "errExperimentalDelivery traceID = Refused (''review: trail '' @ traceID
     @ '' is an experimental fork; merge, branch push, and pull-request publication are disabled'')"

definition ensureWorkCompletionEvidence :: "'e review_host \<Rightarrow> TraceSnapshot \<Rightarrow> ('l, 'e, unit) fx" where
  "ensureWorkCompletionEvidence H trace =
    (if rh_root H = [] \<or> TraceID trace = [] then give ()
     else if \<not> wv_Complete (EvaluateWorkCompletion trace) then give ()
     else if WorkRevision trace < 1 then give ()
     else (case rh_capture H trace of
         CaptureWritten \<Rightarrow> perform (Captured trace) (Inr ())
       | NoTrail \<Rightarrow> give ()
       | CaptureFailed \<Rightarrow> fails (HostFailed ''work completion'')))"

section \<open>Publishing a pull request (publish.go)\<close>

definition ResolvePublishCopy :: "'e review_host \<Rightarrow> string \<Rightarrow> string \<Rightarrow> string \<Rightarrow> 'e hive_error + string \<times> string" where
  "ResolvePublishCopy H traceID prTitle prBody =
    res_bind (if TrimSpace prTitle \<noteq> [] then Inr (TrimSpace prTitle)
       else (case gh_title (rh_gate H) of None \<Rightarrow> Inl (HostFailed ''trace title'') | Some t \<Rightarrow> Inr (TrimSpace t))) (\<lambda>title.
    res_bind (if TrimSpace prBody \<noteq> [] then Inr (TrimSpace prBody)
       else (case rh_body H of None \<Rightarrow> Inl (HostFailed ''pr body'') | Some t \<Rightarrow> Inr (TrimSpace t))) (\<lambda>body.
    res_bind (if body \<noteq> [] then Inr body
       else (case rh_summary H of None \<Rightarrow> Inl (HostFailed ''trace summary'') | Some t \<Rightarrow> Inr (TrimSpace t))) (\<lambda>body.
    Inr (if title = [] then defaultMergeSubject traceID else title, body))))"

record ApproveInput =
  ai_TraceID :: string
  ai_TaskID :: string
  ai_Summary :: string
  ai_MergeMessage :: string
  ai_PRTitle :: string
  ai_PRBody :: string
  ai_Draft :: bool
  ai_RunHooks :: bool
  ai_AgentID :: string

record ApproveResult =
  ap_CommitSHA :: string
  ap_StashOutcome :: StashOutcome
  ap_Published :: bool
  ap_PRURL :: string
  ap_PRNumber :: int
  ap_PRState :: string
  ap_Experimental :: bool

definition no_delivery :: "bool \<Rightarrow> ApproveResult" where
  "no_delivery experimental = \<lparr>ap_CommitSHA = [], ap_StashOutcome = StashOutcomeUnset, ap_Published = False,
     ap_PRURL = [], ap_PRNumber = 0, ap_PRState = [], ap_Experimental = experimental\<rparr>"

definition entry_of :: "string \<Rightarrow> ForgeResponse \<Rightarrow> PullRequestEntry" where
  "entry_of traceID resp = \<lparr>pr_TraceID = traceID, pr_URL = fo_URL resp, pr_Number = fo_Number resp, pr_Head = fo_Head resp,
     pr_Base = fo_Base resp, pr_State = fo_State resp, pr_Draft = fo_Draft resp\<rparr>"

definition ask :: "'e review_host \<Rightarrow> string \<Rightarrow> ForgeRequest \<Rightarrow> ('l, 'e, ForgeResponse) fx" where
  "ask H name req = perform (Asked req) (case rh_ask H req of None \<Rightarrow> Inl (HostFailed name) | Some resp \<Rightarrow> Inr resp)"

definition keep :: "'e review_host \<Rightarrow> PullRequestEntry \<Rightarrow> ('l, 'e, unit) fx" where
  "keep H entry = perform (Remembered entry) (if rh_remember H entry then Inr () else Inl (HostFailed ''pull request record''))"

definition publishPullRequest :: "'e review_host \<Rightarrow> string \<Rightarrow> ApproveInput \<Rightarrow> ('l, 'e, ApproveResult) fx" where
  "publishPullRequest H traceID inp =
    bind_fx (lift_act (lift_sum (IsExperimentalTrail H traceID))) (\<lambda>experimental.
    if experimental then fails (errExperimentalDelivery traceID)
    else if TrimSpace (ai_MergeMessage inp) \<noteq> [] then
      fails (Refused ''review: --merge-message is not valid when defaults.delivery is pull_request; use --pr-title / --pr-body'')
    else bind_fx (asked ''origin'' (rh_origin H)) (\<lambda>origin.
    if TrimSpace origin = [] then fails (Refused ''review: cannot publish pull request: no origin remote'')
    else if \<not> rh_forge H then fails (Refused ''review: cannot publish pull request: home forge.command is not configured'')
    else if \<not> rh_forge_runs H then fails (HostFailed ''forge command'')
    else if \<not> rh_worktree H then
      fails (Refused (''review: cannot publish pull request: worktree for '' @ traceID @ '' is missing''))
    else bind_fx (asked ''branch'' (rh_branch H)) (\<lambda>branch.
    bind_fx (perform (Pushed branch) (if rh_push H branch (ai_RunHooks inp) then Inr () else Inl (HostFailed ''git push''))) (\<lambda>_.
    bind_fx (lift_act (lift_sum (ResolvePublishCopy H traceID (ai_PRTitle inp) (ai_PRBody inp)))) (\<lambda>(title, body).
    bind_fx (asked ''default branch'' (rh_base H)) (\<lambda>base.
    bind_fx (ask H ''forge upsert'' \<lparr>fr_Op = ''upsert'', fr_Head = branch, fr_Base = base, fr_Title = title, fr_Body = body,
        fr_Draft = ai_Draft inp, fr_TraceID = traceID, fr_Origin = origin\<rparr>) (\<lambda>resp.
    bind_fx (if rh_slug H \<noteq> [] then keep H (entry_of traceID resp) else give ()) (\<lambda>_.
    give \<lparr>ap_CommitSHA = [], ap_StashOutcome = StashOutcomeUnset, ap_Published = True, ap_PRURL = fo_URL resp,
      ap_PRNumber = fo_Number resp, ap_PRState = fo_State resp, ap_Experimental = False\<rparr>))))))))"

section \<open>Approving (gate.go)\<close>

definition mergeWorktree :: "'e review_host \<Rightarrow> ApproveInput \<Rightarrow> ApproveResult \<Rightarrow> ('l, 'e, ApproveResult) fx" where
  "mergeWorktree H inp result =
    (if \<not> rh_worktree H then give result
     else bind_fx (asked ''trace summary'' (rh_summary H)) (\<lambda>summary.
       let message = FormatMessage (ComposeMergeMessage (ai_TraceID inp) (ai_MergeMessage inp) summary)
       in perform (Merged message) (case rh_merge H message of
            None \<Rightarrow> Inl (HostFailed ''merge'')
          | Some (sha, stash) \<Rightarrow> Inr (result\<lparr>ap_CommitSHA := sha, ap_StashOutcome := stash\<rparr>))))"

definition ActivateFinalReviewGate :: "'l Ledger \<Rightarrow> env \<Rightarrow> 'e review_host \<Rightarrow> string \<Rightarrow> ('l, 'e, unit) act" where
  "ActivateFinalReviewGate L E H traceID = (case rh_policies H of
     None \<Rightarrow> throw (HostFailed ''pinned policies'')
   | Some policies \<Rightarrow> bind_act (EnsureTrailPhases L E (rh_gate H) policies traceID) (\<lambda>_. ret ()))"

definition approval_payload :: "ApproveInput \<Rightarrow> string \<Rightarrow> time \<Rightarrow> TaskCompletedPayload" where
  "approval_payload inp sha now =
    \<lparr>cp_Kind = TaskEventCompleted, cp_TaskID = ai_TaskID inp, cp_Status = TaskStatusCompleted,
     cp_Summary = (if TrimSpace (ai_Summary inp) = [] then ''approved by human'' else TrimSpace (ai_Summary inp)),
     cp_Commit = sha, cp_CompletedAt = now\<rparr>"

definition completeApproved :: "'l Ledger \<Rightarrow> env \<Rightarrow> 'e review_host \<Rightarrow> ApproveInput \<Rightarrow> string \<Rightarrow> ('l, 'e, unit) act" where
  "completeApproved L E H inp sha =
    bind_act (build E (ai_TraceID inp) (human (ai_AgentID inp)) EventVerification
      (\<lambda>n. TaskCompletedPayload_json (approval_payload inp sha (en_done E n)))) (\<lambda>ev.
    bind_act (WriteEvent L E ev) (\<lambda>_. ActivateFinalReviewGate L E H (ai_TraceID inp)))"

text \<open>What is approved: the waiting gate, unless it may not be approved yet.\<close>

definition approvable :: "'l Ledger \<Rightarrow> 'e review_host \<Rightarrow> ApproveInput \<Rightarrow> ('l, 'e, TraceSnapshot \<times> TaskSnapshot) act" where
  "approvable L H inp =
    (if ai_TraceID inp = [] \<or> ai_TaskID inp = [] then throw (Refused ''trace and task id are required'')
     else bind_act (read_trace L (ai_TraceID inp)) (\<lambda>snap.
       bind_act (lift_sum (waiting_gate (rh_quote H) snap (ai_TraceID inp) (ai_TaskID inp))) (\<lambda>task.
       bind_act (lift_sum (EnsureApprovable (rh_quote H) snap (ai_TaskID inp))) (\<lambda>_. ret (snap, task)))))"

text \<open>Delivery and completion; an experimental trail is completed without being delivered.\<close>

definition deliverApproved ::
  "'l Ledger \<Rightarrow> env \<Rightarrow> 'e review_host \<Rightarrow> ApproveInput \<Rightarrow> TaskSnapshot \<Rightarrow> (string, Bee) gomap \<Rightarrow> Defaults \<Rightarrow> bool
    \<Rightarrow> ('l, 'e, ApproveResult) fx" where
  "deliverApproved L E H inp task bees defaults experimental =
    (if \<not> experimental \<and> ShouldPublishOnApprove task bees defaults then publishPullRequest H (ai_TraceID inp) inp
     else bind_fx (if \<not> experimental \<and> ShouldMergeOnApprove task bees defaults
         then mergeWorktree H inp (no_delivery experimental) else give (no_delivery experimental)) (\<lambda>result.
       bind_fx (lift_act (completeApproved L E H inp (ap_CommitSHA result))) (\<lambda>_. give result)))"

definition Approve :: "'l Ledger \<Rightarrow> env \<Rightarrow> 'e review_host \<Rightarrow> ApproveInput \<Rightarrow> ('l, 'e, ApproveResult) fx" where
  "Approve L E H inp =
    bind_fx (lift_act (approvable L H inp)) (\<lambda>(snap, task).
    bind_fx (asked ''bees'' (rh_bees H)) (\<lambda>bees.
    bind_fx (asked ''colony'' (rh_defaults H)) (\<lambda>defaults.
    bind_fx (lift_act (lift_sum (IsExperimentalTrail H (ai_TraceID inp)))) (\<lambda>experimental.
    bind_fx (ensureWorkCompletionEvidence H snap) (\<lambda>_.
    deliverApproved L E H inp task bees defaults experimental)))))"

section \<open>Completing a published trail (reconcile.go)\<close>

record ReconcileResult =
  rr_TraceID :: string
  rr_State :: string
  rr_URL :: string
  rr_Completed :: bool

definition merged_payload :: "string \<Rightarrow> PullRequestEntry \<Rightarrow> time \<Rightarrow> TaskCompletedPayload" where
  "merged_payload taskID entry now =
    \<lparr>cp_Kind = TaskEventCompleted, cp_TaskID = taskID, cp_Status = TaskStatusCompleted,
     cp_Summary = (if TrimSpace (pr_URL entry) \<noteq> [] then ''Pull request merged: '' @ TrimSpace (pr_URL entry) else ''Pull request merged''),
     cp_Commit = [], cp_CompletedAt = now\<rparr>"

definition completePublishedTrail ::
  "'l Ledger \<Rightarrow> env \<Rightarrow> 'e review_host \<Rightarrow> string \<Rightarrow> PullRequestEntry \<Rightarrow> ('l, 'e, bool) fx" where
  "completePublishedTrail L E H traceID entry =
    bind_fx (lift_act (read_trace L traceID)) (\<lambda>snap.
    bind_fx (ensureWorkCompletionEvidence H snap) (\<lambda>_.
    bind_fx (case FindFinalReviewTask snap of
        None \<Rightarrow> give False
      | Some task \<Rightarrow>
          if t_Status task \<noteq> TaskStatusWaitingReview then give False
          else bind_fx (lift_act (build E traceID RuntimeAgentID EventVerification
                 (\<lambda>n. TaskCompletedPayload_json (merged_payload (t_TaskID task) entry (en_done E n))))) (\<lambda>ev.
               bind_fx (lift_act (WriteEvent L E ev)) (\<lambda>_. give True))) (\<lambda>completed.
    bind_fx (perform (Removed traceID) (if rh_remove H then Inr () else Inl (HostFailed ''worktree''))) (\<lambda>_.
    bind_fx (if TrimSpace (pr_Head entry) \<noteq> [] then perform (BranchDeleted (TrimSpace (pr_Head entry))) (Inr ()) else give ()) (\<lambda>_.
    perform (Forgotten traceID) (Inr completed))))))"

text \<open>What the forge answered is recorded; a merged pull request completes the trail.\<close>

definition forge_answer :: "PullRequestEntry \<Rightarrow> ForgeResponse \<Rightarrow> PullRequestEntry" where
  "forge_answer entry resp = (if fo_Found resp then entry\<lparr>pr_URL := fo_URL resp, pr_Number := fo_Number resp, pr_Head := fo_Head resp,
     pr_Base := fo_Base resp, pr_State := fo_State resp, pr_Draft := fo_Draft resp\<rparr> else entry)"

definition settlePublished ::
  "'l Ledger \<Rightarrow> env \<Rightarrow> 'e review_host \<Rightarrow> string \<Rightarrow> PullRequestEntry \<Rightarrow> bool \<Rightarrow> ('l, 'e, ReconcileResult) fx" where
  "settlePublished L E H traceID entry found =
    (let result = \<lparr>rr_TraceID = traceID, rr_State = pr_State entry, rr_URL = pr_URL entry, rr_Completed = False\<rparr>
     in bind_fx (if found then keep H entry else give ()) (\<lambda>_.
        if pr_State entry \<noteq> ''merged'' then give result
        else bind_fx (completePublishedTrail L E H traceID entry) (\<lambda>completed.
          give (result\<lparr>rr_Completed := completed\<rparr>))))"

definition pollPublished :: "'l Ledger \<Rightarrow> env \<Rightarrow> 'e review_host \<Rightarrow> string \<Rightarrow> PullRequestEntry \<Rightarrow> ('l, 'e, ReconcileResult) fx" where
  "pollPublished L E H traceID entry =
    bind_fx (if TrimSpace (pr_Head entry) \<noteq> [] then give (TrimSpace (pr_Head entry)) else asked ''branch'' (rh_branch H)) (\<lambda>head.
      let origin = (case rh_origin H of None \<Rightarrow> [] | Some v \<Rightarrow> v);
          base = (if TrimSpace (pr_Base entry) \<noteq> [] then TrimSpace (pr_Base entry)
                  else case rh_base H of None \<Rightarrow> [] | Some v \<Rightarrow> v)
      in bind_fx (ask H ''forge get'' \<lparr>fr_Op = ''get'', fr_Head = head, fr_Base = base, fr_Title = [], fr_Body = [],
           fr_Draft = False, fr_TraceID = traceID, fr_Origin = origin\<rparr>) (\<lambda>resp.
         settlePublished L E H traceID (forge_answer entry resp) (fo_Found resp)))"

definition ReconcilePublished :: "'l Ledger \<Rightarrow> env \<Rightarrow> 'e review_host \<Rightarrow> string \<Rightarrow> ('l, 'e, ReconcileResult) fx" where
  "ReconcilePublished L E H trace =
    (let traceID = TrimSpace trace
     in if traceID = [] \<or> rh_slug H = [] then give \<lparr>rr_TraceID = [], rr_State = [], rr_URL = [], rr_Completed = False\<rparr>
        else bind_fx (lift_act (lift_sum (IsExperimentalTrail H traceID))) (\<lambda>experimental.
          if experimental then fails (errExperimentalDelivery traceID)
          else (case rh_published H of
              None \<Rightarrow> fails (HostFailed ''pull request record'')
            | Some None \<Rightarrow> give \<lparr>rr_TraceID = [], rr_State = [], rr_URL = [], rr_Completed = False\<rparr>
            | Some (Some entry) \<Rightarrow>
                if \<not> rh_forge H then give \<lparr>rr_TraceID = traceID, rr_State = pr_State entry, rr_URL = pr_URL entry, rr_Completed = False\<rparr>
                else pollPublished L E H traceID entry)))"

text \<open>
  All published trails in turn, each with the host's answers for it and whether the context has ended by
  then. The failures are collected; an ended context stops the loop.
\<close>

fun reconcile_each :: "'l Ledger \<Rightarrow> env \<Rightarrow> (bool \<times> string \<times> 'e review_host) list \<Rightarrow> ('l, 'e, (string \<times> 'e hive_error) list) fx" where
  "reconcile_each L E [] = give []"
| "reconcile_each L E ((ended, trace, H) # rest) =
    (if ended then fails (HostFailed ''context'')
     else (\<lambda>s. case ReconcilePublished L E H trace s of
         (s', es, Inl e) \<Rightarrow> bind_fx (\<lambda>_. (s', es, Inr ())) (\<lambda>_. bind_fx (reconcile_each L E rest) (\<lambda>errs. give ((trace, e) # errs))) s
       | (s', es, Inr _) \<Rightarrow> bind_fx (\<lambda>_. (s', es, Inr ())) (\<lambda>_. reconcile_each L E rest) s))"

definition ReconcileAllPublished ::
  "'l Ledger \<Rightarrow> env \<Rightarrow> string \<Rightarrow> (bool \<times> string \<times> 'e review_host) list option \<Rightarrow> ('l, 'e, (string \<times> 'e hive_error) list) fx" where
  "ReconcileAllPublished L E slug entries =
    (if slug = [] then give []
     else case entries of None \<Rightarrow> fails (HostFailed ''pull request records'') | Some es \<Rightarrow> reconcile_each L E es)"

section \<open>Annotated comments (comments.go)\<close>

record DeliverCommentsInput =
  dl_TraceID :: string
  dl_TaskID :: string
  dl_AgentID :: string
  dl_Producer :: string
  dl_Content :: string
  dl_Feedback :: string

definition deliverAnnotatedReview ::
  "'l Ledger \<Rightarrow> env \<Rightarrow> 'e review_host \<Rightarrow> DeliverCommentsInput \<Rightarrow> ('l, 'e, string \<times> string) fx" where
  "deliverAnnotatedReview L E H inp =
    bind_fx (lift_act (EnsureRejectable L (rh_quote H) (dl_TraceID inp) (dl_TaskID inp))) (\<lambda>_.
    if en_pub E = None then fails (Refused ''nats client is required'')
    else bind_fx (lift_act (read_trace L (dl_TraceID inp))) (\<lambda>snap.
      let isFinal = (case mget (Tasks snap) (dl_TaskID inp) of None \<Rightarrow> False | Some task \<Rightarrow> IsFinalReviewTask task);
          producer = (if TrimSpace (dl_Producer inp) = [] then ''console'' else TrimSpace (dl_Producer inp));
          agentID = human (TrimSpace (dl_AgentID inp))
      in bind_fx (if isFinal then lift_act (lift_sum (map_sum id Some (EnsureRequestChanges snap))) else give None) (\<lambda>source.
         bind_fx (perform (CombWritten (dl_Content inp)) (case rh_comb H producer (dl_Content inp) of
             None \<Rightarrow> Inl (HostFailed ''comb'') | Some ref \<Rightarrow> Inr ref)) (\<lambda>combRef.
         bind_fx (lift_act (Reject L E (rh_quote H) \<lparr>rj_TraceID = dl_TraceID inp, rj_TaskID = dl_TaskID inp,
             rj_Feedback = ShortFeedbackMessage (dl_Feedback inp), rj_AgentID = agentID, rj_Ref = combRef\<rparr>)) (\<lambda>_.
         (case source of
            None \<Rightarrow> give (combRef, [])
          | Some task \<Rightarrow> bind_fx (lift_act (PlanReworkTask E (rh_task_id H)
                (if TrimSpace (rh_root H) = [] then no_defaults else case rh_defaults H of None \<Rightarrow> no_defaults | Some d \<Rightarrow> d)
                task (dl_TraceID inp) agentID)) (\<lambda>reworkID. give (combRef, reworkID))))))))"

definition SubmitAnnotatedReview ::
  "'l Ledger \<Rightarrow> env \<Rightarrow> 'e review_host \<Rightarrow> DeliverCommentsInput \<Rightarrow> CommentsPacket \<Rightarrow> ('l, 'e, packet_error + string \<times> string) fx" where
  "SubmitAnnotatedReview L E H inp pkt = (case ValidateCommentsPacket pkt of
     Inl e \<Rightarrow> give (Inl e)
   | Inr _ \<Rightarrow> bind_fx (deliverAnnotatedReview L E H (inp\<lparr>dl_Content := RenderCommentsMarkdown pkt,
        dl_Feedback := ShortFeedbackMessage (pk_Summary pkt)\<rparr>)) (\<lambda>r. give (Inr r)))"

definition DeliverReviewCommentsFile ::
  "'l Ledger \<Rightarrow> env \<Rightarrow> 'e review_host \<Rightarrow> DeliverCommentsInput \<Rightarrow> ('l, 'e, string \<times> string) fx" where
  "DeliverReviewCommentsFile L E H inp =
    (if TrimSpace (dl_Content inp) = [] then fails (Refused ''review comments: file is empty'')
     else deliverAnnotatedReview L E H inp)"

end
