(* ===== verification/GateEvents.thy ===== *)
theory GateEvents
  imports FinalGate LedgerTasks
begin

text \<open>
  What the runtime's own events do to the tasks of a trail: a planned round, its kick, a status, a
  completion, a note. Beside the task an event names, the ledger may make one eligible planned task
  ready; that is all that happens to the others.
\<close>

section \<open>The other tasks\<close>

definition made_eligible :: "TaskSnapshot \<Rightarrow> TaskSnapshot \<Rightarrow> bool" where
  "made_eligible t t' \<longleftrightarrow> t_Status t = TaskStatusPlanned \<and> \<not> IsMergeTask t \<and> revised t t' \<and> t_Status t' = TaskStatusReady"

definition calm :: "TaskSnapshot option \<Rightarrow> TaskSnapshot option \<Rightarrow> bool" where
  "calm a b \<longleftrightarrow> a = b \<or> (\<exists>t t'. a = Some t \<and> b = Some t' \<and> made_eligible t t')"

lemma calm_refl [simp]: "calm a a"
  by (simp add: calm_def)

lemma calm_trans: "calm a b \<Longrightarrow> calm b c \<Longrightarrow> calm a c"
  by (auto simp: calm_def made_eligible_def)

text \<open>What calm keeps: completed and waiting tasks as they are, phases, and the free ids.\<close>

lemma revised_merge: "revised t t' \<Longrightarrow> IsMergeTask t' = IsMergeTask t"
  by (simp add: revised_def IsMergeTask_iff)

lemma revised_analysis: "revised t t' \<Longrightarrow> IsAnalysisTask t' = IsAnalysisTask t"
  by (simp add: revised_def IsAnalysisTask_iff)

lemma calm_Some:
  assumes "calm a b" "b = Some t'"
  obtains t where "a = Some t" "revised t t'" "t = t' \<or> t_Status t = TaskStatusPlanned \<and> t_Status t' = TaskStatusReady \<and> \<not> IsMergeTask t'"
  using assms by (auto simp: calm_def made_eligible_def revised_merge)

lemma tryPromote_calm:
  assumes "trace_wf trace"
  shows "calm (mget (Tasks trace) k) (mget (Tasks (fst (tryPromotePendingReady trace now))) k)"
proof (cases "snd (tryPromotePendingReady trace now)")
  case None
  then show ?thesis by (simp add: tryPromote_None)
next
  case (Some t)
  then obtain trace' where p: "tryPromotePendingReady trace now = (trace', Some t)" by (metis prod.collapse)
  note tp = tryPromote_Some [OF p assms]
  obtain c q where c: "FirstEligiblePlanned trace = Some c" "t_TaskID c = t_TaskID t"
    "t = (applyPendingOverlays c q)\<lparr>t_Status := TaskStatusReady, t_UpdatedAt := now\<rparr>"
    using tp(6) by blast
  have "eligible trace c" using FirstEligiblePlanned_in [OF c(1)] by simp
  then have "made_eligible c t" unfolding made_eligible_def c(3)
    by (auto simp: eligible_def split: if_splits)
  then show ?thesis using FirstEligiblePlanned_mget [OF assms c(1)] c(2) tp(4) p by (auto simp: calm_def)
qed

lemma PromoteFirst_calm:
  assumes "trace_wf trace"
  shows "calm (mget (Tasks trace) k) (mget (Tasks (fst (PromoteFirstEligible trace now))) k)"
proof (cases "snd (PromoteFirstEligible trace now)")
  case None
  then have "fst (PromoteFirstEligible trace now) = trace"
    using PromoteFirstEligible_None [of trace now] by (metis prod.collapse)
  then show ?thesis by simp
next
  case (Some t)
  from PromoteFirst_made_ready(3) [OF Some] obtain c where
    c: "FirstEligiblePlanned trace = Some c" "t = c\<lparr>t_Status := TaskStatusReady, t_UpdatedAt := now\<rparr>" by blast
  have "eligible trace c" using FirstEligiblePlanned_in [OF c(1)] by simp
  then have "made_eligible c t" unfolding made_eligible_def c(2)
    by (auto simp: eligible_def split: if_splits)
  moreover have "mget (Tasks trace) (t_TaskID t) = Some c" using FirstEligiblePlanned_mget [OF assms c(1)] c(2) by simp
  ultimately show ?thesis using PromoteFirst_made_ready(4) [OF Some] by (auto simp: calm_def)
qed

lemma promotions_calm:
  assumes "ledger_ok trace"
  shows "calm (mget (Tasks trace) k) (mget (Tasks (fst (promotions trace now))) k)"
  unfolding promotions_fst
  by (rule calm_trans [OF tryPromote_calm PromoteFirst_calm]) (intro ledger_ok_wf ledger_ok_tryPromote assms)+

section \<open>Each event\<close>

text \<open>The snapshot a store shows afterwards: the reducer's tasks, or the tasks before.\<close>

lemma applied_tasks:
  assumes "ApplyEvent clock trace ev = Inr res" "applied_to trace res after"
  obtains i s where "reduceEvent (trace\<lparr>TraceID := i\<rparr>) ev (eventStamp clock ev) = Inr s"
    "Tasks after = Tasks (rs_trace s) \<or> (Tasks after = Tasks trace \<and> (rs_skipped s \<or> \<not> rs_changed s))"
proof -
  obtain i s where s: "reduceEvent (trace\<lparr>TraceID := i\<rparr>) ev (eventStamp clock ev) = Inr s" "res = finishStep s"
    by (rule ApplyEvent_Inr [OF assms(1)])
  have "rs_skipped s \<or> \<not> rs_changed s" if "\<not> ar_Changed res"
    using that s(2) by (auto simp: finishStep_def Let_def split_beta split: if_splits)
  with s assms(2) that show thesis by (auto simp: applied_to_def)
qed

lemma applied_ok:
  assumes "ApplyEvent clock trace ev = Inr res" "applied_to trace res after" "ledger_ok trace"
  shows "ledger_ok after"
proof -
  have ok: "ledger_ok (ar_Trace res)" using ok_inv.event [OF assms(3,1)] .
  have "Killed (ar_Trace res)" if "Killed trace"
    using killed_inv.event [OF that assms(1)] .
  with assms(2,3) ok ledger_ok_shared_tasks show ?thesis by (auto simp: applied_to_def)
qed

text \<open>The vocabulary of the specs the gate writes is canonical.\<close>

lemma normal_review: "TaskReviewPolicy_of (TaskReviewPolicy_str (NormalizeTaskReviewPolicy p)) = NormalizeTaskReviewPolicy p"
  by (simp add: NormalizeTaskReviewPolicy_def TaskReviewPolicy_of_def split: TaskReviewPolicy.split)

lemma closing_spec_canonical: "canonical_spec (closing_spec p tid r)"
  by (simp add: canonical_spec_def closing_spec_def normal_review TaskPhase_of_def)

lemma merge_spec_canonical: "canonical_spec (merge_spec title body)"
  by (simp add: canonical_spec_def merge_spec_def TaskPhase_of_def TaskReviewPolicy_of_def)

text \<open>A plan of one task under a free id.\<close>

lemma plan_one_effect:
  assumes ev: "built_as i a EventInsight (plan_one spec) ev" and spec: "canonical_spec spec" "sp_TaskID spec \<noteq> []"
    and wf: "trace_wf trace" and free: "mget (Tasks trace) (sp_TaskID spec) = None"
    and run: "ApplyEvent clock trace ev = Inr res" "applied_to trace res after"
  obtains t now where "mget (Tasks after) (sp_TaskID spec) = Some t" "revised (plannedTask ev now spec) t"
    "t_Status t = TaskStatusPlanned \<or> t_Status t = TaskStatusReady \<and> \<not> IsMergeTask t"
    "\<And>k. k \<noteq> sp_TaskID spec \<Longrightarrow> calm (mget (Tasks trace) k) (mget (Tasks after) k)"
proof -
  obtain j s where s: "reduceEvent (trace\<lparr>TraceID := j\<rparr>) ev (eventStamp clock ev) = Inr s"
    "Tasks after = Tasks (rs_trace s) \<or> (Tasks after = Tasks trace \<and> (rs_skipped s \<or> \<not> rs_changed s))"
    by (rule applied_tasks [OF run])
  let ?now = "eventStamp clock ev" and ?i = "sp_TaskID spec"
  let ?m = "mput ?i (plannedTask ev ?now spec) (Tasks trace)"
  have dec: "decodePayload TaskPlanPayload_schema TaskPlanPayload_of ev l
      = Inr \<lparr>pl_Kind = TaskEventPlan, pl_Tasks = [spec]\<rparr>" for l
    by (rule decode_plan) (use ev spec(1) in \<open>simp_all add: built_as_def plan_one_def\<close>)
  define w where "w \<longleftrightarrow> plannedTaskPhase spec (ev_AgentID ev) = TaskPhaseWork \<and> Purpose ev \<noteq> PurposeAnalysis"
  have one: "plan_spec ev ?now spec (Tasks trace, False, False) = (?m, w, True)"
    by (simp add: plan_spec_def spec(2) free w_def)
  define rev where "rev = (let t = trace\<lparr>TraceID := j, Tasks := ?m\<rparr> in if w then AdvanceWorkRevision t else t)"
  have rev: "Tasks rev = ?m" by (simp add: rev_def Let_def)
  have ri: "reduceInsight (trace\<lparr>TraceID := j\<rparr>) ev ?now = Inr s"
    using s(1) ev by (simp add: reduceEvent_def built_as_def)
  have "fold (plan_spec ev ?now) [spec] (Tasks (trace\<lparr>TraceID := j\<rparr>), False, False) = (?m, w, True)"
    using one by simp
  then have "reduceInsight (trace\<lparr>TraceID := j\<rparr>) ev ?now = (case tryPromotePendingReady rev ?now of
      (t, None) \<Rightarrow> Inr (plainStep t [] True) | (t, Some u) \<Rightarrow> Inr (plainStep t [u] True))"
    unfolding reduceInsight_def dec by (simp add: rev_def Let_def)
  with ri have s': "rs_trace s = fst (tryPromotePendingReady rev ?now)" "rs_changed s" "\<not> rs_skipped s"
    by (auto split: prod.splits option.splits)
  have wf': "trace_wf rev" using wf rev by (simp add: trace_wf_def tasks_wf_mput plannedTask_def)
  have calm: "calm (mget ?m k) (mget (Tasks after) k)" for k
    using tryPromote_calm [OF wf', of k ?now] s(2) s' rev by simp
  from calm [of ?i] obtain t where t: "mget (Tasks after) ?i = Some t"
    by (cases "mget (Tasks after) ?i") (auto simp: calm_def)
  have "calm (Some (plannedTask ev ?now spec)) (Some t)" using calm [of ?i] t by simp
  then obtain u where u: "Some (plannedTask ev ?now spec) = Some u" "revised u t"
    "u = t \<or> t_Status u = TaskStatusPlanned \<and> t_Status t = TaskStatusReady \<and> \<not> IsMergeTask t"
    by (rule calm_Some [OF _ refl])
  have "t_Status (plannedTask ev ?now spec) = TaskStatusPlanned" by (simp add: plannedTask_def)
  with u have st: "t_Status t = TaskStatusPlanned \<or> t_Status t = TaskStatusReady \<and> \<not> IsMergeTask t" by auto
  have others: "calm (mget (Tasks trace) k) (mget (Tasks after) k)" if "k \<noteq> ?i" for k
    using calm [of k] that by simp
  from that [OF t _ st others] u show thesis by blast
qed

text \<open>The kick of a task that is stored.\<close>

lemma ready_effect:
  assumes ev: "built_as i a EventSignal (TaskReadyPayload_json p) ev" and kind: "rd_Kind p = TaskEventReady"
    and stored: "mget (Tasks trace) (rd_TaskID p) = Some t" "t_Status t \<noteq> TaskStatusUnset"
    and run: "ApplyEvent clock trace ev = Inr res" "applied_to trace res after"
  shows "(\<exists>t'. mget (Tasks after) (rd_TaskID p) = Some t' \<and> revised t t'
      \<and> (t_Status t' = t_Status t \<or> t_Status t' = TaskStatusReady))
    \<and> (\<forall>k. k \<noteq> rd_TaskID p \<longrightarrow> mget (Tasks after) k = mget (Tasks trace) k)"
proof -
  obtain j s where s: "reduceEvent (trace\<lparr>TraceID := j\<rparr>) ev (eventStamp clock ev) = Inr s"
    "Tasks after = Tasks (rs_trace s) \<or> (Tasks after = Tasks trace \<and> (rs_skipped s \<or> \<not> rs_changed s))"
    by (rule applied_tasks [OF run])
  have pl: "ev_Payload ev = RawJson (TaskReadyPayload_json p)" "ev_Type ev = EventSignal"
    using ev by (simp_all add: built_as_def)
  have r: "reduceTaskReady (trace\<lparr>TraceID := j\<rparr>) ev (eventStamp clock ev) = Inr s"
    using s(1) pl kind_ready [OF pl(1)] kind by (simp add: reduceEvent_def reduceSignal_def)
  from reduceTaskReady_Inr [OF r] have
    "Tasks (rs_trace s) = Tasks trace \<or> (\<exists>u. u = (ready_task (trace\<lparr>TraceID := j\<rparr>) p t)\<lparr>t_UpdatedAt := eventStamp clock ev\<rparr>
      \<and> Tasks (rs_trace s) = mput (rd_TaskID p) u (Tasks trace))"
  proof (elim disjE exE conjE)
    fix q assume q: "decodePayload TaskReadyPayload_schema TaskReadyPayload_of ev ''task.ready'' = Inr q"
    have [simp]: "q = p" using q decode_ready [OF pl(1)] by simp
    show ?thesis if "\<forall>t. mget (Tasks (trace\<lparr>TraceID := j\<rparr>)) (rd_TaskID q) = Some t \<longrightarrow> t_Status t = TaskStatusUnset"
      using that stored by simp
    show ?thesis if "mget (Tasks (trace\<lparr>TraceID := j\<rparr>)) (rd_TaskID q) = Some t0"
      "s = ready_step (trace\<lparr>TraceID := j\<rparr>) q (eventStamp clock ev) t0" for t0
      using that stored by (simp add: ready_step_def Let_def)
  qed simp
  moreover have "revised t ((ready_task tr p t)\<lparr>t_UpdatedAt := n\<rparr>)" for tr n
    by (rule revised_trans [of t "ready_task tr p t"]) simp_all
  moreover have "t_Status ((ready_task tr p t)\<lparr>t_UpdatedAt := n\<rparr>) \<in> {t_Status t, TaskStatusReady}" for tr n
    by (simp add: ready_task_def applyReadyOverlays_def Let_def)
  ultimately show ?thesis using s(2) stored by fastforce
qed

text \<open>The kick of a task that is ready already takes over the overlays and reports no change.\<close>

lemma refresh_effect:
  assumes ev: "ev_Type ev = EventSignal" "ev_Payload ev = RawJson (TaskReadyPayload_json p)"
      "rd_Kind p = TaskEventReady" "rd_TaskID p \<noteq> []"
    and trace: "traceForEvent trace ev = Inr trace" "\<not> Killed trace" "PendingReady trace = None"
    and stored: "mget (Tasks trace) (rd_TaskID p) = Some task" "t_Status task = TaskStatusReady"
  shows "\<exists>res. ApplyEvent clock trace ev = Inr res \<and> \<not> ar_Changed res
    \<and> Tasks (ar_Trace res) = mput (rd_TaskID p)
        ((applyReadyOverlays task p)\<lparr>t_UpdatedAt := eventStamp clock ev\<rparr>) (Tasks trace)"
proof -
  have r: "reduceEvent trace ev (eventStamp clock ev) = reduceTaskReady trace ev (eventStamp clock ev)"
    using ev(1,3) kind_ready [OF ev(2)] by (simp add: reduceEvent_def reduceSignal_def)
  have "reduceTaskReady trace ev (eventStamp clock ev) = Inr (plainStep
      (put_task trace (rd_TaskID p) ((applyReadyOverlays task p)\<lparr>t_UpdatedAt := eventStamp clock ev\<rparr>)) [] False)"
    using ev trace(2) stored
    by (simp add: reduceTaskReady_def decode_ready [OF ev(2)] killBlocks_def Let_def)
  with r trace stored(1) show ?thesis
    by (simp add: ApplyEvent_def finishStep_def plainStep_def dropStalePendingReady_def)
qed

text \<open>A status or a completion that is well formed is skipped in a killed trail only.\<close>

lemma plain_not_skip: "plainStep a b c \<noteq> skipStep d"
  by (simp add: plainStep_def skipStep_def)

lemma status_skipped:
  assumes "reduceTaskStatus trace ev now = Inr (skipStep trace')"
    and "decodePayload TaskStatusPayload_schema TaskStatusPayload_of ev ''task.status'' = Inr p" "st_Kind p = TaskEventStatus"
  shows "Killed trace"
proof (rule ccontr)
  assume "\<not> Killed trace"
  with assms show False
    by (cases "st_TaskID p = []"; cases "st_Status p = TaskStatusUnset")
      (simp_all add: reduceTaskStatus_def killBlocks_def Let_def plain_not_skip)
qed

lemma completed_skipped:
  assumes "reduceVerification trace ev now = Inr (skipStep trace')"
    and "decodePayload TaskCompletedPayload_schema TaskCompletedPayload_of ev ''task.completed'' = Inr p" "cp_Kind p = TaskEventCompleted"
  shows "Killed trace"
proof (rule ccontr)
  assume "\<not> Killed trace"
  with assms show False
    by (cases "cp_TaskID p = []") (simp_all add: reduceVerification_def killBlocks_def Let_def split_beta plain_not_skip)
qed

text \<open>A status on a task that is stored, unless the trail is killed.\<close>

lemma status_effect:
  assumes ev: "built_as i a EventSignal (TaskStatusPayload_json p) ev" and kind: "st_Kind p = TaskEventStatus"
    and status: "TaskStatus_of (TaskStatus_str (st_Status p)) = st_Status p"
    and run: "ApplyEvent clock trace ev = Inr res" "applied_to trace res after"
  obtains (skipped) "Tasks after = Tasks trace" "Killed trace"
  | (put) t now where "\<not> Killed trace" "st_TaskID p \<noteq> []"
    "Tasks after = mput (st_TaskID p) t (Tasks trace)"
    "t = (withCreatedAt (taskOrNew trace (st_TaskID p)) now)
       \<lparr>t_Status := st_Status p, t_Summary := st_Summary p, t_UpdatedAt := now\<rparr>"
proof -
  obtain j s where s: "reduceEvent (trace\<lparr>TraceID := j\<rparr>) ev (eventStamp clock ev) = Inr s"
    "Tasks after = Tasks (rs_trace s) \<or> (Tasks after = Tasks trace \<and> (rs_skipped s \<or> \<not> rs_changed s))"
    by (rule applied_tasks [OF run])
  have pl: "ev_Payload ev = RawJson (TaskStatusPayload_json p)" "ev_Type ev = EventSignal"
    using ev by (simp_all add: built_as_def)
  have r: "reduceTaskStatus (trace\<lparr>TraceID := j\<rparr>) ev (eventStamp clock ev) = Inr s"
    using s(1) pl kind_status [OF pl(1)] kind by (simp add: reduceEvent_def reduceSignal_def)
  have dec: "decodePayload TaskStatusPayload_schema TaskStatusPayload_of ev ''task.status'' = Inr p"
    by (rule decode_status [OF pl(1) status])
  from reduceTaskStatus_Inr [OF r] show thesis
  proof (elim disjE exE conjE)
    assume skip: "s = skipStep (trace\<lparr>TraceID := j\<rparr>)"
    have "Killed trace" using status_skipped [OF r [unfolded skip] dec kind] by simp
    with skip s(2) skipped show thesis by auto
  next
    fix q assume q: "decodePayload TaskStatusPayload_schema TaskStatusPayload_of ev ''task.status'' = Inr q"
      "\<not> Killed (trace\<lparr>TraceID := j\<rparr>)" "st_TaskID q \<noteq> []"
      and st: "s = plainStep (status_step (trace\<lparr>TraceID := j\<rparr>) q (eventStamp clock ev)) [] True"
    have [simp]: "q = p" using q dec by simp
    have "taskOrNew (trace\<lparr>TraceID := j\<rparr>) (st_TaskID p) = taskOrNew trace (st_TaskID p)" by (simp add: taskOrNew_def)
    with st s(2) put [of _ "eventStamp clock ev"] q show thesis by (simp add: status_step_Tasks)
  qed
qed

text \<open>A completion of a task, and the promotions it allows.\<close>

lemma completed_effect:
  assumes ev: "built_as i a EventVerification j ev" and j: "TaskCompletedPayload_json p = Some j"
    and kind: "cp_Kind p = TaskEventCompleted" and status: "TaskStatus_of (TaskStatus_str (cp_Status p)) = cp_Status p"
    and ok: "ledger_ok trace"
    and run: "ApplyEvent clock trace ev = Inr res" "applied_to trace res after"
  obtains (skipped) "Tasks after = Tasks trace" "Killed trace"
  | (put) now where "\<not> Killed trace" "cp_TaskID p \<noteq> []"
    "\<And>k. calm (mget (mput (cp_TaskID p) (completed_task (taskOrNew trace (cp_TaskID p)) p now) (Tasks trace)) k)
        (mget (Tasks after) k)"
proof -
  obtain n s where s: "reduceEvent (trace\<lparr>TraceID := n\<rparr>) ev (eventStamp clock ev) = Inr s"
    "Tasks after = Tasks (rs_trace s) \<or> (Tasks after = Tasks trace \<and> (rs_skipped s \<or> \<not> rs_changed s))"
    by (rule applied_tasks [OF run])
  have pl: "ev_Payload ev = RawJson j" "ev_Type ev = EventVerification" using ev by (simp_all add: built_as_def)
  have r: "reduceVerification (trace\<lparr>TraceID := n\<rparr>) ev (eventStamp clock ev) = Inr s"
    using s(1) pl by (simp add: reduceEvent_def)
  from reduceVerification_Inr [OF r] show thesis
  proof (elim disjE exE conjE)
    assume skip: "s = skipStep (trace\<lparr>TraceID := n\<rparr>)"
    have "Killed trace" using completed_skipped [OF r [unfolded skip] decode_completed [OF pl(1) j status] kind] by simp
    with skip s(2) skipped show thesis by auto
  next
    let ?now = "eventStamp clock ev" and ?t = "trace\<lparr>TraceID := n\<rparr>"
    fix q assume q: "decodePayload TaskCompletedPayload_schema TaskCompletedPayload_of ev ''task.completed'' = Inr q"
      "\<not> Killed ?t" "cp_TaskID q \<noteq> []"
      and st: "s = plainStep (fst (promotions (verify_step ?t q ?now) ?now)) (snd (promotions (verify_step ?t q ?now) ?now)) True"
    have [simp]: "q = p" using q decode_completed [OF pl(1) j status] by simp
    have "taskOrNew ?t (cp_TaskID p) = taskOrNew trace (cp_TaskID p)" by (simp add: taskOrNew_def)
    then have ts: "Tasks (verify_step ?t p ?now)
        = mput (cp_TaskID p) (completed_task (taskOrNew trace (cp_TaskID p)) p ?now) (Tasks trace)"
      by (simp add: verify_step_def)
    have "ledger_ok ?t" using ok by (rule ok_inv.named)
    then have "ledger_ok (verify_step ?t p ?now)" using q(2) by (intro ledger_ok_verify_step) simp_all
    from promotions_calm [OF this, of _ ?now] st s(2) put [of ?now] q ts show thesis by simp
  qed
qed

text \<open>A note changes no task.\<close>

lemma note_effect:
  assumes ev: "built_as i a EventInsight (NarrativeInsightPayload_json p) ev" and kind: "ni_Kind p \<noteq> TaskEventPlan"
    and run: "ApplyEvent clock trace ev = Inr res" "applied_to trace res after"
  shows "Tasks after = Tasks trace"
proof -
  obtain j s where s: "reduceEvent (trace\<lparr>TraceID := j\<rparr>) ev (eventStamp clock ev) = Inr s"
    "Tasks after = Tasks (rs_trace s) \<or> (Tasks after = Tasks trace \<and> (rs_skipped s \<or> \<not> rs_changed s))"
    by (rule applied_tasks [OF run])
  have "reduceInsight (trace\<lparr>TraceID := j\<rparr>) ev (eventStamp clock ev) = Inr (skipStep (trace\<lparr>TraceID := j\<rparr>))"
    using ev kind by (intro narrative_skipped) (simp_all add: built_as_def)
  with s ev show ?thesis by (auto simp: reduceEvent_def built_as_def)
qed

end
