(* ===== verification/GateLaws.thy ===== *)
theory GateLaws
  imports GateEvents
begin

text \<open>
  What the gate boundary promises, for every provider of the ledger interface: a small program logic
  for actions over one trail, and in it that the merge gate waits for all other work, that a closing
  round comes before it, and what a seeded round looks like.
\<close>

section \<open>A program logic for actions\<close>

text \<open>
  From a usable store whose trail satisfies \<open>P\<close>, the action leads to a usable store whose trail
  satisfies \<open>Q x\<close> when it returns \<open>x\<close> and \<open>R\<close> when it fails.
\<close>

definition valid ::
  "('l \<Rightarrow> string \<Rightarrow> TraceSnapshot) \<Rightarrow> ('l \<Rightarrow> bool) \<Rightarrow> string \<Rightarrow> (TraceSnapshot \<Rightarrow> bool) \<Rightarrow> ('l, 'e, 'a) act
    \<Rightarrow> ('a \<Rightarrow> TraceSnapshot \<Rightarrow> bool) \<Rightarrow> (TraceSnapshot \<Rightarrow> bool) \<Rightarrow> bool" where
  "valid view usable i P m Q R \<longleftrightarrow> (\<forall>s s' r. usable (hv_ledger s) \<longrightarrow> P (view (hv_ledger s) i) \<longrightarrow> m s = (s', r)
     \<longrightarrow> usable (hv_ledger s') \<and> (case r of Inl _ \<Rightarrow> R (view (hv_ledger s') i) | Inr x \<Rightarrow> Q x (view (hv_ledger s') i)))"

lemma validD:
  assumes "valid view usable i P m Q R" "usable (hv_ledger s)" "P (view (hv_ledger s) i)" "m s = (s', r)"
  shows "usable (hv_ledger s')" "r = Inr x \<Longrightarrow> Q x (view (hv_ledger s') i)" "r = Inl e \<Longrightarrow> R (view (hv_ledger s') i)"
  using assms unfolding valid_def by fastforce+

lemma valid_bind:
  assumes "valid view usable i P m Q R" "\<And>x. valid view usable i (Q x) (f x) Q' R"
  shows "valid view usable i P (bind_act m f) Q' R"
  unfolding valid_def
proof (intro allI impI)
  fix s s' r assume s: "usable (hv_ledger s)" "P (view (hv_ledger s) i)" and run: "bind_act m f s = (s', r)"
  obtain s1 r1 where one: "m s = (s1, r1)" by fastforce
  note d = validD [OF assms(1) s one]
  show "usable (hv_ledger s') \<and> (case r of Inl _ \<Rightarrow> R (view (hv_ledger s') i) | Inr x \<Rightarrow> Q' x (view (hv_ledger s') i))"
  proof (cases r1)
    case (Inl e)
    with run one d show ?thesis by (auto simp: bind_act_def)
  next
    case (Inr x)
    with run one have "f x s1 = (s', r)" by (simp add: bind_act_def)
    from validD [OF assms(2) [of x] d(1) d(2) [OF Inr] this] show ?thesis by (auto split: sum.split)
  qed
qed

lemma valid_weaken:
  assumes "valid view usable i P m Q R" "\<And>t. P' t \<Longrightarrow> P t" "\<And>x t. Q x t \<Longrightarrow> Q' x t" "\<And>t. R t \<Longrightarrow> R' t"
  shows "valid view usable i P' m Q' R'"
  unfolding valid_def
proof (intro allI impI)
  fix s s' r assume s: "usable (hv_ledger s)" "P' (view (hv_ledger s) i)" and run: "m s = (s', r)"
  note d = validD [OF assms(1) s(1) assms(2) [OF s(2)] run]
  show "usable (hv_ledger s') \<and> (case r of Inl _ \<Rightarrow> R' (view (hv_ledger s') i) | Inr x \<Rightarrow> Q' x (view (hv_ledger s') i))"
    using d assms(3,4) by (cases r) simp_all
qed

lemma valid_ret: "(\<And>t. P t \<Longrightarrow> Q x t) \<Longrightarrow> valid view usable i P (ret x) Q R"
  by (auto simp: valid_def ret_def)

lemma valid_throw: "(\<And>t. P t \<Longrightarrow> R t) \<Longrightarrow> valid view usable i P (throw e) Q R"
  by (auto simp: valid_def throw_def)

lemma valid_lift: "(\<And>t. P t \<Longrightarrow> R t) \<Longrightarrow> valid view usable i P (lift_sum x) (\<lambda>_. P) R"
  by (auto simp: valid_def lift_sum_def split: sum.split)

lemma valid_build:
  assumes "\<And>t. P t \<Longrightarrow> R t"
  shows "valid view usable i P (build E j a ty p) (\<lambda>ev t. P t \<and> (\<exists>n b. p n = Some b \<and> built_as j a ty b ev)) R"
  unfolding valid_def
proof (intro allI impI)
  fix s s' r assume s: "usable (hv_ledger s)" "P (view (hv_ledger s) i)" and run: "build E j a ty p s = (s', r)"
  have l: "hv_ledger s' = hv_ledger s" using build_state [OF run] by simp
  show "usable (hv_ledger s') \<and> (case r of Inl _ \<Rightarrow> R (view (hv_ledger s') i)
      | Inr ev \<Rightarrow> P (view (hv_ledger s') i) \<and> (\<exists>n b. p n = Some b \<and> built_as j a ty b ev))"
  proof (cases r)
    case (Inl e)
    with s l assms show ?thesis by simp
  next
    case (Inr ev)
    from build_built [OF run [unfolded Inr]] obtain b where "p (hv_made s) = Some b" "built_as j a ty b ev" by blast
    with s l Inr show ?thesis by auto
  qed
qed

lemma valid_build_then:
  assumes "\<And>t. P t \<Longrightarrow> R t"
    and "\<And>ev n b. p n = Some b \<Longrightarrow> built_as j a ty b ev \<Longrightarrow> valid view usable i P (f ev) Q R"
  shows "valid view usable i P (bind_act (build E j a ty p) f) Q R"
proof (rule valid_bind [OF valid_build [OF assms(1)]])
  fix ev
  show "valid view usable i (\<lambda>t. P t \<and> (\<exists>n b. p n = Some b \<and> built_as j a ty b ev)) (f ev) Q R"
  proof (cases "\<exists>n b. p n = Some b \<and> built_as j a ty b ev")
    case True
    with assms(2) show ?thesis by (auto intro: valid_weaken)
  next
    case False
    then show ?thesis unfolding valid_def by blast
  qed
qed

section \<open>All other work is completed, and stays so\<close>

text \<open>A task is left alone, made ready by the ledger, or is a merge task, new or changed before it is completed.\<close>

definition steady :: "TaskSnapshot option \<Rightarrow> TaskSnapshot option \<Rightarrow> bool" where
  "steady a b \<longleftrightarrow> calm a b \<or> (\<exists>u'. b = Some u' \<and> IsMergeTask u'
     \<and> (\<forall>u. a = Some u \<longrightarrow> revised u u' \<and> t_Status u \<noteq> TaskStatusCompleted))"

lemma steady_refl: "steady a a"
  by (simp add: steady_def)

lemma calm_merge: "calm a (Some u) \<Longrightarrow> IsMergeTask u \<Longrightarrow> a = Some u"
  by (auto simp: calm_def made_eligible_def dest: revised_merge)

lemma steady_trans:
  assumes "steady a b" "steady b c"
  shows "steady a c"
proof (cases "calm b c")
  case True
  show ?thesis
  proof (cases "calm a b")
    case True
    with \<open>calm b c\<close> show ?thesis by (simp add: steady_def calm_trans)
  next
    case False
    with assms(1) obtain u where u: "b = Some u" "IsMergeTask u" by (auto simp: steady_def)
    with True have "c = b" by (auto simp: calm_def made_eligible_def)
    with assms(1) show ?thesis by simp
  qed
next
  case False
  with assms(2) obtain u' where u': "c = Some u'" "IsMergeTask u'"
    "\<And>u. b = Some u \<Longrightarrow> revised u u' \<and> t_Status u \<noteq> TaskStatusCompleted" by (auto simp: steady_def)
  have "revised v u' \<and> t_Status v \<noteq> TaskStatusCompleted" if "a = Some v" for v
    using assms(1) that u'(3) by (auto simp: steady_def calm_def made_eligible_def intro: revised_trans)
  with u' show ?thesis by (auto simp: steady_def)
qed

text \<open>Nothing but merge tasks and analysis is unfinished, and since \<open>z\<close> only merge tasks have moved.\<close>

definition rest_done :: "TraceSnapshot \<Rightarrow> TraceSnapshot \<Rightarrow> bool" where
  "rest_done z t \<longleftrightarrow> ledger_ok t \<and> AllPreMergeCompleted t \<and> (\<forall>k. steady (mget (Tasks z) k) (mget (Tasks t) k))"

lemma AllPreMerge_mget:
  assumes "trace_wf t"
  shows "AllPreMergeCompleted t \<longleftrightarrow> (\<exists>k u. mget (Tasks t) k = Some u \<and> \<not> IsAnalysisTask u)
    \<and> (\<forall>k u. mget (Tasks t) k = Some u \<longrightarrow> \<not> IsAnalysisTask u \<longrightarrow> IsMergeTask u \<or> t_Status u = TaskStatusCompleted)"
proof -
  have "u \<in> set (task_list t) \<longleftrightarrow> (\<exists>k. mget (Tasks t) k = Some u)" for u
    using trace_wf_task_list [OF assms] assms unfolding trace_wf_def by (metis tasks_wf_mget)
  then show ?thesis unfolding AllPreMergeCompleted_iff by blast
qed

text \<open>Changing or adding a merge task, and calm elsewhere, keeps it.\<close>

lemma rest_done_step:
  assumes rest: "rest_done z t" and ok: "ledger_ok t'"
    and here: "\<And>u. mget (Tasks t') k = Some u \<Longrightarrow> IsMergeTask u \<or> calm (mget (Tasks t) k) (Some u)"
    and stays: "mget (Tasks t) k \<noteq> None \<Longrightarrow> \<exists>u u'. mget (Tasks t) k = Some u \<and> mget (Tasks t') k = Some u' \<and> revised u u'
      \<and> t_Status u \<noteq> TaskStatusCompleted"
    and others: "\<And>j. j \<noteq> k \<Longrightarrow> calm (mget (Tasks t) j) (mget (Tasks t') j)"
  shows "rest_done z t'"
proof -
  have wf: "trace_wf t" "trace_wf t'" using rest ok by (simp_all add: rest_done_def ledger_ok_wf)
  have before: "(\<exists>k u. mget (Tasks t) k = Some u \<and> \<not> IsAnalysisTask u)"
    "\<And>j u. mget (Tasks t) j = Some u \<Longrightarrow> \<not> IsAnalysisTask u \<Longrightarrow> IsMergeTask u \<or> t_Status u = TaskStatusCompleted"
    using rest AllPreMerge_mget [OF wf(1)] by (auto simp: rest_done_def)
  have calm_done: "IsMergeTask u \<or> t_Status u = TaskStatusCompleted"
    if "calm (mget (Tasks t) j) (Some u)" "\<not> IsAnalysisTask u" for j u
    using that before(2) [of j] by (auto elim!: calm_Some simp: revised_analysis dest: revised_merge)
  have "IsMergeTask u \<or> t_Status u = TaskStatusCompleted" if "mget (Tasks t') j = Some u" "\<not> IsAnalysisTask u" for j u
  proof (cases "j = k")
    case True
    with here [of u] that calm_done [of k u] show ?thesis by auto
  next
    case False
    with others [OF False] that calm_done [of j u] show ?thesis by simp
  qed
  moreover have "\<exists>k u. mget (Tasks t') k = Some u \<and> \<not> IsAnalysisTask u"
  proof -
    obtain j u where u: "mget (Tasks t) j = Some u" "\<not> IsAnalysisTask u" using before(1) by blast
    have "\<exists>u'. mget (Tasks t') j = Some u' \<and> revised u u'"
    proof (cases "j = k")
      case True
      with stays u show ?thesis by auto
    next
      case False
      from others [OF this] u(1) show ?thesis by (auto simp: calm_def made_eligible_def) (metis revised_refl)
    qed
    with u(2) show ?thesis using revised_analysis by blast
  qed
  moreover have "steady (mget (Tasks t) j) (mget (Tasks t') j)" for j
  proof (cases "j = k")
    case True
    with here stays show ?thesis by (cases "mget (Tasks t') k"; cases "mget (Tasks t) k") (auto simp: steady_def)
  qed (use others in \<open>simp add: steady_def\<close>)
  then have "steady (mget (Tasks z) j) (mget (Tasks t') j)" for j
    using rest steady_trans [of "mget (Tasks z) j" "mget (Tasks t) j"] by (simp add: rest_done_def)
  ultimately show ?thesis using AllPreMerge_mget [OF wf(2)] ok by (simp add: rest_done_def)
qed

lemma rest_done_same: "rest_done z t \<Longrightarrow> ledger_ok t' \<Longrightarrow> Tasks t' = Tasks t \<Longrightarrow> rest_done z t'"
  by (simp add: rest_done_def AllPreMergeCompleted_def)

text \<open>The task a gate is opened on: a merge task that is stored and not completed.\<close>

definition gate_task :: "string \<Rightarrow> TraceSnapshot \<Rightarrow> bool" where
  "gate_task k t \<longleftrightarrow> (\<exists>u. mget (Tasks t) k = Some u \<and> IsMergeTask u \<and> t_Status u \<noteq> TaskStatusCompleted)"

lemma gate_task_event:
  assumes "gate_task k t" "rest_done z t" "ledger_ok t'"
    and "mget (Tasks t') k = Some u'" "revised (the (mget (Tasks t) k)) u'"
    and "\<And>j. j \<noteq> k \<Longrightarrow> calm (mget (Tasks t) j) (mget (Tasks t') j)"
  shows "rest_done z t'" "t_Status u' \<noteq> TaskStatusCompleted \<Longrightarrow> gate_task k t'"
proof -
  obtain u where u: "mget (Tasks t) k = Some u" "IsMergeTask u" "t_Status u \<noteq> TaskStatusCompleted"
    using assms(1) by (auto simp: gate_task_def)
  have m: "IsMergeTask u'" using revised_merge [of u u'] u assms(5) by simp
  show "rest_done z t'"
    by (rule rest_done_step [OF assms(2,3), of k]) (use u m assms(4,5,6) in auto)
  show "gate_task k t'" if "t_Status u' \<noteq> TaskStatusCompleted" using assms(4) m that by (auto simp: gate_task_def)
qed

lemma status_on_gate:
  assumes ev: "built_as i a EventSignal (TaskStatusPayload_json p) ev" and p: "st_Kind p = TaskEventStatus"
      "st_Status p = TaskStatusWaitingReview"
    and t: "gate_task (st_TaskID p) t" "rest_done z t"
    and run: "ApplyEvent clock t ev = Inr res" "applied_to t res after"
  shows "rest_done z after \<and> gate_task (st_TaskID p) after"
proof -
  have ok: "ledger_ok after" using applied_ok [OF run] t(2) by (simp add: rest_done_def)
  have canonical: "TaskStatus_of (TaskStatus_str (st_Status p)) = st_Status p" by (simp add: p(2) TaskStatus_of_def)
  from ev p(1) canonical run show ?thesis
  proof (cases rule: status_effect)
    case skipped
    with t ok rest_done_same [OF t(2) ok] show ?thesis by (simp add: gate_task_def)
  next
    case (put u now)
    obtain v where v: "mget (Tasks t) (st_TaskID p) = Some v" using t(1) by (auto simp: gate_task_def)
    then have "revised v u" unfolding put(4) by (simp add: taskOrNew_def p(2))
    with put v p(2) show ?thesis by (intro conjI gate_task_event [OF t ok, of u]) simp_all
  qed
qed

lemma complete_on_gate:
  assumes ev: "built_as i a EventVerification j ev" "TaskCompletedPayload_json p = Some j" and p: "cp_Kind p = TaskEventCompleted"
      "cp_Status p = TaskStatusCompleted"
    and t: "gate_task (cp_TaskID p) t" "rest_done z t"
    and run: "ApplyEvent clock t ev = Inr res" "applied_to t res after"
  shows "rest_done z after"
proof -
  have ok0: "ledger_ok t" and ok: "ledger_ok after" using applied_ok [OF run] t(2) by (simp_all add: rest_done_def)
  have canonical: "TaskStatus_of (TaskStatus_str (cp_Status p)) = cp_Status p" by (simp add: p(2) TaskStatus_of_def)
  from ev p(1) canonical ok0 run show ?thesis
  proof (cases rule: completed_effect)
    case skipped
    with t ok rest_done_same [OF t(2) ok] show ?thesis by (simp add: gate_task_def)
  next
    case (put now)
    let ?k = "cp_TaskID p" and ?u = "completed_task (taskOrNew t (cp_TaskID p)) p now"
    obtain v where v: "mget (Tasks t) ?k = Some v" "IsMergeTask v" using t(1) by (auto simp: gate_task_def)
    have u: "revised v ?u" "t_Status ?u = TaskStatusCompleted"
      using v(1) by (simp_all add: taskOrNew_def) (simp add: completed_task_def p(2))
    have "mget (Tasks after) ?k = Some ?u" using put(3) [of ?k] u(2) by (auto simp: calm_def made_eligible_def)
    moreover have "calm (mget (Tasks t) j) (mget (Tasks after) j)" if "j \<noteq> ?k" for j using put(3) [of j] that by simp
    ultimately show ?thesis using v u by (intro gate_task_event(1) [OF t ok, of ?u]) simp_all
  qed
qed

lemma note_on_rest:
  assumes ev: "built_as i a EventInsight (NarrativeInsightPayload_json p) ev" "ni_Kind p \<noteq> TaskEventPlan" "rest_done z t"
    and run: "ApplyEvent clock t ev = Inr res" "applied_to t res after"
  shows "rest_done z after \<and> Tasks after = Tasks t"
  using note_effect [OF ev(1,2) run] applied_ok [OF run] ev(3) rest_done_same by (auto simp: rest_done_def)

lemma plan_on_rest:
  assumes ev: "built_as i a EventInsight (plan_one (merge_spec title body)) ev" and t: "rest_done z t"
    and free: "mget (Tasks t) FinalReviewTaskID = None"
    and run: "ApplyEvent clock t ev = Inr res" "applied_to t res after"
  shows "rest_done z after \<and> gate_task FinalReviewTaskID after"
proof -
  have ok0: "ledger_ok t" and ok: "ledger_ok after" using applied_ok [OF run] t by (simp_all add: rest_done_def)
  have id: "sp_TaskID (merge_spec title body) = FinalReviewTaskID" by (simp add: merge_spec_def)
  obtain u now where u: "mget (Tasks after) FinalReviewTaskID = Some u"
    "revised (plannedTask ev now (merge_spec title body)) u"
    "t_Status u = TaskStatusPlanned \<or> t_Status u = TaskStatusReady \<and> \<not> IsMergeTask u"
    "\<And>k. k \<noteq> FinalReviewTaskID \<Longrightarrow> calm (mget (Tasks t) k) (mget (Tasks after) k)"
    by (rule plan_one_effect [OF ev merge_spec_canonical _ ledger_ok_wf [OF ok0] _ run])
      (use free in \<open>auto simp: id\<close>)
  have "IsMergeTask (plannedTask ev now (merge_spec title body))"
    by (simp add: IsMergeTask_iff plannedTask_def merge_spec_def)
  then have m: "IsMergeTask u" using revised_merge [OF u(2)] by simp
  have "rest_done z after" by (rule rest_done_step [OF t ok, of FinalReviewTaskID]) (use m u free in auto)
  with u(1,3) m show ?thesis by (auto simp: gate_task_def)
qed


context ledger_api
begin

lemma valid_read:
  assumes "i \<noteq> []" "\<And>t. P t \<Longrightarrow> R t"
  shows "valid view usable i P (read_trace L i) (\<lambda>x t. P t \<and> x = t) R"
  using assms by (auto simp: valid_def read_trace_def snapshot)

lemma valid_write:
  assumes "ev_TraceID ev = i"
    and step: "\<And>clock t res after. P t \<Longrightarrow> ApplyEvent clock t ev = Inr res \<Longrightarrow> applied_to t res after \<Longrightarrow> Q after"
    and fails: "\<And>t. P t \<Longrightarrow> R t" "\<And>t. Q t \<Longrightarrow> R t"
  shows "valid view usable i P (WriteEvent L E ev) (\<lambda>_. Q) R"
  unfolding valid_def
proof (intro allI impI)
  fix s s' r assume s: "usable (hv_ledger s)" "P (view (hv_ledger s) i)" and run: "WriteEvent L E ev s = (s', r)"
  from run show "usable (hv_ledger s') \<and> (case r of Inl _ \<Rightarrow> R (view (hv_ledger s') i) | Inr x \<Rightarrow> Q (view (hv_ledger s') i))"
  proof (cases rule: WriteEvent_any)
    case (failed e)
    with s fails(1) apply_usable [OF s(1), of ev] apply_error [OF s(1) failed(1)] show ?thesis by simp
  next
    case (taken res)
    obtain clock where "ApplyEvent clock (view (hv_ledger s) i) ev = Inr res"
      "applied_to (view (hv_ledger s) i) res (view (hv_ledger s') i)"
      using apply_done [OF s(1) taken(1)] taken(2) assms(1) by auto
    from step [OF s(2) this] taken fails(2) apply_usable [OF s(1), of ev] show ?thesis by auto
  qed
qed

end

context ledger_api
begin

lemma note_valid:
  "valid view usable i (rest_done z) (recordClosingSkipNote L E i note) (\<lambda>_. rest_done z) (rest_done z)"
  "valid view usable i (\<lambda>t. rest_done z t \<and> gate_task k t) (recordClosingSkipNote L E i note)
     (\<lambda>_ t. rest_done z t \<and> gate_task k t) (rest_done z)"
  "valid view usable i (\<lambda>t. rest_done z t \<and> mget (Tasks t) k = None) (recordClosingSkipNote L E i note)
     (\<lambda>_ t. rest_done z t \<and> mget (Tasks t) k = None) (rest_done z)"
proof -
  have general: "valid view usable i (\<lambda>t. rest_done z t \<and> P (Tasks t)) (recordClosingSkipNote L E i note)
     (\<lambda>_ t. rest_done z t \<and> P (Tasks t)) (rest_done z)" for P
  proof (cases "TrimSpace note = []")
    case True
    then show ?thesis by (simp add: recordClosingSkipNote_def valid_ret)
  next
    case False
    have "valid view usable i (\<lambda>t. rest_done z t \<and> P (Tasks t)) (WriteEvent L E ev) (\<lambda>_ t. rest_done z t \<and> P (Tasks t)) (rest_done z)"
      if "built_as i RuntimeAgentID EventInsight (NarrativeInsightPayload_json
          \<lparr>ni_Kind = InsightContextNote, ni_Summary = note, ni_TaskID = [], ni_Severity = []\<rparr>) ev" for ev
      by (rule valid_write) (use that note_on_rest [OF that, where z = z] in \<open>auto simp: built_as_def\<close>)
    then show ?thesis unfolding recordClosingSkipNote_def if_not_P [OF False] by (intro valid_build_then) auto
  qed
  from general [of "\<lambda>_. True"] general [of "\<lambda>ts. \<exists>u. mget ts k = Some u \<and> IsMergeTask u \<and> t_Status u \<noteq> TaskStatusCompleted"] general [of "\<lambda>ts. mget ts k = None"]
  show "valid view usable i (rest_done z) (recordClosingSkipNote L E i note) (\<lambda>_. rest_done z) (rest_done z)"
    "valid view usable i (\<lambda>t. rest_done z t \<and> gate_task k t) (recordClosingSkipNote L E i note)
      (\<lambda>_ t. rest_done z t \<and> gate_task k t) (rest_done z)"
    "valid view usable i (\<lambda>t. rest_done z t \<and> mget (Tasks t) k = None) (recordClosingSkipNote L E i note)
      (\<lambda>_ t. rest_done z t \<and> mget (Tasks t) k = None) (rest_done z)"
    by (simp_all add: gate_task_def)
qed

lemma openGate_valid:
  "valid view usable i (\<lambda>t. rest_done z t \<and> gate_task k t) (openGate L E i k) (\<lambda>_. rest_done z) (rest_done z)"
proof -
  have "valid view usable i (\<lambda>t. rest_done z t \<and> gate_task k t) (WriteEvent L E ev) (\<lambda>_. rest_done z) (rest_done z)"
    if "built_as i RuntimeAgentID EventSignal (TaskStatusPayload_json \<lparr>st_Kind = TaskEventStatus, st_TaskID = k,
          st_Status = TaskStatusWaitingReview, st_Summary = gate_summary\<rparr>) ev" for ev
    by (rule valid_write) (use that status_on_gate [OF that, where z = z] in \<open>auto simp: built_as_def\<close>)
  then show ?thesis unfolding openGate_def statusEvent_def by (intro valid_build_then) auto
qed

lemma completeEmpty_valid:
  "valid view usable i (\<lambda>t. rest_done z t \<and> gate_task (t_TaskID f) t) (completeEmptyFinalGate L E i f) (\<lambda>_. rest_done z) (rest_done z)"
proof (cases "gate_settled (t_Status f)")
  case True
  show ?thesis unfolding completeEmptyFinalGate_def if_P [OF True] by (rule valid_ret) simp
next
  case False
  have "valid view usable i (\<lambda>t. rest_done z t \<and> gate_task (t_TaskID f) t) (WriteEvent L E ev) (\<lambda>_. rest_done z) (rest_done z)"
    if "built_as i RuntimeAgentID EventVerification b ev"
      "TaskCompletedPayload_json \<lparr>cp_Kind = TaskEventCompleted, cp_TaskID = t_TaskID f, cp_Status = TaskStatusCompleted,
          cp_Summary = summary, cp_Commit = [], cp_CompletedAt = at\<rparr> = Some b" for ev b summary at
    by (rule valid_write) (use that complete_on_gate [OF that, where z = z] in \<open>auto simp: built_as_def\<close>)
  with False show ?thesis unfolding completeEmptyFinalGate_def if_not_P [OF False]
    by (intro valid_build_then) auto
qed

text \<open>The id the platform gives its own merge gate is not taken by another kind of task.\<close>

end

definition reserved_free :: "TraceSnapshot \<Rightarrow> bool" where
  "reserved_free t \<longleftrightarrow> (\<forall>u. mget (Tasks t) FinalReviewTaskID = Some u \<longrightarrow> IsMergeTask u)"

lemma FindFinal_Some:
  assumes "FindFinalReviewTask t = Some f" "trace_wf t"
  shows "mget (Tasks t) (t_TaskID f) = Some f" "IsMergeTask f"
proof -
  have "f \<in> set (filter IsFinalReviewTask (task_list t))"
    using assms(1) unfolding FindFinalReviewTask_def by (rule first_sorted_in)
  then show "mget (Tasks t) (t_TaskID f) = Some f" "IsMergeTask f"
    using trace_wf_task_list [OF assms(2), of f] by (simp_all add: IsMergeTask_iff IsFinalReviewTask_iff)
qed

lemma FindFinal_None:
  assumes "FindFinalReviewTask t = None" "trace_wf t" "mget (Tasks t) k = Some u"
  shows "\<not> IsMergeTask u"
proof -
  have "t_TaskID u = k" using assms(2,3) unfolding trace_wf_def by (rule tasks_wf_mget)
  then have "u \<in> set (task_list t)" using assms(2,3) trace_wf_task_list by simp
  with assms(1) show ?thesis
    by (auto simp: FindFinalReviewTask_def filter_empty_conv IsMergeTask_iff IsFinalReviewTask_iff)
qed

context ledger_api
begin

lemma ensureMergeGate_valid:
  fixes G :: "'e gate_host"
  assumes snap: "rest_done z snap" "reserved_free snap"
  shows "valid view usable i (\<lambda>t. t = snap) (ensureMergeGate L E G merge i snap note) (\<lambda>_. rest_done z) (rest_done z)"
proof -
  have wf: "trace_wf snap" using snap(1) by (simp add: rest_done_def ledger_ok_wf)
  have skip: "valid view usable i (\<lambda>t. t = snap) (ret () :: ('l, 'e, unit) act) (\<lambda>_. rest_done z) (rest_done z)"
    by (rule valid_ret) (simp add: snap)
  show ?thesis
  proof (cases "FindFinalReviewTask snap")
    case (Some f)
    have gate: "gate_task (t_TaskID f) snap" if "t_Status f \<noteq> TaskStatusCompleted"
      using FindFinal_Some [OF Some wf] that by (auto simp: gate_task_def)
    have close: "valid view usable i (\<lambda>t. t = snap)
        (bind_act (recordClosingSkipNote L E i note :: ('l, 'e, unit) act) (\<lambda>_. completeEmptyFinalGate L E i f)) (\<lambda>_. rest_done z) (rest_done z)"
      if "t_Status f \<noteq> TaskStatusCompleted"
      by (rule valid_bind [OF valid_weaken [OF note_valid(2)] completeEmpty_valid]) (use snap gate [OF that] in auto)
    have opens: "valid view usable i (\<lambda>t. t = snap)
        (bind_act (recordClosingSkipNote L E i note :: ('l, 'e, unit) act) (\<lambda>_. openGate L E i (t_TaskID f))) (\<lambda>_. rest_done z) (rest_done z)"
      if "t_Status f \<noteq> TaskStatusCompleted"
      by (rule valid_bind [OF valid_weaken [OF note_valid(2)] openGate_valid]) (use snap gate [OF that] in auto)
    from Some skip close opens show ?thesis by (simp add: ensureMergeGate_def Let_def gate_settled_def)
  next
    case None
    have free: "mget (Tasks snap) FinalReviewTaskID = None"
      using FindFinal_None [OF None wf, of FinalReviewTaskID] snap(2) unfolding reserved_free_def
      by (cases "mget (Tasks snap) FinalReviewTaskID") auto
    have plan: "valid view usable i (\<lambda>t. rest_done z t \<and> mget (Tasks t) FinalReviewTaskID = None) (WriteEvent L E ev)
        (\<lambda>_ t. rest_done z t \<and> gate_task FinalReviewTaskID t) (rest_done z)"
      if "built_as i RuntimeAgentID EventInsight (plan_one (merge_spec title body)) ev" for ev title body
      by (rule valid_write) (use that plan_on_rest [OF that, where z = z] in \<open>auto simp: built_as_def\<close>)
    have "valid view usable i (\<lambda>t. rest_done z t \<and> mget (Tasks t) FinalReviewTaskID = None)
        (bind_act (build E i RuntimeAgentID EventInsight (\<lambda>_. Some (plan_one (merge_spec title body))))
          (\<lambda>ev. bind_act (WriteEvent L E ev) (\<lambda>_. openGate L E i FinalReviewTaskID))) (\<lambda>_. rest_done z) (rest_done z)" for title body
      by (intro valid_build_then valid_bind [OF plan openGate_valid]) auto
    moreover have "valid view usable i (\<lambda>t. t = snap) (recordClosingSkipNote L E i note :: ('l, 'e, unit) act)
        (\<lambda>_ t. rest_done z t \<and> mget (Tasks t) FinalReviewTaskID = None) (rest_done z)"
      by (rule valid_weaken [OF note_valid(3)]) (use snap free in auto)
    ultimately have rest: "valid view usable i (\<lambda>t. t = snap)
        (bind_act (recordClosingSkipNote L E i note :: ('l, 'e, unit) act) (\<lambda>_.
          bind_act (build E i RuntimeAgentID EventInsight (\<lambda>_. Some (plan_one (merge_spec title body))))
            (\<lambda>ev. bind_act (WriteEvent L E ev) (\<lambda>_. openGate L E i FinalReviewTaskID)))) (\<lambda>_. rest_done z) (rest_done z)" for title body
      by (blast intro: valid_bind)
    have "valid view usable i (\<lambda>t. t = snap)
        (bind_act (lift_sum (x :: 'e hive_error + string)) (\<lambda>title. bind_act (lift_sum (y title)) (\<lambda>body. bind_act (recordClosingSkipNote L E i note) (\<lambda>_.
          bind_act (build E i RuntimeAgentID EventInsight (\<lambda>_. Some (plan_one (merge_spec title body))))
            (\<lambda>ev. bind_act (WriteEvent L E ev) (\<lambda>_. openGate L E i FinalReviewTaskID)))))) (\<lambda>_. rest_done z) (rest_done z)" for x y
      by (intro valid_bind [OF valid_lift] rest) (use snap in auto)
    with None skip show ?thesis by (simp add: ensureMergeGate_def Let_def)
  qed
qed

end

end
