(* ===== verification/GateRounds.thy ===== *)
theory GateRounds
  imports GateLaws
begin

text \<open>
  The other branch of the gate boundary, a seeded closing round, and the boundary as a whole: what a
  run of \<open>EnsureTrailPhases\<close> leaves behind, whether it returns or fails. Last, how many rounds a trail
  can be given.
\<close>

section \<open>What seeding a round does to the trail\<close>

text \<open>No merge task is changed or added.\<close>

definition merge_kept :: "TraceSnapshot \<Rightarrow> TraceSnapshot \<Rightarrow> bool" where
  "merge_kept snap t \<longleftrightarrow> ledger_ok t
     \<and> (\<forall>k u. mget (Tasks t) k = Some u \<longrightarrow> IsMergeTask u \<longrightarrow> mget (Tasks snap) k = Some u)"

text \<open>The round is stored under its id, under way, and the rest is calm.\<close>

definition round_stored :: "TraceSnapshot \<Rightarrow> string \<Rightarrow> TraceSnapshot \<Rightarrow> bool" where
  "round_stored snap k t \<longleftrightarrow> ledger_ok t
     \<and> (\<exists>u. mget (Tasks t) k = Some u \<and> IsClosingTask u \<and> \<not> IsAnalysisTask u
          \<and> t_Status u \<in> {TaskStatusPlanned, TaskStatusReady})
     \<and> (\<forall>j. j \<noteq> k \<longrightarrow> calm (mget (Tasks snap) j) (mget (Tasks t) j))"

definition round_result :: "TraceSnapshot \<Rightarrow> string \<Rightarrow> TaskSnapshot \<Rightarrow> TraceSnapshot \<Rightarrow> bool" where
  "round_result snap k u t \<longleftrightarrow> round_stored snap k t \<and> mget (Tasks t) k = Some u"

lemma round_stored_merge: "round_stored snap k t \<Longrightarrow> merge_kept snap t"
  unfolding round_stored_def merge_kept_def
  by (metis calm_merge not_merge_and_closing option.inject)

lemma merge_kept_refl: "ledger_ok snap \<Longrightarrow> merge_kept snap snap"
  by (simp add: merge_kept_def)

text \<open>What may be left when seeding fails: nothing yet, or the round without its kick.\<close>

definition seeding :: "TraceSnapshot \<Rightarrow> string \<Rightarrow> TraceSnapshot \<Rightarrow> bool" where
  "seeding snap k t \<longleftrightarrow> t = snap \<or> round_stored snap k t"

text \<open>A policy that was accepted when the colony was loaded does not make its rounds merge gates.\<close>

definition rounds_not_final :: "ClosingPolicy \<Rightarrow> bool" where
  "rounds_not_final p \<longleftrightarrow> NormalizeTaskReviewPolicy (TaskReviewPolicy_of (cl_Review p)) \<noteq> TaskReviewFinal"

lemma TrimSpace_runtime: "TrimSpace RuntimeAgentID = RuntimeAgentID"
  by code_simp

lemma TrimSpace_final: "TrimSpace ''final'' = ''final''"
  by code_simp

lemma valid_policy:
  assumes "closing_Validate p bees defaults = Inr ()"
  shows "rounds_not_final p" "1 \<le> ResolvedMaxRounds p"
proof -
  have v: "review_error (TrimSpace (cl_Review p)) = Inr ()" "case cl_MaxRounds p of None \<Rightarrow> True | Some n \<Rightarrow> 1 \<le> n"
    using assms by (auto simp: closing_Validate_def res_bind_Inr_iff split: option.splits)
  have "cl_Review p \<noteq> ''final''"
    using v(1) TrimSpace_final by (auto simp: review_error_def TaskReviewPolicy_of_def)
  then show "rounds_not_final p"
    by (auto simp: rounds_not_final_def NormalizeTaskReviewPolicy_def TaskReviewPolicy_of_def split: if_splits)
  show "1 \<le> ResolvedMaxRounds p" using v(2) by (simp add: ResolvedMaxRounds_def split: option.splits)
qed

lemma closing_spec_fields:
  "sp_TaskID (closing_spec p k r) = k" "sp_Phase (closing_spec p k r) = TaskPhaseClosing"
  "sp_Review (closing_spec p k r) = NormalizeTaskReviewPolicy (TaskReviewPolicy_of (cl_Review p))"
  "rd_TaskID (ready_of (closing_spec p k r)) = k" "rd_Kind (ready_of (closing_spec p k r)) = TaskEventReady"
  by (simp_all add: closing_spec_def ready_of_def)

lemma closing_planned:
  assumes "rounds_not_final p"
  shows "plannedTaskPhase (closing_spec p k r) RuntimeAgentID = TaskPhaseClosing"
  using assms TrimSpace_runtime
  by (simp add: plannedTaskPhase_def closing_spec_fields DeriveTaskPhase_def NormalizeTaskPhase_def rounds_not_final_def)

lemma plan_round:
  assumes ev: "built_as i RuntimeAgentID EventInsight (plan_one (closing_spec p k r)) ev" and k: "k \<noteq> []"
    and p: "rounds_not_final p"
    and snap: "ledger_ok snap" "mget (Tasks snap) k = None"
    and run: "ApplyEvent clock snap ev = Inr res" "applied_to snap res after"
  shows "round_stored snap k after"
proof -
  obtain u now where u: "mget (Tasks after) k = Some u" "revised (plannedTask ev now (closing_spec p k r)) u"
    "t_Status u = TaskStatusPlanned \<or> t_Status u = TaskStatusReady \<and> \<not> IsMergeTask u"
    "\<And>j. j \<noteq> k \<Longrightarrow> calm (mget (Tasks snap) j) (mget (Tasks after) j)"
    using plan_one_effect [OF ev closing_spec_canonical _ ledger_ok_wf [OF snap(1)] _ run] k snap(2)
    unfolding closing_spec_fields by metis
  let ?q = "plannedTask ev now (closing_spec p k r)"
  have "t_Phase ?q = TaskPhaseClosing" "t_Purpose ?q = PurposeUnset"
    "t_Review ?q \<noteq> TaskReviewFinal"
    using ev p closing_planned [OF p]
    by (simp_all add: plannedTask_def built_as_def closing_spec_fields rounds_not_final_def)
  then have "IsClosingTask ?q" "\<not> IsAnalysisTask ?q"
    by (simp_all add: IsClosingTask_def IsAnalysisTask_def TaskPhaseOf_def TaskPurposeOf_def DeriveTaskPhase_def
        NormalizeTaskPhase_def PurposeForTaskPhase_def IsKnownExecutionPurpose_def)
  with u applied_ok [OF run snap(1)] show ?thesis
    by (auto simp: round_stored_def revised_closing revised_analysis)
qed

lemma ready_round:
  assumes ev: "built_as i RuntimeAgentID EventSignal (TaskReadyPayload_json (ready_of (closing_spec p k r))) ev"
    and t: "round_stored snap k t"
    and run: "ApplyEvent clock t ev = Inr res" "applied_to t res after"
  shows "round_stored snap k after"
proof -
  obtain u where u: "mget (Tasks t) k = Some u" "IsClosingTask u" "\<not> IsAnalysisTask u"
    "t_Status u \<in> {TaskStatusPlanned, TaskStatusReady}" and ok: "ledger_ok t"
    using t by (auto simp: round_stored_def)
  from ready_effect [OF ev closing_spec_fields(5) _ _ run, of u] u(1,4) have
    "\<exists>u'. mget (Tasks after) k = Some u' \<and> revised u u' \<and> t_Status u' \<in> {TaskStatusPlanned, TaskStatusReady}"
    "\<forall>j. j \<noteq> k \<longrightarrow> mget (Tasks after) j = mget (Tasks t) j" unfolding closing_spec_fields by auto
  with u t applied_ok [OF run ok] show ?thesis
    by (fastforce simp: round_stored_def revised_closing revised_analysis)
qed

lemma bind_ret: "bind_act (ret x) f = f x"
  by (simp add: bind_act_def ret_def fun_eq_iff)

context ledger_api
begin

lemma valid_read_then:
  assumes "i \<noteq> []" "R snap" "valid view usable i (\<lambda>t. t = snap) (f snap) Q R"
  shows "valid view usable i (\<lambda>t. t = snap) (bind_act (read_trace L i) f) Q R"
proof (rule valid_bind [OF valid_read [OF assms(1)]])
  fix x show "valid view usable i (\<lambda>t. t = snap \<and> x = t) (f x) Q R"
  proof (cases "x = snap")
    case True
    show ?thesis unfolding True by (rule valid_weaken [OF assms(3)]) blast+
  qed (unfold valid_def, blast)
qed (use assms(2) in simp)

lemma seed_valid:
  assumes i: "i \<noteq> []" and k: "NextClosingTaskID snap = Some k" and snap: "ledger_ok snap"
    and p: "rounds_not_final p" and seed: "closing_decision (gh_quote G) p snap = SeedRound r"
  shows "valid view usable i (\<lambda>t. t = snap) (ensureClosingRound L E G i snap p :: ('l, 'e, TaskSnapshot option \<times> string) act)
     (\<lambda>(u, note) t. u \<noteq> None \<and> round_result snap k (the u) t) (seeding snap k)"
proof -
  have free: "mget (Tasks snap) k = None" "k \<noteq> []"
    using free_round_Some [of "wrap64 (HighestClosingRound snap + 1)"] k by (auto simp: NextClosingTaskID_def round_id_def)
  obtain n where spec: "seeded_spec p snap r = Some (closing_spec p k n)" by (auto simp: seeded_spec_def k)
  have final: "valid view usable i (round_stored snap k)
      (bind_act (read_trace L i) (\<lambda>t. case mget (Tasks t) k of None \<Rightarrow> throw (e t) | Some u \<Rightarrow> ret (Some u, [])))
      (\<lambda>(u, note) t. u \<noteq> None \<and> round_result snap k (the u) t) (seeding snap k)" for e :: "TraceSnapshot \<Rightarrow> 'e hive_error"
    by (rule valid_bind [OF valid_read [OF i]])
      (auto simp: seeding_def valid_def ret_def throw_def round_result_def split: option.split)
  have kick: "valid view usable i (round_stored snap k) (WriteEvent L E ev) (\<lambda>_. round_stored snap k) (seeding snap k)"
    if "built_as i RuntimeAgentID EventSignal (TaskReadyPayload_json (ready_of (closing_spec p k n))) ev" for ev
    by (rule valid_write) (use that ready_round [OF that] in \<open>auto simp: built_as_def seeding_def\<close>)
  have plan: "valid view usable i (\<lambda>t. t = snap) (WriteEvent L E ev) (\<lambda>_. round_stored snap k) (seeding snap k)"
    if "built_as i RuntimeAgentID EventInsight (plan_one (closing_spec p k n)) ev" for ev
    by (rule valid_write) (use that plan_round [OF that free(2) p snap free(1)] in \<open>auto simp: built_as_def seeding_def\<close>)
  show ?thesis unfolding ensureClosingRound_def seed closing_verdict.case spec option.case closing_spec_fields
    by (intro valid_build_then valid_bind [OF plan] valid_bind [OF kick] final)
      (auto simp: seeding_def)
qed

end

text \<open>
  A run at the boundary does nothing; or a round was due and is stored, while the rest is calm; or it
  was decided that no round is due, all other work is completed and only merge tasks move.
\<close>

definition gate_promise :: "(string \<Rightarrow> string) \<Rightarrow> ClosingPolicy \<Rightarrow> TraceSnapshot \<Rightarrow> TraceSnapshot \<Rightarrow> bool" where
  "gate_promise quote p snap t \<longleftrightarrow> t = snap
     \<or> (\<exists>r k. closing_decision quote p snap = SeedRound r \<and> NextClosingTaskID snap = Some k \<and> round_stored snap k t)
     \<or> rest_done snap snap \<and> rest_done snap t \<and> (\<forall>r. closing_decision quote p snap \<noteq> SeedRound r)"

definition phases_result :: "(string \<Rightarrow> string) \<Rightarrow> ClosingPolicy \<Rightarrow> TraceSnapshot \<Rightarrow> TaskSnapshot option \<Rightarrow> TraceSnapshot \<Rightarrow> bool" where
  "phases_result quote p snap result t \<longleftrightarrow> gate_promise quote p snap t \<and> (case result of
     None \<Rightarrow> \<forall>r. closing_decision quote p snap \<noteq> SeedRound r
   | Some u \<Rightarrow> \<exists>r k. closing_decision quote p snap = SeedRound r \<and> NextClosingTaskID snap = Some k \<and> round_result snap k u t)"

context ledger_api
begin

lemma phases_valid:
  fixes G :: "'e gate_host"
  assumes i: "i \<noteq> []" and snap: "ledger_ok snap" "reserved_free snap" and p: "rounds_not_final (gp_Closing P)"
  shows "valid view usable i (\<lambda>t. t = snap) (EnsureTrailPhases L E G P i)
     (phases_result (gh_quote G) (gp_Closing P) snap) (gate_promise (gh_quote G) (gp_Closing P) snap)"
proof -
  let ?R = "gate_promise (gh_quote G) (gp_Closing P) snap" and ?Q = "phases_result (gh_quote G) (gp_Closing P) snap"
  have here: "?R snap" by (simp add: gate_promise_def)
  have "valid view usable i (\<lambda>t. t = snap) (bind_act (ensureClosingRound L E G i snap (gp_Closing P)) (\<lambda>(seeded, note).
      if seeded \<noteq> None then ret seeded else if \<not> AllPreMergeCompleted snap then ret None
      else bind_act (ensureMergeGate L E G (gp_Merge P) i snap note) (\<lambda>_. ret None))) ?Q ?R"
  proof (cases "closing_decision (gh_quote G) (gp_Closing P) snap")
    case (NoRound why)
    have none: "valid view usable i (\<lambda>t. t = snap) (ret None :: ('l, 'e, TaskSnapshot option) act) ?Q ?R"
      by (rule valid_ret) (simp add: phases_result_def here NoRound)
    have "valid view usable i (\<lambda>t. t = snap)
        (bind_act (ensureMergeGate L E G (gp_Merge P) i snap why) (\<lambda>_. ret None)) ?Q ?R" if "AllPreMergeCompleted snap"
    proof -
      have r: "rest_done snap snap" using that snap(1) by (simp add: rest_done_def steady_refl)
      show ?thesis
        by (rule valid_bind [OF valid_weaken [OF ensureMergeGate_valid [OF r snap(2)], where Q' = "\<lambda>_. ?R" and R' = "?R"]])
          (auto simp: gate_promise_def r NoRound phases_result_def intro!: valid_ret)
    qed
    with none show ?thesis by (simp add: ensureClosingRound_def NoRound bind_ret)
  next
    case (SeedRound r)
    show ?thesis
    proof (cases "NextClosingTaskID snap")
      case None
      then have "seeded_spec (gp_Closing P) snap r = None" by (simp add: seeded_spec_def)
      then show ?thesis by (auto simp: ensureClosingRound_def SeedRound valid_def bind_act_def throw_def here)
    next
      case (Some k)
      have seed: "valid view usable i (\<lambda>t. t = snap) (ensureClosingRound L E G i snap (gp_Closing P) :: ('l, 'e, TaskSnapshot option \<times> string) act)
          (\<lambda>(u, note) t. u \<noteq> None \<and> round_result snap k (the u) t) ?R"
        by (rule valid_weaken [OF seed_valid [OF i Some snap(1) p SeedRound]])
          (auto simp: seeding_def gate_promise_def Some SeedRound)
      show ?thesis
        by (rule valid_bind [OF seed])
          (auto simp: phases_result_def gate_promise_def round_result_def SeedRound Some valid_def ret_def)
    qed
  qed
  with i here show ?thesis unfolding EnsureTrailPhases_def if_not_P [OF i] by (intro valid_read_then)
qed

lemma phases_run:
  fixes G :: "'e gate_host"
  assumes run: "EnsureTrailPhases L E G P i s = (s', r)" and s: "usable (hv_ledger s)"
    and snap: "ledger_ok (view (hv_ledger s) i)" "reserved_free (view (hv_ledger s) i)" and p: "rounds_not_final (gp_Closing P)"
  shows "usable (hv_ledger s')" "gate_promise (gh_quote G) (gp_Closing P) (view (hv_ledger s) i) (view (hv_ledger s') i)"
    "r = Inr (Some u) \<Longrightarrow> phases_result (gh_quote G) (gp_Closing P) (view (hv_ledger s) i) (Some u) (view (hv_ledger s') i)"
proof -
  let ?snap = "view (hv_ledger s) i" and ?t = "view (hv_ledger s') i"
  have "usable (hv_ledger s') \<and> gate_promise (gh_quote G) (gp_Closing P) ?snap ?t
    \<and> (\<forall>u. r = Inr (Some u) \<longrightarrow> phases_result (gh_quote G) (gp_Closing P) ?snap (Some u) ?t)"
  proof (cases "i = []")
    case True
    with run s show ?thesis by (auto simp: EnsureTrailPhases_def ret_def gate_promise_def)
  next
    case False
    note d = validD [OF phases_valid [OF False snap p] s refl run]
    show ?thesis
    proof (cases r)
      case (Inl e)
      with d show ?thesis by simp
    next
      case (Inr x)
      with d(1) d(2) [OF Inr] show ?thesis by (auto simp: phases_result_def)
    qed
  qed
  then show "usable (hv_ledger s')" "gate_promise (gh_quote G) (gp_Closing P) ?snap ?t"
    "r = Inr (Some u) \<Longrightarrow> phases_result (gh_quote G) (gp_Closing P) ?snap (Some u) ?t"
    by blast+
qed

end

section \<open>How many rounds there can be\<close>

definition rounds_of :: "TraceSnapshot \<Rightarrow> string set" where
  "rounds_of t = {k. \<exists>u. mget (Tasks t) k = Some u \<and> IsClosingTask u}"

text \<open>A history of one trail: events that plan nothing in the runtime's name, and gate boundaries.\<close>

definition outsider :: "Event \<Rightarrow> bool" where
  "outsider ev \<longleftrightarrow> ev_Type ev \<noteq> EventInsight \<or> TrimSpace (ev_AgentID ev) \<noteq> RuntimeAgentID"

inductive gate_history :: "'l Ledger \<Rightarrow> ('l \<Rightarrow> string \<Rightarrow> TraceSnapshot) \<Rightarrow> GatePolicies \<Rightarrow> string \<Rightarrow> 'l hive \<Rightarrow> 'l hive \<Rightarrow> bool"
  for L view P i s0 where
  start: "gate_history L view P i s0 s0"
| event: "gate_history L view P i s0 s \<Longrightarrow> outsider ev \<Longrightarrow> gate_history L view P i s0 (s\<lparr>hv_ledger := fst (lg_Apply L (hv_ledger s) ev)\<rparr>)"
| boundary: "gate_history L view P i s0 s \<Longrightarrow> reserved_free (view (hv_ledger s) i) \<Longrightarrow> length (Tasks (view (hv_ledger s) i)) < 2 ^ 61
    \<Longrightarrow> EnsureTrailPhases L E (G :: string gate_host) P i s = (s', r) \<Longrightarrow> gate_history L view P i s0 s'"

text \<open>The highest round depends on the ids of the closing tasks only.\<close>

lemma highest_attained:
  "fold highest_step ts h = h \<or> (\<exists>t \<in> set ts. IsClosingTask t \<and> ClosingRoundNumber (t_TaskID t) = Some (fold highest_step ts h))"
proof (induction ts arbitrary: h)
  case (Cons u ts)
  show ?case
  proof (cases "highest_step u h = h")
    case True
    with Cons.IH [of h] show ?thesis by auto
  next
    case False
    then have "IsClosingTask u" "ClosingRoundNumber (t_TaskID u) = Some (highest_step u h)"
      by (auto simp: highest_step_def split: if_splits option.splits)
    with Cons.IH [of "highest_step u h"] show ?thesis by auto
  qed
qed simp

lemma rounds_of_task_list:
  assumes "trace_wf t"
  shows "rounds_of t = t_TaskID ` {u \<in> set (task_list t). IsClosingTask u}"
  using trace_wf_task_list [OF assms] assms tasks_wf_mget unfolding rounds_of_def trace_wf_def by (auto simp: image_iff) (metis tasks_wf_mget)

lemma HighestClosingRound_rounds:
  assumes "trace_wf t"
  shows "k \<in> rounds_of t \<Longrightarrow> ClosingRoundNumber k = Some n \<Longrightarrow> n \<le> HighestClosingRound t"
    and "HighestClosingRound t = 0 \<or> (\<exists>k \<in> rounds_of t. ClosingRoundNumber k = Some (HighestClosingRound t))"
  using HighestClosingRound_upper highest_attained [of "task_list t" 0]
  unfolding rounds_of_task_list [OF assms] HighestClosingRound_def by auto

lemma HighestClosingRound_mono:
  assumes "trace_wf t" "trace_wf t'" "rounds_of t \<subseteq> rounds_of t'"
  shows "HighestClosingRound t \<le> HighestClosingRound t'"
  using HighestClosingRound_rounds(2) [OF assms(1)] HighestClosingRound_rounds(1) [OF assms(2)] assms(3)
    HighestClosingRound_bounds(1) [of t'] by auto

text \<open>Which tasks are closing rounds is not changed by what is calm or steady, nor by an outsider's event.\<close>

definition rounds_set :: "TraceSnapshot \<Rightarrow> bool" where
  "rounds_set t \<longleftrightarrow> ledger_ok t \<and> (\<forall>k u. mget (Tasks t) k = Some u \<longrightarrow> IsClosingTask u \<longrightarrow> t_Status u \<noteq> TaskStatusUnset)"

lemma steady_closing:
  assumes "steady a b"
  shows "(\<exists>u. b = Some u \<and> IsClosingTask u) \<longleftrightarrow> (\<exists>u. a = Some u \<and> IsClosingTask u)"
    and "\<lbrakk>\<And>u. a = Some u \<Longrightarrow> IsClosingTask u \<Longrightarrow> t_Status u \<noteq> TaskStatusUnset; b = Some u'; IsClosingTask u'\<rbrakk>
      \<Longrightarrow> t_Status u' \<noteq> TaskStatusUnset"
  using assms by (auto simp: steady_def calm_def made_eligible_def revised_closing dest: not_merge_and_closing)

lemma rounds_event:
  assumes "ApplyEvent clock t ev = Inr res" "outsider ev" "rounds_set t"
  shows "rounds_of (ar_Trace res) = rounds_of t" "rounds_set (ar_Trace res)"
proof -
  have ok: "ledger_ok t" using assms(3) by (simp add: rounds_set_def)
  have c: "contract_kept (mget (Tasks t) k) (mget (Tasks (ar_Trace res)) k)" for k
    by (rule contract.rel_event [OF assms(1) ok]) (simp add: contract_kept_def)
  have d: "closing_kept (mget (Tasks t) k) (mget (Tasks (ar_Trace res)) k)" for k
    by (rule closing.rel_event [OF assms(1) ok])
      (use assms(2) plannedTask_closing in \<open>auto simp: outsider_def closing_kept_def\<close>)
  have forth: "\<exists>u'. mget (Tasks (ar_Trace res)) k = Some u' \<and> IsClosingTask u' \<and> t_Status u' \<noteq> TaskStatusUnset"
    if "mget (Tasks t) k = Some u" "IsClosingTask u" for k u
  proof -
    have "t_Status u \<noteq> TaskStatusUnset" using assms(3) that by (simp add: rounds_set_def)
    with c [of k] that obtain u' where "mget (Tasks (ar_Trace res)) k = Some u'" "revised u u'" by (auto simp: contract_kept_def)
    with that \<open>t_Status u \<noteq> TaskStatusUnset\<close> show ?thesis using revised_closing [of u u'] by (auto simp: revised_def)
  qed
  have conv: "\<exists>u. mget (Tasks t) k = Some u \<and> IsClosingTask u"
    if "mget (Tasks (ar_Trace res)) k = Some u'" "IsClosingTask u'" for k u'
    using d [of k] that by (simp add: closing_kept_def)
  show "rounds_of (ar_Trace res) = rounds_of t" using forth conv by (auto simp: rounds_of_def) blast
  have "t_Status u' \<noteq> TaskStatusUnset" if "mget (Tasks (ar_Trace res)) k = Some u'" "IsClosingTask u'" for k u'
    using conv [OF that] forth that by fastforce
  then show "rounds_set (ar_Trace res)" using ok_inv.event [OF ok assms(1)] by (simp add: rounds_set_def)
qed

lemma rounds_steady:
  assumes "rounds_set t" "ledger_ok t'" "\<And>k. steady (mget (Tasks t) k) (mget (Tasks t') k)"
  shows "rounds_of t' = rounds_of t" "rounds_set t'"
  using steady_closing [OF assms(3)] assms(1,2) by (auto simp: rounds_of_def rounds_set_def)

lemma rounds_stored:
  assumes "rounds_set t" "round_stored t k t'"
  shows "rounds_of t' = insert k (rounds_of t)" "rounds_set t'"
proof -
  obtain u where u: "mget (Tasks t') k = Some u" "IsClosingTask u" "t_Status u \<noteq> TaskStatusUnset"
    using assms(2) by (auto simp: round_stored_def)
  have st: "steady (mget (Tasks t) j) (mget (Tasks t') j)" if "j \<noteq> k" for j
    using assms(2) that by (simp add: round_stored_def steady_def)
  have "j \<in> rounds_of t' \<longleftrightarrow> j = k \<or> j \<in> rounds_of t" for j
    using steady_closing(1) [OF st, of j] u by (cases "j = k") (simp_all add: rounds_of_def)
  then show "rounds_of t' = insert k (rounds_of t)" by blast
  have "t_Status v \<noteq> TaskStatusUnset" if "mget (Tasks t') j = Some v" "IsClosingTask v" for j v
    using steady_closing(2) [OF st, of j v] that u assms(1) by (cases "j = k") (auto simp: rounds_set_def)
  with assms(2) show "rounds_set t'" by (simp add: rounds_set_def round_stored_def)
qed

lemma rounds_applied:
  assumes "ApplyEvent clock t ev = Inr res" "applied_to t res after" "outsider ev" "rounds_set t"
  shows "rounds_of after = rounds_of t" "rounds_set after"
proof -
  note e = rounds_event [OF assms(1,3,4)]
  have ok: "ledger_ok after" using applied_ok [OF assms(1,2)] assms(4) by (simp add: rounds_set_def)
  from assms(2) consider "Tasks after = Tasks t" | "Tasks after = Tasks (ar_Trace res)" by (auto simp: applied_to_def)
  then have "rounds_of after = rounds_of t \<and> rounds_set after"
  proof cases
    case 1
    with ok assms(4) show ?thesis by (simp add: rounds_of_def rounds_set_def)
  next
    case 2
    then have "rounds_of after = rounds_of (ar_Trace res)" by (simp add: rounds_of_def)
    with e ok 2 show ?thesis by (simp add: rounds_set_def)
  qed
  then show "rounds_of after = rounds_of t" "rounds_set after" by simp_all
qed

text \<open>The invariant of a history: the rounds so far, bounded by the highest number and by the cap.\<close>

definition rounds_within :: "int \<Rightarrow> TraceSnapshot \<Rightarrow> bool" where
  "rounds_within m t \<longleftrightarrow> rounds_set t \<and> int (card (rounds_of t)) \<le> HighestClosingRound t
     \<and> int (card (rounds_of t)) \<le> m \<and> HighestClosingRound t \<le> m + 2 ^ 61"

lemma rounds_within_wf: "rounds_within m t \<Longrightarrow> trace_wf t"
  by (simp add: rounds_within_def rounds_set_def ledger_ok_wf)

lemma rounds_within_same:
  assumes "rounds_within m t" "rounds_of t' = rounds_of t" "rounds_set t'"
  shows "rounds_within m t'"
proof -
  have wf: "trace_wf t" "trace_wf t'" using assms by (simp_all add: rounds_within_def rounds_set_def ledger_ok_wf)
  have "HighestClosingRound t' = HighestClosingRound t"
    using HighestClosingRound_mono [OF wf] HighestClosingRound_mono [OF wf(2,1)] assms(2) by force
  with assms show ?thesis by (simp add: rounds_within_def)
qed

lemma rounds_within_seed:
  assumes t: "rounds_within m t" and m: "m < 2 ^ 61" and len: "length (Tasks t) < 2 ^ 61"
    and seed: "closing_decision quote p t = SeedRound r" "ResolvedMaxRounds p = m" "NextClosingTaskID t = Some k"
    and t': "round_stored t k t'"
  shows "rounds_within m t'"
proof -
  let ?h = "HighestClosingRound t"
  have set: "rounds_set t" and h: "int (card (rounds_of t)) \<le> ?h" "?h \<le> m + 2 ^ 61" "0 \<le> ?h"
    using t HighestClosingRound_bounds(1) by (auto simp: rounds_within_def)
  have "wrap64 (?h + 1) \<le> m"
    using seed(1,2) by (auto simp: closing_decision_def Let_def split: if_splits)
  then have cap: "?h + 1 \<le> m" using h m wrap64_id_bounds [of "?h + 1"] by simp
  have "length (Tasks t) < 2 ^ 64" using len by simp
  then obtain j where j: "j \<le> length (Tasks t)" "NextClosingTaskID t = Some (round_id (wrap64 (?h + 1 + int j)))"
    "mget (Tasks t) (round_id (wrap64 (?h + 1 + int j))) = None" by (rule NextClosingTaskID_fresh)
  have k: "k = round_id (wrap64 (?h + 1 + int j))" using j(2) seed(3) by simp
  have free: "mget (Tasks t) k = None" unfolding k by (rule j(3))
  let ?n = "?h + 1 + int j"
  have n: "wrap64 ?n = ?n" "1 \<le> ?n" "?n < 2 ^ 63" using cap m j(1) len h wrap64_id_bounds [of ?n] by simp_all
  have number: "ClosingRoundNumber k = Some ?n" using n ClosingRoundNumber_id [of ?n] by (simp add: k round_id_def)
  note r = rounds_stored [OF set t']
  have wf: "trace_wf t" "trace_wf t'" using rounds_within_wf [OF t] r(2) by (simp_all add: rounds_set_def ledger_ok_wf)
  have "finite (rounds_of t)" by (simp add: rounds_of_task_list [OF wf(1)])
  moreover have "k \<notin> rounds_of t" using free by (simp add: rounds_of_def)
  ultimately have card: "int (card (rounds_of t')) = int (card (rounds_of t)) + 1" by (simp add: r(1))
  have low: "?n \<le> HighestClosingRound t'" using HighestClosingRound_rounds(1) [OF wf(2) _ number] by (simp add: r(1))
  have "HighestClosingRound t' \<le> m + 2 ^ 61"
    using HighestClosingRound_rounds(2) [OF wf(2)]
  proof (elim disjE bexE)
    fix i assume i: "i \<in> rounds_of t'" "ClosingRoundNumber i = Some (HighestClosingRound t')"
    show ?thesis
    proof (cases "i = k")
      case True
      with i(2) number cap j(1) len show ?thesis by simp
    next
      case False
      with i(1) r(1) HighestClosingRound_rounds(1) [OF wf(1) _ i(2)] h(2) show ?thesis by simp
    qed
  qed (use cap h in simp)
  with low card h(1) cap r(2) show ?thesis by (simp add: rounds_within_def)
qed

context ledger_api
begin

lemma history_within:
  assumes "gate_history L view P i s0 s" "i \<noteq> []" "usable (hv_ledger s0)" "rounds_set (view (hv_ledger s0) i)"
    and "rounds_of (view (hv_ledger s0) i) = {}"
    and p: "rounds_not_final (gp_Closing P)" "0 \<le> ResolvedMaxRounds (gp_Closing P)" "ResolvedMaxRounds (gp_Closing P) < 2 ^ 61"
  shows "usable (hv_ledger s) \<and> rounds_within (ResolvedMaxRounds (gp_Closing P)) (view (hv_ledger s) i)"
  using assms(1)
proof (induction rule: gate_history.induct)
  case start
  have wf: "trace_wf (view (hv_ledger s0) i)" using assms(4) by (simp add: rounds_set_def ledger_ok_wf)
  have "HighestClosingRound (view (hv_ledger s0) i) = 0" using HighestClosingRound_rounds(2) [OF wf] assms(5) by simp
  with assms(3,4,5) p(2) show ?case by (simp add: rounds_within_def)
next
  case (event s ev)
  let ?t = "view (hv_ledger s) i" and ?l = "fst (lg_Apply L (hv_ledger s) ev)"
  have u: "usable (hv_ledger s)" and w: "rounds_within (ResolvedMaxRounds (gp_Closing P)) ?t" using event.IH by simp_all
  have "rounds_within (ResolvedMaxRounds (gp_Closing P)) (view ?l i)"
  proof (cases "i = ev_TraceID ev")
    case False
    with apply_other [OF u] w show ?thesis by simp
  next
    case True
    show ?thesis
    proof (cases "snd (lg_Apply L (hv_ledger s) ev)")
      case (Inl e)
      with apply_error [OF u] w show ?thesis by simp
    next
      case (Inr res)
      from apply_done [OF u Inr] True obtain clock where a: "ApplyEvent clock ?t ev = Inr res" "applied_to ?t res (view ?l i)" by auto
      have "rounds_set ?t" using w by (simp add: rounds_within_def)
      from rounds_within_same [OF w rounds_applied [OF a event.hyps(2) this]] show ?thesis .
    qed
  qed
  with apply_usable [OF u] show ?case by simp
next
  case (boundary s E G s' r)
  let ?t = "view (hv_ledger s) i"
  have u: "usable (hv_ledger s)" and w: "rounds_within (ResolvedMaxRounds (gp_Closing P)) ?t" using boundary.IH by simp_all
  have set: "rounds_set ?t" "ledger_ok ?t" using w by (simp_all add: rounds_within_def rounds_set_def)
  note run = phases_run [OF boundary.hyps(4) u set(2) boundary.hyps(2) p(1)]
  from run(2) have "rounds_within (ResolvedMaxRounds (gp_Closing P)) (view (hv_ledger s') i)"
    unfolding gate_promise_def
  proof (elim disjE exE conjE)
    assume "rest_done ?t (view (hv_ledger s') i)"
    then have "ledger_ok (view (hv_ledger s') i)" "\<And>k. steady (mget (Tasks ?t) k) (mget (Tasks (view (hv_ledger s') i)) k)"
      by (simp_all add: rest_done_def)
    from rounds_within_same [OF w rounds_steady [OF set(1) this]] show ?thesis .
  qed (use w rounds_within_seed [OF w p(3) boundary.hyps(3) _ refl] in auto)
  with run(1) show ?case by simp
qed

end

context live_bucket
begin

lemmas bucket_history = kv_api.history_within

end

end
