(* ===== verification/GateSeeds.thy ===== *)
theory GateSeeds
  imports GateRounds
begin

text \<open>
  Total correctness of a seeding boundary: when a round is due, ids can be drawn and publications
  succeed, the boundary seeds it. And what it means that a round is guaranteed.
\<close>

section \<open>Actions that succeed\<close>

definition total ::
  "('l \<Rightarrow> string \<Rightarrow> TraceSnapshot) \<Rightarrow> ('l \<Rightarrow> bool) \<Rightarrow> string \<Rightarrow> (TraceSnapshot \<Rightarrow> bool) \<Rightarrow> ('l, 'e, 'a) act
    \<Rightarrow> ('a \<Rightarrow> TraceSnapshot \<Rightarrow> bool) \<Rightarrow> bool" where
  "total view usable i P m Q \<longleftrightarrow> (\<forall>s. usable (hv_ledger s) \<longrightarrow> P (view (hv_ledger s) i)
     \<longrightarrow> (\<exists>s' x. m s = (s', Inr x) \<and> usable (hv_ledger s') \<and> Q x (view (hv_ledger s') i)))"

lemma total_bind:
  assumes "total view usable i P m Q" "\<And>x. total view usable i (Q x) (f x) Q'"
  shows "total view usable i P (bind_act m f) Q'"
  unfolding total_def
proof (intro allI impI)
  fix s :: "_ hive" assume "usable (hv_ledger s)" "P (view (hv_ledger s) i)"
  then obtain s1 x where 1: "m s = (s1, Inr x)" "usable (hv_ledger s1)" "Q x (view (hv_ledger s1) i)"
    using assms(1) unfolding total_def by blast
  with assms(2) obtain s' y where "f x s1 = (s', Inr y)" "usable (hv_ledger s')" "Q' y (view (hv_ledger s') i)"
    unfolding total_def by blast
  with 1(1) show "\<exists>s' y. bind_act m f s = (s', Inr y) \<and> usable (hv_ledger s') \<and> Q' y (view (hv_ledger s') i)"
    by (simp add: bind_act_def)
qed

lemma total_ret: "(\<And>t. P t \<Longrightarrow> Q x t) \<Longrightarrow> total view usable i P (ret x) Q"
  by (auto simp: total_def ret_def)

text \<open>The host gives ids, and what is published arrives.\<close>

definition draws :: "env \<Rightarrow> bool" where
  "draws E \<longleftrightarrow> (\<forall>n. en_rnd E n \<noteq> None)"

definition delivers :: "env \<Rightarrow> bool" where
  "delivers E \<longleftrightarrow> (\<forall>send ev. en_pub E = Some send \<longrightarrow> send ev)"

lemma total_build_then:
  fixes f :: "Event \<Rightarrow> ('l, 'e, 'a) act"
  assumes E: "draws E" and p: "\<And>n. p n \<noteq> None"
    and f: "\<And>ev n b. p n = Some b \<Longrightarrow> built_as j a ty b ev \<Longrightarrow> total view usable i P (f ev) Q"
  shows "total view usable i P (bind_act (build E j a ty p) f) Q"
  unfolding total_def
proof (intro allI impI)
  fix s :: "_ hive" assume s: "usable (hv_ledger s)" "P (view (hv_ledger s) i)"
  obtain b body where b: "p (hv_made s) = Some b" "en_rnd E (hv_made s) = Some body"
    using E p by (force simp: draws_def)
  define ev where "ev = the (NewEvent_raw (Some body) (en_now E (hv_made s)) j a 0 ty (RawJson b))"
  let ?s = "s\<lparr>hv_made := Suc (hv_made s)\<rparr>"
  have run: "(build E j a ty p :: ('l, 'e, Event) act) s = (?s, Inr ev)" using b unfolding build_Inr ev_def by blast
  have "built_as j a ty b ev" by (rule build_built [OF run]) (use b(1) in simp)
  from f [OF b(1) this] s obtain s' y where "f ev ?s = (s', Inr y)" "usable (hv_ledger s')" "Q y (view (hv_ledger s') i)"
    unfolding total_def by (metis hive.select_convs(1) hive.surjective hive.update_convs(4))
  with run show "\<exists>s' y. bind_act (build E j a ty p) f s = (s', Inr y) \<and> usable (hv_ledger s') \<and> Q y (view (hv_ledger s') i)"
    by (simp add: bind_act_def)
qed

section \<open>Plans and kicks are never refused\<close>

lemma apply_not_failed:
  assumes "TraceID t = i" "ev_TraceID ev = i" "\<And>now. \<not> isl (reduceEvent t ev now)"
  shows "\<not> isl (ApplyEvent clock t ev)"
proof -
  have "traceForEvent t ev = Inr t" using assms(1,2) by (simp add: traceForEvent_def)
  moreover obtain st where "reduceEvent t ev (eventStamp clock ev) = Inr st"
    using assms(3) [of "eventStamp clock ev"] by (cases "reduceEvent t ev (eventStamp clock ev)") auto
  ultimately show ?thesis by (simp add: ApplyEvent_def)
qed

lemma plan_not_failed:
  assumes "built_as i a EventInsight (plan_one spec) ev" "canonical_spec spec" "TraceID t = i"
  shows "\<not> isl (ApplyEvent clock t ev)"
proof (rule apply_not_failed [OF assms(3)])
  fix now
  have "decodePayload TaskPlanPayload_schema TaskPlanPayload_of ev ''task.plan'' = Inr \<lparr>pl_Kind = TaskEventPlan, pl_Tasks = [spec]\<rparr>"
    by (rule decode_plan) (use assms(1,2) in \<open>simp_all add: built_as_def plan_one_def\<close>)
  then show "\<not> isl (reduceEvent t ev now)" using assms(1)
    by (simp add: reduceEvent_def built_as_def reduceInsight_def split_beta Let_def split: option.split prod.split)
qed (use assms(1) in \<open>simp add: built_as_def\<close>)

lemma ready_not_failed:
  assumes "built_as i a EventSignal (TaskReadyPayload_json p) ev" "rd_Kind p = TaskEventReady" "rd_TaskID p \<noteq> []" "TraceID t = i"
  shows "\<not> isl (ApplyEvent clock t ev)"
proof (rule apply_not_failed [OF assms(4)])
  fix now
  have pl: "ev_Payload ev = RawJson (TaskReadyPayload_json p)" "ev_Type ev = EventSignal" using assms(1) by (simp_all add: built_as_def)
  have "\<not> isl (reduceTaskReady t ev now)" unfolding reduceTaskReady_def decode_ready [OF pl(1)]
    using assms(2,3) by (auto simp: Let_def split: option.split prod.split)
  then show "\<not> isl (reduceEvent t ev now)"
    using pl kind_ready [OF pl(1)] assms(2) by (simp add: reduceEvent_def reduceSignal_def)
qed (use assms(1) in \<open>simp add: built_as_def\<close>)

context ledger_api
begin

lemma total_write:
  assumes i: "i \<noteq> []" "ev_TraceID ev = i" and E: "delivers E"
    and ok: "\<And>clock t. P t \<Longrightarrow> \<not> isl (ApplyEvent clock t ev)"
    and step: "\<And>clock t res after. P t \<Longrightarrow> ApplyEvent clock t ev = Inr res \<Longrightarrow> applied_to t res after \<Longrightarrow> Q after"
  shows "total view usable i P (WriteEvent L E ev :: ('l, 'e, unit) act) (\<lambda>_. Q)"
  unfolding total_def
proof (intro allI impI)
  fix s :: "_ hive" assume s: "usable (hv_ledger s)" "P (view (hv_ledger s) i)"
  obtain s' r where run: "(WriteEvent L E ev :: ('l, 'e, unit) act) s = (s', r)" by fastforce
  obtain res where res: "snd (lg_Apply L (hv_ledger s) ev) = Inr res"
    using apply_total [OF s(1), of ev] i ok [OF s(2)] by blast
  have "hv_ledger s' = fst (lg_Apply L (hv_ledger s) ev)" using run by (cases rule: WriteEvent_any) simp_all
  moreover have "r = Inr ()"
    using run res E by (auto simp: WriteEvent_def bind_act_def apply_event_def remember_def publish_event_def delivers_def
        split: prod.splits option.splits if_splits)
  moreover obtain clock where "ApplyEvent clock (view (hv_ledger s) i) ev = Inr res"
    "applied_to (view (hv_ledger s) i) res (view (fst (lg_Apply L (hv_ledger s) ev)) i)"
    using apply_done [OF s(1) res] i(2) by auto
  moreover from this step [OF s(2)] have "Q (view (fst (lg_Apply L (hv_ledger s) ev)) i)" by blast
  ultimately show "\<exists>s' x. (WriteEvent L E ev :: ('l, 'e, unit) act) s = (s', Inr x) \<and> usable (hv_ledger s') \<and> Q (view (hv_ledger s') i)"
    using run apply_usable [OF s(1), of ev] by simp
qed

end

lemma applied_TraceID:
  assumes "ApplyEvent clock t ev = Inr res" "applied_to t res after" "TraceID t = i" "ev_TraceID ev = i"
  shows "TraceID after = i"
  using ApplyEvent_TraceID [OF assms(1,3,4)] assms(2,3) by (auto simp: applied_to_def)

section \<open>A round that is due is seeded\<close>

context ledger_api
begin

lemma seed_total:
  assumes i: "i \<noteq> []" and k: "NextClosingTaskID snap = Some k" and snap: "ledger_ok snap" "TraceID snap = i"
    and p: "rounds_not_final p" and seed: "closing_decision (gh_quote G) p snap = SeedRound r"
    and E: "draws E" "delivers E"
  shows "total view usable i (\<lambda>t. t = snap) (ensureClosingRound L E G i snap p :: ('l, 'e, TaskSnapshot option \<times> string) act)
     (\<lambda>(u, note) _. u \<noteq> None)"
proof -
  have free: "mget (Tasks snap) k = None" "k \<noteq> []"
    using free_round_Some [of "wrap64 (HighestClosingRound snap + 1)"] k by (auto simp: NextClosingTaskID_def round_id_def)
  obtain n where spec: "seeded_spec p snap r = Some (closing_spec p k n)" by (auto simp: seeded_spec_def k)
  let ?Q = "\<lambda>t. round_stored snap k t \<and> TraceID t = i"
  have final: "total view usable i ?Q
      (bind_act (read_trace L i) (\<lambda>t. case mget (Tasks t) k of None \<Rightarrow> throw (e t) | Some u \<Rightarrow> ret (Some u, [])))
      (\<lambda>(u, note) _. u \<noteq> None)" for e :: "TraceSnapshot \<Rightarrow> 'e hive_error"
    using i snapshot by (auto simp: total_def bind_act_def read_trace_def ret_def round_stored_def)
  have kick: "total view usable i ?Q (WriteEvent L E ev) (\<lambda>_. ?Q)"
    if "built_as i RuntimeAgentID EventSignal (TaskReadyPayload_json (ready_of (closing_spec p k n))) ev" for ev
  proof (rule total_write [OF i _ E(2)])
    show id: "ev_TraceID ev = i" using that by (simp add: built_as_def)
    show "\<not> isl (ApplyEvent clock t ev)" if "?Q t" for clock t
      by (rule ready_not_failed [OF \<open>built_as i _ _ _ ev\<close>]) (use that free(2) in \<open>simp_all add: closing_spec_fields\<close>)
    show "?Q after" if "?Q t" "ApplyEvent clock t ev = Inr res" "applied_to t res after" for clock t res after
      using ready_round [OF \<open>built_as i _ _ _ ev\<close> _ that(2,3)] applied_TraceID [OF that(2,3) _ id] that(1) by blast
  qed
  have plan: "total view usable i (\<lambda>t. t = snap) (WriteEvent L E ev) (\<lambda>_. ?Q)"
    if "built_as i RuntimeAgentID EventInsight (plan_one (closing_spec p k n)) ev" for ev
  proof (rule total_write [OF i _ E(2)])
    show id: "ev_TraceID ev = i" using that by (simp add: built_as_def)
    show "\<not> isl (ApplyEvent clock t ev)" if "t = snap" for clock t
      by (rule plan_not_failed [OF \<open>built_as i _ _ _ ev\<close> closing_spec_canonical]) (use that snap(2) in simp)
    show "?Q after" if "t = snap" "ApplyEvent clock t ev = Inr res" "applied_to t res after" for clock t res after
      using plan_round [OF \<open>built_as i _ _ _ ev\<close> free(2) p snap(1) free(1) that(2,3) [unfolded that(1)]]
        applied_TraceID [OF that(2,3) _ id] that(1) snap(2) by blast
  qed
  show ?thesis unfolding ensureClosingRound_def seed closing_verdict.case spec option.case closing_spec_fields
    by (intro total_build_then total_bind [OF plan] total_bind [OF kick] final E) auto
qed

lemma phases_seed:
  fixes G :: "'e gate_host"
  assumes i: "i \<noteq> []" and s: "usable (hv_ledger s)"
    and snap: "ledger_ok (view (hv_ledger s) i)" "TraceID (view (hv_ledger s) i) = i" "length (Tasks (view (hv_ledger s) i)) < 2 ^ 64"
    and p: "rounds_not_final (gp_Closing P)" and seed: "closing_decision (gh_quote G) (gp_Closing P) (view (hv_ledger s) i) = SeedRound r"
    and E: "draws E" "delivers E"
  shows "\<exists>s' u. EnsureTrailPhases L E G P i s = (s', Inr (Some u))"
proof -
  obtain k where k: "NextClosingTaskID (view (hv_ledger s) i) = Some k" using NextClosingTaskID_fresh [OF snap(3)] by metis
  from seed_total [OF i k snap(1,2) p seed E] s obtain s' u note' where
    "ensureClosingRound L E G i (view (hv_ledger s) i) (gp_Closing P) s = (s', Inr (Some u, note'))"
    unfolding total_def by fastforce
  then have "EnsureTrailPhases L E G P i s = (s', Inr (Some u))"
    using i snapshot [OF s i] by (simp add: EnsureTrailPhases_def bind_act_def read_trace_def ret_def)
  then show ?thesis by blast
qed

end

section \<open>The guarantee\<close>

lemma ClosingInFlight_unfinished: "ClosingInFlight snap \<noteq> None \<Longrightarrow> HasUnfinishedClosingTask snap"
proof -
  assume "ClosingInFlight snap \<noteq> None"
  then obtain u where "ClosingInFlight snap = Some u" by blast
  then have "u \<in> set (filter (\<lambda>t. IsClosingTask t \<and> t_Status t \<in> {TaskStatusPlanned, TaskStatusReady,
        TaskStatusRunning, TaskStatusWaitingReview, TaskStatusBlocked}) (task_list snap))"
    unfolding ClosingInFlight_def by (rule first_sorted_in)
  then show ?thesis by (auto simp: HasUnfinishedClosingTask_iff)
qed

lemma seed_iff_guaranteed:
  "(\<exists>r. closing_decision quote p snap = SeedRound r)
    \<longleftrightarrow> AllWorkCompleted snap \<and> ClosingRoundGuaranteed p snap \<and> \<not> ClosingCoversLatestWork snap"
  using ClosingInFlight_unfinished [of snap]
  by (auto simp: closing_decision_def ClosingRoundGuaranteed_def Let_def)

end
