(* ===== verification/DecisionLaws.thy ===== *)
theory DecisionLaws
  imports Delivery GateSeeds
begin

text \<open>
  What a human decision may and may not do: when the merge gate can be approved, what a discard and a
  rework leave in the ledger, and that nothing is delivered which may not be.
\<close>

section \<open>Blocked approvals\<close>

lemma unfinished_iff:
  assumes "trace_wf t"
  shows "unfinished t k \<noteq> [] \<longleftrightarrow> (\<exists>j u. j \<noteq> k \<and> mget (Tasks t) j = Some u \<and> \<not> IsMergeTask u \<and> t_Status u \<noteq> TaskStatusCompleted)"
proof -
  have "(j, u) \<in> set (Tasks t) \<longleftrightarrow> mget (Tasks t) j = Some u" for j u
    using assms mget_in [of "Tasks t" j u] in_mget [of "Tasks t" j u] unfolding trace_wf_def tasks_wf_def by blast
  then show ?thesis unfolding unfinished_def filter_empty_conv by fastforce
qed

lemma blocked_iff:
  assumes "trace_wf t"
  shows "ApproveBlockedReason t k \<noteq> [] \<longleftrightarrow> (\<exists>g. mget (Tasks t) k = Some g \<and> IsMergeTask g \<and> t_Status g = TaskStatusWaitingReview)
    \<and> (\<exists>j u. mget (Tasks t) j = Some u \<and> \<not> IsMergeTask u \<and> t_Status u \<noteq> TaskStatusCompleted)"
proof (cases "\<exists>g. mget (Tasks t) k = Some g \<and> IsMergeTask g \<and> t_Status g = TaskStatusWaitingReview")
  case True
  then obtain g where g: "mget (Tasks t) k = Some g" "IsMergeTask g" "t_Status g = TaskStatusWaitingReview" by blast
  then have "ApproveBlockedReason t k \<noteq> [] \<longleftrightarrow> unfinished t k \<noteq> []"
    unfolding ApproveBlockedReason_def Let_def by auto
  with g unfinished_iff [OF assms, of k] show ?thesis by (metis option.inject)
next
  case False
  then have "ApproveBlockedReason t k = []" by (auto simp: ApproveBlockedReason_def split: option.split)
  with False show ?thesis by blast
qed

lemma EnsureApprovable_iff: "EnsureApprovable q t k = Inr () \<longleftrightarrow> ApproveBlockedReason t k = []"
  by (simp add: EnsureApprovable_def Let_def)

text \<open>The reason does not depend on the order in which the map of tasks is visited.\<close>

lemma blocked_map_order:
  assumes "trace_wf t" "mset (Tasks t') = mset (Tasks t)"
  shows "ApproveBlockedReason t' k = ApproveBlockedReason t k"
proof -
  have m: "mset (map blocker (unfinished t' k)) = mset (map blocker (unfinished t k))"
    using assms(2) by (simp add: unfinished_def mset_filter)
  then have "length (unfinished t' k) = length (unfinished t k)" by (metis length_map size_mset)
  moreover have "go_sort string_before (map blocker (unfinished t' k)) = go_sort string_before (map blocker (unfinished t k))"
    by (rule string_order.sort_order_free [OF m]) (auto simp: string_before_def)
  moreover have "mget (Tasks t') k = mget (Tasks t) k"
    using mget_mset [of "Tasks t" "Tasks t'"] assms by (simp add: trace_wf_def tasks_wf_def)
  ultimately show ?thesis by (simp only: ApproveBlockedReason_def Let_def length_map)
qed

section \<open>Guards and discards\<close>

lemma waiting_gate_Inr:
  "waiting_gate q t i k = Inr task \<longleftrightarrow> mget (Tasks t) k = Some task \<and> t_Status task = TaskStatusWaitingReview \<and> IsReviewGate task"
  by (auto simp: waiting_gate_def split: option.split)

lemma waiting_not_killed:
  assumes "ledger_ok t" "mget (Tasks t) k = Some u" "t_Status u = TaskStatusWaitingReview"
  shows "\<not> Killed t"
  using assms unfolding ledger_ok_def frozen_def by (metis at_rest_simps(9))

context ledger_api
begin

lemma guard_Inr:
  assumes "(ensureWaitingReviewGate L q i k :: ('l, 'b, unit) act) s = (s', Inr ())" "usable (hv_ledger s)"
  shows "s' = s" "i \<noteq> []" "k \<noteq> []"
    "\<exists>u. mget (Tasks (view (hv_ledger s) i)) k = Some u \<and> t_Status u = TaskStatusWaitingReview \<and> IsReviewGate u"
proof -
  show ne: "i \<noteq> []" "k \<noteq> []" using assms(1) by (auto simp: ensureWaitingReviewGate_def throw_eq split: if_splits)
  with assms have "s' = s \<and> map_sum id (\<lambda>_. ()) (waiting_gate q (view (hv_ledger s) i) i k) = (Inr () :: 'b hive_error + unit)"
    by (auto simp: ensureWaitingReviewGate_def bind_act_def read_trace_def lift_sum_def snapshot)
  moreover from this obtain u where "waiting_gate q (view (hv_ledger s) i) i k = (Inr u :: 'b hive_error + TaskSnapshot)"
    by (cases "waiting_gate q (view (hv_ledger s) i) i k :: 'b hive_error + TaskSnapshot") auto
  ultimately show "s' = s"
    "\<exists>u. mget (Tasks (view (hv_ledger s) i)) k = Some u \<and> t_Status u = TaskStatusWaitingReview \<and> IsReviewGate u"
    unfolding waiting_gate_Inr by blast+
qed

text \<open>A discard changes one task, and makes nothing ready.\<close>

lemma discard_effect:
  fixes E :: env
  assumes run: "(Discard L E q d :: ('l, 'b, unit) act) s = (s', Inr ())" and s: "usable (hv_ledger s)"
    and ok: "ledger_ok (view (hv_ledger s) (dc_TraceID d))"
  obtains u now where "ledger_ok (view (hv_ledger s') (dc_TraceID d))" "mget (Tasks (view (hv_ledger s) (dc_TraceID d))) (dc_TaskID d) = Some u"
    "t_Status u = TaskStatusWaitingReview" "IsReviewGate u"
    "Tasks (view (hv_ledger s') (dc_TraceID d)) = mput (dc_TaskID d)
      ((withCreatedAt u now)\<lparr>t_Status := TaskStatusCancelled, t_Summary := st_Summary (discard_payload d), t_UpdatedAt := now\<rparr>)
      (Tasks (view (hv_ledger s) (dc_TraceID d)))"
proof -
  let ?i = "dc_TraceID d" and ?k = "dc_TaskID d" and ?p = "discard_payload d"
  obtain s1 ev where g: "(ensureWaitingReviewGate L q ?i ?k :: ('l, 'b, unit) act) s = (s1, Inr ())"
    and b: "\<exists>s2. build E ?i (human (dc_AgentID d)) EventSignal (\<lambda>_. Some (TaskStatusPayload_json ?p)) s1 = (s2, (Inr ev :: 'b hive_error + Event))
      \<and> WriteEvent L (E\<lparr>en_watch := False\<rparr>) ev s2 = (s', (Inr () :: 'b hive_error + unit))"
    using run by (auto simp: Discard_def EnsureDiscardable_def bind_act_Inr)
  note guard = guard_Inr [OF g s]
  obtain u where u: "mget (Tasks (view (hv_ledger s) ?i)) ?k = Some u" "t_Status u = TaskStatusWaitingReview" "IsReviewGate u"
    using guard(4) by blast
  obtain s2 where s2: "build E ?i (human (dc_AgentID d)) EventSignal (\<lambda>_. Some (TaskStatusPayload_json ?p)) s1 = (s2, (Inr ev :: 'b hive_error + Event))"
    "WriteEvent L (E\<lparr>en_watch := False\<rparr>) ev s2 = (s', (Inr () :: 'b hive_error + unit))" using b by blast
  have built: "built_as ?i (human (dc_AgentID d)) EventSignal (TaskStatusPayload_json ?p) ev"
    by (rule build_built [OF s2(1)]) simp
  have l2: "hv_ledger s2 = hv_ledger s" using build_state [OF s2(1)] guard(1) by simp
  from s2(2) show thesis
  proof (cases rule: WriteEvent_any)
    case (taken res)
    have i: "ev_TraceID ev = ?i" using built by (simp add: built_as_def)
    obtain clock where a: "ApplyEvent clock (view (hv_ledger s) ?i) ev = Inr res" "applied_to (view (hv_ledger s) ?i) res (view (hv_ledger s') ?i)"
      using apply_done [OF s taken(1) [unfolded l2]] taken(2) l2 i by auto
    have ok': "ledger_ok (view (hv_ledger s') ?i)" by (rule applied_ok [OF a ok])
    have p: "st_Kind ?p = TaskEventStatus" "TaskStatus_of (TaskStatus_str (st_Status ?p)) = st_Status ?p" "st_TaskID ?p = ?k" "st_Status ?p = TaskStatusCancelled"
      by (simp_all add: discard_payload_def TaskStatus_of_def)
    from built p(1,2) a show thesis
    proof (cases rule: status_effect)
      case skipped
      with waiting_not_killed [OF ok u(1,2)] show thesis by simp
    next
      case (put v now)
      have "taskOrNew (view (hv_ledger s) ?i) ?k = u" using u(1) by (simp add: taskOrNew_def)
      with put p that [OF ok' u, of now] show thesis by simp
    qed
  qed auto
qed

end

section \<open>Rework\<close>

lemma rework_planned:
  "\<not> IsMergeTask (plannedTask ev now (rework_spec defaults source k))" "\<not> IsClosingTask (plannedTask ev now (rework_spec defaults source k))"
  by (simp_all add: IsMergeTask_iff IsClosingTask_def TaskPhaseOf_def plannedTask_def plannedTaskPhase_def rework_spec_def
      DeriveTaskPhase_def NormalizeTaskPhase_def NormalizeTaskReviewPolicy_def Let_def)

lemma rework_canonical: "canonical_spec (rework_spec defaults source k)"
  by (simp add: canonical_spec_def rework_spec_def TaskReviewPolicy_of_def TaskPhase_of_def)

text \<open>The two events of a rework, applied by the hive: a work task under the new id is under way.\<close>

lemma rework_applied:
  assumes plan: "built_as i a EventInsight (plan_one (rework_spec defaults source k)) ev1" "k \<noteq> []"
    and ready: "built_as i a EventSignal (TaskReadyPayload_json (rework_ready defaults source k)) ev2"
    and t: "ledger_ok t" "mget (Tasks t) k = None"
    and run1: "ApplyEvent c1 t ev1 = Inr r1" "applied_to t r1 t1" and run2: "ApplyEvent c2 t1 ev2 = Inr r2" "applied_to t1 r2 t2"
  obtains u where "ledger_ok t2" "mget (Tasks t2) k = Some u" "\<not> IsMergeTask u" "\<not> IsClosingTask u" "\<not> IsAnalysisTask u"
    "t_Status u \<in> {TaskStatusPlanned, TaskStatusReady}" "\<And>j. j \<noteq> k \<Longrightarrow> calm (mget (Tasks t) j) (mget (Tasks t2) j)"
proof -
  have id: "sp_TaskID (rework_spec defaults source k) = k" "rd_TaskID (rework_ready defaults source k) = k"
    "rd_Kind (rework_ready defaults source k) = TaskEventReady" by (simp_all add: rework_spec_def rework_ready_def)
  obtain u now where u: "mget (Tasks t1) k = Some u" "revised (plannedTask ev1 now (rework_spec defaults source k)) u"
    "t_Status u = TaskStatusPlanned \<or> t_Status u = TaskStatusReady \<and> \<not> IsMergeTask u"
    "\<And>j. j \<noteq> k \<Longrightarrow> calm (mget (Tasks t) j) (mget (Tasks t1) j)"
    using plan_one_effect [OF plan(1) rework_canonical _ ledger_ok_wf [OF t(1)] _ run1] plan(2) t(2) unfolding id by metis
  have ok1: "ledger_ok t1" by (rule applied_ok [OF run1 t(1)])
  have ok2: "ledger_ok t2" by (rule applied_ok [OF run2 ok1])
  obtain u' where u': "mget (Tasks t2) k = Some u'" "revised u u'" "t_Status u' = t_Status u \<or> t_Status u' = TaskStatusReady"
    "\<And>j. j \<noteq> k \<Longrightarrow> mget (Tasks t2) j = mget (Tasks t1) j"
    using ready_effect [OF ready id(3) _ _ run2, of u] u(1,3) unfolding id by auto
  let ?q = "plannedTask ev1 now (rework_spec defaults source k)"
  have "\<not> IsAnalysisTask ?q" using plan(1)
    by (simp add: IsAnalysisTask_def TaskPurposeOf_def plannedTask_def built_as_def IsKnownExecutionPurpose_def PurposeForTaskPhase_def)
  then have "\<not> IsMergeTask u' \<and> \<not> IsClosingTask u' \<and> \<not> IsAnalysisTask u'"
    using rework_planned revised_trans [OF u(2) u'(2)] by (simp add: revised_merge revised_closing revised_analysis)
  with that [OF ok2 u'(1)] u(3,4) u'(3,4) show thesis by auto
qed

text \<open>Planning a rework publishes these two events and leaves the hive's own ledger alone.\<close>

lemma plan_rework_run:
  assumes "(PlanReworkTask E drawn defaults source i a :: ('l, 'e, string) act) s = (s', Inr k)"
  obtains ev1 ev2 agent where "drawn = Some k" "hv_ledger s' = hv_ledger s" "hv_bus s' = hv_bus s @ [ev1, ev2]"
    "built_as i agent EventInsight (plan_one (rework_spec defaults source k)) ev1"
    "built_as i agent EventSignal (TaskReadyPayload_json (rework_ready defaults source k)) ev2"
proof -
  let ?agent = "if TrimSpace a = [] then ''human'' else a"
  have sent: "hv_ledger s2 = hv_ledger s1 \<and> hv_bus s2 = hv_bus s1 @ [ev]"
    if "(send_event E ev :: ('l, 'e, unit) act) s1 = (s2, Inr ())" for ev s1 s2
    using that by (auto simp: send_event_def publish_event_def throw_def split: option.splits if_splits)
  have pub: "en_pub E \<noteq> None" using assms by (intro notI) (simp add: PlanReworkTask_def throw_eq)
  obtain k' where k': "drawn = Some k'" using assms pub by (cases drawn) (simp_all add: PlanReworkTask_def throw_eq)
  obtain s1 ev1 s2 s3 ev2 where k: "k' = k"
    and r: "(build E i ?agent EventInsight (\<lambda>_. Some (plan_one (rework_spec defaults source k'))) :: ('l, 'e, Event) act) s = (s1, Inr ev1)"
      "(send_event E ev1 :: ('l, 'e, unit) act) s1 = (s2, Inr ())"
      "(build E i ?agent EventSignal (\<lambda>_. Some (TaskReadyPayload_json (rework_ready defaults source k'))) :: ('l, 'e, Event) act) s2 = (s3, Inr ev2)"
      "(send_event E ev2 :: ('l, 'e, unit) act) s3 = (s', Inr ())"
    using assms unfolding PlanReworkTask_def Let_def if_not_P [OF pub] k' option.case bind_act_Inr ret_eq
    by (elim exE conjE) (rule that, simp_all split del: if_split)
  have "built_as i ?agent EventInsight (plan_one (rework_spec defaults source k)) ev1"
    "built_as i ?agent EventSignal (TaskReadyPayload_json (rework_ready defaults source k)) ev2"
    using r(1,3) k by (auto elim!: build_built)
  with k k' sent [OF r(2)] sent [OF r(4)] build_state [OF r(1)] build_state [OF r(3)] show thesis by (intro that) auto
qed

section \<open>Effects outside\<close>

lemma bind_fx_run:
  assumes "bind_fx m f s = (s', es, r)"
  obtains (stop) e where "m s = (s', es, Inl e)" "r = Inl e"
  | (on) s1 es1 x es2 where "m s = (s1, es1, Inr x)" "f x s1 = (s', es2, r)" "es = es1 @ es2"
  using assms by (auto simp: bind_fx_def split: prod.splits sum.splits)

lemma lift_act_run: "lift_act m s = (s', es, r) \<longleftrightarrow> m s = (s', r) \<and> es = []"
  by (auto simp: lift_act_def split: prod.splits)

lemma perform_run: "perform e r s = (s', es, r') \<longleftrightarrow> s' = s \<and> es = [e] \<and> r' = r"
  by (auto simp: perform_def)

lemma asked_run: "asked name x s = (s', es, r) \<longleftrightarrow> s' = s \<and> es = [] \<and> r = (case x of None \<Rightarrow> Inl (HostFailed name) | Some v \<Rightarrow> Inr v)"
  by (auto simp: asked_def lift_act_run ret_eq throw_eq split: option.splits)

text \<open>A run leaves the hive alone and its effects are of one kind.\<close>

definition outside :: "(effect \<Rightarrow> bool) \<Rightarrow> ('l, 'e, 'a) fx \<Rightarrow> bool" where
  "outside K m \<longleftrightarrow> (\<forall>s s' es r. m s = (s', es, r) \<longrightarrow> s' = s \<and> list_all K es)"

lemma outside_bind: "outside K m \<Longrightarrow> (\<And>x. outside K (f x)) \<Longrightarrow> outside K (bind_fx m f)"
  unfolding outside_def by (metis bind_fx_run list_all_append)

lemma outside_act: "(\<And>s. fst (m s) = s) \<Longrightarrow> outside K (lift_act m)"
  by (auto simp: outside_def lift_act_run) (metis fst_conv)

lemma outside_simple [simp]:
  "outside K (give x)" "outside K (fails e)" "outside K (asked name v)" "outside K (lift_act (lift_sum w))"
  "outside K (perform y r) = K y"
  by (auto simp: outside_def lift_act_run ret_eq throw_eq asked_run lift_sum_eq perform_run)

lemma outside_if: "outside K a \<Longrightarrow> outside K b \<Longrightarrow> outside K (if c then a else b)"
  by simp

lemma outside_prod: "(\<And>a b. outside K (f a b)) \<Longrightarrow> outside K (case p of (a, b) \<Rightarrow> f a b)"
  by (cases p) simp

definition is_merge :: "effect \<Rightarrow> bool" where
  "is_merge e \<longleftrightarrow> (\<exists>m. e = Merged m)"

definition is_publish :: "effect \<Rightarrow> bool" where
  "is_publish e \<longleftrightarrow> (\<exists>b. e = Pushed b) \<or> (\<exists>q. e = Asked q) \<or> (\<exists>p. e = Remembered p)"

lemma merge_outside: "outside is_merge (mergeWorktree H inp result)"
  by (auto simp: mergeWorktree_def Let_def is_merge_def intro!: outside_bind)

lemma publish_outside: "outside is_publish (publishPullRequest H i inp)"
  unfolding publishPullRequest_def ask_def keep_def
  by (intro outside_bind outside_if outside_prod) (simp_all add: is_publish_def)

lemma bind_quiet:
  assumes "bind_fx m f s = (s', es, r)" "outside (\<lambda>_. False) m"
  obtains (stop) e where "s' = s" "es = []" "r = Inl e"
  | (on) x where "m s = (s, [], Inr x)" "f x s = (s', es, r)"
proof -
  have none: "s1 = s \<and> es1 = []" if "m s = (s1, es1, r1)" for s1 es1 r1
  proof -
    have "s1 = s" "list_all (\<lambda>_. False) es1" using assms(2) that unfolding outside_def by blast+
    then show ?thesis by (cases es1) simp_all
  qed
  from assms(1) show thesis
  proof (cases rule: bind_fx_run)
    case (stop e)
    with none show thesis using that(1) by blast
  next
    case (on s1 es1 x es2)
    with none [OF on(1)] that(2) show thesis by simp
  qed
qed

lemma approvable_outside: "outside K (lift_act (approvable L H inp))"
  by (rule outside_act)
    (auto simp: approvable_def bind_act_def read_trace_def lift_sum_def ret_def throw_def split: sum.split prod.split)

section \<open>Approvals\<close>

text \<open>The checkpoint of completed work was written, unless none is due or the trail has no run evidence.\<close>

definition needs_evidence :: "'e review_host \<Rightarrow> TraceSnapshot \<Rightarrow> bool" where
  "needs_evidence H snap \<longleftrightarrow> rh_root H \<noteq> [] \<and> TraceID snap \<noteq> [] \<and> wv_Complete (EvaluateWorkCompletion snap) \<and> 1 \<le> WorkRevision snap"

definition evidence_kept :: "'e review_host \<Rightarrow> TraceSnapshot \<Rightarrow> effect list \<Rightarrow> bool" where
  "evidence_kept H snap es \<longleftrightarrow> es = [Captured snap] \<or> es = [] \<and> (needs_evidence H snap \<longrightarrow> rh_capture H snap = NoTrail)"

lemma evidence_run:
  assumes "ensureWorkCompletionEvidence H snap s = (s', es, r)"
  shows "s' = s" "r = Inr u \<Longrightarrow> evidence_kept H snap es" "r = Inl e \<Longrightarrow> es = []"
  using assms by (auto simp: ensureWorkCompletionEvidence_def evidence_kept_def needs_evidence_def lift_act_run ret_eq throw_eq perform_run
      split: if_splits capture.splits)

text \<open>What an approval rests on.\<close>

definition may_approve :: "TraceSnapshot \<Rightarrow> string \<Rightarrow> TaskSnapshot \<Rightarrow> bool" where
  "may_approve snap k task \<longleftrightarrow> mget (Tasks snap) k = Some task \<and> t_Status task = TaskStatusWaitingReview \<and> IsReviewGate task
     \<and> ApproveBlockedReason snap k = []"

context ledger_api
begin

lemma approvable_run:
  assumes "approvable L H inp s = (s', Inr (snap, task))" "usable (hv_ledger s)"
  shows "ai_TraceID inp \<noteq> []" "snap = view (hv_ledger s) (ai_TraceID inp)" "may_approve snap (ai_TaskID inp) task"
proof -
  show i: "ai_TraceID inp \<noteq> []" using assms(1) by (auto simp: approvable_def throw_eq split: if_splits)
  have "ai_TaskID inp \<noteq> []" using assms(1) by (auto simp: approvable_def throw_eq split: if_splits)
  then have "snap = view (hv_ledger s) (ai_TraceID inp) \<and> may_approve snap (ai_TaskID inp) task"
    using assms(1) i snapshot [OF assms(2) i]
    by (auto simp: approvable_def bind_act_Inr read_trace_def lift_sum_eq ret_eq may_approve_def EnsureApprovable_iff
        dest!: sym [of "Inr _" "waiting_gate _ _ _ _"] sym [of "Inr _" "EnsureApprovable _ _ _"] simp: waiting_gate_Inr)
  then show "snap = view (hv_ledger s) (ai_TraceID inp)" "may_approve snap (ai_TaskID inp) task" by blast+
qed

text \<open>An approval is refused without a trace, or it passed its checks and left the evidence before it delivers.\<close>

lemma Approve_cases:
  assumes run: "Approve L E H inp s = (s', es, r)" and s: "usable (hv_ledger s)"
  obtains (refused) e where "s' = s" "es = []" "r = Inl e"
  | (passed) task bees defaults experimental es1 es2 where
      "ai_TraceID inp \<noteq> []" "may_approve (view (hv_ledger s) (ai_TraceID inp)) (ai_TaskID inp) task"
      "rh_bees H = Some bees" "rh_defaults H = Some defaults"
      "IsExperimentalTrail H (ai_TraceID inp) = (Inr experimental :: 'e hive_error + bool)"
      "evidence_kept H (view (hv_ledger s) (ai_TraceID inp)) es1" "es = es1 @ es2"
      "deliverApproved L E H inp task bees defaults experimental s = (s', es2, r)"
proof -
  let ?i = "ai_TraceID inp"
  from run [unfolded Approve_def] approvable_outside show thesis
  proof (cases rule: bind_quiet)
    case (on x)
    obtain snap task where x: "x = (snap, task)" by fastforce
    note may = approvable_run [OF on(1) [unfolded x lift_act_run, THEN conjunct1] s]
    from on(2) [unfolded x prod.case] outside_simple(3) show thesis
    proof (cases rule: bind_quiet)
      case (on bees)
      note bees = on(1)
      from on(2) outside_simple(3) show thesis
      proof (cases rule: bind_quiet)
        case (on defaults)
        note defaults = on(1)
        from on(2) outside_simple(4) show thesis
        proof (cases rule: bind_quiet)
          case (on experimental)
          have host: "rh_bees H = Some bees" "rh_defaults H = Some defaults"
            "IsExperimentalTrail H ?i = (Inr experimental :: 'e hive_error + bool)"
            using bees defaults on(1) by (auto simp: asked_run lift_act_run lift_sum_eq split: option.splits)
          from on(2) show thesis
          proof (cases rule: bind_fx_run)
            case (stop e)
            with refused evidence_run [OF stop(1)] show thesis by simp
          next
            case (on s1 es1 u es2)
            note ev = evidence_run [OF on(1)]
            from passed [OF may(1) may(3) [unfolded may(2)] host ev(2) [OF refl, unfolded may(2)] on(3) on(2) [unfolded ev(1)]]
            show thesis .
          qed
        qed (rule refused)
      qed (rule refused)
    qed (rule refused)
  qed (rule refused)
qed

end

text \<open>What follows the checks.\<close>

definition yields :: "('a \<Rightarrow> bool) \<Rightarrow> ('l, 'e, 'a) fx \<Rightarrow> bool" where
  "yields P m \<longleftrightarrow> (\<forall>s s' es x. m s = (s', es, Inr x) \<longrightarrow> P x)"

lemma yields_bind: "(\<And>x. yields P (f x)) \<Longrightarrow> yields P (bind_fx m f)"
  unfolding yields_def by (metis Inr_Inl_False bind_fx_run)

lemma yields_if: "yields P a \<Longrightarrow> yields P b \<Longrightarrow> yields P (if c then a else b)"
  by simp

lemma yields_prod: "(\<And>a b. yields P (f a b)) \<Longrightarrow> yields P (case p of (a, b) \<Rightarrow> f a b)"
  by (cases p) simp

lemma yields_simple: "yields P (give x) = P x" "yields P (fails e)"
  by (auto simp: yields_def lift_act_run ret_eq throw_eq)

lemma publish_published: "yields ap_Published (publishPullRequest H i inp)"
  unfolding publishPullRequest_def by (intro yields_bind yields_if yields_prod) (simp_all add: yields_simple)

lemma merge_unpublished: "yields (\<lambda>res. ap_Published res = ap_Published result) (mergeWorktree H inp result)"
  by (auto simp: mergeWorktree_def Let_def yields_def perform_run lift_act_run ret_eq elim!: bind_fx_run split: option.splits)

lemma deliver_run:
  assumes "deliverApproved L E H inp task bees defaults experimental s = (s', es, r)"
  obtains (published) "\<not> experimental" "ShouldPublishOnApprove task bees defaults" "list_all is_publish es" "s' = s"
      "\<And>res. r = Inr res \<Longrightarrow> ap_Published res"
  | (internal) "list_all is_merge es" "es \<noteq> [] \<Longrightarrow> \<not> experimental \<and> ShouldMergeOnApprove task bees defaults"
      "\<And>res. r = Inr res \<Longrightarrow> \<not> ap_Published res \<and> completeApproved L E H inp (ap_CommitSHA res) s = (s', Inr ())"
proof (cases "\<not> experimental \<and> ShouldPublishOnApprove task bees defaults")
  case True
  with assms have p: "publishPullRequest H (ai_TraceID inp) inp s = (s', es, r)" by (simp add: deliverApproved_def)
  have "s' = s \<and> list_all is_publish es" using p publish_outside unfolding outside_def by blast
  moreover have "ap_Published res" if "r = Inr res" for res
    using publish_published p that unfolding yields_def by blast
  ultimately show thesis using True published by blast
next
  case False
  let ?m = "if \<not> experimental \<and> ShouldMergeOnApprove task bees defaults
      then mergeWorktree H inp (no_delivery experimental) else give (no_delivery experimental)"
  have m: "s1 = s \<and> list_all is_merge es1 \<and> (es1 \<noteq> [] \<longrightarrow> \<not> experimental \<and> ShouldMergeOnApprove task bees defaults)"
    if "?m s = (s1, es1, r1)" for s1 es1 r1
    using that merge_outside [of H inp "no_delivery experimental"] by (auto simp: outside_def lift_act_run ret_eq split: if_splits)
  have un: "\<not> ap_Published result" if "?m s = (s1, es1, Inr result)" for s1 es1 result
    using that merge_unpublished [of "no_delivery experimental" H inp]
    by (auto simp: yields_def lift_act_run ret_eq no_delivery_def split: if_splits)
  from assms [unfolded deliverApproved_def if_not_P [OF False]] show thesis
  proof (cases rule: bind_fx_run)
    case (stop e)
    with m [OF stop(1)] internal show thesis by blast
  next
    case (on s1 es1 result es2)
    from on(2) m [OF on(1)] have "es2 = []" "\<And>res. r = Inr res \<Longrightarrow> res = result \<and> completeApproved L E H inp (ap_CommitSHA result) s = (s', Inr ())"
      by (auto elim!: bind_fx_run simp: lift_act_run ret_eq)
    with m [OF on(1)] un [OF on(1)] on(3) show thesis by (intro internal) auto
  qed
qed

context ledger_api
begin

lemma Approve_delivers:
  assumes run: "Approve L E H inp s = (s', es, r)" and s: "usable (hv_ledger s)"
    and e: "e \<in> set es" "is_merge e \<or> is_publish e"
  obtains task defaults rest where "may_approve (view (hv_ledger s) (ai_TraceID inp)) (ai_TaskID inp) task" "IsFinalReviewTask task"
    "IsExperimentalTrail H (ai_TraceID inp) = (Inr False :: 'e hive_error + bool)" "rh_defaults H = Some defaults"
    "is_merge e \<longleftrightarrow> ResolvedDelivery defaults \<noteq> ''pull_request''"
    "es = Captured (view (hv_ledger s) (ai_TraceID inp)) # rest
      \<or> es = rest \<and> (needs_evidence H (view (hv_ledger s) (ai_TraceID inp)) \<longrightarrow> rh_capture H (view (hv_ledger s) (ai_TraceID inp)) = NoTrail)"
    "e \<in> set rest"
  using run s
proof (cases rule: Approve_cases)
  case refused
  with e show thesis by simp
next
  case (passed task bees defaults experimental es1 es2)
  let ?snap = "view (hv_ledger s) (ai_TraceID inp)"
  have "e \<in> set es2" using e passed(6,7) by (auto simp: evidence_kept_def is_merge_def is_publish_def)
  moreover from passed(8) have "\<not> experimental \<and> IsFinalReviewTask task \<and> (is_merge e \<longleftrightarrow> ResolvedDelivery defaults \<noteq> ''pull_request'')"
  proof (cases rule: deliver_run)
    case published
    then have "is_publish e" using \<open>e \<in> set es2\<close> by (auto simp: list_all_iff)
    then have "\<not> is_merge e" by (auto simp: is_publish_def is_merge_def)
    with published show ?thesis by (simp add: ShouldPublishOnApprove_def split: if_splits)
  next
    case internal
    then have "is_merge e" "es2 \<noteq> []" using \<open>e \<in> set es2\<close> by (auto simp: list_all_iff)
    with internal(2) show ?thesis by (simp add: ShouldMergeOnApprove_def split: if_splits)
  qed
  ultimately show thesis
    using that [of task defaults es2] passed by (auto simp: evidence_kept_def)
qed

text \<open>A successful approval that published nothing has completed the task, and the boundary after it leaves it so.\<close>

lemma activated_keeps:
  assumes run: "ActivateFinalReviewGate L E H i s = (s', r)" and s: "usable (hv_ledger s)"
    and snap: "ledger_ok (view (hv_ledger s) i)" "reserved_free (view (hv_ledger s) i)"
    and p: "\<And>P. rh_policies H = Some P \<Longrightarrow> rounds_not_final (gp_Closing P)"
    and u: "mget (Tasks (view (hv_ledger s) i)) k = Some u" "t_Status u = TaskStatusCompleted"
  shows "mget (Tasks (view (hv_ledger s') i)) k = Some u"
proof (cases "rh_policies H")
  case None
  with run u show ?thesis by (simp add: ActivateFinalReviewGate_def throw_eq)
next
  case (Some P)
  let ?t = "view (hv_ledger s) i" and ?t' = "view (hv_ledger s') i"
  obtain r' where run': "EnsureTrailPhases L E (rh_gate H) P i s = (s', r')"
    using run Some by (auto simp: ActivateFinalReviewGate_def bind_act_def ret_def split: prod.splits sum.splits)
  have still: "mget (Tasks ?t') k = Some u" if "calm (mget (Tasks ?t) k) (mget (Tasks ?t') k)"
    using that u by (auto simp: calm_def made_eligible_def)
  from phases_run(2) [OF run' s snap p [OF Some]] show ?thesis unfolding gate_promise_def
  proof (elim disjE exE conjE)
    fix n j assume j: "NextClosingTaskID ?t = Some j" "round_stored ?t j ?t'"
    have "mget (Tasks ?t) j = None"
      using free_round_Some [of "wrap64 (HighestClosingRound ?t + 1)"] j(1) by (auto simp: NextClosingTaskID_def)
    with u(1) have "k \<noteq> j" by auto
    with j(2) still show ?thesis by (simp add: round_stored_def)
  next
    assume "rest_done ?t ?t'"
    then have "steady (mget (Tasks ?t) k) (mget (Tasks ?t') k)" by (simp add: rest_done_def)
    with u still show ?thesis by (auto simp: steady_def)
  qed (use u in simp)
qed

text \<open>Building a completion and writing it: the task is completed, the others are left.\<close>

lemma completion_written:
  assumes build: "(build E i a EventVerification (\<lambda>n. TaskCompletedPayload_json (p n)) :: ('l, 'e, Event) act) s = (s1, Inr ev)"
    and wrote: "(WriteEvent L E ev :: ('l, 'e, unit) act) s1 = (s2, Inr ())" and s: "usable (hv_ledger s)"
    and t: "ledger_ok (view (hv_ledger s) i)" "\<not> Killed (view (hv_ledger s) i)"
    and p: "\<And>n. cp_Kind (p n) = TaskEventCompleted \<and> cp_Status (p n) = TaskStatusCompleted \<and> cp_TaskID (p n) = k"
  obtains u now where "usable (hv_ledger s2)" "ledger_ok (view (hv_ledger s2) i)"
    "mget (Tasks (view (hv_ledger s2) i)) k = Some u" "u = completed_task (taskOrNew (view (hv_ledger s) i) k) (p (hv_made s)) now"
    "t_Status u = TaskStatusCompleted" "IsMergeTask u = IsMergeTask (taskOrNew (view (hv_ledger s) i) k)"
    "\<And>j. j \<noteq> k \<Longrightarrow> calm (mget (Tasks (view (hv_ledger s) i)) j) (mget (Tasks (view (hv_ledger s2) i)) j)"
proof -
  let ?p = "p (hv_made s)" and ?t = "view (hv_ledger s) i"
  obtain j where j: "TaskCompletedPayload_json ?p = Some j" "built_as i a EventVerification j ev"
    by (rule build_built [OF build])
  have s1: "hv_ledger s1 = hv_ledger s" using build_state [OF build] by simp
  obtain l ares where l: "lg_Apply L (hv_ledger s1) ev = (l, Inr ares)" "hv_ledger s2 = l" using wrote by (rule WriteEvent_Inr)
  then have ap: "snd (lg_Apply L (hv_ledger s) ev) = Inr ares" "hv_ledger s2 = fst (lg_Apply L (hv_ledger s) ev)" by (simp_all add: s1)
  have s2: "usable (hv_ledger s2)" using ap(2) apply_usable [OF s] by simp
  have i: "ev_TraceID ev = i" using j(2) by (simp add: built_as_def)
  obtain clock where a: "ApplyEvent clock ?t ev = Inr ares" "applied_to ?t ares (view (hv_ledger s2) i)"
    using apply_done [OF s ap(1)] ap(2) i by auto
  have q: "cp_Kind ?p = TaskEventCompleted" "TaskStatus_of (TaskStatus_str (cp_Status ?p)) = cp_Status ?p"
    using p [of "hv_made s"] by (simp_all add: TaskStatus_of_def)
  have ok2: "ledger_ok (view (hv_ledger s2) i)" by (rule applied_ok [OF a t(1)])
  from j(2,1) q t(1) a show thesis
  proof (cases rule: completed_effect)
    case skipped
    with t(2) show thesis by simp
  next
    case (put now)
    let ?u = "completed_task (taskOrNew ?t k) ?p now"
    have u: "t_Status ?u = TaskStatusCompleted" "IsMergeTask ?u = IsMergeTask (taskOrNew ?t k)"
      using p [of "hv_made s"] by (simp_all add: completed_task_def IsMergeTask_iff withCreatedAt_def)
    have "mget (Tasks (view (hv_ledger s2) i)) k = Some ?u"
      using put(3) [of k] u(1) p [of "hv_made s"] by (auto simp: calm_def made_eligible_def)
    moreover have "calm (mget (Tasks ?t) j) (mget (Tasks (view (hv_ledger s2) i)) j)" if "j \<noteq> k" for j
      using put(3) [of j] that p [of "hv_made s"] by simp
    ultimately show thesis using that [OF s2 ok2 _ refl u] by blast
  qed
qed

lemma Approve_completes:
  fixes H :: "'e review_host"
  assumes run: "Approve L E H inp s = (s', es, Inr res)" and s: "usable (hv_ledger s)"
    and snap: "ledger_ok (view (hv_ledger s) (ai_TraceID inp))" "reserved_free (view (hv_ledger s) (ai_TraceID inp))"
    and p: "\<And>P. rh_policies H = Some P \<Longrightarrow> rounds_not_final (gp_Closing P)" and un: "\<not> ap_Published res"
  obtains u now task where "mget (Tasks (view (hv_ledger s) (ai_TraceID inp))) (ai_TaskID inp) = Some task"
    "t_Status task = TaskStatusWaitingReview"
    "mget (Tasks (view (hv_ledger s') (ai_TraceID inp))) (ai_TaskID inp) = Some (completed_task task (approval_payload inp (ap_CommitSHA res) now) u)"
  using run s
proof (cases rule: Approve_cases)
  case (passed task bees defaults experimental es1 es2)
  let ?i = "ai_TraceID inp" and ?k = "ai_TaskID inp"
  let ?t = "view (hv_ledger s) ?i"
  have task: "mget (Tasks ?t) ?k = Some task" "t_Status task = TaskStatusWaitingReview"
    using passed(2) by (simp_all add: may_approve_def)
  from passed(8) have fin: "completeApproved L E H inp (ap_CommitSHA res) s = (s', Inr ())"
    by (cases rule: deliver_run) (use un in auto)
  obtain s1 ev s2 where b: "(build E ?i (human (ai_AgentID inp)) EventVerification
        (\<lambda>n. TaskCompletedPayload_json (approval_payload inp (ap_CommitSHA res) (en_done E n))) :: ('l, 'e, Event) act) s = (s1, Inr ev)"
    and w: "(WriteEvent L E ev :: ('l, 'e, unit) act) s1 = (s2, Inr ())"
    and act: "(ActivateFinalReviewGate L E H ?i :: ('l, 'e, unit) act) s2 = (s', Inr ())"
    using fin by (auto simp: completeApproved_def bind_act_Inr)
  obtain u now where s2: "usable (hv_ledger s2)" "ledger_ok (view (hv_ledger s2) ?i)"
    and u: "mget (Tasks (view (hv_ledger s2) ?i)) ?k = Some u"
      "u = completed_task (taskOrNew ?t ?k) (approval_payload inp (ap_CommitSHA res) (en_done E (hv_made s))) now"
      "t_Status u = TaskStatusCompleted" "IsMergeTask u = IsMergeTask (taskOrNew ?t ?k)"
    and rest: "\<And>j. j \<noteq> ?k \<Longrightarrow> calm (mget (Tasks ?t) j) (mget (Tasks (view (hv_ledger s2) ?i)) j)"
    by (rule completion_written [OF b w s snap(1) waiting_not_killed [OF snap(1) task], of ?k]) (simp_all add: approval_payload_def)
  have tn: "taskOrNew ?t ?k = task" using task(1) by (simp add: taskOrNew_def)
  have "reserved_free (view (hv_ledger s2) ?i)" unfolding reserved_free_def
  proof (intro allI impI)
    fix v assume v: "mget (Tasks (view (hv_ledger s2) ?i)) FinalReviewTaskID = Some v"
    show "IsMergeTask v"
    proof (cases "?k = FinalReviewTaskID")
      case True
      with v u(1,4) snap(2) task(1) tn show ?thesis by (auto simp: reserved_free_def)
    next
      case False
      with rest [of FinalReviewTaskID] v have "calm (mget (Tasks ?t) FinalReviewTaskID) (Some v)" by simp
      with snap(2) show ?thesis by (auto simp: reserved_free_def calm_def made_eligible_def revised_merge)
    qed
  qed
  from activated_keeps [OF act s2 this p u(1,3)] that [OF task] u(2) tn show thesis by blast
qed (use un in simp)

text \<open>A gate that has nothing to merge is completed at the boundary unless it is settled; a cancelled one is not.\<close>

lemma empty_gate_run:
  fixes G :: "'e gate_host"
  assumes run: "EnsureTrailPhases L E G P i s = (s', Inr r)" and s: "usable (hv_ledger s)" "i \<noteq> []"
    and snap: "ledger_ok (view (hv_ledger s) i)" "\<not> Killed (view (hv_ledger s) i)" "AllPreMergeCompleted (view (hv_ledger s) i)"
    and quiet: "closing_decision (gh_quote G) (gp_Closing P) (view (hv_ledger s) i) = NoRound []"
    and gate: "FindFinalReviewTask (view (hv_ledger s) i) = Some final" "\<not> needsIsolatedMerge G (view (hv_ledger s) i) i"
      "\<not> gate_settled (t_Status final)"
  obtains u where "mget (Tasks (view (hv_ledger s') i)) (t_TaskID final) = Some u" "t_Status u = TaskStatusCompleted" "IsMergeTask u"
proof -
  let ?t = "view (hv_ledger s) i" and ?k = "t_TaskID final"
  let ?p = "\<lambda>n. \<lparr>cp_Kind = TaskEventCompleted, cp_TaskID = ?k, cp_Status = TaskStatusCompleted,
    cp_Summary = ''Nothing to merge '' @ em_dash @ '' skipped final review gate'', cp_Commit = [], cp_CompletedAt = en_done E n\<rparr>"
  have rd: "(read_trace L i :: (_, 'e, _) act) s = (s, Inr ?t)" using snapshot [OF s] by (simp add: read_trace_def)
  have "completeEmptyFinalGate L E i final s = (s', (Inr () :: 'e hive_error + unit))"
    using run s(2) snap(3) quiet gate rd
    by (auto simp: EnsureTrailPhases_def ensureClosingRound_def ensureMergeGate_def recordClosingSkipNote_def bind_act_def ret_def
        split: prod.splits sum.splits)
  then obtain s1 ev where b: "(build E i RuntimeAgentID EventVerification (\<lambda>n. TaskCompletedPayload_json (?p n)) :: ('l, 'e, Event) act) s = (s1, Inr ev)"
    and w: "(WriteEvent L E ev :: ('l, 'e, unit) act) s1 = (s', Inr ())"
    using gate(3) by (auto simp: completeEmptyFinalGate_def bind_act_Inr)
  have f: "mget (Tasks ?t) ?k = Some final" "IsMergeTask final" using FindFinal_Some [OF gate(1) ledger_ok_wf [OF snap(1)]] by simp_all
  then have tn: "taskOrNew ?t ?k = final" by (simp add: taskOrNew_def)
  obtain u where "mget (Tasks (view (hv_ledger s') i)) ?k = Some u" "t_Status u = TaskStatusCompleted" "IsMergeTask u = IsMergeTask (taskOrNew ?t ?k)"
    by (rule completion_written [OF b w s(1) snap(1,2), of ?k]) simp_all
  with that f(2) tn show thesis by simp
qed

end

section \<open>Reconciling\<close>

definition silent :: "('l, 'e, 'a) fx \<Rightarrow> bool" where
  "silent m \<longleftrightarrow> (\<forall>s s' es r. m s = (s', es, r) \<longrightarrow> es = [])"

lemma silent_act: "silent (lift_act m)"
  by (simp add: silent_def lift_act_run)

lemma silent_bind: "silent m \<Longrightarrow> (\<And>x. silent (f x)) \<Longrightarrow> silent (bind_fx m f)"
  unfolding silent_def by (metis append_Nil bind_fx_run)

lemma evidence_not_removed: "evidence_kept H snap es \<Longrightarrow> Removed i \<notin> set es"
  by (auto simp: evidence_kept_def)

context ledger_api
begin

lemma complete_published_run:
  assumes run: "completePublishedTrail L E H i entry s = (s', es, r)" and s: "usable (hv_ledger s)" "i \<noteq> []"
    and e: "Removed j \<in> set es"
  obtains ev post where "j = i" "es = ev @ Removed i # post" "evidence_kept H (view (hv_ledger s) i) ev"
  using run [unfolded completePublishedTrail_def]
proof (cases rule: bind_fx_run)
  case (stop e')
  with e show thesis by (simp add: lift_act_run)
next
  case (on s1 es1 snap es2)
  have rd: "s1 = s" "es1 = []" "snap = view (hv_ledger s) i"
    using on(1) snapshot [OF s] by (auto simp: lift_act_run read_trace_def)
  from on(2) [unfolded rd] show thesis
  proof (cases rule: bind_fx_run)
    case (stop e')
    with e on(3) rd(2) evidence_run(3) [OF stop(1)] show thesis by simp
  next
    case evid: (on s3 ev u es4)
    note kept = evidence_run(2) [OF evid(1) refl]
    from evid(2) show thesis
    proof (cases rule: bind_fx_run)
      case (stop e')
      have "es4 = []" using stop(1)
        by (auto simp: lift_act_run elim!: bind_fx_run split: option.splits if_splits)
      with e on(3) rd(2) evid(3) evidence_not_removed [OF kept] show thesis by simp
    next
      case mid: (on s5 es5 completed es6)
      have "es5 = []" using mid(1)
        by (auto simp: lift_act_run elim!: bind_fx_run split: option.splits if_splits)
      moreover from mid(2) obtain post where "es6 = Removed i # post" "\<forall>x \<in> set post. \<nexists>j. x = Removed j"
        by (cases rule: bind_fx_run)
          (auto simp: perform_run lift_act_run elim!: bind_fx_run split: if_splits)
      ultimately have es: "es = ev @ Removed i # post" "\<forall>x \<in> set post. \<nexists>j. x = Removed j" using on(3) rd(2) evid(3) mid(3) by simp_all
      with e evidence_not_removed [OF kept, of j] have "j = i" by auto
      with es(1) kept that show thesis by blast
    qed
  qed
qed

lemma settle_run:
  assumes run: "settlePublished L E H i entry found s = (s', es, r)" and s: "usable (hv_ledger s)" "i \<noteq> []"
    and e: "Removed j \<in> set es"
  obtains pre ev post where "j = i" "pr_State entry = ''merged''" "es = pre @ ev @ Removed i # post"
    "evidence_kept H (view (hv_ledger s) i) ev"
  using run [unfolded settlePublished_def Let_def]
proof (cases rule: bind_fx_run)
  case (stop e')
  with e show thesis by (auto simp: keep_def perform_run lift_act_run ret_eq split: if_splits)
next
  case (on s1 es1 x es2)
  have kept: "s1 = s" "Removed j \<notin> set es1"
    using on(1) by (auto simp: keep_def perform_run lift_act_run ret_eq split: if_splits)
  then have e2: "Removed j \<in> set es2" using e on(3) by simp
  then have m: "pr_State entry = ''merged''" using on(2) by (auto simp: lift_act_run ret_eq split: if_splits)
  obtain s3 r3 where "completePublishedTrail L E H i entry s = (s3, es2, r3)"
    using on(2) m kept(1) by (auto simp: lift_act_run ret_eq elim!: bind_fx_run)
  then obtain ev post where "j = i" "es2 = ev @ Removed i # post" "evidence_kept H (view (hv_ledger s) i) ev"
    using s e2 by (rule complete_published_run)
  with m on(3) that show thesis by blast
qed

text \<open>The worktree of a published trail goes only once the forge, or its last recorded answer, says merged.\<close>

lemma Reconcile_removes:
  fixes H :: "'e review_host"
  assumes run: "ReconcilePublished L E H trace s = (s', es, r)" and s: "usable (hv_ledger s)"
    and e: "Removed j \<in> set es"
  obtains entry req resp pre ev post where "j = TrimSpace trace" "IsExperimentalTrail H j = (Inr False :: 'e hive_error + bool)"
    "rh_published H = Some (Some entry)" "rh_ask H req = Some resp" "fr_Op req = ''get''" "fr_TraceID req = j"
    "pr_State (forge_answer entry resp) = ''merged''"
    "es = Asked req # pre @ ev @ Removed j # post" "evidence_kept H (view (hv_ledger s) j) ev"
proof -
  let ?i = "TrimSpace trace"
  have ne: "?i \<noteq> []" "\<not> (?i = [] \<or> rh_slug H = [])"
    using run e by (auto simp: ReconcilePublished_def lift_act_run ret_eq Let_def split: if_splits)
  from run [unfolded ReconcilePublished_def Let_def if_not_P [OF ne(2)]] outside_simple(4) show thesis
  proof (cases rule: bind_quiet)
    case (stop e')
    with e show thesis by simp
  next
    case (on experimental)
    obtain entry where poll: "\<not> experimental" "rh_published H = Some (Some entry)" "pollPublished L E H ?i entry s = (s', es, r)"
      using on(2) e by (auto simp: lift_act_run throw_eq ret_eq split: if_splits option.splits)
    have x: "IsExperimentalTrail H ?i = (Inr False :: 'e hive_error + bool)"
      using on(1) poll(1) by (auto simp: lift_act_run lift_sum_eq)
    have quiet: "outside (\<lambda>_. False) (if TrimSpace (pr_Head entry) \<noteq> [] then give (TrimSpace (pr_Head entry)) else asked ''branch'' (rh_branch H))"
      by simp
    from poll(3) [unfolded pollPublished_def Let_def] quiet show thesis
    proof (cases rule: bind_quiet)
      case (stop e')
      with e show thesis by simp
    next
      case (on head)
      from on(2) show thesis
      proof (cases rule: bind_fx_run)
        case (stop e')
        with e show thesis by (auto simp: ask_def perform_run)
      next
        case (on s1 es1 resp es2)
        then obtain req where req: "s1 = s" "es1 = [Asked req]" "rh_ask H req = Some resp" "fr_Op req = ''get''" "fr_TraceID req = ?i"
          by (auto simp: ask_def perform_run split: option.splits)
        with e on(3) have "Removed j \<in> set es2" by simp
        from settle_run [OF on(2) [unfolded req(1)] s ne(1) this] show thesis
          using that [OF _ _ poll(2) req(3,4)] x req(2,5) on(3) by auto
      qed
    qed
  qed
qed

end

end
