(* ===== verification/Attempts.thy ===== *)
theory Attempts
  imports TrailConfig
begin

text \<open>
  \<open>internal/trailconfig/attempts.go\<close>: the durable record of which execution attempt owns which
  work, and the evidence of apply.go that says whether anything still needs the old
  configuration. Every method rewrites the attempts file of one trail under a lock: a step on
  the list of attempts. The clock and the random id are arguments.
\<close>

section \<open>Attempts\<close>

record TaskInputEvidence =
  te_TaskID :: string
  te_Title :: string
  te_Body :: string
  te_Bee :: string
  te_Sector :: string
  te_Intent :: string
  te_CueID :: string
  te_Review :: string
  te_Digest :: string

datatype AttemptKind = AttemptKindTask | AttemptKindDirect | AttemptKindUnset

datatype AttemptState = AttemptStateOpen | AttemptStateClosed | AttemptStateUnset

record Attempt =
  at_AttemptID :: string
  at_TraceID :: string
  at_TaskID :: string
  at_ChainKey :: string
  at_Kind :: AttemptKind
  at_ConfigRef :: string
  at_ConfigRevision :: int
  at_InitialCodeBaseSHA :: string
  at_InitialCodeBaseDirty :: bool
  at_TaskInput :: "TaskInputEvidence option"
  at_SourceEventID :: string
  at_LastDispatchKey :: string
  at_DispatchCount :: int
  at_State :: AttemptState
  at_CloseReason :: string
  at_Agents :: "string list"
  at_CreatedAt :: time
  at_ClosedAt :: "time option"

abbreviation Open :: "Attempt \<Rightarrow> bool" where
  "Open a \<equiv> at_State a = AttemptStateOpen"

text \<open>The zero value, which the code returns where it found none.\<close>

definition no_attempt :: Attempt where
  "no_attempt = \<lparr>at_AttemptID = [], at_TraceID = [], at_TaskID = [], at_ChainKey = [], at_Kind = AttemptKindUnset,
     at_ConfigRef = [], at_ConfigRevision = 0, at_InitialCodeBaseSHA = [], at_InitialCodeBaseDirty = False,
     at_TaskInput = None, at_SourceEventID = [], at_LastDispatchKey = [], at_DispatchCount = 0,
     at_State = AttemptStateUnset, at_CloseReason = [], at_Agents = [], at_CreatedAt = 0, at_ClosedAt = None\<rparr>"

text \<open>The digest covers the trimmed input; the JSON text and its SHA-256 are the argument.\<close>

definition NewTaskInputEvidence ::
  "(TaskInputEvidence \<Rightarrow> string) \<Rightarrow> string \<Rightarrow> string \<Rightarrow> string \<Rightarrow> string \<Rightarrow> string \<Rightarrow> string \<Rightarrow> string \<Rightarrow> string
    \<Rightarrow> TaskInputEvidence" where
  "NewTaskInputEvidence digest taskID title body bee sector intent review cueID =
    (let i = \<lparr>te_TaskID = TrimSpace taskID, te_Title = TrimSpace title, te_Body = TrimSpace body,
           te_Bee = TrimSpace bee, te_Sector = TrimSpace sector, te_Intent = TrimSpace intent,
           te_CueID = TrimSpace cueID, te_Review = TrimSpace review, te_Digest = []\<rparr>
     in i\<lparr>te_Digest := ''sha256:'' @ digest i\<rparr>)"

text \<open>The colony context an admission runs in: the snapshot it is bound to, or none.\<close>

record Ctx =
  cx_ConfigRef :: string
  cx_ConfigRevision :: int

definition newAttempt ::
  "time \<Rightarrow> string \<Rightarrow> Ctx \<Rightarrow> Manifest \<Rightarrow> string \<Rightarrow> string \<Rightarrow> string \<Rightarrow> AttemptKind \<Rightarrow> string
    \<Rightarrow> TaskInputEvidence option \<Rightarrow> Attempt" where
  "newAttempt now new_id ctx m traceID taskID chainKey kind sourceEventID input =
    (let bound = TrimSpace (cx_ConfigRef ctx) \<noteq> []
     in \<lparr>at_AttemptID = new_id, at_TraceID = traceID, at_TaskID = taskID, at_ChainKey = chainKey, at_Kind = kind,
         at_ConfigRef = (if bound then TrimSpace (cx_ConfigRef ctx) else mf_ActiveConfigRef m),
         at_ConfigRevision = (if bound then cx_ConfigRevision ctx else mf_ConfigRevision m),
         at_InitialCodeBaseSHA = mf_InitialCodeBaseSHA m, at_InitialCodeBaseDirty = mf_InitialCodeBaseDirty m,
         at_TaskInput = input, at_SourceEventID = sourceEventID, at_LastDispatchKey = [], at_DispatchCount = 0,
         at_State = AttemptStateOpen, at_CloseReason = [], at_Agents = [], at_CreatedAt = now, at_ClosedAt = None\<rparr>)"

definition latestTask :: "Attempt list \<Rightarrow> string \<Rightarrow> Attempt" where
  "latestTask entries taskID = fold (\<lambda>entry latest.
     if at_TaskID entry \<noteq> taskID \<or> at_Kind entry \<noteq> AttemptKindTask then latest
     else if at_AttemptID latest = [] \<or> at_CreatedAt entry > at_CreatedAt latest then entry
     else latest) entries no_attempt"

fun replaceAttempt :: "Attempt list \<Rightarrow> Attempt \<Rightarrow> Attempt list" where
  "replaceAttempt [] entry = []"
| "replaceAttempt (a # rest) entry =
    (if at_AttemptID a = at_AttemptID entry then entry # rest else a # replaceAttempt rest entry)"

section \<open>Admission\<close>

text \<open>
  Inside the lock: the attempts afterwards, the attempt that owns the work, and whether a
  pending configuration change held the admission back. \<open>gate\<close> is the check of the gated form.
\<close>

definition admit_task ::
  "bool \<Rightarrow> time \<Rightarrow> string \<Rightarrow> Ctx \<Rightarrow> Manifest \<Rightarrow> string \<Rightarrow> string \<Rightarrow> string \<Rightarrow> TaskInputEvidence option
    \<Rightarrow> Attempt list \<Rightarrow> Attempt list \<times> Attempt \<times> bool" where
  "admit_task gate now new_id ctx m traceID taskID sourceEventID input entries =
    (let latest = latestTask entries taskID;
         fresh = newAttempt now new_id ctx m traceID taskID [] AttemptKindTask sourceEventID input;
         admit = (if gate \<and> mf_Pending m \<noteq> None then (entries, no_attempt, True)
           else (entries @ [fresh], fresh, False))
     in if at_AttemptID latest \<noteq> [] then
          if Open latest then
            if at_TaskInput latest = None
            then (replaceAttempt entries (latest\<lparr>at_TaskInput := input\<rparr>), latest\<lparr>at_TaskInput := input\<rparr>, False)
            else (entries, latest, False)
          else if sourceEventID \<noteq> [] \<and> (at_SourceEventID latest = sourceEventID \<or> at_LastDispatchKey latest = sourceEventID)
          then (entries, latest, False)
          else admit
        else admit)"

definition EnsureTaskAttempt ::
  "time \<Rightarrow> string \<Rightarrow> Ctx \<Rightarrow> Manifest option \<Rightarrow> string \<Rightarrow> string \<Rightarrow> string \<Rightarrow> TaskInputEvidence option
    \<Rightarrow> Attempt list \<Rightarrow> Attempt list \<times> (config_error + Attempt)" where
  "EnsureTaskAttempt now new_id ctx file traceID taskID sourceEventID input entries =
    (if TrimSpace taskID = [] then (entries, Inl TaskIDRequired)
     else (case LoadManifest traceID file of
         Inl e \<Rightarrow> (entries, Inl e)
       | Inr m \<Rightarrow> (case admit_task False now new_id ctx m traceID taskID sourceEventID input entries of
           (entries', entry, _) \<Rightarrow> (entries', Inr entry))))"

definition EnsureTaskAttemptGated ::
  "time \<Rightarrow> string \<Rightarrow> Ctx \<Rightarrow> Manifest option \<Rightarrow> string \<Rightarrow> string \<Rightarrow> string \<Rightarrow> TaskInputEvidence option
    \<Rightarrow> Attempt list \<Rightarrow> Attempt list \<times> (config_error + Attempt \<times> bool)" where
  "EnsureTaskAttemptGated now new_id ctx file traceID taskID sourceEventID input entries =
    (if TrimSpace taskID = [] then (entries, Inl TaskIDRequired)
     else (case LoadManifest traceID file of
         Inl e \<Rightarrow> (entries, Inl e)
       | Inr m \<Rightarrow> (case admit_task True now new_id ctx m traceID taskID sourceEventID input entries of
           (entries', entry, blocked) \<Rightarrow> (entries', Inr (entry, blocked)))))"

definition chain_entry :: "Attempt list \<Rightarrow> string \<Rightarrow> Attempt option" where
  "chain_entry entries chainKey = find (\<lambda>a. at_ChainKey a = chainKey) entries"

definition AdmitChainAttempt ::
  "time \<Rightarrow> string \<Rightarrow> Ctx \<Rightarrow> Manifest option \<Rightarrow> string \<Rightarrow> string \<Rightarrow> string \<Rightarrow> string
    \<Rightarrow> Attempt list \<Rightarrow> Attempt list \<times> (config_error + Attempt \<times> bool)" where
  "AdmitChainAttempt now new_id ctx file traceID chainKey taskID sourceEventID entries =
    (if TrimSpace chainKey = [] then (entries, Inl ChainKeyRequired)
     else (case LoadManifest traceID file of
         Inl e \<Rightarrow> (entries, Inl e)
       | Inr m \<Rightarrow> (case chain_entry entries chainKey of
           Some existing \<Rightarrow> (entries, Inr (existing, False))
         | None \<Rightarrow>
             let fresh = newAttempt now new_id ctx m traceID taskID chainKey AttemptKindDirect sourceEventID None
             in (entries @ [fresh], Inr (fresh, True)))))"

text \<open>The attempt, whether it was created, whether the admission was held back.\<close>

definition AdmitChainAttemptGated ::
  "time \<Rightarrow> string \<Rightarrow> Ctx \<Rightarrow> Manifest option \<Rightarrow> string \<Rightarrow> string \<Rightarrow> string \<Rightarrow> string
    \<Rightarrow> Attempt list \<Rightarrow> Attempt list \<times> (config_error + Attempt \<times> bool \<times> bool)" where
  "AdmitChainAttemptGated now new_id ctx file traceID chainKey taskID sourceEventID entries =
    (if TrimSpace chainKey = [] then (entries, Inl ChainKeyRequired)
     else (case LoadManifest traceID file of
         Inl e \<Rightarrow> (entries, Inl e)
       | Inr m \<Rightarrow> (case chain_entry entries chainKey of
           Some existing \<Rightarrow> (entries, Inr (existing, False, False))
         | None \<Rightarrow>
             let latest = latestTask entries taskID
             in if taskID \<noteq> [] \<and> at_AttemptID latest \<noteq> [] then (entries, Inr (latest, False, False))
                else if mf_Pending m \<noteq> None then (entries, Inr (no_attempt, False, True))
                else let fresh = newAttempt now new_id ctx m traceID taskID chainKey AttemptKindDirect sourceEventID None
                  in (entries @ [fresh], Inr (fresh, True, False)))))"

section \<open>Dispatch and closing\<close>

text \<open>One entry of \<open>MarkAttemptDispatched\<close>, and whether the dispatch is a duplicate.\<close>

definition mark_dispatched :: "string \<Rightarrow> Attempt \<Rightarrow> Attempt \<times> bool" where
  "mark_dispatched dispatchKey a =
    (if \<not> Open a then (a, True)
     else if dispatchKey \<noteq> [] \<and> at_LastDispatchKey a = dispatchKey \<and> at_DispatchCount a > 0 then (a, True)
     else (a\<lparr>at_LastDispatchKey := dispatchKey, at_DispatchCount := at_DispatchCount a + 1\<rparr>, False))"

definition attempt_index :: "Attempt list \<Rightarrow> string \<Rightarrow> nat option" where
  "attempt_index entries attemptID = find (\<lambda>i. at_AttemptID (entries ! i) = attemptID) [0 ..< length entries]"

definition MarkAttemptDispatched ::
  "string \<Rightarrow> string \<Rightarrow> Attempt list \<Rightarrow> Attempt list \<times> (config_error + Attempt \<times> bool)" where
  "MarkAttemptDispatched attemptID dispatchKey entries =
    (if attemptID = [] then (entries, Inl AttemptIDRequired)
     else (case attempt_index entries attemptID of
         None \<Rightarrow> (entries, Inl (AttemptNotFound attemptID))
       | Some i \<Rightarrow> (case mark_dispatched dispatchKey (entries ! i) of
           (a, duplicate) \<Rightarrow> (entries[i := a], Inr (a, duplicate)))))"

definition RecordAttemptAgent :: "string \<Rightarrow> string \<Rightarrow> Attempt list \<Rightarrow> Attempt list" where
  "RecordAttemptAgent attemptID agent0 entries =
    (let agentID = TrimSpace agent0
     in if attemptID = [] \<or> agentID = [] then entries
        else (case attempt_index entries attemptID of
            None \<Rightarrow> entries
          | Some i \<Rightarrow> if agentID \<in> set (at_Agents (entries ! i)) then entries
              else entries[i := (entries ! i)\<lparr>at_Agents := at_Agents (entries ! i) @ [agentID]\<rparr>]))"

definition closed_attempt :: "time \<Rightarrow> string \<Rightarrow> Attempt \<Rightarrow> Attempt" where
  "closed_attempt now reason a =
    a\<lparr>at_State := AttemptStateClosed, at_CloseReason := TrimSpace reason, at_ClosedAt := Some now\<rparr>"

definition CloseAttempt :: "time \<Rightarrow> string \<Rightarrow> string \<Rightarrow> Attempt list \<Rightarrow> Attempt list" where
  "CloseAttempt now attemptID reason entries =
    (if attemptID = [] then entries
     else map (\<lambda>a. if at_AttemptID a \<noteq> attemptID \<or> \<not> Open a then a else closed_attempt now reason a) entries)"

definition CloseTaskAttempts :: "time \<Rightarrow> string \<Rightarrow> string \<Rightarrow> Attempt list \<Rightarrow> Attempt list" where
  "CloseTaskAttempts now taskID reason entries =
    (if taskID = [] then entries
     else map (\<lambda>a. if at_TaskID a \<noteq> taskID \<or> \<not> Open a then a else closed_attempt now reason a) entries)"

definition CloseTraceAttempts :: "time \<Rightarrow> string \<Rightarrow> Attempt list \<Rightarrow> Attempt list" where
  "CloseTraceAttempts now reason entries = map (\<lambda>a. if \<not> Open a then a else closed_attempt now reason a) entries"

definition FindAttempt :: "Attempt list \<Rightarrow> string \<Rightarrow> Attempt option" where
  "FindAttempt entries attemptID = find (\<lambda>a. at_AttemptID a = attemptID) entries"

definition LatestTaskAttempt :: "Attempt list \<Rightarrow> string \<Rightarrow> Attempt option" where
  "LatestTaskAttempt entries taskID =
    (let latest = latestTask entries taskID in if at_AttemptID latest \<noteq> [] then Some latest else None)"

definition ChainAttempt :: "Attempt list \<Rightarrow> string \<Rightarrow> Attempt option" where
  "ChainAttempt entries chainKey = chain_entry entries chainKey"

definition attempt_before :: "Attempt \<Rightarrow> Attempt \<Rightarrow> bool" where
  "attempt_before a b \<longleftrightarrow>
    (if at_CreatedAt a = at_CreatedAt b then at_AttemptID a < at_AttemptID b else at_CreatedAt a < at_CreatedAt b)"

definition Attempts_sorted :: "Attempt list \<Rightarrow> Attempt list" where
  "Attempts_sorted entries = go_sort attempt_before entries"

section \<open>Who still needs the old configuration\<close>

record RunEvidence =
  re_AgentID :: string
  re_AttemptID :: string
  re_State :: string
  re_Readable :: bool

definition runTerminal :: "string \<Rightarrow> bool" where
  "runTerminal state \<longleftrightarrow> state \<in> {''completed'', ''failed'', ''cancelled''}"

definition blockerLabel :: "Attempt \<Rightarrow> string" where
  "blockerLabel a = ''attempt '' @ at_AttemptID a @
    (if TrimSpace (at_TaskID a) \<noteq> [] then '' for task '' @ at_TaskID a
     else if TrimSpace (at_ChainKey a) \<noteq> [] then '' for chain '' @ at_ChainKey a
     else [])"

text \<open>The runs an attempt owns: its recorded agents, and the runs whose record names it.\<close>

definition owned_runs :: "Attempt \<Rightarrow> RunEvidence list \<Rightarrow> (string, RunEvidence) gomap" where
  "owned_runs a evidence =
    (let byAgent = fold (\<lambda>r m. mput (re_AgentID r) r m) evidence [];
         owned = fold (\<lambda>agentID m. if TrimSpace agentID = [] then m
           else mput agentID (case mget byAgent agentID of
               Some r \<Rightarrow> r
             | None \<Rightarrow> \<lparr>re_AgentID = agentID, re_AttemptID = [], re_State = [], re_Readable = False\<rparr>) m)
           (at_Agents a) []
     in fold (\<lambda>r m. if re_AttemptID r = at_AttemptID a then mput (re_AgentID r) r m else m) evidence owned)"

definition live_run :: "string \<times> RunEvidence \<Rightarrow> string option" where
  "live_run p = (case p of (agentID, r) \<Rightarrow>
     if \<not> re_Readable r then Some (''owns run '' @ agentID @ '' with no readable status'')
     else if \<not> runTerminal (re_State r) then Some (''owns run '' @ agentID @ '' which is '' @ re_State r)
     else None)"

definition agent_before :: "string \<times> RunEvidence \<Rightarrow> string \<times> RunEvidence \<Rightarrow> bool" where
  "agent_before p q \<longleftrightarrow> fst p < fst q"

definition attemptLiveRun :: "Attempt \<Rightarrow> RunEvidence list \<Rightarrow> string option" where
  "attemptLiveRun a evidence =
    (case find (\<lambda>p. live_run p \<noteq> None) (go_sort agent_before (owned_runs a evidence)) of
       None \<Rightarrow> None | Some p \<Rightarrow> live_run p)"

definition task_blocker :: "TaskSnapshot \<Rightarrow> string list" where
  "task_blocker t = (if t_Status t \<in> {TaskStatusRunning, TaskStatusWaitingReview}
     then [''task '' @ t_TaskID t @ '' is '' @ TaskStatus_str (t_Status t)] else [])"

definition run_blocker :: "RunEvidence \<Rightarrow> string list" where
  "run_blocker r =
    (if \<not> re_Readable r then [''run '' @ re_AgentID r @ '' has no readable status'']
     else if \<not> runTerminal (re_State r) then [''run '' @ re_AgentID r @ '' is '' @ re_State r]
     else [])"

definition attempt_blocker :: "RunEvidence list \<Rightarrow> Attempt \<Rightarrow> string list" where
  "attempt_blocker evidence a =
    (if \<not> Open a then []
     else if at_DispatchCount a = 0 then [blockerLabel a @ '' is open'']
     else (case attemptLiveRun a evidence of
         Some d \<Rightarrow> [blockerLabel a @ '' '' @ d] | None \<Rightarrow> []))"

definition Blockers :: "TraceSnapshot \<Rightarrow> Attempt list \<Rightarrow> RunEvidence list \<Rightarrow> string list" where
  "Blockers snap entries evidence = uniqueBlockers
    (concat (map task_blocker (task_list snap)) @ concat (map run_blocker evidence)
     @ concat (map (attempt_blocker evidence) (Attempts_sorted entries)))"

section \<open>One owner per task and per chain\<close>

definition task_owner :: "string \<Rightarrow> Attempt \<Rightarrow> bool" where
  "task_owner taskID a \<longleftrightarrow> at_TaskID a = taskID \<and> at_Kind a = AttemptKindTask"

definition superseded :: "Attempt \<Rightarrow> Attempt \<Rightarrow> bool" where
  "superseded a b \<longleftrightarrow> (task_owner (at_TaskID b) a \<and> task_owner (at_TaskID b) b \<longrightarrow>
     \<not> Open a \<and> at_CreatedAt a < at_CreatedAt b)
   \<and> (at_Kind a = AttemptKindDirect \<and> at_Kind b = AttemptKindDirect \<longrightarrow> at_ChainKey a \<noteq> at_ChainKey b)
   \<and> at_AttemptID a \<noteq> at_AttemptID b"

definition named :: "Attempt \<Rightarrow> bool" where
  "named a \<longleftrightarrow> at_AttemptID a \<noteq> [] \<and> (at_Kind a = AttemptKindTask \<longrightarrow> at_ChainKey a = [])
     \<and> (at_Kind a = AttemptKindDirect \<longrightarrow> at_ChainKey a \<noteq> []) \<and> at_DispatchCount a \<ge> 0"

text \<open>In the order of admission: an attempt of a task ends before the next one begins.\<close>

definition attempts_ok :: "Attempt list \<Rightarrow> bool" where
  "attempts_ok entries \<longleftrightarrow> sorted_wrt superseded entries \<and> (\<forall>a \<in> set entries. named a)"

text \<open>What a method may do to an attempt that is already recorded.\<close>

definition evolves :: "Attempt \<Rightarrow> Attempt \<Rightarrow> bool" where
  "evolves a b \<longleftrightarrow> at_AttemptID b = at_AttemptID a \<and> at_TaskID b = at_TaskID a \<and> at_ChainKey b = at_ChainKey a
     \<and> at_Kind b = at_Kind a \<and> at_CreatedAt b = at_CreatedAt a \<and> at_ConfigRef b = at_ConfigRef a
     \<and> at_ConfigRevision b = at_ConfigRevision a \<and> at_SourceEventID b = at_SourceEventID a
     \<and> at_DispatchCount a \<le> at_DispatchCount b \<and> (Open b \<longrightarrow> Open a)"

lemma evolves_refl [simp]: "evolves a a"
  by (simp add: evolves_def)

lemma evolves_all: "list_all2 evolves xs xs"
  by (simp add: list.rel_refl)

lemma evolves_map: "(\<And>a. evolves a (f a)) \<Longrightarrow> list_all2 evolves xs (map f xs)"
  by (induction xs) auto

lemma evolves_update: "i < length xs \<Longrightarrow> evolves (xs ! i) b \<Longrightarrow> list_all2 evolves xs (xs[i := b])"
  by (simp add: list_all2_conv_all_nth nth_list_update)

lemma attempts_ok_evolves:
  assumes "list_all2 evolves xs ys" "attempts_ok xs"
  shows "attempts_ok ys"
proof -
  have len: "length ys = length xs" using assms(1) by (simp add: list_all2_lengthD)
  have ev: "evolves (xs ! i) (ys ! i)" if "i < length xs" for i
    using assms(1) that by (simp add: list_all2_nthD)
  have "superseded (ys ! i) (ys ! j)" if "i < j" "j < length xs" for i j
  proof -
    have "superseded (xs ! i) (xs ! j)"
      using assms(2) that by (simp add: attempts_ok_def sorted_wrt_iff_nth_less)
    then show ?thesis
      using ev [of i] ev [of j] that by (auto simp: superseded_def evolves_def task_owner_def)
  qed
  moreover have "named (ys ! i)" if "i < length xs" for i
    using assms(2) ev [OF that] nth_mem [OF that] by (auto simp: attempts_ok_def named_def evolves_def)
  ultimately show ?thesis
    using len by (auto simp: attempts_ok_def sorted_wrt_iff_nth_less in_set_conv_nth)
qed

lemma attempts_ok_append:
  assumes "attempts_ok xs" "named a" "\<And>x. x \<in> set xs \<Longrightarrow> superseded x a"
  shows "attempts_ok (xs @ [a])"
  using assms by (auto simp: attempts_ok_def sorted_wrt_append)

lemma attempts_ok_Nil [simp]: "attempts_ok []"
  by (simp add: attempts_ok_def)

lemma attempts_okD:
  assumes "attempts_ok xs" "a \<in> set xs" "b \<in> set xs"
  shows "a = b \<or> superseded a b \<or> superseded b a"
proof -
  obtain i j where "a = xs ! i" "i < length xs" "b = xs ! j" "j < length xs"
    using assms(2,3) by (auto simp: in_set_conv_nth)
  then show ?thesis
    using assms(1) by (cases i j rule: linorder_cases) (auto simp: attempts_ok_def sorted_wrt_iff_nth_less)
qed

text \<open>The newest attempt of a task is the last one in the file.\<close>

lemma latestTask_snoc: "latestTask (xs @ [a]) t =
    (if \<not> task_owner t a then latestTask xs t
     else if at_AttemptID (latestTask xs t) = [] \<or> at_CreatedAt a > at_CreatedAt (latestTask xs t) then a
     else latestTask xs t)"
  by (simp add: latestTask_def task_owner_def)

lemma latestTask_last:
  assumes "attempts_ok xs"
  shows "latestTask xs t = (if \<exists>a \<in> set xs. task_owner t a then last (filter (task_owner t) xs) else no_attempt)"
  using assms
proof (induction xs rule: rev_induct)
  case (snoc a xs)
  have ok: "attempts_ok xs" and sup: "\<And>x. x \<in> set xs \<Longrightarrow> superseded x a"
    using snoc.prems by (auto simp: attempts_ok_def sorted_wrt_append)
  show ?case
  proof (cases "task_owner t a \<and> (\<exists>x \<in> set xs. task_owner t x)")
    case True
    then have l: "latestTask xs t = last (filter (task_owner t) xs)" using snoc.IH [OF ok] by simp
    have "last (filter (task_owner t) xs) \<in> set (filter (task_owner t) xs)"
      using True by (intro last_in_set) (auto simp: filter_empty_conv)
    with sup True have "at_CreatedAt (last (filter (task_owner t) xs)) < at_CreatedAt a"
      by (auto simp: superseded_def task_owner_def)
    with l True show ?thesis by (auto simp: latestTask_snoc)
  next
    case False
    then show ?thesis using snoc.IH [OF ok] by (auto simp: latestTask_snoc no_attempt_def)
  qed
qed (simp add: latestTask_def)

lemma latestTask_some:
  assumes "attempts_ok xs" "at_AttemptID (latestTask xs t) \<noteq> []"
  shows "latestTask xs t \<in> set xs \<and> task_owner t (latestTask xs t)"
proof -
  have ex: "\<exists>a \<in> set xs. task_owner t a"
    using assms by (auto simp: latestTask_last no_attempt_def split: if_splits)
  then have "last (filter (task_owner t) xs) \<in> set (filter (task_owner t) xs)"
    by (intro last_in_set) (auto simp: filter_empty_conv)
  with ex assms(1) show ?thesis by (simp add: latestTask_last)
qed

text \<open>While the newest attempt is not open, no attempt of the task is.\<close>

lemma latestTask_closed:
  assumes "attempts_ok xs" "\<not> Open (latestTask xs t)" "a \<in> set xs" "task_owner t a"
  shows "\<not> Open a"
proof -
  have l: "latestTask xs t \<in> set xs" "task_owner t (latestTask xs t)"
    using assms latestTask_last [OF assms(1), of t] last_in_set [of "filter (task_owner t) xs"]
    by (auto simp: filter_empty_conv split: if_splits)
  have "a = latestTask xs t \<or> superseded a (latestTask xs t) \<or> superseded (latestTask xs t) a"
    using attempts_okD [OF assms(1,3) l(1)] .
  moreover have "\<not> superseded (latestTask xs t) a" if "a \<noteq> latestTask xs t"
  proof
    assume s: "superseded (latestTask xs t) a"
    obtain ys zs where split: "xs = ys @ a # zs" using assms(3) by (auto dest: split_list)
    have "latestTask xs t = last (filter (task_owner t) xs)"
      using latestTask_last [OF assms(1), of t] assms(3,4) by auto
    also have "\<dots> = last (filter (task_owner t) (a # zs))" using assms(4) by (simp add: split)
    also have "\<dots> \<in> set (filter (task_owner t) (a # zs))"
      by (rule last_in_set) (simp add: assms(4))
    finally have "latestTask xs t \<in> set (a # zs)" by (meson filter_is_subset subsetD)
    then have "superseded a (latestTask xs t) \<or> a = latestTask xs t"
      using assms(1) by (auto simp: split attempts_ok_def sorted_wrt_append)
    with s that assms(4) l(2) show False by (auto simp: superseded_def task_owner_def)
  qed
  ultimately show ?thesis using assms(2,4) l(2)
    by (cases "a = latestTask xs t") (auto simp: superseded_def task_owner_def)
qed

lemma latestTask_none: "attempts_ok xs \<Longrightarrow> at_AttemptID (latestTask xs t) = [] \<Longrightarrow> latestTask xs t = no_attempt"
  using last_in_set [of "filter (task_owner t) xs"]
  by (auto simp: latestTask_last attempts_ok_def named_def filter_empty_conv split: if_splits)

section \<open>The methods keep it\<close>

lemma attempts_ok_distinct: "attempts_ok xs \<Longrightarrow> distinct (map at_AttemptID xs)"
  by (induction xs) (auto simp: attempts_ok_def superseded_def)

lemma replaceAttempt_evolves:
  assumes "distinct (map at_AttemptID xs)" "a \<in> set xs" "evolves a b"
  shows "list_all2 evolves xs (replaceAttempt xs b)"
proof -
  have id: "at_AttemptID b = at_AttemptID a" using assms(3) by (simp add: evolves_def)
  show ?thesis using assms(1,2)
  proof (induction xs)
    case (Cons x xs)
    then show ?case using assms(3) by (cases "x = a") (auto simp: evolves_all id image_iff)
  qed simp
qed

text \<open>
  What a new attempt needs of its id and of the clock: the id is not taken, and the attempts of the same
  task were admitted earlier. The code checks neither.
\<close>

definition unused :: "string \<Rightarrow> Attempt list \<Rightarrow> bool" where
  "unused new_id entries \<longleftrightarrow> new_id \<noteq> [] \<and> (\<forall>a \<in> set entries. at_AttemptID a \<noteq> new_id)"

definition later :: "time \<Rightarrow> string \<Rightarrow> Attempt list \<Rightarrow> bool" where
  "later now taskID entries \<longleftrightarrow> (\<forall>a \<in> set entries. task_owner taskID a \<longrightarrow> at_CreatedAt a < now)"

lemma newAttempt_simps [simp]:
  "at_AttemptID (newAttempt now i ctx m tr t ck k src inp) = i"
  "at_TaskID (newAttempt now i ctx m tr t ck k src inp) = t"
  "at_ChainKey (newAttempt now i ctx m tr t ck k src inp) = ck"
  "at_Kind (newAttempt now i ctx m tr t ck k src inp) = k"
  "at_CreatedAt (newAttempt now i ctx m tr t ck k src inp) = now"
  "at_SourceEventID (newAttempt now i ctx m tr t ck k src inp) = src"
  "at_State (newAttempt now i ctx m tr t ck k src inp) = AttemptStateOpen"
  "at_DispatchCount (newAttempt now i ctx m tr t ck k src inp) = 0"
  "at_Agents (newAttempt now i ctx m tr t ck k src inp) = []"
  "at_LastDispatchKey (newAttempt now i ctx m tr t ck k src inp) = []"
  by (simp_all add: newAttempt_def Let_def)

lemma admit_task_ok:
  assumes "attempts_ok xs" "unused i xs" "later now t xs"
    and run: "admit_task gate now i ctx m tr t src inp xs = (ys, entry, blocked)"
  shows "attempts_ok ys"
proof -
  let ?latest = "latestTask xs t"
  let ?new = "newAttempt now i ctx m tr t [] AttemptKindTask src inp"
  consider "ys = xs" | "ys = replaceAttempt xs (?latest\<lparr>at_TaskInput := inp\<rparr>)" "at_AttemptID ?latest \<noteq> []"
    | "ys = xs @ [?new]" "\<not> Open ?latest"
    using run latestTask_none [OF assms(1), of t]
    by (auto simp: admit_task_def Let_def no_attempt_def split: if_splits)
  then show ?thesis
  proof cases
    case 2
    have "evolves ?latest (?latest\<lparr>at_TaskInput := inp\<rparr>)" by (simp add: evolves_def)
    with 2 show ?thesis
      using attempts_ok_evolves [OF replaceAttempt_evolves [OF attempts_ok_distinct [OF assms(1)]] assms(1)] latestTask_some [OF assms(1)]
      by blast
  next
    case 3
    have "superseded x ?new" if "x \<in> set xs" for x
      using assms(2,3) that latestTask_closed [OF assms(1) 3(2) that]
      by (auto simp: superseded_def unused_def later_def task_owner_def)
    moreover have "named ?new" using assms(2) by (simp add: named_def unused_def)
    ultimately show ?thesis using 3 assms(1) by (simp add: attempts_ok_append)
  qed (use assms(1) in simp)
qed

lemma admit_chain_ok:
  assumes "attempts_ok xs" "unused i xs" "chain_entry xs ck = None" "TrimSpace ck \<noteq> []"
  shows "attempts_ok (xs @ [newAttempt now i ctx m tr t ck AttemptKindDirect src inp])"
proof (rule attempts_ok_append [OF assms(1)])
  let ?new = "newAttempt now i ctx m tr t ck AttemptKindDirect src inp"
  have "ck \<noteq> []" using assms(4) by auto
  then show "named ?new" using assms(2) by (simp add: named_def unused_def)
  show "superseded x ?new" if "x \<in> set xs" for x
    using assms(2,3) that by (auto simp: superseded_def unused_def task_owner_def chain_entry_def find_None_iff)
qed

lemma attempt_index_Some: "attempt_index xs i = Some j \<Longrightarrow> j < length xs \<and> at_AttemptID (xs ! j) = i"
  by (auto simp: attempt_index_def find_Some_iff)

lemma mark_evolves: "mark_dispatched key a = (b, d) \<Longrightarrow> evolves a b"
  by (auto simp: mark_dispatched_def evolves_def split: if_splits)

lemma MarkAttemptDispatched_evolves:
  "list_all2 evolves xs (fst (MarkAttemptDispatched i key xs))"
proof (cases "attempt_index xs i")
  case (Some j)
  obtain b d where m: "mark_dispatched key (xs ! j) = (b, d)" by fastforce
  with Some show ?thesis
    by (auto simp: MarkAttemptDispatched_def evolves_all dest: attempt_index_Some
        intro!: evolves_update mark_evolves)
qed (simp add: MarkAttemptDispatched_def evolves_all)

lemma RecordAttemptAgent_evolves: "list_all2 evolves xs (RecordAttemptAgent i ag xs)"
  by (auto simp: RecordAttemptAgent_def Let_def evolves_all evolves_def dest: attempt_index_Some
      intro!: evolves_update split: option.split)

lemma closed_evolves: "evolves a (closed_attempt now reason a)"
  by (simp add: closed_attempt_def evolves_def)

lemma Close_evolves:
  "list_all2 evolves xs (CloseAttempt now i reason xs)"
  "list_all2 evolves xs (CloseTaskAttempts now t reason xs)"
  "list_all2 evolves xs (CloseTraceAttempts now reason xs)"
  by (auto simp: CloseAttempt_def CloseTaskAttempts_def CloseTraceAttempts_def evolves_all closed_evolves
      intro!: evolves_map)

text \<open>What a method does to the list of attempts: what is there evolves, what is new is admitted now.\<close>

definition attempts_grow :: "(Attempt \<Rightarrow> bool) \<Rightarrow> Attempt list \<Rightarrow> Attempt list \<Rightarrow> bool" where
  "attempts_grow new xs ys \<longleftrightarrow> (\<forall>b \<in> set ys. (\<exists>a \<in> set xs. evolves a b) \<or> new b)"

definition admitted :: "time \<Rightarrow> string \<Rightarrow> Ctx \<Rightarrow> Manifest option \<Rightarrow> string \<Rightarrow> AttemptKind \<Rightarrow> Attempt \<Rightarrow> bool" where
  "admitted now i ctx f t k b \<longleftrightarrow> (\<exists>m tr ck src inp. f = Some m \<and> b = newAttempt now i ctx m tr t ck k src inp)"

lemma admittedI: "f = Some m \<Longrightarrow> admitted now i ctx f t k (newAttempt now i ctx m tr t ck k src inp)"
  by (auto simp: admitted_def)

lemma attempts_grow_refl [simp]: "attempts_grow new xs xs"
  by (simp add: attempts_grow_def) (metis evolves_refl)

lemma attempts_grow_evolves: "list_all2 evolves xs ys \<Longrightarrow> attempts_grow new xs ys"
  by (force simp: attempts_grow_def list_all2_conv_all_nth in_set_conv_nth)

lemma attempts_grow_append: "new a \<Longrightarrow> attempts_grow new xs (xs @ [a])"
  by (simp add: attempts_grow_def) (metis evolves_refl)

lemma attempts_grow_mono: "attempts_grow new xs ys \<Longrightarrow> (\<And>b. new b \<Longrightarrow> new' b) \<Longrightarrow> attempts_grow new' xs ys"
  by (fastforce simp: attempts_grow_def)

lemma set_replaceAttempt: "set (replaceAttempt xs b) \<subseteq> insert b (set xs)"
  by (induction xs) auto

lemma latestTask_in: "at_AttemptID (latestTask xs t) \<noteq> [] \<Longrightarrow> latestTask xs t \<in> set xs \<and> task_owner t (latestTask xs t)"
proof (induction xs rule: rev_induct)
  case Nil
  then show ?case by (simp add: latestTask_def no_attempt_def)
qed (auto simp: latestTask_snoc split: if_splits)

lemma attempts_grow_replace:
  assumes "a \<in> set xs" "evolves a b"
  shows "attempts_grow new xs (replaceAttempt xs b)"
  using assms set_replaceAttempt [of xs b] by (fastforce simp: attempts_grow_def intro: evolves_refl)

lemma admit_task_grow:
  assumes "admit_task gate now i ctx m tr t src inp xs = (ys, entry, blocked)"
  shows "attempts_grow (admitted now i ctx (Some m) t AttemptKindTask) xs ys"
proof -
  let ?latest = "latestTask xs t"
  have "attempts_grow new xs (replaceAttempt xs (?latest\<lparr>at_TaskInput := inp\<rparr>))" if "at_AttemptID ?latest \<noteq> []" for new
    by (rule attempts_grow_replace [OF conjunct1 [OF latestTask_in [OF that]]]) (simp add: evolves_def)
  moreover have "attempts_grow (admitted now i ctx (Some m) t AttemptKindTask) xs
      (xs @ [newAttempt now i ctx m tr t [] AttemptKindTask src inp])"
    by (rule attempts_grow_append, rule admittedI, simp)
  ultimately show ?thesis
    using assms by (auto simp: admit_task_def Let_def split: if_splits)
qed

lemma LoadManifest_Inr: "LoadManifest tr file = Inr m \<Longrightarrow> file = Some m"
  by (auto simp: LoadManifest_def res_bind_Inr_iff split: option.splits if_splits)

lemma EnsureTaskAttempt_grow:
  "attempts_grow (admitted now i ctx f t AttemptKindTask) xs (fst (EnsureTaskAttempt now i ctx f tr t src inp xs))"
  "attempts_grow (admitted now i ctx f t AttemptKindTask) xs (fst (EnsureTaskAttemptGated now i ctx f tr t src inp xs))"
  by (auto simp: EnsureTaskAttempt_def EnsureTaskAttemptGated_def dest!: LoadManifest_Inr
      split: sum.split prod.split intro: admit_task_grow)

lemma AdmitChainAttempt_grow:
  "attempts_grow (admitted now i ctx f t AttemptKindDirect) xs (fst (AdmitChainAttempt now i ctx f tr ck t src xs))"
  "attempts_grow (admitted now i ctx f t AttemptKindDirect) xs (fst (AdmitChainAttemptGated now i ctx f tr ck t src xs))"
  by (auto simp: AdmitChainAttempt_def AdmitChainAttemptGated_def Let_def
      dest!: LoadManifest_Inr split: sum.split option.split intro!: attempts_grow_append admittedI)

section \<open>Histories of the attempts of a trail\<close>

text \<open>A call of a method, with the clock, the random id and the manifest it finds.\<close>

datatype attempt_call =
    CallEnsure time string Ctx "Manifest option" string string string "TaskInputEvidence option"
  | CallEnsureGated time string Ctx "Manifest option" string string string "TaskInputEvidence option"
  | CallChain time string Ctx "Manifest option" string string string string
  | CallChainGated time string Ctx "Manifest option" string string string string
  | CallMark string string
  | CallAgent string string
  | CallClose time string string
  | CallCloseTask time string string
  | CallCloseTrace time string

primrec attempts_after :: "attempt_call \<Rightarrow> Attempt list \<Rightarrow> Attempt list" where
  "attempts_after (CallEnsure now i ctx f tr t src inp) xs = fst (EnsureTaskAttempt now i ctx f tr t src inp xs)"
| "attempts_after (CallEnsureGated now i ctx f tr t src inp) xs = fst (EnsureTaskAttemptGated now i ctx f tr t src inp xs)"
| "attempts_after (CallChain now i ctx f tr ck t src) xs = fst (AdmitChainAttempt now i ctx f tr ck t src xs)"
| "attempts_after (CallChainGated now i ctx f tr ck t src) xs = fst (AdmitChainAttemptGated now i ctx f tr ck t src xs)"
| "attempts_after (CallMark i key) xs = fst (MarkAttemptDispatched i key xs)"
| "attempts_after (CallAgent i agent) xs = RecordAttemptAgent i agent xs"
| "attempts_after (CallClose now i reason) xs = CloseAttempt now i reason xs"
| "attempts_after (CallCloseTask now t reason) xs = CloseTaskAttempts now t reason xs"
| "attempts_after (CallCloseTrace now reason) xs = CloseTraceAttempts now reason xs"

text \<open>The random id a call draws, and the task and the clock of a call that admits a task.\<close>

primrec drawn_ids :: "attempt_call \<Rightarrow> string list" where
  "drawn_ids (CallEnsure now i ctx f tr t src inp) = [i]"
| "drawn_ids (CallEnsureGated now i ctx f tr t src inp) = [i]"
| "drawn_ids (CallChain now i ctx f tr ck t src) = [i]"
| "drawn_ids (CallChainGated now i ctx f tr ck t src) = [i]"
| "drawn_ids (CallMark i key) = []"
| "drawn_ids (CallAgent i agent) = []"
| "drawn_ids (CallClose now i reason) = []"
| "drawn_ids (CallCloseTask now t reason) = []"
| "drawn_ids (CallCloseTrace now reason) = []"

primrec task_clocks :: "attempt_call \<Rightarrow> (string \<times> time) list" where
  "task_clocks (CallEnsure now i ctx f tr t src inp) = [(t, now)]"
| "task_clocks (CallEnsureGated now i ctx f tr t src inp) = [(t, now)]"
| "task_clocks (CallChain now i ctx f tr ck t src) = []"
| "task_clocks (CallChainGated now i ctx f tr ck t src) = []"
| "task_clocks (CallMark i key) = []"
| "task_clocks (CallAgent i agent) = []"
| "task_clocks (CallClose now i reason) = []"
| "task_clocks (CallCloseTask now t reason) = []"
| "task_clocks (CallCloseTrace now reason) = []"

definition clock_advances :: "string \<times> time \<Rightarrow> string \<times> time \<Rightarrow> bool" where
  "clock_advances p q \<longleftrightarrow> (fst p = fst q \<longrightarrow> snd p < snd q)"

lemma attempts_after_grow:
  "attempts_grow (\<lambda>b. at_AttemptID b \<in> set (drawn_ids c)
      \<and> (at_Kind b = AttemptKindTask \<longrightarrow> (at_TaskID b, at_CreatedAt b) \<in> set (task_clocks c))) xs (attempts_after c xs)"
proof -
  have new: "admitted now i ctx f t k b \<Longrightarrow> at_AttemptID b = i \<and> at_Kind b = k \<and> at_TaskID b = t \<and> at_CreatedAt b = now"
    for now i ctx f t k b by (auto simp: admitted_def)
  note admissions = EnsureTaskAttempt_grow AdmitChainAttempt_grow
  show ?thesis
    by (cases c) (simp_all add: attempts_grow_evolves MarkAttemptDispatched_evolves RecordAttemptAgent_evolves Close_evolves;
      rule admissions [THEN attempts_grow_mono]; drule new; simp)+
qed

lemma attempts_after_ok:
  assumes ok: "attempts_ok xs" and ids: "\<And>i. i \<in> set (drawn_ids c) \<Longrightarrow> unused i xs"
    and clock: "\<And>t now. (t, now) \<in> set (task_clocks c) \<Longrightarrow> later now t xs"
  shows "attempts_ok (attempts_after c xs)"
proof (cases c)
  case (CallEnsure now i ctx f tr t src inp)
  then show ?thesis using ok ids [of i] clock [of t now]
    by (auto simp: EnsureTaskAttempt_def split: sum.split prod.split intro: admit_task_ok)
next
  case (CallEnsureGated now i ctx f tr t src inp)
  then show ?thesis using ok ids [of i] clock [of t now]
    by (auto simp: EnsureTaskAttemptGated_def split: sum.split prod.split intro: admit_task_ok)
next
  case (CallChain now i ctx f tr ck t src)
  then show ?thesis using ok ids [of i]
    by (auto simp: AdmitChainAttempt_def Let_def split: sum.split option.split intro: admit_chain_ok)
next
  case (CallChainGated now i ctx f tr ck t src)
  then show ?thesis using ok ids [of i]
    by (auto simp: AdmitChainAttemptGated_def Let_def split: sum.split option.split intro: admit_chain_ok)
qed (simp_all add: attempts_ok_evolves [OF MarkAttemptDispatched_evolves ok] attempts_ok_evolves [OF RecordAttemptAgent_evolves ok]
    attempts_ok_evolves [OF Close_evolves(1) ok] attempts_ok_evolves [OF Close_evolves(2) ok] attempts_ok_evolves [OF Close_evolves(3) ok])

text \<open>Ids and stamps on record are those the calls brought.\<close>

lemma recorded_from_calls:
  "a \<in> set (fold attempts_after cs []) \<Longrightarrow> at_AttemptID a \<in> set (concat (map drawn_ids cs))
    \<and> (at_Kind a = AttemptKindTask \<longrightarrow> (at_TaskID a, at_CreatedAt a) \<in> set (concat (map task_clocks cs)))"
proof (induction cs arbitrary: a rule: rev_induct)
  case (snoc c cs)
  from snoc.prems attempts_after_grow [of c "fold attempts_after cs []"]
  consider x where "x \<in> set (fold attempts_after cs [])" "evolves x a"
    | "at_AttemptID a \<in> set (drawn_ids c)"
      "at_Kind a = AttemptKindTask \<longrightarrow> (at_TaskID a, at_CreatedAt a) \<in> set (task_clocks c)"
    by (auto simp: attempts_grow_def)
  then show ?case
  proof cases
    case 1
    with snoc.IH [of x] show ?thesis by (auto simp: evolves_def)
  qed auto
qed simp

lemma attempts_history_ok:
  assumes "distinct (concat (map drawn_ids cs))" "[] \<notin> set (concat (map drawn_ids cs))"
    "sorted_wrt clock_advances (concat (map task_clocks cs))"
  shows "attempts_ok (fold attempts_after cs [])"
  using assms
proof (induction cs rule: rev_induct)
  case (snoc c cs)
  let ?xs = "fold attempts_after cs []"
  have "attempts_ok ?xs" using snoc by (auto simp: sorted_wrt_append)
  moreover have "unused i ?xs" if "i \<in> set (drawn_ids c)" for i
    using that snoc.prems(1,2) by (fastforce simp: unused_def dest: recorded_from_calls)
  moreover have "later now t ?xs" if "(t, now) \<in> set (task_clocks c)" for t now
  proof -
    have "at_CreatedAt a < now" if a: "a \<in> set ?xs" "task_owner t a" for a
    proof -
      have "(t, at_CreatedAt a) \<in> set (concat (map task_clocks cs))"
        using recorded_from_calls [OF a(1)] a(2) by (auto simp: task_owner_def)
      with snoc.prems(3) \<open>(t, now) \<in> set (task_clocks c)\<close> show ?thesis
        by (fastforce simp: sorted_wrt_append clock_advances_def)
    qed
    then show ?thesis by (simp add: later_def)
  qed
  ultimately show ?case using attempts_after_ok [of ?xs c] by simp
qed simp

lemma attempts_ok_unique:
  assumes "attempts_ok xs" "a \<in> set xs" "b \<in> set xs"
  shows "task_owner t a \<Longrightarrow> task_owner t b \<Longrightarrow> Open a \<Longrightarrow> Open b \<Longrightarrow> a = b"
    and "at_Kind a = AttemptKindDirect \<Longrightarrow> at_Kind b = AttemptKindDirect \<Longrightarrow> at_ChainKey a = at_ChainKey b \<Longrightarrow> a = b"
    and "at_AttemptID a = at_AttemptID b \<Longrightarrow> a = b"
  using attempts_okD [OF assms] by (auto simp: superseded_def task_owner_def)

section \<open>A clock that steps back\<close>

text \<open>
  The stamps are wall-clock times kept in a file. While the clock shows no more than the stamp of a closed
  attempt, that one stays the newest, and each new event opens another attempt beside it.
\<close>

lemma clock_back_opens_two:
  assumes "at_AttemptID (latestTask xs t) \<noteq> []" "\<not> Open (latestTask xs t)"
    and "now1 \<le> at_CreatedAt (latestTask xs t)"
    and "at_SourceEventID (latestTask xs t) \<notin> {e1, e2}" "at_LastDispatchKey (latestTask xs t) \<notin> {e1, e2}"
    and "TrimSpace t \<noteq> []" "LoadManifest tr f = Inr m" "mf_Pending m = None"
  shows "\<exists>a b. fst (EnsureTaskAttemptGated now2 i2 ctx f tr t e2 inp2 (fst (EnsureTaskAttemptGated now1 i1 ctx f tr t e1 inp1 xs)))
      = xs @ [a, b] \<and> Open a \<and> Open b \<and> task_owner t a \<and> task_owner t b"
proof -
  let ?a = "newAttempt now1 i1 ctx m tr t [] AttemptKindTask e1 inp1"
  have one: "fst (EnsureTaskAttemptGated now1 i1 ctx f tr t e1 inp1 xs) = xs @ [?a]"
    using assms(1,2,4-8) by (simp add: EnsureTaskAttemptGated_def admit_task_def Let_def)
  have "latestTask (xs @ [?a]) t = latestTask xs t"
    using assms(1,3) by (simp add: latestTask_snoc)
  with assms(1,2,4-8) one show ?thesis
    by (auto simp: EnsureTaskAttemptGated_def admit_task_def Let_def task_owner_def)
qed

section \<open>An event delivered again\<close>

text \<open>The newest attempt of a task follows what methods do to the attempts.\<close>

lemma latestTask_evolves: "list_all2 evolves xs ys \<Longrightarrow> evolves (latestTask xs t) (latestTask ys t)"
proof (induction xs arbitrary: ys rule: rev_induct)
  case (snoc a xs)
  then obtain zs b where "ys = zs @ [b]" "list_all2 evolves xs zs" "evolves a b"
    by (auto simp: list_all2_append1 list_all2_Cons1)
  with snoc.IH [of zs] show ?case
    by (auto simp: latestTask_snoc) (auto simp: evolves_def task_owner_def)
qed (simp add: latestTask_def)

lemma evolves_ids: "list_all2 evolves xs ys \<Longrightarrow> map at_AttemptID ys = map at_AttemptID xs"
  by (induction rule: list_all2_induct) (simp_all add: evolves_def)

lemma same_id:
  "distinct (map at_AttemptID xs) \<Longrightarrow> a \<in> set xs \<Longrightarrow> b \<in> set xs \<Longrightarrow> at_AttemptID a = at_AttemptID b \<Longrightarrow> a = b"
  by (auto simp: distinct_map inj_on_def)

text \<open>So the entry that carries its id afterwards is the newest attempt then.\<close>

lemma latestTask_is:
  assumes ev: "list_all2 evolves xs ys" and ids: "distinct (map at_AttemptID xs)"
    and some: "at_AttemptID (latestTask xs t) \<noteq> []"
    and b: "b \<in> set ys" "at_AttemptID b = at_AttemptID (latestTask xs t)"
  shows "latestTask ys t = b"
proof -
  have i: "at_AttemptID (latestTask ys t) = at_AttemptID (latestTask xs t)"
    using latestTask_evolves [OF ev, of t] by (simp add: evolves_def)
  then have "latestTask ys t \<in> set ys" using latestTask_in [of ys t] some by simp
  moreover have "distinct (map at_AttemptID ys)" using ids evolves_ids [OF ev] by simp
  ultimately show ?thesis using same_id b i by metis
qed

text \<open>An open attempt takes the admission over.\<close>

lemma admit_open:
  assumes "at_AttemptID (latestTask xs t) \<noteq> []" "Open (latestTask xs t)"
    "TrimSpace t \<noteq> []" "LoadManifest tr f = Inr m" "distinct (map at_AttemptID xs)"
    and run: "EnsureTaskAttemptGated now i ctx f tr t e inp xs = (ys, r)"
  shows "list_all2 evolves xs ys \<and> r = Inr (latestTask ys t, False) \<and> Open (latestTask ys t)"
proof -
  let ?l = "latestTask xs t"
  have l: "?l \<in> set xs" using latestTask_in [OF assms(1)] by simp
  show ?thesis
  proof (cases "at_TaskInput ?l = None")
    case False
    with assms show ?thesis by (auto simp: EnsureTaskAttemptGated_def admit_task_def Let_def evolves_all)
  next
    case True
    let ?b = "?l\<lparr>at_TaskInput := inp\<rparr>"
    have ys: "ys = replaceAttempt xs ?b" "r = Inr (?b, False)"
      using True assms by (auto simp: EnsureTaskAttemptGated_def admit_task_def Let_def)
    have ev: "list_all2 evolves xs ys" unfolding ys by (rule replaceAttempt_evolves [OF assms(5) l]) (simp add: evolves_def)
    have "?b \<in> set (replaceAttempt zs ?b)" if "?l \<in> set zs" for zs
      using that by (induction zs) auto
    then have "latestTask ys t = ?b" using latestTask_is [OF ev assms(5,1)] l ys(1) by simp
    with ev ys(2) assms(2) show ?thesis by simp
  qed
qed

text \<open>Marked with a key that names the attempt as well, the newest attempt does not know the event.\<close>

lemma marked_key:
  assumes "at_AttemptID (latestTask xs t) \<noteq> []" "Open (latestTask xs t)" "distinct (map at_AttemptID xs)" "key \<noteq> []"
  shows "at_LastDispatchKey (latestTask (fst (MarkAttemptDispatched (at_AttemptID (latestTask xs t)) key xs)) t) = key"
proof -
  let ?l = "latestTask xs t" and ?i = "at_AttemptID (latestTask xs t)"
  have l: "?l \<in> set xs" using latestTask_in [OF assms(1)] by simp
  then obtain j where j: "attempt_index xs ?i = Some j"
    by (cases "attempt_index xs ?i") (auto simp: attempt_index_def find_None_iff in_set_conv_nth)
  have at: "j < length xs" "xs ! j = ?l"
    using attempt_index_Some [OF j] l same_id [OF assms(3), of "xs ! j" ?l] by auto
  obtain b d where b: "mark_dispatched key ?l = (b, d)" by fastforce
  have ys: "fst (MarkAttemptDispatched ?i key xs) = xs[j := b]" using assms(1) j at b by (simp add: MarkAttemptDispatched_def)
  have "b \<in> set (fst (MarkAttemptDispatched ?i key xs))" using ys at by (simp add: set_update_memI)
  moreover have "at_AttemptID b = ?i" using mark_evolves [OF b] by (simp add: evolves_def)
  ultimately have "latestTask (fst (MarkAttemptDispatched ?i key xs)) t = b"
    by (rule latestTask_is [OF MarkAttemptDispatched_evolves assms(3,1)])
  moreover have "at_LastDispatchKey b = key"
    using b assms(2,4) by (auto simp: mark_dispatched_def split: if_splits)
  ultimately show ?thesis by simp
qed

lemma closed_latest:
  assumes "at_AttemptID (latestTask xs t) \<noteq> []" "t \<noteq> []" "distinct (map at_AttemptID xs)"
  shows "\<not> Open (latestTask (CloseTaskAttempts now t reason xs) t)
    \<and> at_LastDispatchKey (latestTask (CloseTaskAttempts now t reason xs) t) = at_LastDispatchKey (latestTask xs t)"
proof -
  let ?l = "latestTask xs t" and ?f = "\<lambda>a. if at_TaskID a \<noteq> t \<or> \<not> Open a then a else closed_attempt now reason a"
  have l: "?l \<in> set xs" "at_TaskID ?l = t" using latestTask_in [OF assms(1)] by (simp_all add: task_owner_def)
  have "?f ?l \<in> set (CloseTaskAttempts now t reason xs)" using l(1) assms(2) by (simp add: CloseTaskAttempts_def)
  moreover have "at_AttemptID (?f ?l) = at_AttemptID ?l" by (simp add: closed_attempt_def)
  ultimately have "latestTask (CloseTaskAttempts now t reason xs) t = ?f ?l"
    by (rule latestTask_is [OF Close_evolves(2) assms(3,1)])
  with l(2) show ?thesis by (simp add: closed_attempt_def)
qed

text \<open>What an admission does while the newest attempt is closed and no change is pending.\<close>

lemma admit_closed:
  assumes "at_AttemptID (latestTask xs t) \<noteq> []" "\<not> Open (latestTask xs t)"
    "TrimSpace t \<noteq> []" "LoadManifest tr f = Inr m" "mf_Pending m = None" "e \<noteq> []"
  shows "EnsureTaskAttemptGated now i ctx f tr t e inp xs =
    (if at_SourceEventID (latestTask xs t) = e \<or> at_LastDispatchKey (latestTask xs t) = e
     then (xs, Inr (latestTask xs t, False))
     else (let b = newAttempt now i ctx m tr t [] AttemptKindTask e inp in (xs @ [b], Inr (b, False))))"
  using assms by (simp add: EnsureTaskAttemptGated_def admit_task_def Let_def)

section \<open>What the gate holds back\<close>

lemma admit_task_gate:
  assumes "mf_Pending m \<noteq> None" "admit_task True now i ctx m tr t src inp xs = (ys, entry, blocked)"
  shows "map at_AttemptID ys = map at_AttemptID xs \<or> ys = xs"
    and "blocked \<longleftrightarrow> at_AttemptID (latestTask xs t) = [] \<or> (\<not> Open (latestTask xs t)
      \<and> \<not> (src \<noteq> [] \<and> (at_SourceEventID (latestTask xs t) = src \<or> at_LastDispatchKey (latestTask xs t) = src)))"
proof -
  have "map at_AttemptID (replaceAttempt zs b) = map at_AttemptID zs" for zs b
    by (induction zs) auto
  then show "map at_AttemptID ys = map at_AttemptID xs \<or> ys = xs"
    using assms by (auto simp: admit_task_def Let_def split: if_splits)
  show "blocked \<longleftrightarrow> at_AttemptID (latestTask xs t) = [] \<or> (\<not> Open (latestTask xs t)
      \<and> \<not> (src \<noteq> [] \<and> (at_SourceEventID (latestTask xs t) = src \<or> at_LastDispatchKey (latestTask xs t) = src)))"
    using assms by (auto simp: admit_task_def Let_def split: if_splits)
qed

section \<open>Blockers\<close>

lemma task_blocker_Nil: "task_blocker t = [] \<longleftrightarrow> t_Status t \<noteq> TaskStatusRunning \<and> t_Status t \<noteq> TaskStatusWaitingReview"
  by (simp add: task_blocker_def)

lemma run_blocker_Nil: "run_blocker r = [] \<longleftrightarrow> re_Readable r \<and> runTerminal (re_State r)"
  by (simp add: run_blocker_def)

lemma live_run_None: "live_run p = None \<longleftrightarrow> re_Readable (snd p) \<and> runTerminal (re_State (snd p))"
  by (cases p) (simp add: live_run_def)

lemma attemptLiveRun_None: "attemptLiveRun a evidence = None \<longleftrightarrow>
    (\<forall>p \<in> set (owned_runs a evidence). re_Readable (snd p) \<and> runTerminal (re_State (snd p)))"
proof (cases "find (\<lambda>p. live_run p \<noteq> None) (go_sort agent_before (owned_runs a evidence))")
  case None
  then have "\<forall>p \<in> set (owned_runs a evidence). live_run p = None" by (auto simp: find_None_iff)
  moreover have "attemptLiveRun a evidence = None" unfolding attemptLiveRun_def None by simp
  ultimately show ?thesis by (simp add: live_run_None)
next
  case (Some p)
  then have "p \<in> set (go_sort agent_before (owned_runs a evidence))" and p: "live_run p \<noteq> None"
    by (auto simp: find_Some_iff simp del: set_go_sort)
  then have "p \<in> set (owned_runs a evidence)" by simp
  moreover have "attemptLiveRun a evidence = live_run p" unfolding attemptLiveRun_def Some by simp
  ultimately show ?thesis using p by (auto simp: live_run_None)
qed

lemma Blockers_Nil: "Blockers snap entries evidence = [] \<longleftrightarrow>
    (\<forall>t \<in> set (task_list snap). t_Status t \<noteq> TaskStatusRunning \<and> t_Status t \<noteq> TaskStatusWaitingReview)
    \<and> (\<forall>r \<in> set evidence. re_Readable r \<and> runTerminal (re_State r))
    \<and> (\<forall>a \<in> set entries. Open a \<longrightarrow> at_DispatchCount a \<noteq> 0
      \<and> (\<forall>p \<in> set (owned_runs a evidence). re_Readable (snd p) \<and> runTerminal (re_State (snd p))))"
proof -
  have "attempt_blocker evidence a = [] \<longleftrightarrow> (Open a \<longrightarrow> at_DispatchCount a \<noteq> 0 \<and> attemptLiveRun a evidence = None)" for a
    by (auto simp: attempt_blocker_def split: option.split)
  then show ?thesis
    by (simp add: Blockers_def task_blocker_Nil run_blocker_Nil attemptLiveRun_None Attempts_sorted_def)
qed

end
