(* ===== verification/ConfigApply.thy ===== *)
theory ConfigApply
  imports Attempts
begin

text \<open>
  \<open>internal/trailconfig/apply.go\<close> and the capture of trailconfig.go: how the active configuration of
  a trail changes. Every operation holds the lock of the trail's manifest, so it is one step
  on the manifest file. What it reads from disk besides (candidate trees, retained snapshots,
  the event log) is the argument \<open>disk\<close>; the tasks, attempts and run records are arguments too.
\<close>

section \<open>Requests\<close>

record Override =
  ov_Role :: string
  ov_Key :: string
  ov_Value :: string

record SkillTrialBundle =
  sb_Name :: string
  sb_Files :: "(string \<times> string) list" \<comment> \<open>path below the skill, bytes\<close>
  sb_ProcedureHash :: string

record SkillTrial =
  sk_Bundles :: "SkillTrialBundle list"
  sk_Roles :: "string list"

record ApplyOptions =
  op_TraceID :: string
  op_Source :: ApplySource
  op_SnapshotRef :: string
  op_Overrides :: "Override list"
  op_SkillTrial :: "SkillTrial option"
  op_Actor :: string
  op_Reason :: string
  op_RequestID :: string
  op_ExpectedRevision :: "int option"
  op_Blockers :: "string list"
  op_RequireImmediate :: bool
  op_DryRun :: bool

text \<open>What a request asks for: its identity does not depend on who asks, when and why.\<close>

type_synonym contents = "ApplySource \<times> string \<times> Override list \<times> SkillTrial option"

definition request_contents :: "ApplyOptions \<Rightarrow> contents" where
  "request_contents opts = (op_Source opts, op_SnapshotRef opts, op_Overrides opts, op_SkillTrial opts)"

record Candidate =
  ca_ref :: string
  ca_inventory :: Inventory
  ca_captured :: bool \<comment> \<open>its files are still to be written as a snapshot\<close>

record disk =
  dk_killed :: bool
  dk_prepare :: "contents \<Rightarrow> string \<Rightarrow> config_error + Candidate"
  dk_inventory :: "string \<Rightarrow> config_error + Inventory"
  dk_tree :: "string \<Rightarrow> Tree"
  dk_readable :: "string \<Rightarrow> config_error + unit"
  dk_procedure :: "string \<Rightarrow> string \<Rightarrow> string \<Rightarrow> config_error + string list"
  dk_materialize :: "Candidate \<Rightarrow> config_error + unit"
  dk_write :: "Manifest \<Rightarrow> bool"
  dk_json :: "contents \<Rightarrow> string"
  dk_profile :: "string \<Rightarrow> string" \<comment> \<open>inferred from a tree whose inventory is lost\<close>
  dk_text :: "config_error \<Rightarrow> string"

record ConfigResult =
  ap_Manifest :: Manifest
  ap_Change :: Change
  ap_NewRef :: string
  ap_Diff :: "string list"
  ap_RemainingWork :: "RemainingWorkPreview option"
  ap_SkillWarnings :: "string list"
  ap_DryRun :: bool

definition normalizeRoleList :: "string list \<Rightarrow> string list" where
  "normalizeRoleList roles = unique_from [[]] (map TrimSpace roles)"

definition validateApplySource :: "ApplyOptions \<Rightarrow> config_error + unit" where
  "validateApplySource opts = (case op_Source opts of
     SourceColony \<Rightarrow> fail_if (op_SnapshotRef opts \<noteq> [] \<or> op_Overrides opts \<noteq> []) ColonyNotCombined
   | SourceSnapshot \<Rightarrow>
       res_bind (fail_if (TrimSpace (op_SnapshotRef opts) = []) SnapshotRefRequired) (\<lambda>_.
       res_bind (validateConfigRef (op_SnapshotRef opts)) (\<lambda>_.
         fail_if (op_Overrides opts \<noteq> []) SnapshotNotCombined))
   | SourceOverrides \<Rightarrow>
       res_bind (fail_if (op_Overrides opts = []) OverrideRequired) (\<lambda>_.
         fail_if (op_SnapshotRef opts \<noteq> []) OverridesNotCombined)
   | SourceSkillTrial \<Rightarrow> (case op_SkillTrial opts of
       None \<Rightarrow> Inl TrialNeedsBundle
     | Some trial \<Rightarrow>
         res_bind (fail_if (sk_Bundles trial = []) TrialNeedsBundle) (\<lambda>_.
         res_bind (fail_if (normalizeRoleList (sk_Roles trial) = []) TrialNeedsRole) (\<lambda>_.
           fail_if (op_SnapshotRef opts \<noteq> [] \<or> op_Overrides opts \<noteq> []) TrialNotCombined)))
   | s \<Rightarrow> Inl (SourceInvalid s))"

definition requestFingerprint :: "disk \<Rightarrow> ApplyOptions \<Rightarrow> string" where
  "requestFingerprint d opts = (if op_RequestID opts = [] then []
     else ''sha256:'' @ hex_EncodeToString (sha256_Sum256 (bytes_of (dk_json d (request_contents opts)))))"

definition newChange :: "time \<Rightarrow> string \<Rightarrow> disk \<Rightarrow> ApplyOptions \<Rightarrow> Manifest \<Rightarrow> string \<Rightarrow> Change" where
  "newChange now cid d opts m newRef =
    \<lparr>ch_Revision = mf_ConfigRevision m, ch_InitialConfigRef = mf_InitialConfigRef m,
     ch_ActiveConfigRef = mf_ActiveConfigRef m, ch_Source = op_Source opts, ch_ChangeID = cid,
     ch_RequestID = op_RequestID opts, ch_RequestFingerprint = requestFingerprint d opts,
     ch_Actor = op_Actor opts, ch_Reason = op_Reason opts,
     ch_ExpectedRevision = (case op_ExpectedRevision opts of Some r \<Rightarrow> r | None \<Rightarrow> mf_ConfigRevision m),
     ch_OldConfigRef = mf_ActiveConfigRef m, ch_NewConfigRef = newRef, ch_Outcome = OutcomePending,
     ch_RequestedAt = now, ch_AppliedAt = None, ch_Blockers = [], ch_Detail = [], ch_CreatedAt = now\<rparr>"

text \<open>What a caller gets whose manifest could be written, and the file afterwards.\<close>

definition publish :: "disk \<Rightarrow> Manifest option \<Rightarrow> Manifest \<Rightarrow> 'r \<Rightarrow> Manifest option \<times> (config_error + 'r)" where
  "publish d file m r = (if dk_write d m then (Some m, Inr r) else (file, Inl (FileError ''write manifest'')))"

definition apply_result :: "ApplyOptions \<Rightarrow> Manifest \<Rightarrow> Change \<Rightarrow> ConfigResult" where
  "apply_result opts m c = \<lparr>ap_Manifest = m, ap_Change = c, ap_NewRef = [], ap_Diff = [],
     ap_RemainingWork = None, ap_SkillWarnings = [], ap_DryRun = op_DryRun opts\<rparr>"

definition recordRejection ::
  "time \<Rightarrow> string \<Rightarrow> disk \<Rightarrow> ApplyOptions \<Rightarrow> Manifest \<Rightarrow> string \<Rightarrow> Manifest option \<times> (config_error + ConfigResult)" where
  "recordRejection now cid d opts m reason =
    (let c = (newChange now cid d opts m [])\<lparr>ch_Outcome := OutcomeRejected, ch_Detail := reason\<rparr>;
         m' = m\<lparr>mf_History := mf_History m @ [c], mf_UpdatedAt := now\<rparr>
     in if op_DryRun opts then (Some m, Inr (apply_result opts m c))
        else publish d (Some m) m' (apply_result opts m' c))"

section \<open>Apply\<close>

text \<open>Up to the candidate: the recorded result of a repeated request, a recorded rejection, or what
  holds the activation back.\<close>

datatype admission = Recorded Change | Refused string | Admitted "string list"

definition apply_admission ::
  "disk \<Rightarrow> ApplyOptions \<Rightarrow> Manifest \<Rightarrow> string list \<Rightarrow> config_error + admission" where
  "apply_admission d opts m observed =
    (let old = (if op_RequestID opts = [] then None else findChangeByRequest m (op_RequestID opts));
         blockers = uniqueBlockers (op_Blockers opts @ observed)
     in if mf_Policy m = PolicyPinned then Inl (TrailPinned (op_TraceID opts))
        else (case old of
          Some c \<Rightarrow>
            if ch_RequestFingerprint c \<noteq> [] \<and> ch_RequestFingerprint c \<noteq> requestFingerprint d opts
            then Inl (RequestReused (op_RequestID opts)) else Inr (Recorded c)
        | None \<Rightarrow>
            if op_Source opts = SourceSnapshot \<and> \<not> retainsSnapshot m (op_SnapshotRef opts)
            then Inl (NotRetained (op_SnapshotRef opts))
            else if op_ExpectedRevision opts \<noteq> None \<and> op_ExpectedRevision opts \<noteq> Some (mf_ConfigRevision m)
            then (if op_RequireImmediate opts
                  then Inl (RevisionMismatch (mf_ConfigRevision m) (the (op_ExpectedRevision opts)))
                  else Inr (Refused (''expected revision '' @ Itoa (the (op_ExpectedRevision opts))
                    @ '', trail is at '' @ Itoa (mf_ConfigRevision m))))
            else if mf_Pending m \<noteq> None
            then (if op_RequireImmediate opts then Inl (CannotActivate [''another configuration change is pending''])
                  else Inr (Refused ''another configuration change is pending''))
            else if op_RequireImmediate opts \<and> blockers \<noteq> [] then Inl (CannotActivate blockers)
            else Inr (Admitted blockers)))"

text \<open>The complete candidate must be valid, and then every task it still has to serve.\<close>

fun check_work :: "Defaults \<Rightarrow> (string, string) gomap \<Rightarrow> (string, Bee) gomap \<Rightarrow> ProcedureWork list \<Rightarrow> config_error + unit" where
  "check_work defaults sectors bees [] = Inr ()"
| "check_work defaults sectors bees (w # ws) =
    res_bind (validateProcedureWork defaults sectors bees w) (\<lambda>_. check_work defaults sectors bees ws)"

definition validateProcedure ::
  "disk \<Rightarrow> string \<Rightarrow> string \<Rightarrow> ProcedureWork list \<Rightarrow> string \<Rightarrow> config_error + string list" where
  "validateProcedure d ref base work profile =
    res_bind (dk_procedure d ref base profile) (\<lambda>warnings.
      case (tr_Colony (dk_tree d ref), tr_Bees (dk_tree d ref)) of
        (Inr (defaults, sectors), Inr bees) \<Rightarrow>
          res_bind (check_work defaults sectors bees work) (\<lambda>_. Inr warnings)
      | (Inl e, _) \<Rightarrow> Inl (CandidateColony e)
      | (_, Inl e) \<Rightarrow> Inl (CandidateBees e))"

text \<open>The candidate with everything that must hold before anything is recorded.\<close>

definition prepared ::
  "disk \<Rightarrow> ApplyOptions \<Rightarrow> Manifest \<Rightarrow> TraceSnapshot \<Rightarrow> config_error + Candidate \<times> Inventory \<times> string list" where
  "prepared d opts m snap =
    res_bind (dk_prepare d (request_contents opts) (mf_ActiveConfigRef m)) (\<lambda>cand.
    res_bind (dk_inventory d (mf_ActiveConfigRef m)) (\<lambda>base.
    res_bind (dk_readable d (mf_ActiveConfigRef m)) (\<lambda>_.
    res_bind (validateProcedure d (ca_ref cand) (mf_ActiveConfigRef m) (RemainingProcedureWork snap)
      (rs_Profile (iv_Resolved (ca_inventory cand)))) (\<lambda>warnings.
      let remaining = EvaluateRemaining (dk_tree d (ca_ref cand)) snap
      in if \<not> rw_Compatible remaining then Inl (RemainingIncompatible (rw_Checked remaining))
         else Inr (cand, base, warnings)))))"

text \<open>
  What is reported of a candidate. The Go result has two more fields, \<open>EffectiveDiff\<close> and \<open>ShadowedDiff\<close>: prose
  about Bee parameters and overrides that \<open>previewDiffs\<close> derives from the two frozen trees for display.
  They are not modelled; nothing is decided by them.
\<close>

definition preview ::
  "disk \<Rightarrow> ApplyOptions \<Rightarrow> Manifest \<Rightarrow> TraceSnapshot \<Rightarrow> Candidate \<times> Inventory \<times> string list \<Rightarrow> Change \<Rightarrow> Manifest
    \<Rightarrow> ConfigResult" where
  "preview d opts m snap p c m' = (case p of (cand, base, warnings) \<Rightarrow>
     \<lparr>ap_Manifest = m', ap_Change = c, ap_NewRef = ca_ref cand,
      ap_Diff = diffInventories (iv_Entries base) (iv_Entries (ca_inventory cand)),
      ap_RemainingWork = Some (EvaluateRemaining (dk_tree d (ca_ref cand)) snap), ap_SkillWarnings = warnings,
      ap_DryRun = op_DryRun opts\<rparr>)"

definition retained :: "time \<Rightarrow> ApplyOptions \<Rightarrow> Candidate \<Rightarrow> Manifest \<Rightarrow> Manifest" where
  "retained now opts cand m = addSnapshot m \<lparr>sn_ConfigRef = ca_ref cand, sn_Path = ''snapshots/'' @ ca_ref cand,
     sn_Source = op_Source opts, sn_CreatedAt = now, sn_Files = int (length (iv_Entries (ca_inventory cand)))\<rparr>"

definition apply_candidate ::
  "time \<Rightarrow> string \<Rightarrow> disk \<Rightarrow> ApplyOptions \<Rightarrow> Manifest \<Rightarrow> TraceSnapshot \<Rightarrow> string list
    \<Rightarrow> Candidate \<times> Inventory \<times> string list \<Rightarrow> Manifest option \<times> (config_error + ConfigResult)" where
  "apply_candidate now cid d opts m snap blockers p =
    (let cand = fst p; c = newChange now cid d opts m (ca_ref cand); same = (ca_ref cand = mf_ActiveConfigRef m)
     in if op_DryRun opts then
          (Some m, Inr (preview d opts m snap p
            (if same then c\<lparr>ch_Outcome := OutcomeUnchanged, ch_Detail := ''dry run: candidate is already active''\<rparr>
             else if blockers \<noteq> [] then c\<lparr>ch_Outcome := OutcomePending, ch_Blockers := blockers,
               ch_Detail := ''dry run: activation waits for blockers''\<rparr>
             else c\<lparr>ch_Outcome := OutcomeApplied, ch_Detail := ''dry run: activation would proceed immediately''\<rparr>) m))
        else if same then
          let c = c\<lparr>ch_Outcome := OutcomeUnchanged\<rparr>;
              m' = m\<lparr>mf_History := mf_History m @ [c], mf_UpdatedAt := now\<rparr>
          in publish d (Some m) m' (preview d opts m snap p c m')
        else (case res_bind (if ca_captured cand then dk_materialize d cand else Inr ())
                (\<lambda>_. dk_inventory d (ca_ref cand)) of
            Inl e \<Rightarrow> (Some m, Inl e)
          | Inr _ \<Rightarrow>
              if blockers \<noteq> [] then
                let c = c\<lparr>ch_Outcome := OutcomePending, ch_Blockers := blockers\<rparr>;
                    m' = (retained now opts cand m)\<lparr>mf_Pending := Some c, mf_UpdatedAt := now\<rparr>
                in publish d (Some m) m' (preview d opts m snap p c m')
              else
                let (active, c) = activate now (retained now opts cand m) c;
                    m' = active\<lparr>mf_Closing := rs_Closing (iv_Resolved (ca_inventory cand)),
                      mf_Merge := rs_Merge (iv_Resolved (ca_inventory cand))\<rparr>
                in publish d (Some m) m' (preview d opts m snap p c m')))"

definition with_actor :: "ApplyOptions \<Rightarrow> ApplyOptions" where
  "with_actor opts = (if TrimSpace (op_Actor opts) = [] then opts\<lparr>op_Actor := ''cli''\<rparr> else opts)"

definition Apply ::
  "time \<Rightarrow> string \<Rightarrow> disk \<Rightarrow> ApplyOptions \<Rightarrow> TraceSnapshot \<Rightarrow> Attempt list \<Rightarrow> RunEvidence list
    \<Rightarrow> Manifest option \<Rightarrow> Manifest option \<times> (config_error + ConfigResult)" where
  "Apply now cid d opts0 snap entries evidence file =
    (let opts = with_actor opts0
     in case res_bind (validateTraceID (op_TraceID opts)) (\<lambda>_.
             res_bind (fail_if (op_Source opts = SourceUnset) SourceRequired) (\<lambda>_.
             res_bind (validateApplySource opts) (\<lambda>_.
             res_bind (fail_if (dk_killed d) (TrailKilled (op_TraceID opts))) (\<lambda>_.
             res_bind (LoadManifest (op_TraceID opts) file) (\<lambda>m.
             res_bind (apply_admission d opts m (Blockers snap entries evidence)) (\<lambda>adm. Inr (m, adm))))))) of
          Inl e \<Rightarrow> (file, Inl e)
        | Inr (m, Recorded c) \<Rightarrow> (file, Inr ((apply_result opts m c)\<lparr>ap_NewRef := ch_NewConfigRef c\<rparr>))
        | Inr (m, Refused reason) \<Rightarrow> recordRejection now cid d opts m reason
        | Inr (m, Admitted blockers) \<Rightarrow> (case prepared d opts m snap of
            Inl e \<Rightarrow> (file, Inl e)
          | Inr p \<Rightarrow> apply_candidate now cid d opts m snap blockers p))"

section \<open>Activation at a safe boundary\<close>

text \<open>The pending change closed as rejected, or the candidate's view to activate.\<close>

definition pending_check ::
  "disk \<Rightarrow> Manifest \<Rightarrow> Change \<Rightarrow> TraceSnapshot \<Rightarrow> config_error + (string + Inventory)" where
  "pending_check d m c snap =
    (if ch_ExpectedRevision c \<noteq> mf_ConfigRevision m
     then Inr (Inl (''revision moved to '' @ Itoa (mf_ConfigRevision m) @ '' while waiting''))
     else
       res_bind (dk_inventory d (mf_ActiveConfigRef m)) (\<lambda>_.
       res_bind (dk_readable d (mf_ActiveConfigRef m)) (\<lambda>_.
         case validateProcedure d (ch_NewConfigRef c) (mf_ActiveConfigRef m) (RemainingProcedureWork snap)
             (case dk_inventory d (ch_NewConfigRef c) of Inr i \<Rightarrow> rs_Profile (iv_Resolved i) | Inl _ \<Rightarrow> dk_profile d (ch_NewConfigRef c)) of
           Inl e \<Rightarrow> Inr (Inl (dk_text d e))
         | Inr _ \<Rightarrow> res_bind (dk_inventory d (ch_NewConfigRef c)) (\<lambda>i. Inr (Inr i)))))"

definition TryActivate ::
  "time \<Rightarrow> disk \<Rightarrow> string \<Rightarrow> string list \<Rightarrow> TraceSnapshot \<Rightarrow> Attempt list \<Rightarrow> RunEvidence list
    \<Rightarrow> Manifest option \<Rightarrow> Manifest option \<times> (config_error + Manifest \<times> bool)" where
  "TryActivate now d traceID given snap entries evidence file = (case LoadManifest traceID file of
     Inl e \<Rightarrow> (file, Inl e)
   | Inr m \<Rightarrow> (case mf_Pending m of
       None \<Rightarrow> (file, Inr (m, False))
     | Some c \<Rightarrow>
         let blockers = uniqueBlockers (given @ Blockers snap entries evidence)
         in if blockers \<noteq> [] then
              let m' = m\<lparr>mf_Pending := Some (c\<lparr>ch_Blockers := blockers\<rparr>), mf_UpdatedAt := now\<rparr>
              in publish d file m' (m', False)
            else (case pending_check d m c snap of
                Inl e \<Rightarrow> (file, Inl e)
              | Inr (Inl reason) \<Rightarrow>
                  let m' = close_pending now (c\<lparr>ch_Outcome := OutcomeRejected, ch_Detail := reason\<rparr>) m
                  in publish d file m' (m', False)
              | Inr (Inr i) \<Rightarrow>
                  let m' = (fst (activate now (m\<lparr>mf_Pending := None\<rparr>) c))
                        \<lparr>mf_Closing := rs_Closing (iv_Resolved i), mf_Merge := rs_Merge (iv_Resolved i)\<rparr>
                  in publish d file m' (m', True))))"

definition cancelled :: "string \<Rightarrow> string \<Rightarrow> Change \<Rightarrow> Change" where
  "cancelled actor reason c =
    (let c = c\<lparr>ch_Outcome := OutcomeCancelled\<rparr>;
         c = (if TrimSpace actor \<noteq> [] then c\<lparr>ch_Actor := actor\<rparr> else c)
     in if TrimSpace reason \<noteq> [] then c\<lparr>ch_Reason := reason\<rparr> else c)"

definition Cancel ::
  "time \<Rightarrow> disk \<Rightarrow> string \<Rightarrow> string \<Rightarrow> string \<Rightarrow> string \<Rightarrow> Manifest option \<Rightarrow> Manifest option \<times> (config_error + Manifest)" where
  "Cancel now d traceID changeID actor reason file = (case LoadManifest traceID file of
     Inl e \<Rightarrow> (file, Inl e)
   | Inr m \<Rightarrow> (case mf_Pending m of
       None \<Rightarrow> (file, Inl NoPendingChange)
     | Some c \<Rightarrow>
         if changeID \<noteq> [] \<and> ch_ChangeID c \<noteq> changeID then (file, Inl (PendingIsOther (ch_ChangeID c)))
         else let m' = close_pending now (cancelled actor reason c) m in publish d file m' m'))"

definition CancelIfPending ::
  "time \<Rightarrow> disk \<Rightarrow> string \<Rightarrow> string \<Rightarrow> string \<Rightarrow> Manifest option
    \<Rightarrow> Manifest option \<times> (config_error + Manifest option \<times> bool)" where
  "CancelIfPending now d traceID actor reason file = (case LoadManifest traceID file of
     Inl NoBinding \<Rightarrow> (file, Inr (None, False))
   | Inl e \<Rightarrow> (file, Inl e)
   | Inr m \<Rightarrow> (case mf_Pending m of
       None \<Rightarrow> (file, Inr (Some m, False))
     | Some c \<Rightarrow> let m' = close_pending now (cancelled actor reason c) m in publish d file m' (Some m', True)))"

definition HasPending :: "string \<Rightarrow> Manifest option \<Rightarrow> config_error + bool" where
  "HasPending traceID file = (case LoadManifest traceID file of
     Inl NoBinding \<Rightarrow> Inr False
   | Inl e \<Rightarrow> Inl e
   | Inr m \<Rightarrow> Inr (mf_Pending m \<noteq> None))"

section \<open>The first capture\<close>

text \<open>The captured files give a reference and a resolved view; the repository a commit, if any.\<close>

definition captured_manifest ::
  "time \<Rightarrow> string \<Rightarrow> string \<Rightarrow> string \<times> bool \<Rightarrow> string \<Rightarrow> Inventory \<Rightarrow> Manifest" where
  "captured_manifest now cid traceID code ref inv0 =
    \<lparr>mf_TraceID = traceID, mf_InitialConfigRef = ref, mf_ActiveConfigRef = ref, mf_ConfigRevision = 1,
     mf_Policy = PolicyEditable, mf_InitialCodeBaseSHA = fst code, mf_InitialCodeBaseDirty = snd code,
     mf_WorkspaceRoot = [], mf_CreatedAt = now, mf_UpdatedAt = now,
     mf_Snapshots = [\<lparr>sn_ConfigRef = ref, sn_Path = ''snapshots/'' @ ref, sn_Source = SourceColony,
       sn_CreatedAt = now, sn_Files = int (length (iv_Entries inv0))\<rparr>],
     mf_Closing = rs_Closing (iv_Resolved inv0), mf_Merge = rs_Merge (iv_Resolved inv0), mf_Pending = None,
     mf_History = [\<lparr>ch_Revision = 1, ch_InitialConfigRef = ref, ch_ActiveConfigRef = ref, ch_Source = SourceColony,
       ch_ChangeID = cid, ch_RequestID = [], ch_RequestFingerprint = [], ch_Actor = ''runtime'', ch_Reason = [],
       ch_ExpectedRevision = 0, ch_OldConfigRef = [], ch_NewConfigRef = ref, ch_Outcome = OutcomeApplied,
       ch_RequestedAt = now, ch_AppliedAt = None, ch_Blockers = [], ch_Detail = [], ch_CreatedAt = now\<rparr>]\<rparr>"

definition EnsureInitialExpected ::
  "time \<Rightarrow> string \<Rightarrow> disk \<Rightarrow> (config_error + string \<times> Inventory) \<Rightarrow> string \<times> bool \<Rightarrow> string \<Rightarrow> int option
    \<Rightarrow> TraceSnapshot \<Rightarrow> Attempt list \<Rightarrow> RunEvidence list \<Rightarrow> Manifest option
    \<Rightarrow> Manifest option \<times> (config_error + Manifest \<times> bool)" where
  "EnsureInitialExpected now cid d capture code traceID expected snap entries evidence file =
    (case res_bind (validateTraceID traceID) (\<lambda>_.
          res_bind (case expected of Some r \<Rightarrow> fail_if (r \<noteq> 0) (ExpectedNotZero r) | None \<Rightarrow> Inr ()) (\<lambda>_.
            fail_if (dk_killed d) (TrailKilled traceID))) of
       Inl e \<Rightarrow> (file, Inl e)
     | Inr _ \<Rightarrow> (case LoadManifest traceID file of
         Inr existing \<Rightarrow> (file, case expected of
             Some r \<Rightarrow> Inl (AlreadyBound (mf_ConfigRevision existing)) | None \<Rightarrow> Inr (existing, False))
       | Inl NoBinding \<Rightarrow>
           let blockers = Blockers snap entries evidence
           in if expected \<noteq> None \<and> blockers \<noteq> [] then (file, Inl (UnsafeBoundary blockers))
              else (case capture of
                  Inl e \<Rightarrow> (file, Inl e)
                | Inr (ref, inv0) \<Rightarrow>
                    let m = captured_manifest now cid traceID code ref inv0 in publish d file m (m, True))
       | Inl e \<Rightarrow> (file, Inl e)))"

end
