(* ===== verification/ConfigLaws.thy ===== *)
theory ConfigLaws
  imports ConfigApply
begin

text \<open>
  What the configuration operations keep: the history of a manifest counts its revisions, the
  active snapshot is the one of the last applied change, at most one change is pending and it is
  never stale, and a request is recorded once. Then the same for a trail with its attempts.
\<close>

section \<open>A well-formed manifest\<close>

definition applied_changes :: "Manifest \<Rightarrow> Change list" where
  "applied_changes m = filter (\<lambda>c. ch_Outcome c = OutcomeApplied) (mf_History m)"

definition pend :: "Manifest \<Rightarrow> Change list" where
  "pend m = (case mf_Pending m of None \<Rightarrow> [] | Some c \<Rightarrow> [c])"

abbreviation refs :: "Manifest \<Rightarrow> string set" where
  "refs m \<equiv> sn_ConfigRef ` set (mf_Snapshots m)"

definition revisions_ok :: "Manifest \<Rightarrow> bool" where
  "revisions_ok m \<longleftrightarrow> applied_changes m \<noteq> [] \<and> mf_ConfigRevision m = int (length (applied_changes m))
     \<and> map ch_Revision (applied_changes m) = map (\<lambda>i. int i + 1) [0 ..< length (applied_changes m)]
     \<and> ch_ActiveConfigRef (last (applied_changes m)) = mf_ActiveConfigRef m
     \<and> ch_ActiveConfigRef ` set (applied_changes m) \<subseteq> refs m"

definition pending_ok :: "Manifest \<Rightarrow> bool" where
  "pending_ok m \<longleftrightarrow> (\<forall>c. mf_Pending m = Some c \<longrightarrow> ch_Outcome c = OutcomePending \<and> ch_Blockers c \<noteq> []
     \<and> ch_ExpectedRevision c = mf_ConfigRevision m \<and> ch_NewConfigRef c \<noteq> mf_ActiveConfigRef m
     \<and> ch_NewConfigRef c \<in> refs m)
   \<and> (\<forall>c \<in> set (mf_History m). ch_Outcome c \<noteq> OutcomePending)"

definition requests :: "Manifest \<Rightarrow> string list" where
  "requests m = filter (\<lambda>r. r \<noteq> []) (map ch_RequestID (mf_History m @ pend m))"

definition manifest_ok :: "Manifest \<Rightarrow> bool" where
  "manifest_ok m \<longleftrightarrow> revisions_ok m \<and> pending_ok m \<and> distinct (requests m)"

definition new_request :: "Manifest \<Rightarrow> string \<Rightarrow> bool" where
  "new_request m r \<longleftrightarrow> r = [] \<or> findChangeByRequest m r = None"

lemma new_request_iff: "new_request m r \<longleftrightarrow> r \<notin> set (requests m)"
  by (auto simp: new_request_def requests_def findChange_None pend_def split: option.split)

lemma ok_append:
  assumes "manifest_ok m" "ch_Outcome c = OutcomeRejected \<or> ch_Outcome c = OutcomeUnchanged"
    "new_request m (ch_RequestID c)"
  shows "manifest_ok (m\<lparr>mf_History := mf_History m @ [c], mf_UpdatedAt := now\<rparr>)"
proof -
  let ?m = "m\<lparr>mf_History := mf_History m @ [c], mf_UpdatedAt := now\<rparr>"
  have "applied_changes ?m = applied_changes m" using assms(2) by (auto simp: applied_changes_def)
  moreover have "mset (requests ?m) = mset (requests m) + (if ch_RequestID c = [] then {#} else {#ch_RequestID c#})"
    by (simp add: requests_def pend_def)
  then have "distinct (requests ?m)"
    using assms(1,3) mset_eq_imp_distinct_iff [of "requests ?m" "requests m @ (if ch_RequestID c = [] then [] else [ch_RequestID c])"]
    by (auto simp: manifest_ok_def new_request_iff)
  ultimately show ?thesis
    using assms(1,2) by (auto simp: manifest_ok_def revisions_ok_def pending_ok_def)
qed

lemma revisions_frame:
  assumes "revisions_ok m" "applied_changes m' = applied_changes m" "mf_ConfigRevision m' = mf_ConfigRevision m"
    "mf_ActiveConfigRef m' = mf_ActiveConfigRef m" "refs m \<subseteq> refs m'"
  shows "revisions_ok m'"
  using assms unfolding revisions_ok_def by (metis subset_trans)

lemma ok_pend:
  assumes "manifest_ok m" "mf_Pending m = None" "ch_Outcome c = OutcomePending" "ch_Blockers c \<noteq> []"
    "ch_ExpectedRevision c = mf_ConfigRevision m" "ch_NewConfigRef c \<noteq> mf_ActiveConfigRef m"
    "ch_NewConfigRef c \<in> refs m'" "new_request m (ch_RequestID c)"
    "mf_History m' = mf_History m" "mf_ConfigRevision m' = mf_ConfigRevision m"
    "mf_ActiveConfigRef m' = mf_ActiveConfigRef m" "refs m \<subseteq> refs m'" "mf_Pending m' = Some c"
  shows "manifest_ok m'"
proof -
  have "applied_changes m' = applied_changes m" by (simp add: applied_changes_def assms(9))
  then have "revisions_ok m'"
    using assms(1) revisions_frame [OF _ _ assms(10-12)] by (simp add: manifest_ok_def)
  moreover have "requests m' = requests m @ filter (\<lambda>r. r \<noteq> []) [ch_RequestID c]"
    by (simp add: requests_def pend_def assms(2,9,13))
  then have "distinct (requests m')"
    using assms(1,8) by (simp add: manifest_ok_def new_request_iff)
  moreover have "pending_ok m'"
    using assms(1,3-7) by (simp add: manifest_ok_def pending_ok_def assms(9-11,13))
  ultimately show ?thesis by (simp add: manifest_ok_def)
qed

lemma ok_activate:
  assumes "manifest_ok m" "ch_NewConfigRef c \<in> refs m'" "refs m \<subseteq> refs m'"
    "mf_History m' = mf_History m @ [c']" "mf_ConfigRevision m' = mf_ConfigRevision m + 1"
    "mf_ActiveConfigRef m' = ch_NewConfigRef c" "mf_Pending m' = None"
    "ch_Outcome c' = OutcomeApplied" "ch_Revision c' = mf_ConfigRevision m + 1"
    "ch_ActiveConfigRef c' = ch_NewConfigRef c" "ch_RequestID c' = ch_RequestID c"
    "new_request (m\<lparr>mf_Pending := None\<rparr>) (ch_RequestID c)"
  shows "manifest_ok m'"
proof -
  have a: "applied_changes m' = applied_changes m @ [c']" by (simp add: applied_changes_def assms(4,8))
  have "requests m' = requests (m\<lparr>mf_Pending := None\<rparr>) @ filter (\<lambda>r. r \<noteq> []) [ch_RequestID c]"
    by (simp add: requests_def pend_def assms(4,7,11))
  moreover have "distinct (requests (m\<lparr>mf_Pending := None\<rparr>))"
    using assms(1) by (auto simp: manifest_ok_def requests_def pend_def)
  ultimately have "distinct (requests m')"
    using assms(12) by (simp add: new_request_iff)
  moreover have "ch_ActiveConfigRef ` set (applied_changes m') \<subseteq> refs m'"
    using assms(1-3) by (simp add: manifest_ok_def revisions_ok_def a assms(10)) blast
  then have "revisions_ok m'"
    using assms(1) by (simp add: manifest_ok_def revisions_ok_def a assms(5,6,9,10))
  moreover have "pending_ok m'"
    using assms(1,8) by (simp add: manifest_ok_def pending_ok_def assms(4,7))
  ultimately show ?thesis by (simp add: manifest_ok_def)
qed

lemma ok_close:
  assumes "manifest_ok m" "mf_Pending m = Some p" "ch_RequestID c = ch_RequestID p"
    "ch_Outcome c = OutcomeRejected \<or> ch_Outcome c = OutcomeCancelled"
  shows "manifest_ok (close_pending now c m)"
proof -
  have "applied_changes (close_pending now c m) = applied_changes m" using assms(4) by (auto simp: applied_changes_def close_pending_def)
  moreover have "requests (close_pending now c m) = requests m"
    by (simp add: requests_def pend_def close_pending_def assms(2,3))
  ultimately show ?thesis
    using assms(1,4) by (auto simp: manifest_ok_def revisions_ok_def pending_ok_def close_pending_def)
qed

lemma ok_captured: "manifest_ok (captured_manifest now cid tr code ref inv0)"
  by (simp add: manifest_ok_def revisions_ok_def pending_ok_def applied_changes_def requests_def pend_def
      captured_manifest_def)

section \<open>Every operation keeps it\<close>

lemma publishE:
  assumes "(file', res) = publish d file m r"
  obtains "file' = Some m" "res = Inr r" | e where "file' = file" "res = Inl e"
  using assms by (auto simp: publish_def split: if_splits)

lemma admission_Admitted:
  assumes "apply_admission d opts m observed = Inr (Admitted bs)"
  shows "mf_Policy m \<noteq> PolicyPinned" "new_request m (op_RequestID opts)" "mf_Pending m = None"
    "op_ExpectedRevision opts \<in> {None, Some (mf_ConfigRevision m)}" "bs = uniqueBlockers (op_Blockers opts @ observed)"
  using assms by (auto simp: apply_admission_def Let_def new_request_def split: if_splits option.splits)

lemma admission_Refused:
  assumes "apply_admission d opts m observed = Inr (Refused reason)"
  shows "mf_Policy m \<noteq> PolicyPinned" "new_request m (op_RequestID opts)"
  using assms by (auto simp: apply_admission_def Let_def new_request_def split: if_splits option.splits)

lemma admission_Recorded:
  assumes "apply_admission d opts m observed = Inr (Recorded c)"
  shows "findChangeByRequest m (op_RequestID opts) = Some c" "op_RequestID opts \<noteq> []"
    "ch_RequestFingerprint c \<in> {[], requestFingerprint d opts}"
  using assms by (auto simp: apply_admission_def Let_def split: if_splits option.splits)

lemma newChange_simps [simp]:
  "ch_RequestID (newChange now cid d opts m ref) = op_RequestID opts"
  "ch_NewConfigRef (newChange now cid d opts m ref) = ref"
  by (simp_all add: newChange_def)

text \<open>What an accepted request does to the manifest file: nothing, one closed change in the history,
  one pending change, or a new active snapshot.\<close>

definition noted :: "string \<Rightarrow> Manifest \<Rightarrow> Manifest \<Rightarrow> bool" where
  "noted rid m m' \<longleftrightarrow> (\<exists>c now. m' = m\<lparr>mf_History := mf_History m @ [c], mf_UpdatedAt := now\<rparr>
     \<and> (ch_Outcome c = OutcomeRejected \<or> ch_Outcome c = OutcomeUnchanged) \<and> ch_RequestID c = rid)"

definition queued :: "string \<Rightarrow> string list \<Rightarrow> Manifest \<Rightarrow> Manifest \<Rightarrow> bool" where
  "queued rid bs m m' \<longleftrightarrow> bs \<noteq> [] \<and> mf_Pending m = None \<and> (\<exists>c. mf_Pending m' = Some c
     \<and> ch_Outcome c = OutcomePending \<and> ch_Blockers c = bs \<and> ch_ExpectedRevision c = mf_ConfigRevision m
     \<and> ch_NewConfigRef c \<noteq> mf_ActiveConfigRef m \<and> ch_NewConfigRef c \<in> refs m' \<and> ch_RequestID c = rid)
   \<and> mf_History m' = mf_History m \<and> mf_ConfigRevision m' = mf_ConfigRevision m
   \<and> mf_ActiveConfigRef m' = mf_ActiveConfigRef m \<and> refs m \<subseteq> refs m'"

definition switched :: "string \<Rightarrow> Manifest \<Rightarrow> Manifest \<Rightarrow> bool" where
  "switched rid m m' \<longleftrightarrow> mf_Pending m' = None \<and> (\<exists>c. mf_History m' = mf_History m @ [c]
     \<and> ch_Outcome c = OutcomeApplied \<and> ch_Revision c = mf_ConfigRevision m + 1 \<and> ch_RequestID c = rid
     \<and> ch_ActiveConfigRef c = mf_ActiveConfigRef m' \<and> ch_NewConfigRef c = mf_ActiveConfigRef m')
   \<and> mf_ConfigRevision m' = mf_ConfigRevision m + 1 \<and> mf_ActiveConfigRef m' \<in> refs m' \<and> refs m \<subseteq> refs m'"

lemma noted_ok: "noted rid m m' \<Longrightarrow> manifest_ok m \<Longrightarrow> new_request m rid \<Longrightarrow> manifest_ok m'"
  unfolding noted_def using ok_append by metis

lemma queued_ok:
  assumes "queued rid bs m m'" "manifest_ok m" "new_request m rid"
  shows "manifest_ok m'"
proof -
  obtain c where "mf_Pending m' = Some c" "ch_Outcome c = OutcomePending" "ch_Blockers c \<noteq> []"
    "ch_ExpectedRevision c = mf_ConfigRevision m" "ch_NewConfigRef c \<noteq> mf_ActiveConfigRef m"
    "ch_NewConfigRef c \<in> refs m'" "new_request m (ch_RequestID c)" "mf_Pending m = None"
    "mf_History m' = mf_History m" "mf_ConfigRevision m' = mf_ConfigRevision m"
    "mf_ActiveConfigRef m' = mf_ActiveConfigRef m" "refs m \<subseteq> refs m'"
    using assms unfolding queued_def by metis
  then show ?thesis using ok_pend [OF assms(2)] by blast
qed

lemma switched_ok:
  assumes "switched rid m m'" "manifest_ok m" "new_request (m\<lparr>mf_Pending := None\<rparr>) rid"
  shows "manifest_ok m'"
proof -
  obtain c where c: "mf_History m' = mf_History m @ [c]" "ch_Outcome c = OutcomeApplied"
    "ch_Revision c = mf_ConfigRevision m + 1" "ch_RequestID c = rid"
    "ch_ActiveConfigRef c = mf_ActiveConfigRef m'" "ch_NewConfigRef c = mf_ActiveConfigRef m'"
    "mf_ConfigRevision m' = mf_ConfigRevision m + 1" "mf_ActiveConfigRef m' \<in> refs m'" "refs m \<subseteq> refs m'"
    "mf_Pending m' = None"
    using assms(1) unfolding switched_def by blast
  show ?thesis
    by (rule ok_activate [OF assms(2), where c = c and c' = c]) (use c assms(3) in simp_all)
qed

lemma new_request_unpend: "new_request m r \<Longrightarrow> new_request (m\<lparr>mf_Pending := None\<rparr>) r"
  by (auto simp: new_request_iff requests_def pend_def split: option.splits)

lemma retained_frame [simp]:
  "refs (retained now opts cand m) = insert (ca_ref cand) (refs m)"
  "mf_ActiveConfigRef (retained now opts cand m) = mf_ActiveConfigRef m"
  "mf_ConfigRevision (retained now opts cand m) = mf_ConfigRevision m"
  "mf_Pending (retained now opts cand m) = mf_Pending m"
  "mf_History (retained now opts cand m) = mf_History m"
  "mf_Policy (retained now opts cand m) = mf_Policy m"
  "mf_InitialConfigRef (retained now opts cand m) = mf_InitialConfigRef m"
  by (simp_all add: retained_def addSnapshot_refs)

lemma preview_Manifest [simp]: "ap_Manifest (preview d opts m snap p c m') = m'"
  by (simp add: preview_def split: prod.split)

abbreviation queued_manifest where
  "queued_manifest now cid d opts m bs cand \<equiv> (retained now opts cand m)\<lparr>mf_Pending :=
     Some ((newChange now cid d opts m (ca_ref cand))\<lparr>ch_Outcome := OutcomePending, ch_Blockers := bs\<rparr>),
     mf_UpdatedAt := now\<rparr>"

abbreviation switched_manifest where
  "switched_manifest now cid d opts m cand \<equiv>
     (fst (activate now (retained now opts cand m) (newChange now cid d opts m (ca_ref cand))))\<lparr>
       mf_Closing := rs_Closing (iv_Resolved (ca_inventory cand)),
       mf_Merge := rs_Merge (iv_Resolved (ca_inventory cand))\<rparr>"

lemma queued_manifest_queued:
  assumes "mf_Pending m = None" "op_ExpectedRevision opts \<in> {None, Some (mf_ConfigRevision m)}" "bs \<noteq> []"
    "ca_ref cand \<noteq> mf_ActiveConfigRef m"
  shows "queued (op_RequestID opts) bs m (queued_manifest now cid d opts m bs cand)"
  using assms by (auto simp: queued_def newChange_def)

lemma switched_manifest_switched:
  "switched (op_RequestID opts) m (switched_manifest now cid d opts m cand)"
  by (simp add: switched_def activate_def activated_def newChange_def subset_insertI)

lemma apply_candidate_cases:
  assumes "apply_candidate now cid d opts m snap bs p = (file', r)"
  obtains (same) "file' = Some m" "op_DryRun opts \<or> (\<exists>e. r = Inl e)"
  | (noted) c a where "file' = Some (m\<lparr>mf_History := mf_History m @ [c], mf_UpdatedAt := now\<rparr>)"
      "c = (newChange now cid d opts m (ca_ref (fst p)))\<lparr>ch_Outcome := OutcomeUnchanged\<rparr>"
      "\<not> op_DryRun opts" "r = Inr a" "Some (ap_Manifest a) = file'"
  | (queued) a where "bs \<noteq> []" "ca_ref (fst p) \<noteq> mf_ActiveConfigRef m" "\<not> op_DryRun opts"
      "r = Inr a" "Some (ap_Manifest a) = file'" "file' = Some (queued_manifest now cid d opts m bs (fst p))"
  | (switched) a where "bs = []" "ca_ref (fst p) \<noteq> mf_ActiveConfigRef m" "\<not> op_DryRun opts"
      "r = Inr a" "Some (ap_Manifest a) = file'" "file' = Some (switched_manifest now cid d opts m (fst p))"
proof (cases "op_DryRun opts")
  case True
  with assms show ?thesis by (intro same) (auto simp: apply_candidate_def Let_def)
next
  case live: False
  show ?thesis
  proof (cases "ca_ref (fst p) = mf_ActiveConfigRef m")
    case True
    with assms live show ?thesis
      by (auto simp: apply_candidate_def Let_def publish_def split: if_splits intro: same noted)
  next
    case False
    let ?written = "res_bind (if ca_captured (fst p) then dk_materialize d (fst p) else Inr ())
      (\<lambda>_. dk_inventory d (ca_ref (fst p)))"
    note eq = assms [unfolded apply_candidate_def Let_def case_prod_beta, simplified live False if_False]
    show ?thesis
    proof (cases ?written)
      case (Inl e)
      show ?thesis by (rule same) (use eq in \<open>auto simp: Inl\<close>)
    next
      case (Inr u)
      show ?thesis
      proof (cases "bs = []")
        case True
        have "(file', r) = publish d (Some m) (switched_manifest now cid d opts m (fst p))
            (preview d opts m snap p (snd (activate now (retained now opts (fst p) m) (newChange now cid d opts m (ca_ref (fst p)))))
              (switched_manifest now cid d opts m (fst p)))"
          using eq by (simp only: Inr True sum.case not_True_eq_False if_False simp_thms)
        then show ?thesis
          proof (rule publishE)
          qed (use switched [OF True False live] same in \<open>simp_all\<close>)
      next
        case blocked: False
        have "(file', r) = publish d (Some m) (queued_manifest now cid d opts m bs (fst p))
            (preview d opts m snap p ((newChange now cid d opts m (ca_ref (fst p)))\<lparr>ch_Outcome := OutcomePending, ch_Blockers := bs\<rparr>)
              (queued_manifest now cid d opts m bs (fst p)))"
          using eq by (simp only: Inr blocked sum.case not_False_eq_True if_True simp_thms)
        then show ?thesis
          proof (rule publishE)
          qed (use queued [OF blocked False live] same in \<open>simp_all\<close>)
      qed
    qed
  qed
qed

text \<open>What each operation can do to the file of a trail that has one.\<close>

definition file_effect :: "string \<Rightarrow> string list \<Rightarrow> Manifest \<Rightarrow> Manifest \<Rightarrow> bool" where
  "file_effect rid bs m m' \<longleftrightarrow> m' = m \<or> noted rid m m' \<or> queued rid bs m m' \<or> (bs = [] \<and> switched rid m m')"

lemma file_effect_ok:
  assumes "file_effect rid bs m m'" "manifest_ok m" "new_request m rid"
  shows "manifest_ok m'"
  using assms noted_ok queued_ok switched_ok new_request_unpend unfolding file_effect_def by metis

lemma apply_candidate_effect:
  assumes "apply_candidate now cid d opts m snap bs p = (Some m', r)" "mf_Pending m = None"
    "op_ExpectedRevision opts \<in> {None, Some (mf_ConfigRevision m)}"
  shows "file_effect (op_RequestID opts) bs m m'"
  using assms(1)
proof (cases rule: apply_candidate_cases)
  case same
  then show ?thesis by (simp add: file_effect_def)
next
  case (noted c a)
  then have "noted (op_RequestID opts) m m'" unfolding noted_def by auto
  then show ?thesis by (simp add: file_effect_def)
next
  case (queued a)
  then show ?thesis using queued_manifest_queued [OF assms(2,3)] by (simp add: file_effect_def)
next
  case (switched a)
  then show ?thesis using switched_manifest_switched by (simp add: file_effect_def)
qed

lemma recordRejection_effect:
  assumes "recordRejection now cid d opts m reason = (Some m', r)"
  shows "m' = m \<or> noted (op_RequestID opts) m m'"
  using assms by (auto simp: recordRejection_def Let_def publish_def noted_def split: if_splits)

lemma with_actor_simps [simp]:
  "op_RequestID (with_actor opts) = op_RequestID opts" "op_TraceID (with_actor opts) = op_TraceID opts"
  "op_Source (with_actor opts) = op_Source opts" "op_DryRun (with_actor opts) = op_DryRun opts"
  "op_Blockers (with_actor opts) = op_Blockers opts"
  "op_ExpectedRevision (with_actor opts) = op_ExpectedRevision opts"
  "op_RequireImmediate (with_actor opts) = op_RequireImmediate opts"
  by (simp_all add: with_actor_def)

text \<open>The ways an apply request ends.\<close>

lemma Apply_cases:
  assumes "Apply now cid d opts snap entries evidence file = (file', r)"
  obtains (failed) e where "file' = file" "r = Inl e"
  | (repeated) m c where "file = Some m" "file' = file" "findChangeByRequest m (op_RequestID opts) = Some c"
      "op_RequestID opts \<noteq> []" "r = Inr ((apply_result (with_actor opts) m c)\<lparr>ap_NewRef := ch_NewConfigRef c\<rparr>)"
  | (refused) m reason where "file = Some m" "\<not> dk_killed d" "mf_Policy m \<noteq> PolicyPinned"
      "new_request m (op_RequestID opts)" "recordRejection now cid d (with_actor opts) m reason = (file', r)"
  | (admitted) m p bs where "file = Some m" "\<not> dk_killed d" "mf_Policy m \<noteq> PolicyPinned"
      "new_request m (op_RequestID opts)" "mf_Pending m = None"
      "op_ExpectedRevision opts \<in> {None, Some (mf_ConfigRevision m)}"
      "bs = uniqueBlockers (op_Blockers opts @ Blockers snap entries evidence)"
      "prepared d (with_actor opts) m snap = Inr p"
      "apply_candidate now cid d (with_actor opts) m snap bs p = (file', r)"
proof -
  let ?opts = "with_actor opts"
  let ?adm = "res_bind (validateTraceID (op_TraceID ?opts)) (\<lambda>_.
             res_bind (fail_if (op_Source ?opts = SourceUnset) SourceRequired) (\<lambda>_.
             res_bind (validateApplySource ?opts) (\<lambda>_.
             res_bind (fail_if (dk_killed d) (TrailKilled (op_TraceID ?opts))) (\<lambda>_.
             res_bind (LoadManifest (op_TraceID ?opts) file) (\<lambda>m.
             res_bind (apply_admission d ?opts m (Blockers snap entries evidence)) (\<lambda>adm. Inr (m, adm)))))))"
  note eq = assms [unfolded Apply_def Let_def]
  show thesis
  proof (cases ?adm)
    case (Inl e)
    then show ?thesis using eq by (intro failed) auto
  next
    case (Inr x)
    obtain m adm where x: "x = (m, adm)" by (cases x)
    have m: "file = Some m" "\<not> dk_killed d" "apply_admission d ?opts m (Blockers snap entries evidence) = Inr adm"
      using Inr x by (auto simp: res_bind_Inr_iff dest: LoadManifest_Inr)
    show ?thesis
    proof (cases adm)
      case (Recorded c)
      then show ?thesis
        using eq Inr x m by (intro repeated) (auto dest: admission_Recorded)
    next
      case (Refused reason)
      then show ?thesis
        using eq Inr x m by (intro refused) (auto dest: admission_Refused)
    next
      case (Admitted bs)
      note adm = admission_Admitted [OF m(3) [unfolded Admitted]]
      show ?thesis
      proof (cases "prepared d ?opts m snap")
        case (Inl e)
        then show ?thesis using eq Inr x Admitted by (intro failed) auto
      next
        case (Inr p)
        then show ?thesis using eq \<open>?adm = Inr x\<close> x Admitted m adm by (intro admitted) auto
      qed
    qed
  qed
qed

lemma Apply_effect:
  assumes "Apply now cid d opts snap entries evidence (Some m) = (Some m', r)"
  shows "file_effect (op_RequestID opts) (uniqueBlockers (op_Blockers opts @ Blockers snap entries evidence)) m m'"
    "m' \<noteq> m \<Longrightarrow> new_request m (op_RequestID opts)"
  using assms(1)
  by (cases rule: Apply_cases; force simp: file_effect_def dest: recordRejection_effect apply_candidate_effect)+

abbreviation activated_manifest where
  "activated_manifest now m c i \<equiv> (fst (activate now (m\<lparr>mf_Pending := None\<rparr>) c))\<lparr>
     mf_Closing := rs_Closing (iv_Resolved i), mf_Merge := rs_Merge (iv_Resolved i)\<rparr>"

lemma TryActivate_cases:
  assumes "TryActivate now d tr given snap entries evidence file = (file', r)"
  obtains (same) "file' = file" "\<And>m. r \<noteq> Inr (m, True)"
  | (waits) m c bs where "file = Some m" "mf_Pending m = Some c"
      "bs = uniqueBlockers (given @ Blockers snap entries evidence)" "bs \<noteq> []"
      "file' = Some (m\<lparr>mf_Pending := Some (c\<lparr>ch_Blockers := bs\<rparr>), mf_UpdatedAt := now\<rparr>)" "\<And>m. r \<noteq> Inr (m, True)"
  | (rejected) m c reason where "file = Some m" "mf_Pending m = Some c"
      "pending_check d m c snap = Inr (Inl reason)" "\<And>m. r \<noteq> Inr (m, True)"
      "file' = Some (close_pending now (c\<lparr>ch_Outcome := OutcomeRejected, ch_Detail := reason\<rparr>) m)"
  | (activated) m c i where "file = Some m" "mf_Pending m = Some c"
      "uniqueBlockers (given @ Blockers snap entries evidence) = []" "pending_check d m c snap = Inr (Inr i)"
      "file' = Some (activated_manifest now m c i)" "r = Inr (activated_manifest now m c i, True)"
proof (cases "LoadManifest tr file")
  case (Inl e)
  then show ?thesis using assms by (intro same) (auto simp: TryActivate_def)
next
  case (Inr m)
  then have here: "file = Some m" by (rule LoadManifest_Inr)
  show ?thesis
  proof (cases "mf_Pending m")
    case None
    then show ?thesis using assms Inr by (intro same) (auto simp: TryActivate_def)
  next
    case (Some c)
    let ?bs = "uniqueBlockers (given @ Blockers snap entries evidence)"
    note eq = assms [unfolded TryActivate_def Let_def Inr sum.case Some option.case]
    show ?thesis
    proof (cases "?bs = []")
      case False
      then have "(file', r) = publish d file (m\<lparr>mf_Pending := Some (c\<lparr>ch_Blockers := ?bs\<rparr>), mf_UpdatedAt := now\<rparr>)
          (m\<lparr>mf_Pending := Some (c\<lparr>ch_Blockers := ?bs\<rparr>), mf_UpdatedAt := now\<rparr>, False)"
        using eq by (simp only: not_False_eq_True if_True)
      then show ?thesis
      proof (rule publishE)
      qed (use waits [OF here Some refl False] same in \<open>simp_all\<close>)
    next
      case True
      note eq = eq [unfolded True, simplified if_False not_True_eq_False simp_thms]
      show ?thesis
      proof (cases "pending_check d m c snap")
        case (Inl e)
        then show ?thesis using eq by (intro same) auto
      next
        case checked: (Inr x)
        show ?thesis
        proof (cases x)
          case (Inl reason)
          then have "(file', r) = publish d file (close_pending now (c\<lparr>ch_Outcome := OutcomeRejected, ch_Detail := reason\<rparr>) m)
              (close_pending now (c\<lparr>ch_Outcome := OutcomeRejected, ch_Detail := reason\<rparr>) m, False)"
            using eq by (simp add: checked)
          then show ?thesis
          proof (rule publishE)
          qed (use rejected [OF here Some checked [unfolded Inl]] same in \<open>simp_all\<close>)
        next
          case (Inr i)
          then have "(file', r) = publish d file (activated_manifest now m c i) (activated_manifest now m c i, True)"
            using eq by (simp add: checked)
          then show ?thesis
          proof (rule publishE)
          qed (use activated [OF here Some True checked [unfolded Inr]] same in \<open>simp_all\<close>)
        qed
      qed
    qed
  qed
qed

lemma ok_waits:
  assumes "manifest_ok m" "mf_Pending m = Some c" "bs \<noteq> []"
  shows "manifest_ok (m\<lparr>mf_Pending := Some (c\<lparr>ch_Blockers := bs\<rparr>), mf_UpdatedAt := now\<rparr>)" (is "manifest_ok ?m")
proof -
  have "requests ?m = requests m" "applied_changes ?m = applied_changes m"
    by (simp_all add: requests_def pend_def applied_changes_def assms(2))
  with assms show ?thesis by (simp add: manifest_ok_def revisions_ok_def pending_ok_def)
qed

lemma ok_activated_manifest:
  assumes "manifest_ok m" "mf_Pending m = Some c"
  shows "manifest_ok (activated_manifest now m c i)"
proof (rule switched_ok [OF _ assms(1)])
  show "switched (ch_RequestID c) m (activated_manifest now m c i)"
    using assms by (simp add: switched_def activate_def activated_def manifest_ok_def pending_ok_def)
  show "new_request (m\<lparr>mf_Pending := None\<rparr>) (ch_RequestID c)"
    using assms by (auto simp: manifest_ok_def new_request_iff requests_def pend_def)
qed

lemma cancelled_simps [simp]:
  "ch_Outcome (cancelled actor reason c) = OutcomeCancelled" "ch_RequestID (cancelled actor reason c) = ch_RequestID c"
  by (simp_all add: cancelled_def Let_def)

lemma Apply_ok:
  assumes "manifest_ok m" "Apply now cid d opts snap entries evidence (Some m) = (Some m', r)"
  shows "manifest_ok m'"
  using Apply_effect [OF assms(2)] file_effect_ok assms(1) by (cases "m' = m") blast+

lemma TryActivate_ok:
  assumes "manifest_ok m" "TryActivate now d tr given snap entries evidence (Some m) = (Some m', r)"
  shows "manifest_ok m'"
  using assms(2)
proof (cases rule: TryActivate_cases)
  case same
  with assms(1) show ?thesis by simp
next
  case (waits m0 c bs)
  with assms(1) show ?thesis by (simp add: ok_waits)
next
  case (rejected m0 c reason)
  with assms(1) show ?thesis by (simp add: ok_close)
next
  case (activated m0 c i)
  with assms(1) show ?thesis by (simp add: ok_activated_manifest)
qed

lemma Cancel_ok:
  assumes "manifest_ok m" "Cancel now d tr change actor reason (Some m) = (Some m', r)"
  shows "manifest_ok m'"
  using assms
  by (auto simp: Cancel_def Let_def publish_def ok_close dest!: LoadManifest_Inr
      split: sum.splits option.splits if_splits)

lemma CancelIfPending_ok:
  assumes "manifest_ok m" "CancelIfPending now d tr actor reason (Some m) = (Some m', r)"
  shows "manifest_ok m'"
  using assms
  by (auto simp: CancelIfPending_def Let_def publish_def ok_close dest!: LoadManifest_Inr
      split: sum.splits option.splits if_splits config_error.splits)

lemma LoadManifest_NoBinding: "LoadManifest tr file = Inl NoBinding \<Longrightarrow> file = None"
  by (cases "file") (auto simp: LoadManifest_def validateTraceID_def validateManifest_def validateConfigRef_def
      fail_if_def Let_def split: if_splits)

lemma EnsureInitialExpected_cases:
  assumes "EnsureInitialExpected now cid d capture code tr expected snap entries evidence file = (file', r)"
  shows "file' = file \<or> file = None \<and> (\<exists>ref i. file' = Some (captured_manifest now cid tr code ref i))"
proof (cases "LoadManifest tr file = Inl NoBinding")
  case False
  then have "file' = file"
    using assms by (auto simp: EnsureInitialExpected_def Let_def split: sum.splits if_splits config_error.splits)
  then show ?thesis ..
next
  case True
  with LoadManifest_NoBinding assms show ?thesis
    by (fastforce simp: EnsureInitialExpected_def Let_def publish_def split: sum.splits if_splits)
qed

text \<open>One locked operation on the manifest file of a trail, whatever the disk, the tasks, the attempts,
  the runs and the caller's arguments are at that moment.\<close>

inductive config_step :: "Manifest option \<Rightarrow> Manifest option \<Rightarrow> bool" where
  capture: "EnsureInitialExpected now cid d cap code tr expected snap entries evidence f = (f', r1) \<Longrightarrow> config_step f f'"
| configure: "Apply now cid d opts snap entries evidence f = (f', r2) \<Longrightarrow> config_step f f'"
| boundary: "TryActivate now d tr given snap entries evidence f = (f', r3) \<Longrightarrow> config_step f f'"
| cancel: "Cancel now d tr change actor reason f = (f', r4) \<Longrightarrow> config_step f f'"
| abandon: "CancelIfPending now d tr actor reason f = (f', r5) \<Longrightarrow> config_step f f'"

definition file_ok :: "Manifest option \<Rightarrow> bool" where
  "file_ok f = (case f of None \<Rightarrow> True | Some m \<Rightarrow> manifest_ok m)"

lemma file_ok_simps [simp]: "file_ok None" "file_ok (Some m) = manifest_ok m"
  by (simp_all add: file_ok_def)

lemma Apply_file:
  assumes "Apply now cid d opts snap entries evidence f = (f', r)"
  shows "f' = f \<or> (\<exists>m m'. f = Some m \<and> f' = Some m')"
  using assms
proof (cases rule: Apply_cases)
  case (refused m reason)
  then show ?thesis by (auto simp: recordRejection_def Let_def publish_def split: if_splits)
next
  case (admitted m p bs)
  from admitted(9) show ?thesis by (cases rule: apply_candidate_cases) (use admitted(1) in auto)
qed simp_all

lemma TryActivate_file:
  assumes "TryActivate now d tr given snap entries evidence f = (f', r)"
  shows "f' = f \<or> (\<exists>m m'. f = Some m \<and> f' = Some m')"
  using assms by (cases rule: TryActivate_cases) simp_all

lemma Cancel_file: "Cancel now d tr change actor reason f = (f', r) \<Longrightarrow> f' = f \<or> (\<exists>m m'. f = Some m \<and> f' = Some m')"
  by (auto simp: Cancel_def Let_def publish_def dest!: LoadManifest_Inr split: sum.splits option.splits if_splits)

lemma CancelIfPending_file:
  "CancelIfPending now d tr actor reason f = (f', r) \<Longrightarrow> f' = f \<or> (\<exists>m m'. f = Some m \<and> f' = Some m')"
  by (auto simp: CancelIfPending_def Let_def publish_def dest!: LoadManifest_Inr
      split: sum.splits option.splits if_splits config_error.splits)

lemma file_ok_keeps:
  assumes "f' = f \<or> (\<exists>m m'. f = Some m \<and> f' = Some m')" "file_ok f"
    "\<And>m m'. f = Some m \<Longrightarrow> f' = Some m' \<Longrightarrow> manifest_ok m \<Longrightarrow> manifest_ok m'"
  shows "file_ok f'"
  using assms by auto

lemma config_step_ok: "config_step f f' \<Longrightarrow> file_ok f \<Longrightarrow> file_ok f'"
proof (induction rule: config_step.induct)
  case (capture now cid d cap code tr expected snap entries evidence f f' r1)
  from EnsureInitialExpected_cases [OF capture(1)] capture(2) show ?case by (metis file_ok_simps(2) ok_captured)
next
  case (configure now cid d opts snap entries evidence f f' r2)
  show ?case
    by (rule file_ok_keeps [OF Apply_file [OF configure(1)] configure(2)]) (use Apply_ok configure(1) in metis)
next
  case (boundary now d tr given snap entries evidence f f' r3)
  show ?case
    by (rule file_ok_keeps [OF TryActivate_file [OF boundary(1)] boundary(2)]) (use TryActivate_ok boundary(1) in metis)
next
  case (cancel now d tr change actor reason f f' r4)
  show ?case
    by (rule file_ok_keeps [OF Cancel_file [OF cancel(1)] cancel(2)]) (use Cancel_ok cancel(1) in metis)
next
  case (abandon now d tr actor reason f f' r5)
  show ?case
    by (rule file_ok_keeps [OF CancelIfPending_file [OF abandon(1)] abandon(2)]) (use CancelIfPending_ok abandon(1) in metis)
qed

lemma config_reachable_ok: "config_step\<^sup>*\<^sup>* None f \<Longrightarrow> file_ok f"
  by (induction rule: rtranclp_induct) (auto intro: config_step_ok)

section \<open>The safe boundary\<close>

text \<open>What held when an operation replaced the active snapshot.\<close>

lemma apply_candidate_active:
  assumes "apply_candidate now cid d opts m snap bs p = (Some m', r)"
    "mf_ActiveConfigRef m' \<noteq> mf_ActiveConfigRef m"
  shows "bs = []" "mf_ActiveConfigRef m' = ca_ref (fst p)" "\<not> op_DryRun opts"
  using assms(1) by (cases rule: apply_candidate_cases; use assms(2) in \<open>auto simp: activate_def\<close>)+

lemma Apply_safe:
  assumes "Apply now cid d opts snap entries evidence (Some m) = (Some m', r)"
    "mf_ActiveConfigRef m' \<noteq> mf_ActiveConfigRef m"
  shows "Blockers snap entries evidence = [] \<and> mf_Policy m \<noteq> PolicyPinned \<and> \<not> dk_killed d
    \<and> (\<exists>p. prepared d (with_actor opts) m snap = Inr p \<and> mf_ActiveConfigRef m' = ca_ref (fst p))"
  using assms(1)
proof (cases rule: Apply_cases)
  case (failed e)
  then show ?thesis using assms(2) by simp
next
  case (repeated m0 c)
  then show ?thesis using assms(2) by simp
next
  case (refused m0 reason)
  then show ?thesis using assms(2) recordRejection_effect [OF refused(5)] by (auto simp: noted_def)
next
  case (admitted m0 p bs)
  then have "m0 = m" by simp
  note active = apply_candidate_active [OF admitted(9) [unfolded \<open>m0 = m\<close>] assms(2)]
  have "Blockers snap entries evidence = []"
    using admitted(7) active(1) by (metis uniqueBlockers_Nil append_is_Nil_conv)
  then show ?thesis using admitted(2,3,8) \<open>m0 = m\<close> active(2) by auto
qed

lemma TryActivate_safe:
  assumes "TryActivate now d tr given snap entries evidence (Some m) = (Some m', r)"
    "mf_ActiveConfigRef m' \<noteq> mf_ActiveConfigRef m"
  shows "Blockers snap entries evidence = [] \<and> r = Inr (m', True)
    \<and> (\<exists>c i. mf_Pending m = Some c \<and> pending_check d m c snap = Inr (Inr i) \<and> mf_ActiveConfigRef m' = ch_NewConfigRef c)"
  using assms(1)
proof (cases rule: TryActivate_cases)
  case same
  then show ?thesis using assms(2) by simp
next
  case (waits m0 c bs)
  then show ?thesis using assms(2) by simp
next
  case (rejected m0 c reason)
  then show ?thesis using assms(2) by (simp add: close_pending_def)
next
  case (activated m0 c i)
  then show ?thesis using assms(2) by (auto simp: activate_def)
qed

text \<open>A dry run writes nothing and reports what the request would be recorded as.\<close>

definition same_report :: "ConfigResult \<Rightarrow> ConfigResult \<Rightarrow> bool" where
  "same_report a b \<longleftrightarrow> ap_NewRef a = ap_NewRef b \<and> ap_Diff a = ap_Diff b
     \<and> ap_RemainingWork a = ap_RemainingWork b \<and> ap_SkillWarnings a = ap_SkillWarnings b
     \<and> ch_Outcome (ap_Change a) = ch_Outcome (ap_Change b) \<and> ch_Blockers (ap_Change a) = ch_Blockers (ap_Change b)
     \<and> ch_NewConfigRef (ap_Change a) = ch_NewConfigRef (ap_Change b)"

lemma op_dry:
  "op_TraceID (opts\<lparr>op_DryRun := b\<rparr>) = op_TraceID opts"
  "op_Source (opts\<lparr>op_DryRun := b\<rparr>) = op_Source opts"
  "op_SnapshotRef (opts\<lparr>op_DryRun := b\<rparr>) = op_SnapshotRef opts"
  "op_Overrides (opts\<lparr>op_DryRun := b\<rparr>) = op_Overrides opts"
  "op_SkillTrial (opts\<lparr>op_DryRun := b\<rparr>) = op_SkillTrial opts"
  "op_Actor (opts\<lparr>op_DryRun := b\<rparr>) = op_Actor opts"
  "op_Reason (opts\<lparr>op_DryRun := b\<rparr>) = op_Reason opts"
  "op_RequestID (opts\<lparr>op_DryRun := b\<rparr>) = op_RequestID opts"
  "op_ExpectedRevision (opts\<lparr>op_DryRun := b\<rparr>) = op_ExpectedRevision opts"
  "op_Blockers (opts\<lparr>op_DryRun := b\<rparr>) = op_Blockers opts"
  "op_RequireImmediate (opts\<lparr>op_DryRun := b\<rparr>) = op_RequireImmediate opts"
  "op_DryRun (opts\<lparr>op_DryRun := b\<rparr>) = b"
  by simp_all

lemma contents_dry: "request_contents (opts\<lparr>op_DryRun := b\<rparr>) = request_contents opts"
  by (simp add: request_contents_def)

lemma fingerprint_dry: "requestFingerprint d (opts\<lparr>op_DryRun := b\<rparr>) = requestFingerprint d opts"
  by (simp add: requestFingerprint_def contents_dry)

lemma admission_dry:
  "apply_admission d (opts\<lparr>op_DryRun := b\<rparr>) m observed = apply_admission d opts m observed"
  unfolding apply_admission_def op_dry by (simp only: fingerprint_dry)

lemma prepared_dry: "prepared d (opts\<lparr>op_DryRun := b\<rparr>) m snap = prepared d opts m snap"
  by (simp add: prepared_def contents_dry)

lemma source_dry: "validateApplySource (opts\<lparr>op_DryRun := b\<rparr>) = validateApplySource opts"
  unfolding validateApplySource_def op_dry by (rule refl)

lemma with_actor_dry: "with_actor (opts\<lparr>op_DryRun := b\<rparr>) = (with_actor opts)\<lparr>op_DryRun := b\<rparr>"
  by (simp add: with_actor_def)

lemma newChange_dry: "newChange now cid d (opts\<lparr>op_DryRun := b\<rparr>) m ref = newChange now cid d opts m ref"
  by (simp add: newChange_def requestFingerprint_def contents_dry)

lemma recordRejection_dry:
  assumes "recordRejection now cid d (opts\<lparr>op_DryRun := False\<rparr>) m reason = (f', Inr a)"
  shows "\<exists>b. recordRejection now cid d (opts\<lparr>op_DryRun := True\<rparr>) m reason = (Some m, Inr b) \<and> same_report a b"
  using assms
  by (auto simp: recordRejection_def Let_def publish_def newChange_dry apply_result_def same_report_def split: if_splits)

lemma preview_report: "ch_Outcome c = ch_Outcome c' \<Longrightarrow> ch_Blockers c = ch_Blockers c' \<Longrightarrow>
    ch_NewConfigRef c = ch_NewConfigRef c' \<Longrightarrow>
    same_report (preview d opts m snap p c m') (preview d opts' m snap p c' m'')"
  by (simp add: same_report_def preview_def split: prod.split)

lemma apply_candidate_report:
  assumes "apply_candidate now cid d opts m snap bs p = (f', Inr a)" "\<not> op_DryRun opts"
  shows "\<exists>c m'. a = preview d opts m snap p c m' \<and> ch_NewConfigRef c = ca_ref (fst p)
    \<and> ch_Blockers c = (if ca_ref (fst p) = mf_ActiveConfigRef m then [] else bs)
    \<and> ch_Outcome c = (if ca_ref (fst p) = mf_ActiveConfigRef m then OutcomeUnchanged
        else if bs \<noteq> [] then OutcomePending else OutcomeApplied)"
proof -
  have nb: "ch_Blockers (newChange now cid d opts m r) = []" for r by (simp add: newChange_def)
  have pub: "publish d f n r = (f', Inr a) \<Longrightarrow> a = r" for f n r by (auto simp: publish_def split: if_splits)
  consider "ca_ref (fst p) = mf_ActiveConfigRef m" | "ca_ref (fst p) \<noteq> mf_ActiveConfigRef m" "bs \<noteq> []"
    | "ca_ref (fst p) \<noteq> mf_ActiveConfigRef m" "bs = []" by blast
  then show ?thesis
  proof cases
    case 1
    then show ?thesis using assms by (auto simp: apply_candidate_def Let_def nb dest!: pub)
  next
    case 2
    then show ?thesis using assms by (auto simp: apply_candidate_def Let_def nb dest!: pub split: sum.splits)
  next
    case 3
    then show ?thesis
      using assms by (auto simp: apply_candidate_def Let_def nb activate_def activated_def dest!: pub split: sum.splits)
  qed
qed

lemma apply_candidate_dry:
  assumes "apply_candidate now cid d (opts\<lparr>op_DryRun := False\<rparr>) m snap bs p = (f', Inr a)"
  shows "\<exists>b. apply_candidate now cid d (opts\<lparr>op_DryRun := True\<rparr>) m snap bs p = (Some m, Inr b) \<and> same_report a b"
proof -
  have nb: "ch_Blockers (newChange now cid d opts m r) = []" for r by (simp add: newChange_def)
  show ?thesis
    using apply_candidate_report [OF assms]
    by (auto simp: apply_candidate_def Let_def newChange_dry nb intro!: preview_report)
qed

lemma Apply_dry_file: "op_DryRun opts \<Longrightarrow> fst (Apply now cid d opts snap entries evidence f) = f"
  by (cases "Apply now cid d opts snap entries evidence f" rule: prod.exhaust)
    (auto elim!: Apply_cases simp: recordRejection_def Let_def apply_candidate_def split: if_splits)

lemma Apply_dry:
  assumes "Apply now cid d (opts\<lparr>op_DryRun := False\<rparr>) snap entries evidence f = (f', Inr a)"
  shows "\<exists>b. Apply now cid d (opts\<lparr>op_DryRun := True\<rparr>) snap entries evidence f = (f, Inr b) \<and> same_report a b"
proof -
  let ?o = "with_actor opts"
  let ?adm = "res_bind (validateTraceID (op_TraceID ?o)) (\<lambda>_.
             res_bind (fail_if (op_Source ?o = SourceUnset) SourceRequired) (\<lambda>_.
             res_bind (validateApplySource ?o) (\<lambda>_.
             res_bind (fail_if (dk_killed d) (TrailKilled (op_TraceID ?o))) (\<lambda>_.
             res_bind (LoadManifest (op_TraceID ?o) f) (\<lambda>m.
             res_bind (apply_admission d ?o m (Blockers snap entries evidence)) (\<lambda>adm. Inr (m, adm)))))))"
  note blind = admission_dry prepared_dry source_dry with_actor_dry
  note eq = assms [unfolded Apply_def Let_def blind op_dry]
  obtain m adm where adm: "?adm = Inr (m, adm)"
    using eq by (cases ?adm) auto
  have f: "f = Some m" using adm by (auto simp: res_bind_Inr_iff dest: LoadManifest_Inr)
  show ?thesis
  proof (cases adm)
    case (Recorded c)
    with adm eq show ?thesis
      unfolding Apply_def Let_def blind op_dry adm by (auto simp: f apply_result_def same_report_def)
  next
    case (Refused reason)
    with adm eq have "recordRejection now cid d (?o\<lparr>op_DryRun := False\<rparr>) m reason = (f', Inr a)" by simp
    from recordRejection_dry [OF this] show ?thesis
      unfolding Apply_def Let_def blind op_dry adm unfolding f Refused by simp
  next
    case (Admitted bs)
    then obtain p where p: "prepared d ?o m snap = Inr p"
      using adm eq by (cases "prepared d ?o m snap") auto
    with Admitted adm eq have "apply_candidate now cid d (?o\<lparr>op_DryRun := False\<rparr>) m snap bs p = (f', Inr a)" by simp
    from apply_candidate_dry [OF this] show ?thesis
      unfolding Apply_def Let_def blind op_dry adm unfolding f Admitted by (simp add: p)
  qed
qed

text \<open>What was validated when the active snapshot changed.\<close>

lemma prepared_valid: "prepared d opts m snap = Inr p \<Longrightarrow>
    \<exists>profile warnings. validateProcedure d (ca_ref (fst p)) (mf_ActiveConfigRef m) (RemainingProcedureWork snap) profile
      = Inr warnings"
  unfolding prepared_def res_bind_Inr_iff Let_def by (elim exE conjE) (auto split: if_splits, blast)

lemma pending_check_valid: "pending_check d m c snap = Inr (Inr i) \<Longrightarrow>
    \<exists>profile warnings. validateProcedure d (ch_NewConfigRef c) (mf_ActiveConfigRef m) (RemainingProcedureWork snap) profile
      = Inr warnings"
  unfolding pending_check_def res_bind_Inr_iff
  by (auto simp: res_bind_Inr_iff split: if_splits sum.splits; blast)

lemma check_work_all: "check_work defaults sectors bees ws = Inr u \<Longrightarrow> w \<in> set ws \<Longrightarrow>
    validateProcedureWork defaults sectors bees w = Inr ()"
  by (induction ws) (auto simp: res_bind_Inr_iff)

lemma validateProcedure_work:
  assumes "validateProcedure d ref base work profile = Inr warnings" "w \<in> set work"
  shows "\<exists>defaults sectors bees. tr_Colony (dk_tree d ref) = Inr (defaults, sectors)
    \<and> tr_Bees (dk_tree d ref) = Inr bees \<and> validateProcedureWork defaults sectors bees w = Inr ()"
  using assms
proof (cases "tr_Colony (dk_tree d ref)")
  case (Inr col)
  with assms show ?thesis
    by (cases col; cases "tr_Bees (dk_tree d ref)") (auto simp: validateProcedure_def res_bind_Inr_iff dest: check_work_all)
qed (auto simp: validateProcedure_def res_bind_Inr_iff)

section \<open>Attempts under a changing configuration\<close>

text \<open>
  The manifest and the attempts of a trail: an operation on the manifest reads the attempts for its
  blockers, an admission reads the manifest. All of them run under the lock of the trail's binding;
  only the fork of a trail admits without it, into a trail nobody else knows yet, and is left out.
  The third part is a log of the ids the admissions drew and the contexts they were called with; a context
  may be bound to any snapshot.
\<close>

type_synonym trail = "Manifest option \<times> Attempt list \<times> (string \<times> Ctx) list"

inductive trail_step :: "trail \<Rightarrow> trail \<Rightarrow> bool" where
  capture: "EnsureInitialExpected now cid d cap code tr expected snap xs evidence f = (f', r1)
    \<Longrightarrow> trail_step (f, xs, l) (f', xs, l)"
| configure: "Apply now cid d opts snap xs evidence f = (f', r2) \<Longrightarrow> trail_step (f, xs, l) (f', xs, l)"
| boundary: "TryActivate now d tr given snap xs evidence f = (f', r3) \<Longrightarrow> trail_step (f, xs, l) (f', xs, l)"
| cancel: "Cancel now d tr change actor reason f = (f', r4) \<Longrightarrow> trail_step (f, xs, l) (f', xs, l)"
| abandon: "CancelIfPending now d tr actor reason f = (f', r5) \<Longrightarrow> trail_step (f, xs, l) (f', xs, l)"
| ensure_gated: "trail_step (f, xs, l)
    (f, fst (EnsureTaskAttemptGated now i ctx f tr t src inp xs), (i, ctx) # l)"
| chain_gated: "trail_step (f, xs, l)
    (f, fst (AdmitChainAttemptGated now i ctx f tr ck t src xs), (i, ctx) # l)"
| mark: "trail_step (f, xs, l) (f, fst (MarkAttemptDispatched i key xs), l)"
| record_agent: "trail_step (f, xs, l) (f, RecordAttemptAgent i agent xs, l)"
| close: "trail_step (f, xs, l) (f, CloseAttempt now i reason xs, l)"
| close_task: "trail_step (f, xs, l) (f, CloseTaskAttempts now t reason xs, l)"
| close_trace: "trail_step (f, xs, l) (f, CloseTraceAttempts now reason xs, l)"

definition undispatched :: "Attempt \<Rightarrow> bool" where
  "undispatched a \<longleftrightarrow> Open a \<and> at_DispatchCount a = 0"

text \<open>
  What an attempt that was admitted with a context is bound to: what the context is bound to, or, where that is
  unbound, what is active now.
\<close>

definition bound_by :: "Ctx \<Rightarrow> Manifest option \<Rightarrow> Attempt \<Rightarrow> bool" where
  "bound_by ctx f a \<longleftrightarrow>
    (if TrimSpace (cx_ConfigRef ctx) \<noteq> []
     then at_ConfigRef a = TrimSpace (cx_ConfigRef ctx) \<and> at_ConfigRevision a = cx_ConfigRevision ctx
     else \<exists>m. f = Some m \<and> at_ConfigRef a = mf_ActiveConfigRef m \<and> at_ConfigRevision a = mf_ConfigRevision m)"

definition trail_ok :: "trail \<Rightarrow> bool" where
  "trail_ok s \<longleftrightarrow> (case s of (f, xs, l) \<Rightarrow> file_ok f \<and> (\<forall>a \<in> set xs. at_DispatchCount a \<ge> 0
     \<and> (undispatched a \<longrightarrow> (\<exists>ctx. (at_AttemptID a, ctx) \<in> set l \<and> bound_by ctx f a))))"

text \<open>Either the active configuration stands, or nothing undispatched is open.\<close>

definition config_kept :: "Manifest option \<Rightarrow> Manifest option \<Rightarrow> Attempt list \<Rightarrow> bool" where
  "config_kept f f' xs \<longleftrightarrow> f = None \<or> (\<exists>m m'. f = Some m \<and> f' = Some m'
     \<and> mf_ActiveConfigRef m' = mf_ActiveConfigRef m \<and> mf_ConfigRevision m' = mf_ConfigRevision m)
   \<or> (\<forall>a \<in> set xs. \<not> undispatched a)"

lemma config_kept_same: "config_kept f f xs"
  by (cases f) (simp_all add: config_kept_def)

lemma config_kept_blockers: "Blockers snap xs evidence = [] \<Longrightarrow> config_kept f f' xs"
  by (simp add: Blockers_Nil config_kept_def undispatched_def)

lemma Apply_kept:
  assumes "Apply now cid d opts snap xs evidence f = (f', r)"
  shows "config_kept f f' xs"
  using assms
proof (cases rule: Apply_cases)
  case (refused m reason)
  then have "f' = Some m \<or> (\<exists>m'. f' = Some m' \<and> noted (op_RequestID opts) m m')"
    using recordRejection_effect [of now cid d "with_actor opts" m reason _ r] Apply_file [OF assms] by auto
  then show ?thesis using refused(1) by (auto simp: config_kept_def noted_def)
next
  case (admitted m p bs)
  from admitted(9) show ?thesis
  proof (cases rule: apply_candidate_cases)
    case (switched a)
    then have "Blockers snap xs evidence = []"
      using admitted(7) by (metis uniqueBlockers_Nil append_is_Nil_conv)
    then show ?thesis by (rule config_kept_blockers)
  qed (use admitted(1) in \<open>auto simp: config_kept_def\<close>)
qed (simp_all add: config_kept_same)

lemma TryActivate_kept:
  assumes "TryActivate now d tr given snap xs evidence f = (f', r)"
  shows "config_kept f f' xs"
  using assms
proof (cases rule: TryActivate_cases)
  case (activated m c i)
  then have "Blockers snap xs evidence = []" by (metis uniqueBlockers_Nil append_is_Nil_conv)
  then show ?thesis by (rule config_kept_blockers)
qed (auto simp: config_kept_same config_kept_def close_pending_def)

lemma Cancel_kept: "Cancel now d tr change actor reason f = (f', r) \<Longrightarrow> config_kept f f' xs"
  by (auto simp: Cancel_def Let_def publish_def config_kept_def close_pending_def dest!: LoadManifest_Inr
      split: sum.splits option.splits if_splits)

lemma CancelIfPending_kept: "CancelIfPending now d tr actor reason f = (f', r) \<Longrightarrow> config_kept f f' xs"
  by (auto simp: CancelIfPending_def Let_def publish_def config_kept_def close_pending_def dest!: LoadManifest_Inr
      split: sum.splits option.splits if_splits config_error.splits)

lemma trail_ok_config:
  assumes "config_kept f f' xs" "file_ok f'" "trail_ok (f, xs, l)"
  shows "trail_ok (f', xs, l)"
  using assms by (fastforce simp: trail_ok_def config_kept_def bound_by_def)

lemma bound_by_evolves: "evolves a b \<Longrightarrow> bound_by ctx f b = bound_by ctx f a"
  by (simp add: evolves_def bound_by_def)

lemma trail_ok_attempts:
  assumes grow: "attempts_grow new xs ys" and ok: "trail_ok (f, xs, l)" and log: "set l \<subseteq> set l'"
    and new: "\<And>b. new b \<Longrightarrow> at_DispatchCount b = 0 \<and> (\<exists>ctx. (at_AttemptID b, ctx) \<in> set l' \<and> bound_by ctx f b)"
  shows "trail_ok (f, ys, l')"
proof -
  have "at_DispatchCount b \<ge> 0 \<and> (undispatched b \<longrightarrow> (\<exists>ctx. (at_AttemptID b, ctx) \<in> set l' \<and> bound_by ctx f b))"
    if b: "b \<in> set ys" for b
  proof -
    consider a where "a \<in> set xs" "evolves a b" | "new b"
      using grow b unfolding attempts_grow_def by blast
    then show ?thesis
    proof cases
      case 1
      then have "at_DispatchCount a \<ge> 0" "undispatched b \<Longrightarrow> \<exists>ctx. (at_AttemptID a, ctx) \<in> set l \<and> bound_by ctx f a"
        using ok by (auto simp: trail_ok_def evolves_def undispatched_def)
      moreover have "at_AttemptID b = at_AttemptID a" "at_DispatchCount a \<le> at_DispatchCount b"
        using 1(2) by (simp_all add: evolves_def)
      ultimately show ?thesis using log bound_by_evolves [OF 1(2)] by fastforce
    next
      case 2
      from new [OF this] show ?thesis by auto
    qed
  qed
  with ok show ?thesis by (simp add: trail_ok_def)
qed

lemma admitted_bound:
  "admitted now i ctx f t k b \<Longrightarrow> at_DispatchCount b = 0 \<and> at_AttemptID b = i \<and> bound_by ctx f b"
  by (auto simp: admitted_def bound_by_def newAttempt_def Let_def)

lemma trail_ok_admitted:
  assumes "attempts_grow (admitted now i ctx f t k) xs ys" "trail_ok (f, xs, l)"
  shows "trail_ok (f, ys, (i, ctx) # l)"
  by (rule trail_ok_attempts [OF assms]) (auto dest!: admitted_bound)

lemma evolves_keeps: "list_all2 evolves xs ys \<Longrightarrow> trail_ok (f, xs, l) \<Longrightarrow> trail_ok (f, ys, l)"
  by (rule trail_ok_attempts [OF attempts_grow_evolves [where new = "\<lambda>_. False"] _ order_refl]) simp_all

lemma trail_ok_file: "trail_ok (f, xs, l) \<Longrightarrow> file_ok f"
  by (simp add: trail_ok_def)

lemmas trail_step_intros = trail_ok_config [OF _ config_step_ok]

lemma trail_step_ok: "trail_step s s' \<Longrightarrow> trail_ok s \<Longrightarrow> trail_ok s'"
proof (induction rule: trail_step.induct)
  case (capture now cid d cap code tr expected snap xs evidence f f' r1 l)
  have "config_kept f f' xs"
    using EnsureInitialExpected_cases [OF capture(1)] config_kept_same by (auto simp: config_kept_def)
  then show ?case
    using config_step_ok [OF config_step.capture [OF capture(1)]] capture(2) by (blast intro: trail_ok_config trail_ok_file)
next
  case (configure now cid d opts snap xs evidence f f' r2)
  show ?case
    using config_step_ok [OF config_step.configure [OF configure(1)]] configure(2) Apply_kept [OF configure(1)]
    by (blast intro: trail_ok_config trail_ok_file)
next
  case (boundary now d tr given snap xs evidence f f' r3)
  show ?case
    using config_step_ok [OF config_step.boundary [OF boundary(1)]] boundary(2) TryActivate_kept [OF boundary(1)]
    by (blast intro: trail_ok_config trail_ok_file)
next
  case (cancel now d tr change actor reason f f' r4)
  show ?case
    using config_step_ok [OF config_step.cancel [OF cancel(1)]] cancel(2) Cancel_kept [OF cancel(1)]
    by (blast intro: trail_ok_config trail_ok_file)
next
  case (abandon now d tr actor reason f f' r5)
  show ?case
    using config_step_ok [OF config_step.abandon [OF abandon(1)]] abandon(2) CancelIfPending_kept [OF abandon(1)]
    by (blast intro: trail_ok_config trail_ok_file)
qed (auto intro: trail_ok_admitted [OF EnsureTaskAttempt_grow(2)] trail_ok_admitted [OF AdmitChainAttempt_grow(2)]
    evolves_keeps MarkAttemptDispatched_evolves RecordAttemptAgent_evolves Close_evolves)

text \<open>While an undispatched attempt is open, no step changes what is active.\<close>

lemma trail_step_kept:
  assumes "trail_step s s'"
  shows "config_kept (fst s) (fst s') (fst (snd s))"
  using assms
proof (cases rule: trail_step.cases)
  case (capture now cid d cap code tr expected snap xs evidence f f' r1 l)
  then show ?thesis
    using EnsureInitialExpected_cases [OF capture(3)] config_kept_same by (auto simp: config_kept_def)
qed (simp_all add: config_kept_same Apply_kept TryActivate_kept Cancel_kept CancelIfPending_kept)

lemma trail_reachable_ok: "trail_step\<^sup>*\<^sup>* (None, [], []) s \<Longrightarrow> trail_ok s"
  by (induction rule: rtranclp_induct) (auto simp: trail_ok_def [of "(None, [], [])"] intro: trail_step_ok)

end
