(* ===== verification/LedgerDeps.thy ===== *)
theory LedgerDeps
  imports LedgerEligible GoText
begin

text \<open>
  \<open>internal/taskledger/deps.go\<close>: the producer-side check of task dependencies. The search for
  a cycle is the code's three-colour depth-first search; its recursion is bounded by the
  number of tasks, which is the fuel, and a separate result says when the fuel ran out.
  \<open>quote\<close> stands for the verb \<open>%q\<close> (\<open>strconv.Quote\<close>), used in the messages only.
\<close>

section \<open>The dependency map\<close>

type_synonym deps = "(string, string list) gomap"

definition add_spec :: "TraceSnapshot \<Rightarrow> TaskSpec \<Rightarrow> deps \<Rightarrow> deps" where
  "add_spec trace spec deps =
    (if sp_TaskID spec = [] then deps
     else if mget (Tasks trace) (sp_TaskID spec) \<noteq> None then deps
     else mput (sp_TaskID spec) (sp_DependsOn spec) deps)"

definition deps_of :: "TraceSnapshot \<Rightarrow> TaskSpec list \<Rightarrow> deps" where
  "deps_of trace specs =
    fold (add_spec trace) specs (map (\<lambda>(k, t). (k, t_DependsOn t)) (Tasks trace))"

section \<open>The search for a cycle\<close>

datatype color = White | Gray | Black

datatype dfs = OutOfFuel | Found "string list" | Done "string \<Rightarrow> color" "string list"

definition id_before :: "string \<Rightarrow> string \<Rightarrow> bool" where
  "id_before a b \<longleftrightarrow> a < b"

definition neighbors :: "deps \<Rightarrow> string \<Rightarrow> string list" where
  "neighbors deps i = go_sort id_before (case mget deps i of None \<Rightarrow> [] | Some ds \<Rightarrow> ds)"

text \<open>
  The body of \<open>visit(id)\<close> from its loop over the neighbours on; entering a white neighbour
  colours it gray and pushes it, as the first two lines of \<open>visit\<close> do.
\<close>

fun dfs_loop :: "nat \<Rightarrow> deps \<Rightarrow> string \<Rightarrow> string list \<Rightarrow> (string \<Rightarrow> color) \<Rightarrow> string list \<Rightarrow> dfs" where
  "dfs_loop fuel deps i [] col stack = Done (col(i := Black)) (butlast stack)"
| "dfs_loop fuel deps i (dep # rest) col stack =
    (if dep = i \<or> mget deps dep = None then dfs_loop fuel deps i rest col stack
     else (case col dep of
         White \<Rightarrow> (case fuel of
             0 \<Rightarrow> OutOfFuel
           | Suc f \<Rightarrow> (case dfs_loop f deps dep (neighbors deps dep) (col(dep := Gray)) (stack @ [dep]) of
               Done col' stack' \<Rightarrow> dfs_loop fuel deps i rest col' stack'
             | r \<Rightarrow> r))
       | Gray \<Rightarrow> if dep \<in> set stack then Found (dropWhile (\<lambda>x. x \<noteq> dep) stack)
                else dfs_loop fuel deps i rest col stack
       | Black \<Rightarrow> dfs_loop fuel deps i rest col stack))"

fun dfs_roots :: "deps \<Rightarrow> string list \<Rightarrow> (string \<Rightarrow> color) \<Rightarrow> string list \<Rightarrow> dfs" where
  "dfs_roots deps [] col stack = Done col stack"
| "dfs_roots deps (i # is) col stack =
    (if col i = White then
       (case dfs_loop (length deps) deps i (neighbors deps i) (col(i := Gray)) (stack @ [i]) of
          Done col' stack' \<Rightarrow> dfs_roots deps is col' stack'
        | r \<Rightarrow> r)
     else dfs_roots deps is col stack)"

definition dfs_run :: "deps \<Rightarrow> dfs" where
  "dfs_run deps = dfs_roots deps (go_sort id_before (map fst deps)) (\<lambda>_. White) []"

definition dependencyCycle :: "deps \<Rightarrow> string list" where
  "dependencyCycle deps = (case dfs_run deps of Found c \<Rightarrow> c | _ \<Rightarrow> [])"

section \<open>The problems reported\<close>

definition dep_problem :: "(string \<Rightarrow> string) \<Rightarrow> deps \<Rightarrow> string \<Rightarrow> string \<Rightarrow> string list" where
  "dep_problem quote deps i dep =
    (if dep = [] then [''task '' @ quote i @ '' has an empty dependency'']
     else if dep = i then [''task '' @ quote i @ '' depends on itself'']
     else if mget deps dep = None then [''task '' @ quote i @ '' depends on unknown task '' @ quote dep]
     else [])"

text \<open>The messages the returned error joins, sorted; the empty list is the nil error.\<close>

definition ValidateDependencies :: "(string \<Rightarrow> string) \<Rightarrow> TraceSnapshot \<Rightarrow> TaskSpec list \<Rightarrow> string list" where
  "ValidateDependencies quote trace specs =
    (let deps = deps_of trace specs;
         problems = concat (map (\<lambda>(i, ds). concat (map (dep_problem quote deps i) ds)) deps);
         cycle = dependencyCycle deps
     in go_sort id_before (problems @
          (if cycle \<noteq> []
           then [''tasks '' @ join '', '' (map quote cycle) @ '' form a dependency cycle''] else [])))"

section \<open>Edges and cycles\<close>

definition edge :: "deps \<Rightarrow> string \<Rightarrow> string \<Rightarrow> bool" where
  "edge deps a b \<longleftrightarrow> (\<exists>ds. mget deps a = Some ds \<and> b \<in> set ds) \<and> b \<noteq> a \<and> mget deps b \<noteq> None"

lemma edge_neighbors: "edge deps a b \<longleftrightarrow> b \<in> set (neighbors deps a) \<and> b \<noteq> a \<and> mget deps b \<noteq> None"
  by (cases "mget deps a") (auto simp: edge_def neighbors_def)

text \<open>Consecutive ids depend on one another.\<close>

fun dep_path :: "deps \<Rightarrow> string list \<Rightarrow> bool" where
  "dep_path deps [] = True"
| "dep_path deps [x] = True"
| "dep_path deps (x # y # xs) \<longleftrightarrow> edge deps x y \<and> dep_path deps (y # xs)"

definition dep_cycle :: "deps \<Rightarrow> string list \<Rightarrow> bool" where
  "dep_cycle deps c \<longleftrightarrow> c \<noteq> [] \<and> distinct c \<and> dep_path deps c \<and> edge deps (last c) (hd c)"

lemma dep_path_snoc: "dep_path deps (xs @ [x]) \<Longrightarrow> edge deps x y \<Longrightarrow> dep_path deps (xs @ [x, y])"
  by (induction deps xs rule: dep_path.induct) auto

lemma dep_path_drop: "dep_path deps (xs @ ys) \<Longrightarrow> dep_path deps ys"
proof (induction xs)
  case (Cons x xs)
  then show ?case by (cases "xs @ ys") auto
qed simp

lemma cycle_of_stack:
  assumes "dep_path deps (ss @ [i])" "distinct (ss @ [i])" "dep \<in> set (ss @ [i])" "edge deps i dep"
  shows "dep_cycle deps (dropWhile (\<lambda>x. x \<noteq> dep) (ss @ [i]))"
proof -
  let ?c = "dropWhile (\<lambda>x. x \<noteq> dep) (ss @ [i])"
  have split: "ss @ [i] = takeWhile (\<lambda>x. x \<noteq> dep) (ss @ [i]) @ ?c" by simp
  have ne: "?c \<noteq> []" using assms(3) by (simp add: dropWhile_eq_Nil_conv) blast
  have "hd ?c = dep" using hd_dropWhile [OF ne] by simp
  moreover have "last ?c = i" using split ne by (metis last_appendR last_snoc)
  moreover have "dep_path deps ?c" using assms(1) split dep_path_drop by metis
  moreover have "distinct ?c" using assms(2) by (rule distinct_dropWhile)
  ultimately show ?thesis using assms(4) ne by (simp add: dep_cycle_def)
qed

section \<open>What the search keeps\<close>

text \<open>Black tasks are finished: they reach only black ones, and no cycle runs through them.\<close>

definition black :: "(string \<Rightarrow> color) \<Rightarrow> string set" where
  "black col = {x. col x = Black}"

definition black_ok :: "deps \<Rightarrow> (string \<Rightarrow> color) \<Rightarrow> bool" where
  "black_ok deps col \<longleftrightarrow> (\<forall>x y. col x = Black \<longrightarrow> edge deps x y \<longrightarrow> col y = Black)
     \<and> acyclic {(x, y). edge deps x y \<and> col x = Black}"

definition stack_ok :: "deps \<Rightarrow> (string \<Rightarrow> color) \<Rightarrow> string list \<Rightarrow> bool" where
  "stack_ok deps col stack \<longleftrightarrow> dep_path deps stack \<and> distinct stack \<and> (\<forall>x. col x = Gray \<longleftrightarrow> x \<in> set stack)"

definition whites :: "deps \<Rightarrow> (string \<Rightarrow> color) \<Rightarrow> nat" where
  "whites deps col = card {x \<in> fst ` set deps. col x = White}"

lemma whites_gray:
  assumes "mget deps x \<noteq> None" "col x = White"
  shows "whites deps col = Suc (whites deps (col(x := Gray)))"
proof -
  have "{y \<in> fst ` set deps. col y = White} = insert x {y \<in> fst ` set deps. (col(x := Gray)) y = White}"
    using assms by (auto simp: map_of_eq_None_iff)
  then show ?thesis by (simp add: whites_def)
qed

lemma whites_mono: "(\<And>x. col' x = White \<Longrightarrow> col x = White) \<Longrightarrow> whites deps col' \<le> whites deps col"
  unfolding whites_def by (rule card_mono) auto

lemma black_ok_gray: "black_ok deps col \<Longrightarrow> col i = White \<Longrightarrow> black_ok deps (col(i := Gray))"
proof -
  assume a: "black_ok deps col" "col i = White"
  then have "{(x, y). edge deps x y \<and> (col(i := Gray)) x = Black} = {(x, y). edge deps x y \<and> col x = Black}"
    by (auto split: if_splits)
  with a show ?thesis unfolding black_ok_def by (auto split: if_splits)
qed

text \<open>Blackening a task whose successors are all black keeps \<open>black_ok\<close>.\<close>

lemma black_ok_finish:
  assumes "black_ok deps col" "col i \<noteq> Black" "\<And>y. edge deps i y \<Longrightarrow> col y = Black"
  shows "black_ok deps (col(i := Black))"
proof -
  let ?r = "{(x, y). edge deps x y \<and> col x = Black}" and ?r' = "{(x, y). edge deps x y \<and> (col(i := Black)) x = Black}"
  have r': "?r' = ?r \<union> {(i, y) | y. edge deps i y}" using assms(2) by (auto split: if_splits)
  have into: "b \<noteq> i" if "(a, b) \<in> ?r'\<^sup>+" for a b
    using that
  proof (cases rule: tranclE)
    case base
    then show ?thesis using assms r' by (auto simp: black_ok_def edge_def)
  next
    case (step c)
    then show ?thesis using assms r' by (auto simp: black_ok_def edge_def)
  qed
  have old: "(a, b) \<in> ?r\<^sup>+" if "(a, b) \<in> ?r'\<^sup>+" "a \<noteq> i" for a b
    using that
  proof (induction rule: trancl_induct)
    case (base y)
    then show ?case using r' by auto
  next
    case (step y z)
    have "y \<noteq> i" using into [OF step.hyps(1)] .
    then have "(y, z) \<in> ?r" using step.hyps(2) r' by auto
    with step show ?case by (meson trancl_into_trancl)
  qed
  have "acyclic ?r'" unfolding acyclic_def
  proof (intro allI notI)
    fix x assume c: "(x, x) \<in> ?r'\<^sup>+"
    with into have "x \<noteq> i" by blast
    with old [OF c] assms(1) show False by (auto simp: black_ok_def acyclic_def)
  qed
  with assms show ?thesis by (auto simp: black_ok_def)
qed

text \<open>What one call does to the colours it was given.\<close>

definition dfs_post :: "deps \<Rightarrow> string \<Rightarrow> (string \<Rightarrow> color) \<Rightarrow> string list \<Rightarrow> dfs \<Rightarrow> bool" where
  "dfs_post deps i col stack r \<longleftrightarrow> (case r of
     OutOfFuel \<Rightarrow> False
   | Found c \<Rightarrow> dep_cycle deps c
   | Done col' stack' \<Rightarrow> stack' = butlast stack \<and> black_ok deps col' \<and> col' i = Black
       \<and> (\<forall>x. x \<noteq> i \<longrightarrow> col x \<noteq> White \<longrightarrow> col' x = col x)
       \<and> (\<forall>x. x \<noteq> i \<longrightarrow> col x = White \<longrightarrow> col' x \<noteq> Gray))"

lemma stack_ok_push:
  assumes "stack_ok deps col (ss @ [i])" "edge deps i dep" "col dep = White"
  shows "stack_ok deps (col(dep := Gray)) (ss @ [i] @ [dep])"
proof -
  have "dep \<noteq> i" using assms(2) by (simp add: edge_def)
  with assms dep_path_snoc [of deps ss i dep] show ?thesis by (auto simp: stack_ok_def)
qed

lemma stack_ok_same:
  "stack_ok deps col stack \<Longrightarrow> (\<And>x. col' x = Gray \<longleftrightarrow> col x = Gray) \<Longrightarrow> stack_ok deps col' stack"
  by (simp add: stack_ok_def)

lemma dfs_loop_post:
  assumes "stack = ss @ [i]" "stack_ok deps col stack" "black_ok deps col" "whites deps col \<le> fuel"
    and "\<And>y. edge deps i y \<Longrightarrow> y \<notin> set ns \<Longrightarrow> col y = Black"
    and "set ns \<subseteq> set (neighbors deps i)"
  shows "dfs_post deps i col stack (dfs_loop fuel deps i ns col stack)"
  using assms
proof (induction fuel deps i ns col stack arbitrary: ss rule: dfs_loop.induct)
  case (1 fuel deps i col stack)
  have "col i = Gray" using 1 by (simp add: stack_ok_def)
  with 1 black_ok_finish [of deps col i] show ?case by (simp add: dfs_post_def)
next
  case (2 fuel deps i dep rest col stack)
  note IH_skip = 2(1) and IH_in = 2(2) and IH_rest = 2(3) and IH_gray = 2(4) and IH_black = 2(5)
  note pre = 2(6-11)
  show ?case
  proof (cases "dep = i \<or> mget deps dep = None")
    case True
    have "col y = Black" if "edge deps i y" "y \<notin> set rest" for y
    proof (rule pre(5) [OF that(1)])
      have "y \<noteq> dep" using True that(1) by (auto simp: edge_def)
      with that(2) show "y \<notin> set (dep # rest)" by simp
    qed
    with IH_skip [OF True] pre True show ?thesis by simp
  next
    case False
    then have e: "edge deps i dep" using pre(6) by (auto simp: edge_neighbors)
    show ?thesis
    proof (cases "col dep")
      case Black
      then have "edge deps i y \<Longrightarrow> y \<notin> set rest \<Longrightarrow> col y = Black" for y using pre(5) [of y] by auto
      with IH_black [OF False Black] pre False Black show ?thesis by simp
    next
      case Gray
      then have "dep \<in> set stack" using pre(2) by (simp add: stack_ok_def)
      moreover have "dep_cycle deps (dropWhile (\<lambda>x. x \<noteq> dep) stack)"
        using cycle_of_stack [of deps ss i dep] pre(1,2) e \<open>dep \<in> set stack\<close> by (simp add: stack_ok_def)
      ultimately show ?thesis using False Gray by (auto simp: dfs_post_def)
    next
      case White
      have w: "whites deps col = Suc (whites deps (col(dep := Gray)))"
        using whites_gray False White by blast
      then obtain f where f: "fuel = Suc f" using pre(4) by (cases fuel) simp_all
      let ?in = "dfs_loop f deps dep (neighbors deps dep) (col(dep := Gray)) (stack @ [dep])"
      have gray_ok: "black_ok deps (col(dep := Gray))"
        using pre(3) White by (rule black_ok_gray)
      have inner: "dfs_post deps dep (col(dep := Gray)) (stack @ [dep]) ?in"
      proof (rule IH_in [OF False White f, where ss = stack])
        show "stack_ok deps (col(dep := Gray)) (stack @ [dep])"
          using pre(1,2) e White stack_ok_push [of deps col ss i dep] by simp
        show "whites deps (col(dep := Gray)) \<le> f" using w f pre(4) by simp
      qed (use gray_ok in \<open>simp_all add: edge_neighbors del: fun_upd_apply\<close>)
      show ?thesis
      proof (cases ?in)
        case OutOfFuel
        with inner show ?thesis by (simp add: dfs_post_def)
      next
        case (Found c)
        with inner False White f show ?thesis by (auto simp: dfs_post_def)
      next
        case (Done col' stack')
        with inner have d: "stack' = stack" "black_ok deps col'" "col' dep = Black"
          "\<And>x. x \<noteq> dep \<Longrightarrow> col x \<noteq> White \<Longrightarrow> col' x = col x"
          "\<And>x. x \<noteq> dep \<Longrightarrow> col x = White \<Longrightarrow> col' x \<noteq> Gray"
          by (auto simp: dfs_post_def)
        have gray: "col' x = Gray \<longleftrightarrow> col x = Gray" for x
          using d(3) d(4) [of x] d(5) [of x] White by (cases "x = dep"; cases "col x") auto
        have "whites deps col' \<le> fuel"
          using whites_mono [of col' col deps] d(3,4) pre(4)
          by (metis White color.distinct(1,3) color.exhaust le_trans)
        moreover have "edge deps i y \<Longrightarrow> y \<notin> set rest \<Longrightarrow> col' y = Black" for y
          using pre(5) [of y] d(3) d(4) [of y] by (cases "y = dep") auto
        ultimately have rest: "dfs_post deps i col' stack (dfs_loop fuel deps i rest col' stack)"
          using IH_rest [OF False White f Done, of ss] d(1,2) pre(1,6) stack_ok_same [OF pre(2) gray] by simp
        have "dep \<noteq> i" using False by simp
        then have keep: "dfs_post deps i col stack r" if "dfs_post deps i col' stack r" for r
          using that d(3-5) White unfolding dfs_post_def
          by (cases r) (auto, (metis color.exhaust color.distinct)+)
        show ?thesis using keep [OF rest] False White f Done d(1) by auto
      qed
    qed
  qed
qed

section \<open>The verdict of the search\<close>

lemma whites_le: "whites deps col \<le> length deps"
proof -
  have "whites deps col \<le> card (fst ` set deps)" unfolding whites_def by (rule card_mono) auto
  also have "\<dots> \<le> length deps" by (metis card_image_le card_length finite_set le_trans)
  finally show ?thesis .
qed

lemma dfs_roots_post:
  assumes "black_ok deps col" "\<And>x. col x \<noteq> Gray" "\<And>x. x \<in> fst ` set deps \<Longrightarrow> x \<notin> set is \<Longrightarrow> col x = Black"
    "set is \<subseteq> fst ` set deps"
  shows "case dfs_roots deps is col [] of
      OutOfFuel \<Rightarrow> False
    | Found c \<Rightarrow> dep_cycle deps c
    | Done col' stack' \<Rightarrow> black_ok deps col' \<and> (\<forall>x \<in> fst ` set deps. col' x = Black)"
  using assms
proof (induction "is" arbitrary: col)
  case (Cons i "is")
  show ?case
  proof (cases "col i = White")
    case False
    then have "col i = Black" using Cons.prems(2) [of i] by (cases "col i") auto
    then have "col x = Black" if "x \<in> fst ` set deps" "x \<notin> set is" for x
      using that Cons.prems(3) [of x] by (cases "x = i") auto
    with False Cons.prems Cons.IH [of col] show ?thesis by simp
  next
    case True
    have "i \<in> fst ` set deps" using Cons.prems(4) by simp
    have ok: "black_ok deps (col(i := Gray))"
      using Cons.prems(1) True by (rule black_ok_gray)
    have st: "stack_ok deps (col(i := Gray)) ([] @ [i])" using Cons.prems(2) by (simp add: stack_ok_def)
    have post: "dfs_post deps i (col(i := Gray)) [i] (dfs_loop (length deps) deps i (neighbors deps i) (col(i := Gray)) [i])"
      by (rule dfs_loop_post [OF _ st [simplified] ok whites_le]) (simp_all add: edge_neighbors)
    show ?thesis
    proof (cases "dfs_loop (length deps) deps i (neighbors deps i) (col(i := Gray)) [i]")
      case (Done col' stack')
      with post have d: "stack' = []" "black_ok deps col'" "col' i = Black"
        "\<And>x. x \<noteq> i \<Longrightarrow> col x \<noteq> White \<Longrightarrow> col' x = col x" "\<And>x. x \<noteq> i \<Longrightarrow> col x = White \<Longrightarrow> col' x \<noteq> Gray"
        by (auto simp: dfs_post_def)
      have "col' x \<noteq> Gray" for x using d(3) d(4) [of x] d(5) [of x] Cons.prems(2) [of x] by (cases "x = i"; cases "col x") auto
      moreover have "col' x = Black" if "x \<in> fst ` set deps" "x \<notin> set is" for x
        using that d(3) d(4) [of x] Cons.prems(3) [of x] by (cases "x = i") auto
      ultimately show ?thesis using Cons.IH [of col'] d(1,2) Cons.prems(4) True Done by simp
    qed (use post True in \<open>simp_all add: dfs_post_def\<close>)
  qed
qed auto

lemma dfs_run_post:
  "case dfs_run deps of
      OutOfFuel \<Rightarrow> False
    | Found c \<Rightarrow> dep_cycle deps c
    | Done col' stack' \<Rightarrow> black_ok deps col' \<and> (\<forall>x \<in> fst ` set deps. col' x = Black)"
  unfolding dfs_run_def
  by (rule dfs_roots_post) (simp_all add: black_ok_def acyclic_def)

text \<open>A cycle gives an endless walk, so a graph that is all black has none.\<close>

lemma dep_path_trancl:
  "dep_path deps (x # xs) \<Longrightarrow> (x, last (x # xs)) \<in> {(a, b). edge deps a b}\<^sup>*"
proof (induction xs arbitrary: x)
  case (Cons y ys)
  then have "(x, y) \<in> {(a, b). edge deps a b}" "(y, last (y # ys)) \<in> {(a, b). edge deps a b}\<^sup>*" by simp_all
  then show ?case by (metis converse_rtrancl_into_rtrancl last_ConsR list.distinct(1))
qed simp

lemma dep_cycle_trancl: "dep_cycle deps c \<Longrightarrow> \<not> acyclic {(a, b). edge deps a b}"
proof -
  assume c: "dep_cycle deps c"
  then obtain x xs where "c = x # xs" by (cases c) (auto simp: dep_cycle_def)
  with c have "(x, last c) \<in> {(a, b). edge deps a b}\<^sup>*" "(last c, x) \<in> {(a, b). edge deps a b}"
    using dep_path_trancl [of deps x xs] by (simp_all add: dep_cycle_def)
  then have "(x, x) \<in> {(a, b). edge deps a b}\<^sup>+" by (rule rtrancl_into_trancl1)
  then show ?thesis by (auto simp: acyclic_def)
qed

lemma edge_known: "edge deps a b \<Longrightarrow> a \<in> fst ` set deps"
  by (force simp: edge_def dest: map_of_SomeD)

lemma edge_known': "edge deps a b \<Longrightarrow> b \<in> fst ` set deps"
  by (simp add: edge_def map_of_eq_None_iff)

lemma dependencyCycle_sound: "dependencyCycle deps \<noteq> [] \<Longrightarrow> dep_cycle deps (dependencyCycle deps)"
  using dfs_run_post [of deps] by (simp add: dependencyCycle_def split: dfs.splits)

lemma dependencyCycle_complete: "dependencyCycle deps = [] \<longleftrightarrow> acyclic {(a, b). edge deps a b}"
proof
  assume "acyclic {(a, b). edge deps a b}"
  then show "dependencyCycle deps = []" using dependencyCycle_sound dep_cycle_trancl by blast
next
  assume none: "dependencyCycle deps = []"
  show "acyclic {(a, b). edge deps a b}"
  proof (cases "dfs_run deps")
    case (Done col' stack')
    with dfs_run_post [of deps] have "black_ok deps col' \<and> (\<forall>x \<in> fst ` set deps. col' x = Black)" by simp
    then have "acyclic {(x, y). edge deps x y \<and> col' x = Black}"
      "{(a, b). edge deps a b} = {(x, y). edge deps x y \<and> col' x = Black}"
      by (auto simp: black_ok_def dest: edge_known)
    then show ?thesis by simp
  next
    case (Found c)
    with none dfs_run_post [of deps] show ?thesis by (simp add: dependencyCycle_def dep_cycle_def)
  next
    case OutOfFuel
    with dfs_run_post [of deps] show ?thesis by simp
  qed
qed

text \<open>No message at all: every dependency is a known other task, and there is no cycle.\<close>

lemma ValidateDependencies_nil:
  "ValidateDependencies quote trace specs = [] \<longleftrightarrow>
    (let deps = deps_of trace specs in
      (\<forall>(i, ds) \<in> set deps. \<forall>d \<in> set ds. d \<noteq> [] \<and> d \<noteq> i \<and> mget deps d \<noteq> None)
      \<and> acyclic {(a, b). edge deps a b})"
proof -
  have "dep_problem quote deps i d = [] \<longleftrightarrow> d \<noteq> [] \<and> d \<noteq> i \<and> mget deps d \<noteq> None" for deps i d
    by (simp add: dep_problem_def)
  then show ?thesis
    unfolding ValidateDependencies_def Let_def dependencyCycle_complete [symmetric]
    by (simp add: case_prod_beta del: not_None_eq)
qed

lemma add_spec_mget:
  "mget (add_spec trace spec deps) i =
    (if sp_TaskID spec = i \<and> i \<noteq> [] \<and> mget (Tasks trace) i = None then Some (sp_DependsOn spec) else mget deps i)"
  by (auto simp: add_spec_def)

lemma keys_ok_deps_of: "trace_wf trace \<Longrightarrow> keys_ok (deps_of trace specs)"
proof -
  have "keys_ok (fold (add_spec trace) specs m)" if "keys_ok m" for m
    using that by (induction specs arbitrary: m) (simp_all add: add_spec_def)
  then show "trace_wf trace \<Longrightarrow> keys_ok (deps_of trace specs)"
    by (simp add: deps_of_def trace_wf_def tasks_wf_def)
qed

section \<open>A validated trail is not parked\<close>

lemma mget_deps_of_none: "mget (deps_of trace []) i = map_option t_DependsOn (mget (Tasks trace) i)"
  by (simp add: deps_of_def mget_map_snd)

lemma dep_listed: "mget (deps_of trace []) i = Some ds \<Longrightarrow> (i, ds) \<in> set (deps_of trace [])"
  by (rule map_of_SomeD)

text \<open>
  When every task is planned or completed and the dependencies pass the check, a planned
  task with no planned dependency exists: the dependency relation on ids is acyclic and finite.
\<close>

lemma planned_minimal:
  assumes ok: "ValidateDependencies quote trace [] = []"
    and p: "mget (Tasks trace) i = Some t" "t_Status t = TaskStatusPlanned"
  shows "\<exists>j u. mget (Tasks trace) j = Some u \<and> t_Status u = TaskStatusPlanned
    \<and> (\<forall>d \<in> set (t_DependsOn u). \<exists>v. mget (Tasks trace) d = Some v \<and> t_Status v \<noteq> TaskStatusPlanned)"
proof -
  let ?d = "deps_of trace []" and ?r = "{(a, b). edge (deps_of trace []) a b}"
  have acyc: "acyclic ?r" and known: "\<forall>(i, ds) \<in> set ?d. \<forall>d \<in> set ds. d \<noteq> [] \<and> d \<noteq> i \<and> mget ?d d \<noteq> None"
    using ok unfolding ValidateDependencies_nil by (simp_all add: Let_def)
  have "?r \<subseteq> fst ` set ?d \<times> fst ` set ?d"
    using edge_known edge_known' by blast
  then have "finite ?r" by (rule finite_subset) simp
  then have wf: "wf (?r\<inverse>)" using acyc by (rule finite_acyclic_wf_converse)
  let ?P = "{j. \<exists>u. mget (Tasks trace) j = Some u \<and> t_Status u = TaskStatusPlanned}"
  have "i \<in> ?P" using p by blast
  from wf [unfolded wf_eq_minimal, rule_format, OF this]
  obtain j where j: "j \<in> ?P" and min: "\<And>k. (k, j) \<in> ?r\<inverse> \<Longrightarrow> k \<notin> ?P" by blast
  obtain u where u: "mget (Tasks trace) j = Some u" "t_Status u = TaskStatusPlanned" using j by blast
  have "\<exists>v. mget (Tasks trace) d = Some v \<and> t_Status v \<noteq> TaskStatusPlanned" if d: "d \<in> set (t_DependsOn u)" for d
  proof -
    have ds: "mget ?d j = Some (t_DependsOn u)" using u by (simp add: mget_deps_of_none)
    have k: "d \<noteq> j" "mget ?d d \<noteq> None" using known dep_listed [OF ds] d by blast+
    then have "edge ?d j d" using ds d by (simp add: edge_def)
    then have "d \<notin> ?P" using min [of d] by simp
    moreover obtain v where "mget (Tasks trace) d = Some v" using k(2) by (auto simp: mget_deps_of_none)
    ultimately show ?thesis by blast
  qed
  with u show ?thesis by blast
qed

lemma validated_progress:
  assumes wf: "trace_wf trace" and ok: "ValidateDependencies quote trace [] = []"
    and st: "\<forall>t \<in> set (task_list trace). t_Status t = TaskStatusCompleted
      \<or> t_Status t = TaskStatusPlanned \<and> \<not> IsMergeTask t \<and> \<not> IsClosingTask t"
    and p: "\<exists>t \<in> set (task_list trace). t_Status t = TaskStatusPlanned"
  shows "FirstEligiblePlanned trace \<noteq> None"
proof -
  have in_list: "t \<in> set (task_list trace)" if "mget (Tasks trace) k = Some t" for k t
    using mget_mvals [OF that] by simp
  obtain t where "mget (Tasks trace) (t_TaskID t) = Some t" "t_Status t = TaskStatusPlanned"
    using p trace_wf_task_list [OF wf] by blast
  from planned_minimal [OF ok this] obtain j u where u: "mget (Tasks trace) j = Some u"
    "t_Status u = TaskStatusPlanned" and d: "\<forall>d \<in> set (t_DependsOn u).
      \<exists>v. mget (Tasks trace) d = Some v \<and> t_Status v \<noteq> TaskStatusPlanned" by blast
  have "\<exists>v. mget (Tasks trace) d = Some v \<and> t_Status v = TaskStatusCompleted" if "d \<in> set (t_DependsOn u)" for d
    using d that st in_list by blast
  moreover have "\<not> IsMergeTask u" "\<not> IsClosingTask u" using st in_list [OF u(1)] u(2) by fastforce+
  ultimately have "eligible trace u"
    using u(2) by (simp add: eligible_def allDepsCompleted_def list_all_iff) fastforce
  then show ?thesis using in_list [OF u(1)] by (auto simp: FirstEligiblePlanned_None)
qed

end
