(* ===== verification/Samples.thy ===== *)
theory Samples
  imports LedgerStore LedgerDeps ValidateLedger
begin

text \<open>
  A small trail, as the events that build it: a plan of two tasks, the second depending on
  the first, a kick, a completion, honey, a deferral, a kill. The theorems of the root theory
  are applied to these.
\<close>

definition sample_event :: "EventType \<Rightarrow> string \<Rightarrow> time \<Rightarrow> (string \<times> json) list \<Rightarrow> Event" where
  "sample_event ty agent at payload =
    \<lparr>AttemptID = [], ConfigRef = [], ConfigRevision = 0, InitialCodeBaseSHA = [],
     InitialCodeBaseDirty = False, Purpose = PurposeUnset, AnalysisOf = [],
     ev_ProtocolVersion = ''1'', ev_ID = ''e'', ev_TraceID = ''t'', ev_AgentID = agent, ev_Seq = 0,
     ev_Type = ty, ev_CreatedAt = at, ev_Payload = RawJson (JObj payload)\<rparr>"

definition plan_event :: Event where
  "plan_event = sample_event EventInsight ''planner'' 10
    [(''kind'', JStr ''task.plan''),
     (''tasks'', JArr [JObj [(''taskId'', JStr ''a'')],
                       JObj [(''taskId'', JStr ''b''), (''dependsOn'', JArr [JStr ''a''])]])]"

definition ready_event :: Event where
  "ready_event = sample_event EventSignal ''operator'' 20
    [(''kind'', JStr ''task.ready''), (''taskId'', JStr ''a'')]"

definition done_event :: Event where
  "done_event = sample_event EventVerification ''builder'' 30
    [(''kind'', JStr ''task.completed''), (''taskId'', JStr ''a'')]"

definition honey_event :: "string \<Rightarrow> int \<Rightarrow> Event" where
  "honey_event kind n = sample_event EventSignal ''operator'' 40 [(''kind'', JStr kind), (''amount'', JInt n)]"

definition kill_event :: Event where
  "kill_event = sample_event EventSignal ''operator'' 50 [(''kind'', JStr ''system.kill'')]"

text \<open>The snapshot after a list of events; the samples never fail.\<close>

definition after :: "Event list \<Rightarrow> TraceSnapshot" where
  "after evs = (case ApplyEvents 0 (emptyTrace ''t'') evs of Inr trace \<Rightarrow> trace | Inl _ \<Rightarrow> emptyTrace ''t'')"

lemma after_ok: "ledger_ok (after evs)"
  using ok_inv.events [of "emptyTrace ''t''" 0 evs] by (auto simp: after_def split: sum.splits)

definition applied :: "TraceSnapshot \<Rightarrow> Event \<Rightarrow> ApplyResult" where
  "applied trace ev = projr (ApplyEvent 0 trace ev)"

lemma applied_Inr: "\<not> isl (ApplyEvent 0 trace ev) \<Longrightarrow> ApplyEvent 0 trace ev = Inr (applied trace ev)"
  by (simp add: applied_def)

definition sample_deferral :: PendingDispatch where
  "sample_deferral = \<lparr>pd_ID = ''task:b:bee'', pd_Kind = PendingDispatchTask, pd_TaskID = ''b'',
     pd_Bee = ''bee'', pd_SourceEventID = [], pd_Reason = HoneyReserveExhaustedSummary,
     pd_Status = PendingDispatchStatusUnset, pd_Diagnostic = [], pd_CreatedAt = 0, pd_UpdatedAt = 0,
     pd_Purpose = PurposeUnset, pd_AnalysisOf = []\<rparr>"

definition deferred_trace :: TraceSnapshot where
  "deferred_trace = fst (DeferPendingDispatch 35 (Some ''p'') (after [plan_event, ready_event, done_event]) sample_deferral)"

definition closing_event :: Event where
  "closing_event = sample_event EventInsight ''runtime'' 10
    [(''kind'', JStr ''task.plan''),
     (''tasks'', JArr [JObj [(''taskId'', JStr ''closing-1''), (''phase'', JStr ''closing'')]])]"

lemma sample_runs:
  "\<not> isl (ApplyEvent 0 (after []) plan_event)"
  "\<not> isl (ApplyEvent 0 (after [plan_event]) ready_event)"
  "\<not> isl (ApplyEvent 0 (after [plan_event, ready_event]) done_event)"
  "\<not> isl (ApplyEvent 0 (after [plan_event]) kill_event)"
  "\<not> isl (ApplyEvent 0 (after [plan_event]) (honey_event ''energy.add'' 5))"
  "\<not> isl (ApplyEvent 0 deferred_trace (honey_event ''energy.stipend'' 5))"
  by code_simp+

lemma sample_values:
  "map t_TaskID (ar_Ready (applied (after [plan_event, ready_event]) done_event)) = [''b'']"
  "EnergyPause deferred_trace \<noteq> None"
  "ActivePendingCount deferred_trace = 1"
  "Killed (ar_Trace (applied (after [plan_event]) kill_event))"
  "\<not> Killed (after [plan_event])"
  "snd (PromoteFirstEligible (after [plan_event]) 20) \<noteq> None"
  "ar_Changed (applied (after [plan_event, ready_event]) done_event)"
  "WorkRevision (after []) = 0"
  by code_simp+

lemma sample_run: "\<not> isl (ApplyEvent 0 (emptyTrace ''t'') plan_event)"
  using sample_runs(1) by (simp add: after_def)

lemma sample_kill:
  "\<not> isl (ApplyEvent 0 (ar_Trace (applied (emptyTrace ''t'') plan_event)) kill_event)"
  "Killed (ar_Trace (applied (ar_Trace (applied (emptyTrace ''t'') plan_event)) kill_event))"
  "\<not> isl (ApplyEvent 0 (ar_Trace (applied (ar_Trace (applied (emptyTrace ''t'') plan_event)) kill_event))
      done_event)"
  by code_simp+

lemma sample_task_value:
  "case mget (Tasks (after [plan_event])) ''b'' of None \<Rightarrow> False
   | Some t \<Rightarrow> t_Status t = TaskStatusPlanned \<and> t_TaskID t = ''b'' \<and> t_DependsOn t = [''a'']
       \<and> \<not> IsMergeTask t \<and> \<not> IsAnalysisTask t"
  by code_simp

lemma sample_task:
  "\<exists>t. mget (Tasks (after [plan_event])) ''b'' = Some t \<and> t_Status t = TaskStatusPlanned
     \<and> t_Status t \<noteq> TaskStatusUnset \<and> t_TaskID t = ''b'' \<and> t_DependsOn t = [''a'']
     \<and> \<not> IsMergeTask t \<and> \<not> IsAnalysisTask t"
  using sample_task_value by (simp split: option.splits)

lemma sample_closing_value:
  "\<not> isl (ApplyEvent 0 (after [closing_event]) kill_event)"
  "case mget (Tasks (ar_Trace (applied (after [closing_event]) kill_event))) ''closing-1'' of
     None \<Rightarrow> False | Some t \<Rightarrow> IsClosingTask t"
  by code_simp+

lemma sample_closing:
  "\<not> isl (ApplyEvent 0 (after [closing_event]) kill_event)"
  "\<exists>t. mget (Tasks (ar_Trace (applied (after [closing_event]) kill_event))) ''closing-1'' = Some t \<and> IsClosingTask t"
  using sample_closing_value by (simp_all split: option.splits)

lemma sample_energy:
  "energy_effect (honey_event ''energy.add'' 5) = Adds 5"
  "EnergyRemaining (after [plan_event]) = 0"
  by code_simp+

lemma sample_overflow:
  "case ApplyEvents 0 (emptyTrace ''t'') [honey_event ''energy.add'' 9223372036854775807,
      honey_event ''energy.add'' 1] of
     Inl _ \<Rightarrow> False | Inr trace \<Rightarrow> EnergyRemaining trace = - 9223372036854775808"
  by code_simp

lemma deferred_trace_wf: "trace_wf deferred_trace"
  by (simp add: deferred_trace_def trace_wf_def ledger_ok_wf [OF after_ok, unfolded trace_wf_def])

lemma deferred_trace_queue: "queue_ok deferred_trace"
  by (simp add: deferred_trace_def Defer_queue_ok ledger_ok_queue [OF after_ok])

lemma sample_pause_value: "case EnergyPause deferred_trace of None \<Rightarrow> False | Some p \<Rightarrow> \<not> pa_Published p"
  by code_simp

lemma sample_pause: "\<exists>p. EnergyPause deferred_trace = Some p \<and> \<not> pa_Published p"
  using sample_pause_value by (simp split: option.splits)

lemma sample_rounds:
  "length (Tasks (after [closing_event])) = 1"
  "HighestClosingRound (after [closing_event]) = 1"
  by code_simp+

lemma sample_ulid: "MiniULID (unix_epoch + 7000000) (Some (1, 2)) = Some (hex_EncodeToString [0, 0, 0, 0, 0, 7, 1, 2])"
proof -
  have "id_ms (unix_epoch + 7000000) = 7" by (simp add: id_ms_def UnixMilli_def)
  then show ?thesis unfolding MiniULID_Some by (simp add: byte_at_def)
qed

section \<open>A bucket\<close>

text \<open>Values with their revision; a write needs the revision it read, and bumps it.\<close>

definition sample_put where
  "sample_put s k d r =
    (if (case mget s k of None \<Rightarrow> 0 | Some (_, r0) \<Rightarrow> Suc r0) = r then (mput k (d, r) s, PutOk) else (s, PutConflict))"

definition sample_kv :: "((string, TraceSnapshot \<times> nat) gomap, TraceSnapshot) kv" where
  "sample_kv = \<lparr>kv_Get = (\<lambda>s k. case mget s k of None \<Rightarrow> KvMissing | Some (d, r) \<Rightarrow> KvEntry d (Suc r)),
     kv_Create = (\<lambda>s k d. sample_put s k d 0), kv_Update = (\<lambda>s k d r. if mget s k = None then (s, PutConflict) else sample_put s k d r),
     snap_encode = Some, snap_decode = Some\<rparr>"

text \<open>Another process that allocates 7 honey between the first read and the first write.\<close>

definition sample_rival :: "nat \<Rightarrow> (string, TraceSnapshot \<times> nat) gomap \<Rightarrow> (string, TraceSnapshot \<times> nat) gomap" where
  "sample_rival n s =
    (if n = 30 \<and> mget s ''t'' = None
     then fst (kv_Create sample_kv s ''t'' (fst (EnsureEnergySeed 5 (Some ''b'') (emptyTrace ''t'') 7))) else s)"

lemma sample_kv_laws: "kv_laws sample_kv" "codec_ok sample_kv"
  by (auto simp: kv_laws_def codec_ok_def sample_kv_def sample_put_def split: option.splits if_splits)

lemma sample_kv_live: "kv_live sample_kv"
proof -
  have "snd (kv_Create sample_kv s k d) = PutOk" if "kv_Get sample_kv s k = KvMissing" for s k d
    using that by (cases "mget s k") (auto simp: sample_kv_def sample_put_def)
  moreover have "snd (kv_Update sample_kv s k d r) = PutOk" if "kv_Get sample_kv s k = KvEntry d0 r" for s k d d0 r
    using that by (cases "mget s k") (auto simp: sample_kv_def sample_put_def)
  ultimately show ?thesis by (simp add: kv_live_def sample_kv_def)
qed

lemma sample_rivals_ok: "rivals_ok sample_kv sample_rival"
  by (auto simp: rivals_ok_def sample_rival_def sample_kv_def sample_put_def split: option.splits if_splits)

lemma sample_race_value:
  "case snd (kv_EnsureEnergySeed sample_kv sample_rival 9 (Some ''c'') [] ''t'' 20) of
     Inr (seed, created) \<Rightarrow> \<not> created \<and> sd_Budget seed = 7 | Inl _ \<Rightarrow> False"
  by code_simp

lemma sample_race:
  "\<exists>s' r. kv_EnsureEnergySeed sample_kv sample_rival 9 (Some ''c'') [] ''t'' 20 = (s', Inr r) \<and> \<not> snd r"
  using sample_race_value
  by (cases "kv_EnsureEnergySeed sample_kv sample_rival 9 (Some ''c'') [] ''t'' 20") (auto split: sum.splits)

lemma sample_unseeded:
  "snd (kv_mutate sample_kv quiet (m_MarkEnergySeedPublished ''seed-1'') [] ''t'') = Inl (PublishError NothingRecorded)"
  by code_simp

lemma sample_same_store: "same_store sample_kv [] []"
  by (simp add: same_store_def sample_kv_def loadTrace_def mem_view_def)

definition refresh_event :: Event where
  "refresh_event = sample_event EventSignal ''operator'' 25
    [(''kind'', JStr ''task.ready''), (''taskId'', JStr ''a''), (''bee'', JStr ''swift'')]"

definition kicked_trace :: TraceSnapshot where
  "kicked_trace = after [plan_event, ready_event]"

definition kicked_task :: TaskSnapshot where
  "kicked_task = the (mget (Tasks kicked_trace) ''a'')"

lemma kicked_values:
  "TraceID kicked_trace = ''t''" "\<not> Killed kicked_trace" "PendingReady kicked_trace = None"
  "t_Status kicked_task = TaskStatusReady" "t_Bee kicked_task = []"
  by code_simp+

lemma kicked_task_stored: "mget (Tasks kicked_trace) ''a'' = Some kicked_task"
proof -
  have "mget (Tasks kicked_trace) ''a'' \<noteq> None" by code_simp
  then show ?thesis by (auto simp: kicked_task_def)
qed

lemma kicked_store: "same_store sample_kv [(''t'', (kicked_trace, 0))] [(''t'', kicked_trace)]"
  using kicked_values(1) by (simp add: same_store_def sample_kv_def loadTrace_def mem_view_def)

definition refresh_payload :: TaskReadyPayload where
  "refresh_payload = \<lparr>rd_Kind = ''task.ready'', rd_TaskID = ''a'', rd_Title = [], rd_Body = [], rd_Bee = ''swift'',
     rd_Sector = [], rd_Intent = [], rd_CueID = [], rd_CueInvocationID = []\<rparr>"

section \<open>Dependencies\<close>

lemma sample_deps:
  "ValidateDependencies (\<lambda>s. s) (after [plan_event]) [] = []"
  "list_all (\<lambda>t. t_Status t = TaskStatusCompleted
      \<or> t_Status t = TaskStatusPlanned \<and> \<not> IsMergeTask t \<and> \<not> IsClosingTask t) (task_list (after [plan_event]))"
  "list_ex (\<lambda>t. t_Status t = TaskStatusPlanned) (task_list (after [plan_event]))"
  by code_simp+

lemma sample_cycle: "dependencyCycle [(''a'', [''b'']), (''b'', [''a''])] \<noteq> []"
  by code_simp

section \<open>Event inputs\<close>

definition sample_host :: host where
  "sample_host = \<lparr>h_quote = (\<lambda>s. s), h_json_error = (\<lambda>_. ''error''), h_visit = (\<lambda>xs. xs),
     h_float64 = Some, h_CheckRefFormat = (\<lambda>_. None), h_DefaultBranch = (\<lambda>_. None)\<rparr>"

definition sample_input :: "(string \<times> json) list \<Rightarrow> EventInput" where
  "sample_input payload = \<lparr>in_TraceID = ''t'', in_TaskID = [], in_AgentID = ''bee-1'',
     in_Type = EventSignal, in_Payload = RawJson (JObj payload)\<rparr>"

abbreviation consume_members :: "(string \<times> json) list" where
  "consume_members \<equiv> [(''amount'', JInt 5), (''kind'', JStr ''energy.consume'')]"

definition built :: "(string \<times> json) list \<Rightarrow> Event" where
  "built payload = projr (ToEvent sample_host (Some ''0'') 9 (sample_input payload) ''bee-1'')"

lemma sample_built:
  "\<not> isl (ToEvent sample_host (Some ''0'') 9 (sample_input consume_members) ''bee-1'')"
  "case ApplyEvent 0 (emptyTrace ''t'') (built consume_members) of Inl InsufficientHoney \<Rightarrow> True | _ \<Rightarrow> False"
  "canonical (h_float64 sample_host) (JObj consume_members)"
  "get_str ''kind'' (JObj consume_members) \<in> set ledger_kinds"
  by code_simp+

text \<open>Two members whose names differ in case only: the validator reads the last one.\<close>

abbreviation two_kinds :: "(string \<times> json) list" where
  "two_kinds \<equiv> [(''kind'', JStr ''energy.stipend''), (''Kind'', JStr ''note''), (''amount'', JInt 0)]"

text \<open>A note whose member \<open>tasks\<close> has the wrong type for a plan.\<close>

abbreviation note_members :: "(string \<times> json) list" where
  "note_members \<equiv> [(''kind'', JStr ''context.note''), (''summary'', JStr ''s''), (''tasks'', JStr ''x'')]"

definition note_input :: EventInput where
  "note_input = (sample_input note_members)\<lparr>in_Type := EventInsight\<rparr>"

definition insight_event :: "string \<Rightarrow> string \<Rightarrow> Event" where
  "insight_event kind summary = sample_event EventInsight ''scout'' 60
    [(''kind'', JStr kind), (''summary'', JStr summary)]"

end
