(* ===== verification/ConfigSamples.thy ===== *)
theory ConfigSamples
  imports ConfigLaws Samples
begin

text \<open>
  A small colony and the configuration of one trail of it, for the witnesses: two Bees, one
  listening to proposals and the other to the completion milestone, and a trail that is
  captured, asked to switch while an attempt is open, and switched when it is not.
\<close>

definition sub_rule :: "string \<Rightarrow> string \<Rightarrow> ExecutionPurpose \<Rightarrow> SubscriptionRule" where
  "sub_rule ty kind purpose =
    \<lparr>ru_Type = ty, ru_Kind = kind, su_Dispatch = DispatchDirect, su_Purpose = purpose\<rparr>"

definition sample_bee :: "string \<Rightarrow> SubscriptionRule list \<Rightarrow> Bee" where
  "sample_bee role subs = \<lparr>be_Role = role, be_Adapter = ''cursor'', be_Command = [], be_Params = [],
     be_SystemTemplate = [], be_Sector = [], be_Worktree = True, be_Intents = [], be_DefaultIntent = [],
     be_Subscribes = subs, be_Publishes = [], be_CompletionContract = \<lparr>cc_Required = [], cc_Intents = []\<rparr>,
     be_RunSummary = []\<rparr>"

definition sample_bees :: "(string, Bee) gomap" where
  "sample_bees =
    [(''guard'', sample_bee ''guard'' [sub_rule ''MUTATION'' ''code.proposal'' PurposeUnset]),
     (''analyst'', sample_bee ''analyst'' [sub_rule ''SIGNAL'' ''trail.work.completed'' PurposeAnalysis])]"

definition sample_contract :: CompletionContract where
  "sample_contract = \<lparr>cc_Required = [\<lparr>cr_Type = ''VERIFICATION'', cr_KindOneOf = [''task.completed''], cr_Count = 1\<rparr>],
     cc_Intents = [(''Plan'', \<lparr>co_Required = [\<lparr>cr_Type = ''INSIGHT'', cr_KindOneOf = ['' task.plan''], cr_Count = 0\<rparr>]\<rparr>)]\<rparr>"

section \<open>A trail whose configuration changes\<close>

definition ref_of :: "char \<Rightarrow> string" where
  "ref_of c = ''sha256:'' @ replicate 64 c"

definition sample_inventory :: Inventory where
  "sample_inventory = \<lparr>iv_Entries = [], iv_Resolved = \<lparr>rs_Profile = ''default'', rs_Closing = None, rs_Merge = None\<rparr>\<rparr>"

definition sample_disk :: disk where
  "sample_disk = \<lparr>dk_killed = False,
     dk_prepare = (\<lambda>_ _. Inr \<lparr>ca_ref = ref_of CHR ''b'', ca_inventory = sample_inventory, ca_captured = False\<rparr>),
     dk_inventory = (\<lambda>_. Inr sample_inventory),
     dk_tree = (\<lambda>_. \<lparr>tr_Colony = Inr (\<lparr>df_SystemTemplate = [], df_EnergyBudget = 0, df_DefaultBee = [], df_Delivery = []\<rparr>, []),
       tr_Bees = Inr sample_bees\<rparr>),
     dk_readable = (\<lambda>_. Inr ()), dk_procedure = (\<lambda>_ _ _. Inr []), dk_materialize = (\<lambda>_. Inr ()),
     dk_write = (\<lambda>_. True), dk_json = (\<lambda>_. ''{}''), dk_profile = (\<lambda>_. []), dk_text = (\<lambda>_. ''invalid'')\<rparr>"

definition sample_options :: ApplyOptions where
  "sample_options = \<lparr>op_TraceID = ''t'', op_Source = SourceColony, op_SnapshotRef = [], op_Overrides = [],
     op_SkillTrial = None, op_Actor = [], op_Reason = [], op_RequestID = [], op_ExpectedRevision = None,
     op_Blockers = [], op_RequireImmediate = False, op_DryRun = False\<rparr>"

definition captured_file :: "Manifest option" where
  "captured_file = fst (EnsureInitialExpected 1 ''c1'' sample_disk (Inr (ref_of CHR ''a'', sample_inventory)) ([], False)
     ''t'' None (emptyTrace ''t'') [] [] None)"

definition no_ctx :: Ctx where
  "no_ctx = \<lparr>cx_ConfigRef = [], cx_ConfigRevision = 0\<rparr>"

definition one_attempt :: "Attempt list" where
  "one_attempt = fst (EnsureTaskAttemptGated 2 ''a1'' no_ctx captured_file ''t'' ''x'' ''e1'' None [])"

definition two_attempts :: "Attempt list" where
  "two_attempts = fst (EnsureTaskAttempt 4 ''a2'' no_ctx captured_file ''t'' ''x'' ''e9'' None
     (CloseTaskAttempts 3 ''x'' ''done'' one_attempt))"

definition switched_file :: "Manifest option" where
  "switched_file = fst (Apply 3 ''c2'' sample_disk sample_options (emptyTrace ''t'') [] [] captured_file)"

definition waiting_file :: "Manifest option" where
  "waiting_file = fst (Apply 3 ''c2'' sample_disk sample_options (emptyTrace ''t'') one_attempt [] captured_file)"

lemma sample_files:
  "map_option (\<lambda>m. (mf_ConfigRevision m, mf_ActiveConfigRef m, mf_Pending m = None)) captured_file
    = Some (1, ref_of CHR ''a'', True)"
  "map_option (\<lambda>m. (mf_ConfigRevision m, mf_ActiveConfigRef m, mf_Pending m = None)) switched_file
    = Some (2, ref_of CHR ''b'', True)"
  "map_option (\<lambda>m. (mf_ConfigRevision m, mf_ActiveConfigRef m, mf_Pending m = None)) waiting_file
    = Some (1, ref_of CHR ''a'', False)"
  "map undispatched one_attempt = [True]"
  "map Open two_attempts = [False, True]"
  by code_simp+

lemma captured_loads:
  "case LoadManifest ''t'' captured_file of Inl _ \<Rightarrow> False | Inr m \<Rightarrow> mf_Pending m = None"
  by code_simp

lemma one_attempt_values:
  "\<exists>z. one_attempt = [z] \<and> latestTask one_attempt ''x'' = z \<and> Open z
    \<and> at_AttemptID z = ''a1'' \<and> at_SourceEventID z = ''e1''"
proof -
  have "map (\<lambda>z. (latestTask one_attempt ''x'' = z, Open z, at_AttemptID z, at_SourceEventID z)) one_attempt
      = [(True, True, ''a1'', ''e1'')]" by code_simp
  then show ?thesis by (auto simp: map_eq_Cons_conv)
qed

end
