(* ===== verification/GateSamples.thy ===== *)
theory GateSamples
  imports ConfigSamples GateSeeds
begin

text \<open>
  A trail whose work is done, a colony that wants one closing round and one that wants none, and the
  host they run on: the gate boundary is run on these by the witnesses.
\<close>

definition sample_env :: env where
  "sample_env = \<lparr>en_rnd = (\<lambda>_. Some ''0a''), en_now = (\<lambda>_. unix_epoch), en_done = (\<lambda>_. unix_epoch), en_pub = None, en_watch = True\<rparr>"

definition sample_gate :: "string gate_host" where
  "sample_gate = \<lparr>gh_quote = (\<lambda>s. s), gh_root = ''/c'', gh_diff = Some (False, False), gh_title = None,
     gh_engine = (\<lambda>name body inventory. Inr body)\<rparr>"

definition no_merge :: MergePolicy where
  "no_merge = \<lparr>mp_Title = [], mp_Body = []\<rparr>"

definition one_round :: ClosingPolicy where
  "one_round = no_closing\<lparr>cl_Enabled := True, cl_MaxRounds := Some 1\<rparr>"

definition done_b_event :: Event where
  "done_b_event = sample_event EventVerification ''builder'' 40
    [(''kind'', JStr ''task.completed''), (''taskId'', JStr ''b'')]"

definition finished_trace :: TraceSnapshot where
  "finished_trace = after [plan_event, ready_event, done_event, done_b_event]"

definition finished_hive :: "MemoryLedger hive" where
  "finished_hive = \<lparr>hv_ledger = [(''t'', finished_trace)], hv_local = [], hv_bus = [], hv_made = 0\<rparr>"

definition with_rounds :: GatePolicies where
  "with_rounds = \<lparr>gp_Closing = one_round, gp_Merge = no_merge\<rparr>"

definition without_rounds :: GatePolicies where
  "without_rounds = \<lparr>gp_Closing = no_closing, gp_Merge = no_merge\<rparr>"

lemma finished_values:
  "AllPreMergeCompleted finished_trace" "closing_decision (\<lambda>s. s) one_round finished_trace = SeedRound 1"
  "TraceID finished_trace = ''t''" "length (Tasks finished_trace) = 2" "mget (Tasks finished_trace) FinalReviewTaskID = None"
  by code_simp+

lemma gate_opens:
  "case EnsureTrailPhases (mem_ledger 0) sample_env sample_gate without_rounds ''t'' finished_hive of
     (s, r) \<Rightarrow> r = Inr None \<and> (case mget (Tasks (mem_view (hv_ledger s) ''t'')) FinalReviewTaskID of
        None \<Rightarrow> False | Some u \<Rightarrow> IsMergeTask u \<and> t_Status u = TaskStatusWaitingReview)"
  by code_simp

interpretation sample_bucket: live_bucket sample_kv
  by unfold_locales (rule sample_kv_laws sample_kv_live)+

definition finished_bucket :: "(string, TraceSnapshot \<times> nat) gomap hive" where
  "finished_bucket = \<lparr>hv_ledger = [(''t'', (finished_trace, 0))], hv_local = [], hv_bus = [], hv_made = 0\<rparr>"

lemma bucket_seeds:
  "case EnsureTrailPhases (kv_ledger sample_kv 0) sample_env sample_gate with_rounds ''t'' finished_bucket of
     (s, r) \<Rightarrow> (case r of Inr (Some u) \<Rightarrow> IsClosingTask u | _ \<Rightarrow> False)
       \<and> map (\<lambda>(k, u). (k, IsClosingTask u)) (Tasks (kv_view sample_kv (hv_ledger s) ''t''))
         = [(''a'', False), (''b'', False), (''closing-1'', True)]"
  by code_simp

lemma gate_policies_valid:
  "closing_Validate one_round None no_defaults = Inr ()" "closing_Validate no_closing None no_defaults = Inr ()"
  by code_simp+

lemma finished_usable: "kv_usable sample_kv (hv_ledger finished_bucket)"
  using finished_values(3) by (auto simp: kv_usable_def loadTrace_def sample_kv_def finished_bucket_def emptyTrace_def)

lemma finished_no_rounds: "rounds_of finished_trace = {}"
proof -
  have "list_all (\<lambda>u. \<not> IsClosingTask u) (task_list finished_trace)" by code_simp
  moreover have "trace_wf finished_trace" by (simp add: finished_trace_def after_ok ledger_ok_wf)
  ultimately show ?thesis by (auto simp: rounds_of_task_list list_all_iff)
qed

end
