(* ===== verification/DecisionSamples.thy ===== *)
theory DecisionSamples
  imports DecisionLaws GateSamples
begin

text \<open>
  A trail whose merge gate waits for a person, the host of its colony, a finished trail whose analysis
  still runs, a discarded gate: the decisions of the witnesses are taken on these.
\<close>

definition gate_plan_event :: Event where
  "gate_plan_event = sample_event EventInsight ''runtime'' 50
    [(''kind'', JStr ''task.plan''),
     (''tasks'', JArr [JObj [(''taskId'', JStr FinalReviewTaskID), (''review'', JStr ''final''), (''phase'', JStr ''merge'')]])]"

definition gate_waits_event :: Event where
  "gate_waits_event = sample_event EventSignal ''runtime'' 60
    [(''kind'', JStr ''task.status''), (''taskId'', JStr FinalReviewTaskID), (''status'', JStr ''waiting_review'')]"

definition waiting_trace :: TraceSnapshot where
  "waiting_trace = after [plan_event, ready_event, done_event, done_b_event, gate_plan_event, gate_waits_event]"

definition waiting_hive :: "MemoryLedger hive" where
  "waiting_hive = \<lparr>hv_ledger = [(''t'', waiting_trace)], hv_local = [], hv_bus = [], hv_made = 0\<rparr>"

lemma waiting_values:
  "map (\<lambda>(k, u). (k, IsMergeTask u, TaskStatus_str (t_Status u))) (Tasks waiting_trace)
    = [(''a'', False, ''completed''), (''b'', False, ''completed''), (FinalReviewTaskID, True, ''waiting_review'')]"
  by code_simp

lemma waiting_reserved: "reserved_free waiting_trace"
proof -
  have "case mget (Tasks waiting_trace) FinalReviewTaskID of None \<Rightarrow> False | Some u \<Rightarrow> IsMergeTask u" by code_simp
  then show ?thesis by (simp add: reserved_free_def split: option.splits)
qed

definition sample_review :: "string review_host" where
  "sample_review = \<lparr>rh_gate = sample_gate, rh_slug = ''c'', rh_policies = Some without_rounds, rh_bees = Some [],
     rh_defaults = Some no_defaults, rh_binding = Unbound, rh_lineage = NoLineage, rh_capture = (\<lambda>_. CaptureWritten),
     rh_worktree = True, rh_summary = Some ''summary'', rh_body = Some [],
     rh_merge = (\<lambda>_. Some (''c0'', StashOutcomeNone)), rh_origin = Some ''o'', rh_forge = True, rh_forge_runs = True,
     rh_branch = Some ''w'', rh_push = (\<lambda>_ _. True), rh_base = Some ''main'',
     rh_ask = (\<lambda>q. Some \<lparr>fo_Found = True, fo_Number = 1, fo_URL = ''u'', fo_Head = fr_Head q, fo_Base = fr_Base q, fo_State = ''merged'', fo_Draft = False\<rparr>),
     rh_remember = (\<lambda>_. True),
     rh_published = Some (Some \<lparr>pr_TraceID = ''t'', pr_URL = ''u'', pr_Number = 1, pr_Head = ''w'', pr_Base = ''main'', pr_State = ''open'', pr_Draft = False\<rparr>),
     rh_remove = True, rh_comb = (\<lambda>_ _. Some ''r''), rh_task_id = Some ''rework''\<rparr>"

definition sample_approval :: ApproveInput where
  "sample_approval = \<lparr>ai_TraceID = ''t'', ai_TaskID = FinalReviewTaskID, ai_Summary = [], ai_MergeMessage = [], ai_PRTitle = [],
     ai_PRBody = [], ai_Draft = False, ai_RunHooks = False, ai_AgentID = []\<rparr>"

lemma approval_runs:
  "case Approve (mem_ledger 0) sample_env sample_review sample_approval waiting_hive of
     (s, es, r) \<Rightarrow> list_ex (\<lambda>e. case e of Merged m \<Rightarrow> True | _ \<Rightarrow> False) es
       \<and> (case r of Inl _ \<Rightarrow> False | Inr res \<Rightarrow> \<not> ap_Published res \<and> ap_CommitSHA res = ''c0'')"
  by code_simp

lemma reconcile_runs:
  "case ReconcilePublished (mem_ledger 0) sample_env sample_review ''t'' waiting_hive of
     (s, es, r) \<Rightarrow> list_ex (\<lambda>e. case e of Removed i \<Rightarrow> i = ''t'' | _ \<Rightarrow> False) es"
  by code_simp

text \<open>A finished trail with an analysis task that has not run yet.\<close>

definition analysis_event :: Event where
  "analysis_event = (sample_event EventInsight ''runtime'' 45
    [(''kind'', JStr ''task.plan''), (''tasks'', JArr [JObj [(''taskId'', JStr ''z'')]])])\<lparr>Purpose := PurposeAnalysis\<rparr>"

definition analysed_trace :: TraceSnapshot where
  "analysed_trace = after [plan_event, ready_event, done_event, done_b_event, analysis_event, gate_plan_event, gate_waits_event]"

lemma analysed_values:
  "AllPreMergeCompleted analysed_trace"
  "ApproveBlockedReason analysed_trace FinalReviewTaskID = ''1 unfinished task(s): z (planned)''"
  "map (\<lambda>(k, u). (k, IsMergeTask u, IsAnalysisTask u, TaskStatus_str (t_Status u))) (Tasks analysed_trace)
    = [(''a'', False, False, ''completed''), (''b'', False, False, ''completed''), (''z'', False, True, ''planned''),
       (FinalReviewTaskID, True, False, ''waiting_review'')]"
  by code_simp+

lemma analysed_gate:
  obtains g where "mget (Tasks analysed_trace) FinalReviewTaskID = Some g" "IsMergeTask g" "\<not> IsAnalysisTask g"
    "t_Status g = TaskStatusWaitingReview"
proof -
  have "case mget (Tasks analysed_trace) FinalReviewTaskID of None \<Rightarrow> False
    | Some g \<Rightarrow> IsMergeTask g \<and> \<not> IsAnalysisTask g \<and> t_Status g = TaskStatusWaitingReview" by code_simp
  then show thesis using that by (auto split: option.splits)
qed

definition sample_discard :: DiscardInput where
  "sample_discard = \<lparr>dc_TraceID = ''t'', dc_TaskID = FinalReviewTaskID, dc_Reason = ''not wanted'', dc_AgentID = []\<rparr>"

definition bus_env :: env where
  "bus_env = sample_env\<lparr>en_pub := Some (\<lambda>_. True)\<rparr>"

definition rejected_task :: TaskSnapshot where
  "rejected_task = taskOrNew waiting_trace ''b''"

lemma rework_runs:
  "case PlanReworkTask bus_env (Some ''rework'') no_defaults rejected_task ''t'' [] waiting_hive of
     (s, r) \<Rightarrow> r = (Inr ''rework'' :: string hive_error + string) \<and> (case hv_bus s of [ev1, ev2] \<Rightarrow>
        (case mem_Apply 0 (hv_ledger waiting_hive) ev1 of (l1, r1) \<Rightarrow>
         (case mem_Apply 0 l1 ev2 of (l2, r2) \<Rightarrow> \<not> isl r1 \<and> \<not> isl r2)) | _ \<Rightarrow> False)"
  by code_simp

text \<open>The host of a trail that has nothing to merge.\<close>

definition empty_gate :: "string gate_host" where
  "empty_gate = sample_gate\<lparr>gh_diff := Some (False, True)\<rparr>"

lemma discard_runs:
  "case (Discard (mem_ledger 0) sample_env (\<lambda>s. s) sample_discard :: (MemoryLedger, string, unit) act) waiting_hive of
     (s, r) \<Rightarrow> r = Inr () \<and> (case EnsureTrailPhases (mem_ledger 0) sample_env empty_gate without_rounds ''t'' s of
        (s', r') \<Rightarrow> r' = Inr None \<and> map (\<lambda>(k, u). (k, TaskStatus_str (t_Status u))) (Tasks (mem_view (hv_ledger s) ''t''))
            = [(''a'', ''completed''), (''b'', ''completed''), (FinalReviewTaskID, ''cancelled'')]
          \<and> map (\<lambda>(k, u). (k, TaskStatus_str (t_Status u))) (Tasks (mem_view (hv_ledger s') ''t''))
            = [(''a'', ''completed''), (''b'', ''completed''), (FinalReviewTaskID, ''completed'')])"
  by code_simp

definition discarded_trace :: TraceSnapshot where
  "discarded_trace = (case (Discard (mem_ledger 0) sample_env (\<lambda>s. s) sample_discard :: (MemoryLedger, string, unit) act) waiting_hive of
     (s, r) \<Rightarrow> mem_view (hv_ledger s) ''t'')"

lemma discard_stored:
  "\<exists>s. (Discard (mem_ledger 0) sample_env (\<lambda>s. s) sample_discard :: (MemoryLedger, string, unit) act) waiting_hive = (s, Inr ())
    \<and> mem_view (hv_ledger s) ''t'' = discarded_trace"
  using discard_runs by (auto simp: discarded_trace_def split: prod.splits)

lemma discarded_ok: "ledger_ok discarded_trace"
proof -
  obtain s where d: "(Discard (mem_ledger 0) sample_env (\<lambda>s. s) sample_discard :: (MemoryLedger, string, unit) act) waiting_hive = (s, Inr ())"
    "mem_view (hv_ledger s) ''t'' = discarded_trace" using discard_stored by blast
  have "ledger_ok (mem_view (hv_ledger waiting_hive) (dc_TraceID sample_discard))"
    by (simp add: waiting_hive_def mem_view_def sample_discard_def waiting_trace_def after_ok)
  from mem_api.discard_effect [OF d(1) TrueI this] d(2) show ?thesis by (simp add: sample_discard_def)
qed

lemma discarded_values:
  "\<not> Killed discarded_trace" "AllPreMergeCompleted discarded_trace" "\<not> needsIsolatedMerge empty_gate discarded_trace ''t''"
  "case FindFinalReviewTask discarded_trace of None \<Rightarrow> False
    | Some g \<Rightarrow> t_TaskID g = FinalReviewTaskID \<and> t_Status g = TaskStatusCancelled"
  by code_simp+

lemma waiting_free: "mget (Tasks waiting_trace) ''rework'' = None"
  by code_simp

end
