(* ===== verification/Spec2Isabelle.thy ===== *)
theory Spec2Isabelle
  imports DecisionSamples
begin

text \<open>
  Paseka: coordination core of an agent colony. A colony runs coding agents (Bees) on tasks of a
  trace (a work trail). Agents and the runtime publish typed events on a bus; the task ledger
  (\<open>src/internal/taskledger\<close>) folds the events of one trace into a snapshot, hands out ready
  tasks, keeps the honey (energy) reserve, the queue of deferred dispatches and the completion
  milestone. \<open>src/internal/protocol\<close> holds the event vocabulary and the validation of events
  that agents hand in, \<open>src/internal/ids\<close> the identifiers, \<open>src/internal/colony\<close> the
  configuration that says which Bee reacts to which event.

  \<^bold>\<open>How the parts interact.\<close> An agent's event input passes \<open>EventInput.Validate\<close> and \<open>ToEvent\<close>
  (Validate); the event is reduced by \<open>ApplyEvent\<close> (LedgerApply), which a store calls on the
  snapshot of the event's trace (LedgerStore) and which calls the promotion rules
  (LedgerEligible), the honey rules (LedgerEnergy), the dispatch queue (LedgerPending) and the
  kill; beside events the runtime calls the ledger's methods directly: seeding, deferral,
  resolution, pause claims, completion records. Task plans are checked by
  \<open>ValidateDependencies\<close> (LedgerDeps).

  \<^bold>\<open>Theories.\<close> Each mirrors one or a few Go files, function names kept.
  \<^item> Prelude: 64-bit integers as \<open>int\<close> with \<open>wrap64\<close>, the error monad \<open>res_bind\<close>, Go maps as
    key-distinct association lists (\<open>gomap\<close>), Go sorts as insertion sort by a strict order with
    the locale \<open>key_less\<close>.
  \<^item> GoStd, GoText, GoCrypto: the standard library functions used: \<open>strings\<close>, \<open>strconv\<close>,
    \<open>path.Clean\<close>, \<open>encoding/json\<close> decoding over parsed values (type \<open>json\<close>: field lookup by
    case-insensitive name, last duplicate wins, type clashes fail), \<open>encoding/hex\<close>, big-endian words.
  \<^item> Protocol, Payloads, Insight: protocol.go, task.go, energy.go, purpose.go, domain.go,
    mutation.go, system.go, cue.go, completion.go, fork.go, invite.go, insight.go, artifact.go.
    Go string types with constants are datatypes with a constructor for any other string.
  \<^item> Ids: ids/miniulid.go.
  \<^item> LedgerState: the snapshot records of ledger.go with the predicates of review.go and
    last_work_task.go, and the well-formedness \<open>trace_wf\<close>.
  \<^item> LedgerEligible (eligible.go), LedgerEnergy (energy.go), LedgerPending (pending.go, pause.go,
    standing.go, admission.go), LedgerClosing (closing.go), LedgerCompletion (completion.go).
  \<^item> LedgerApply: the reducer of apply.go and kill.go. LedgerReduce inverts every branch of it,
    LedgerInvariant proves that each preserves \<open>ledger_ok\<close>, LedgerEvents, LedgerTasks and LedgerLaws
    prove what an event does to readiness, to the tasks and to the honey, and give the step
    relation \<open>ledger_step\<close> with its reachable snapshots.
  \<^item> LedgerDeps: deps.go; the colour-marking depth-first search and its correctness.
  \<^item> LedgerStore: memory.go and kv_ledger.go, with the abstract contract of a compare-and-set call
    (\<open>took_effect\<close>) and the refinement of the in-memory ledger by the bucket ledger.
  \<^item> Validate, ValidateLedger: validate.go and branchref.go; that what the validator accepts the
    reducer can decode.
  \<^item> Contract, Routing, Params, Closing: colony/completion.go; routing.go, proposal.go, intents.go,
    sector.go, run_summary.go; params.go, checks.go, bee_validate.go; closing.go. A Bee is the record
    of the fields these read.
  \<^item> TrailConfig, Attempts, ConfigApply: trailconfig/trailconfig.go, validate.go, attempts.go,
    apply.go. The manifest file and the attempts file of a trail are the state; every operation
    runs under a file lock and is one function from file to file. Attempts proves what histories of calls on the
    attempts keep (\<open>attempts_after\<close>), ConfigLaws what those on the manifest keep (\<open>config_step\<close>) and both
    interleaved (\<open>trail_step\<close>, where admissions are the gated ones, which hold the lock of the manifest too).
  \<^item> GoTime, Encode: the text of a time and the JSON of the payloads the runtime writes, each decoded
    back to what was written.
  \<^item> Hive: the ledger as its clients call it (locale \<open>ledger_api\<close>, provided by both stores), and a
    client's effects: build an event, apply it, remember it, publish it (review/write.go).
  \<^item> FinalGate: review/final_gate.go, the closing round and the merge gate of a trail boundary.
    GateEvents says what each event of the boundary does to the tasks, GateLaws gives the program
    logic (\<open>valid\<close>) and the merge branch, GateRounds the seeding branch, the whole boundary and the
    histories of a trail, GateSeeds total correctness (\<open>total\<close>).
  \<^item> ReviewText: review/merge_compose.go, message.go and the packet of comments.go. HumanGate: the guards of
    gate.go, discard.go and rework.go. Delivery: approval, proposal.go, publish.go, reconcile.go, completion.go,
    experimental.go and the annotated review, as actions that also yield what they did outside (type
    \<open>effect\<close>). DecisionLaws proves what such actions may do and leave in the ledger.
  \<^item> Samples, ConfigSamples, GateSamples, DecisionSamples: concrete events, traces, Bees and manifests for the witnesses.

  \<^bold>\<open>Parameters.\<close> Code outside the repository is an argument: the clock and the random bytes of an
  id, \<open>strconv.Quote\<close>, the float64 conversion of JSON numbers and the git commands (record
  \<open>host\<close>), the key-value bucket and JSON codec (record \<open>kv\<close>, whose laws are the documented
  compare-and-set behaviour) and the writes of other processes (\<open>rivals\<close>). \<open>Samples.sample_kv\<close>
  instantiates the bucket. Git, the forge, evidence files and the comb answer a review through the record
  \<open>review_host\<close>, unchanged during one call. What a configuration operation reads and writes on disk besides the
  manifest is the record \<open>disk\<close> (candidate trees, retained snapshots, the event log's kill); the
  JSON text of a request and the text of an error are fields of it; \<open>fmt.Sprint\<close> and the template
  engine are arguments. \<open>time.ParseDuration\<close> scales fractions exactly where the library uses
  float64. Revisions and counters of a manifest are \<open>int\<close>: they count changes of one trail.

  \<^bold>\<open>Bounds and fuel.\<close> The search for a free closing id has fuel one more than the number of
  tasks, enough by pigeonhole (\<open>next_closing_id\<close>). The dependency search has the number of tasks
  as fuel for its recursion, and \<open>dependency_cycle\<close> shows it is never used up. A compare-and-set
  call retries at most 16 times, as in the code.

  \<^bold>\<open>What the lemmas show.\<close> Dispatch safety: killed traces are frozen, at most one task is made
  ready per event, promotion takes the oldest unblocked planned task, planned contracts are kept
  and closing rounds come from the runtime only. Honey: exact accounting, no overspending, stipends
  abandon exactly the waiting dispatches. Completion: the verdict is equivalent to its conditions
  and is recorded once per revision. Stores: atomicity, refinement, failure without effect.
  Colony: who reacts to an event, what a run owes, which parameters a Bee gets. Trail
  configuration: one owner per task, a consistent history, switches at safe boundaries only,
  a switch waits for undispatched attempts, dry runs that predict.
  Reviews: the gate opens only on finished work, closing rounds are seeded and bounded, nothing is merged,
  published or removed that may not be, a rework shuts the gate again.
  Validation: accepted input of the kinds the ledger acts on never looks malformed to the reducer. Theorems
  about faults of the code say so: \<open>refresh_diverges\<close>, \<open>replay_reopens\<close>, \<open>case_variant_kind\<close>,
  \<open>note_accepted_refused\<close>, \<open>energy_add_overflows\<close>, \<open>clock_back_opens_two\<close>, \<open>approval_blocked\<close>,
  \<open>empty_gate_completed\<close>.

  \<^bold>\<open>What is assumed of the world.\<close> Where a theorem needs it, it says so: other writers only write what the
  bucket allows (\<open>kv_laws\<close>, \<open>rivals_ok\<close>); the random ids of attempts differ, and the clock advances between
  the admissions of one task (\<open>attempt_owner\<close>); the ids of the merge gate are not used by other tasks
  (\<open>reserved_free\<close>).

  \<^bold>\<open>Not modelled.\<close> JSON text (events carry parsed values), Unicode beyond ASCII in \<open>ToLower\<close> and
  \<open>EqualFold\<close>, error message texts that only wrap another error, logging. A host
  call that fails is named, its text is not kept; the stash outcome of a failed merge is not returned. \<open>SeedEnergy\<close> of the
  stores and \<open>KVLedger.TraceIDs\<close>. The fields \<open>EffectiveDiff\<close> and \<open>ShadowedDiff\<close> of a configuration result, lines
  for display. The runtime loops, the bus, adapters, console, sessions, skills
  and the command line are I/O around the core and are not modelled.
\<close>

section \<open>Histories of a trace\<close>



text \<open>C2: Once a reachable trace is killed, every later event leaves it killed, hands out no
  task, and leaves no task ready and no dispatch waiting.\<close>

theorem kill_is_final:
  assumes "reachable i trace" "Killed trace" "ApplyEvent clock trace ev = Inr res"
  shows "Killed (ar_Trace res) \<and> ar_Ready res = [] \<and> \<not> HasReadyTask (ar_Trace res)
    \<and> ActivePendingCount (ar_Trace res) = 0"
proof -
  have ok: "ledger_ok trace" by (rule reachable_ok [OF assms(1)])
  have k: "Killed (ar_Trace res)" by (rule killed_inv.event [OF assms(2,3)])
  have ok': "ledger_ok (ar_Trace res)" by (rule ok_inv.event [OF ok assms(3)])
  with k have fr: "frozen (ar_Trace res)" by (simp add: ledger_ok_def)
  have "ar_Ready res = []"
    using ApplyEvent_ready [OF assms(3) ok] k by (cases "ar_Ready res") (auto simp: made_ready_def)
  with k fr frozen_not_ready [OF ledger_ok_wf [OF ok'] fr] show ?thesis
    by (simp add: frozen_def ActivePendingCount_def)
qed

theorem kill_is_final_witness:
  "ar_Ready (applied (ar_Trace (applied (ar_Trace (applied (emptyTrace ''t'') plan_event)) kill_event)) done_event) = []"
  using kill_is_final [OF reachable.step [OF reachable.step [OF reachable.start
      ledger_step.event [OF applied_Inr [OF sample_run]]] ledger_step.event [OF applied_Inr [OF sample_kill(1)]]]
      sample_kill(2) applied_Inr [OF sample_kill(3)]] by simp

text \<open>A kill cancels every task that has not ended, with the operator's reason or the
  standard one, keeps the ended ones as they are, abandons every waiting dispatch and drops the
  parked kick; it touches neither the reserve nor the revision.\<close>

theorem system_kill_effect:
  assumes "\<not> Killed trace"
  shows "(\<forall>k. mget (Tasks (applySystemKill trace reason now)) k = map_option (\<lambda>t.
        if t_Status t \<in> {TaskStatusCompleted, TaskStatusFailed, TaskStatusCancelled, TaskStatusSkipped}
        then t else t\<lparr>t_Status := TaskStatusCancelled, t_UpdatedAt := now,
          t_Summary := (if reason = [] then ''Trace killed by operator'' else reason)\<rparr>)
      (mget (Tasks trace) k))
    \<and> frozen (applySystemKill trace reason now) \<and> Killed (applySystemKill trace reason now)
    \<and> EnergyRemaining (applySystemKill trace reason now) = EnergyRemaining trace
    \<and> WorkRevision (applySystemKill trace reason now) = WorkRevision trace"
proof -
  have "WorkRevision (applySystemKill trace reason now) = WorkRevision trace"
    using assms by (simp add: applySystemKill_def Let_def)
  moreover have "kill_task s now = (\<lambda>t. if t_Status t \<in> {TaskStatusCompleted, TaskStatusFailed,
      TaskStatusCancelled, TaskStatusSkipped} then t
      else t\<lparr>t_Status := TaskStatusCancelled, t_UpdatedAt := now, t_Summary := s\<rparr>)" for s
    by (rule ext) (simp add: kill_task_def IsKillableTaskStatus_def)
  ultimately show ?thesis
    using assms applySystemKill_frozen [OF assms] by (simp add: applySystemKill_mget)
qed

theorem system_kill_effect_witness:
  "frozen (applySystemKill (after [plan_event]) [] 50)"
  using system_kill_effect [of "after [plan_event]" "[]" 50] sample_values(5) by simp

section \<open>What an event makes ready\<close>

text \<open>C3: One event makes at most one task ready, never in a killed trace; the task it reports
  is stored under its id, ready, stamped with the event's time.\<close>

theorem ready_tasks:
  assumes "ApplyEvent clock trace ev = Inr res" "ledger_ok trace"
  shows "length (ar_Ready res) \<le> 1 \<and> (\<forall>t \<in> set (ar_Ready res). t_Status t = TaskStatusReady
    \<and> mget (Tasks (ar_Trace res)) (t_TaskID t) = Some (t\<lparr>t_UpdatedAt := eventStamp clock ev\<rparr>)
    \<and> \<not> Killed (ar_Trace res))"
  using ApplyEvent_ready [OF assms] by (simp add: made_ready_def)

theorem ready_tasks_witness:
  "length (ar_Ready (applied (after [plan_event, ready_event]) done_event)) \<le> 1"
  using ready_tasks [OF applied_Inr [OF sample_runs(3)] after_ok] by simp

text \<open>C4: The task promoted next is a planned one whose dependencies are all completed; it is
  never a merge gate, a closing round only once all work is completed, and of all the tasks
  these conditions hold for it is the oldest: stamped ones come before unstamped ones, then the
  earlier creation time comes first, then the smaller id.\<close>

theorem promotion_fifo:
  assumes "PromoteFirstEligible trace now = (trace', Some t)"
  shows "\<exists>c. c \<in> set (task_list trace) \<and> t = c\<lparr>t_Status := TaskStatusReady, t_UpdatedAt := now\<rparr>
    \<and> t_Status c = TaskStatusPlanned \<and> \<not> Killed trace \<and> \<not> HasReadyTask trace
    \<and> (\<forall>d \<in> set (t_DependsOn c). \<exists>u. mget (Tasks trace) d = Some u \<and> t_Status u = TaskStatusCompleted)
    \<and> \<not> IsMergeTask c \<and> (IsClosingTask c \<longrightarrow> AllWorkCompleted trace)
    \<and> (\<forall>c' \<in> set (task_list trace).
        t_Status c' = TaskStatusPlanned \<and> \<not> IsMergeTask c' \<and> (IsClosingTask c' \<longrightarrow> AllWorkCompleted trace)
          \<and> (\<forall>d \<in> set (t_DependsOn c'). \<exists>u. mget (Tasks trace) d = Some u \<and> t_Status u = TaskStatusCompleted)
        \<longrightarrow> (if IsZero (t_CreatedAt c) then IsZero (t_CreatedAt c') \<and> t_TaskID c \<le> t_TaskID c'
            else IsZero (t_CreatedAt c') \<or> t_CreatedAt c < t_CreatedAt c'
              \<or> t_CreatedAt c = t_CreatedAt c' \<and> t_TaskID c \<le> t_TaskID c'))"
proof -
  from PromoteFirstEligible_Some [OF assms] obtain c where c: "\<not> Killed trace" "\<not> HasReadyTask trace"
    "FirstEligiblePlanned trace = Some c" "t = c\<lparr>t_Status := TaskStatusReady, t_UpdatedAt := now\<rparr>" by metis
  from FirstEligiblePlanned_in [OF c(3)] have e: "c \<in> set (task_list trace)" "eligible trace c" by simp_all
  have "if IsZero (t_CreatedAt c) then IsZero (t_CreatedAt c') \<and> t_TaskID c \<le> t_TaskID c'
      else IsZero (t_CreatedAt c') \<or> t_CreatedAt c < t_CreatedAt c'
        \<or> t_CreatedAt c = t_CreatedAt c' \<and> t_TaskID c \<le> t_TaskID c'"
    if "c' \<in> set (task_list trace)" "t_Status c' = TaskStatusPlanned \<and> \<not> IsMergeTask c'
        \<and> (IsClosingTask c' \<longrightarrow> AllWorkCompleted trace)
        \<and> (\<forall>d \<in> set (t_DependsOn c'). \<exists>u. mget (Tasks trace) d = Some u \<and> t_Status u = TaskStatusCompleted)"
    for c'
  proof -
    have "eligible trace c'" using that(2) by (simp add: eligible_iff IsMergeTask_iff)
    from FirstEligiblePlanned_oldest [OF c(3) that(1) this] show ?thesis by (rule planned_key_le)
  qed
  moreover have "t_Status c = TaskStatusPlanned" "\<not> IsMergeTask c" "IsClosingTask c \<longrightarrow> AllWorkCompleted trace"
    "\<forall>d \<in> set (t_DependsOn c). \<exists>u. mget (Tasks trace) d = Some u \<and> t_Status u = TaskStatusCompleted"
    using e(2) by (simp_all add: eligible_iff IsMergeTask_iff)
  ultimately show ?thesis using c(1,2,4) e(1) by blast
qed

theorem promotion_fifo_witness:
  "\<exists>c. c \<in> set (task_list (after [plan_event])) \<and> t_Status c = TaskStatusPlanned \<and> \<not> IsMergeTask c"
proof -
  obtain t where "PromoteFirstEligible (after [plan_event]) 20
      = (fst (PromoteFirstEligible (after [plan_event]) 20), Some t)"
    using sample_values(6) by (metis not_None_eq prod.collapse)
  from promotion_fifo [OF this] show ?thesis by blast
qed

text \<open>After a completion was applied, a task is ready or no planned task is eligible:
  promotion never stalls work that could run.\<close>

theorem promotion_progress:
  assumes "ApplyEvent clock trace ev = Inr res" "ledger_ok trace" "ev_Type ev = EventVerification"
    "ar_Changed res"
  shows "HasReadyTask (ar_Trace res) \<or> FirstEligiblePlanned (ar_Trace res) = None"
  by (rule ApplyEvent_progress [OF assms])

theorem promotion_progress_witness:
  "HasReadyTask (ar_Trace (applied (after [plan_event, ready_event]) done_event))
    \<or> FirstEligiblePlanned (ar_Trace (applied (after [plan_event, ready_event]) done_event)) = None"
  by (rule promotion_progress [OF applied_Inr [OF sample_runs(3)] after_ok])
    (simp_all add: done_event_def sample_event_def sample_values(7) [unfolded done_event_def sample_event_def])

text \<open>The choice does not depend on the order in which Go visits the task map.\<close>

theorem promotion_map_order:
  assumes "reordered a b" "trace_wf a"
  shows "EligiblePlanned b = EligiblePlanned a \<and> FirstEligiblePlanned b = FirstEligiblePlanned a"
  using reordered_EligiblePlanned [OF assms] by (simp add: FirstEligiblePlanned_def)

theorem promotion_map_order_witness:
  "FirstEligiblePlanned ((after [plan_event])\<lparr>Tasks := rev (Tasks (after [plan_event]))\<rparr>)
    = FirstEligiblePlanned (after [plan_event])"
  using promotion_map_order [of "after [plan_event]" "(after [plan_event])\<lparr>Tasks := rev (Tasks (after [plan_event]))\<rparr>"]
    ledger_ok_wf [OF after_ok] by (simp add: reordered_def)

section \<open>What an event may do to a task\<close>

text \<open>C7: No event removes a planned task or changes its id, dependencies, review policy,
  phase, purpose or studied milestone, nor empties its status.\<close>

theorem planned_contract:
  assumes "ApplyEvent clock trace ev = Inr res" "ledger_ok trace"
    "mget (Tasks trace) k = Some t" "t_Status t \<noteq> TaskStatusUnset"
  shows "\<exists>t'. mget (Tasks (ar_Trace res)) k = Some t' \<and> t_TaskID t' = t_TaskID t
    \<and> t_DependsOn t' = t_DependsOn t \<and> t_Review t' = t_Review t \<and> t_Phase t' = t_Phase t
    \<and> t_Purpose t' = t_Purpose t \<and> t_AnalysisOf t' = t_AnalysisOf t \<and> t_Status t' \<noteq> TaskStatusUnset"
  using contract.rel_event [OF assms(1,2), of k] assms(3,4)
  by (auto simp: contract_kept_def revised_def)

theorem planned_contract_witness:
  "\<exists>t'. mget (Tasks (ar_Trace (applied (after [plan_event]) kill_event))) ''b'' = Some t'
    \<and> t_TaskID t' = ''b'' \<and> t_DependsOn t' = [''a'']"
proof -
  obtain t where t: "mget (Tasks (after [plan_event])) ''b'' = Some t" "t_Status t \<noteq> TaskStatusUnset"
    "t_TaskID t = ''b''" "t_DependsOn t = [''a'']"
    using sample_task by auto
  from planned_contract [OF applied_Inr [OF sample_runs(4)] after_ok t(1,2)] t show ?thesis by auto
qed

text \<open>C8: A closing round appears only through a plan the runtime itself published: after
  any other event every closing task was already one, under the same id.\<close>

theorem closing_authority:
  assumes "ApplyEvent clock trace ev = Inr res" "ledger_ok trace"
    "ev_Type ev \<noteq> EventInsight \<or> TrimSpace (ev_AgentID ev) \<noteq> ''runtime''"
    "mget (Tasks (ar_Trace res)) k = Some t'" "IsClosingTask t'"
  shows "\<exists>t. mget (Tasks trace) k = Some t \<and> IsClosingTask t"
proof -
  have "closing_kept (mget (Tasks trace) k) (mget (Tasks (ar_Trace res)) k)"
    by (rule closing.rel_event [OF assms(1,2)])
      (use assms(3) plannedTask_closing in \<open>auto simp: closing_kept_def\<close>)
  with assms(4,5) show ?thesis by (simp add: closing_kept_def)
qed

theorem closing_authority_witness:
  "\<exists>t. mget (Tasks (after [closing_event])) ''closing-1'' = Some t \<and> IsClosingTask t"
proof -
  obtain t' where t': "mget (Tasks (ar_Trace (applied (after [closing_event]) kill_event))) ''closing-1'' = Some t'"
    "IsClosingTask t'" using sample_closing(2) by auto
  show ?thesis
    by (rule closing_authority [OF applied_Inr [OF sample_closing(1)] after_ok _ t'])
      (simp add: kill_event_def sample_event_def)
qed

text \<open>One event advances the work revision at most once, and never sets it back.\<close>

theorem revision_step:
  assumes "ApplyEvent clock trace ev = Inr res" "0 \<le> WorkRevision trace" "WorkRevision trace < 2 ^ 63 - 1"
  shows "WorkRevision (ar_Trace res) \<in> {WorkRevision trace, WorkRevision trace + 1}"
  using ApplyEvent_revision [OF assms(1)] AdvanceWorkRevision_next [OF assms(2,3)] by auto

theorem revision_step_witness:
  "WorkRevision (ar_Trace (applied (after []) plan_event)) \<in> {0, 1}"
  using revision_step [OF applied_Inr [OF sample_runs(1)]] sample_values(8) by simp

section \<open>The honey reserve\<close>

text \<open>C5: A successful event changes the reserve by exactly what its payload says: added,
  spent (and then no more than there was), or replaced by a stipend; any other event leaves it.\<close>

theorem energy_accounting:
  assumes "ApplyEvent clock trace ev = Inr res"
  shows "EnergyRemaining (ar_Trace res) = effect_on (energy_effect ev) (EnergyRemaining trace)
    \<and> effect_paid (energy_effect ev) (EnergyRemaining trace)"
  using ApplyEvent_energy [OF assms] by simp

theorem energy_accounting_witness:
  "EnergyRemaining (ar_Trace (applied (after [plan_event]) (honey_event ''energy.add'' 5))) = 5"
  using energy_accounting [OF applied_Inr [OF sample_runs(5)]] sample_energy by (simp add: wrap64_id_bounds)

text \<open>A reserve that is not negative stays so through any event whose addition
  fits Go's 64-bit int.\<close>

theorem energy_never_negative:
  assumes "ApplyEvent clock trace ev = Inr res" "0 \<le> EnergyRemaining trace" "EnergyRemaining trace < 2 ^ 63"
    "\<forall>n. energy_effect ev = Adds n \<longrightarrow> EnergyRemaining trace + n < 2 ^ 63"
  shows "0 \<le> EnergyRemaining (ar_Trace res)"
  using ApplyEvent_energy [OF assms(1)] assms(2-)
  by (cases "energy_effect ev") (auto simp: wrap64_id_bounds)

theorem energy_never_negative_witness:
  "0 \<le> EnergyRemaining (ar_Trace (applied (after [plan_event]) (honey_event ''energy.add'' 5)))"
  using energy_never_negative [OF applied_Inr [OF sample_runs(5)]] sample_energy by simp

text \<open>Without that bound an accepted addition wraps: two top-ups that \<open>Validate\<close> and the reducer both
  accept leave a negative reserve.\<close>

theorem energy_add_overflows:
  "\<exists>trace. ApplyEvents 0 (emptyTrace ''t'') [honey_event ''energy.add'' 9223372036854775807,
      honey_event ''energy.add'' 1] = Inr trace \<and> EnergyRemaining trace = - 9223372036854775808"
  using sample_overflow by (auto split: sum.splits)

text \<open>C6: A stipend sets the reserve to its amount, abandons exactly the task and direct
  dispatches that waited for energy (never a configuration hold), turns their ready tasks into
  skipped ones and leaves every other task, and closes the pause episode, reporting as abandoned
  the number of dispatches it superseded.\<close>

theorem stipend_supersedes:
  assumes "trace_wf trace"
  shows "let s = applyStipend trace amount now; b = rs_trace s in
    EnergyRemaining b = amount \<and> EnergyPause b = None
    \<and> filter pd_active (PendingDispatches b)
        = filter (\<lambda>e. pd_Status e = PendingDispatchPending
            \<and> (pd_Reason e = ConfigBarrierHoldReason \<or> pd_Kind e \<notin> {PendingDispatchTask, PendingDispatchDirect}))
          (PendingDispatches trace)
    \<and> (\<forall>k. mget (Tasks b) k = (if superseded_task (PendingDispatches trace) k
          then map_option (skipped now (SupersededByStipendSummary amount)) (mget (Tasks trace) k)
          else mget (Tasks trace) k))
    \<and> (rs_pauseClose s = None \<longleftrightarrow> EnergyPause trace = None)
    \<and> (\<forall>c. rs_pauseClose s = Some c \<longrightarrow> pc_Abandoned c = superseded_count trace
          \<and> pc_PendingBefore c = ActivePendingCount trace \<and> pc_PendingAfter c = ActivePendingCount b
          \<and> pc_Source c = EnergyResumeSourceStipend \<and> pc_Remaining c = amount)"
proof -
  let ?r = "trace\<lparr>EnergyRemaining := amount\<rparr>"
  have wf: "trace_wf ?r" using assms by (simp add: trace_wf_def)
  have after: "ActivePendingCount (rs_trace (applyStipend trace amount now))
      = ActivePendingCount trace - superseded_count trace"
    using Supersede_count [of ?r now "SupersededByStipendSummary amount"]
    by (simp add: applyStipend_trace ActivePendingCount_def superseded_count_def)
  have kept: "(\<lambda>e. pd_active e \<and> \<not> superseded_entry e) = (\<lambda>e. pd_Status e = PendingDispatchPending
      \<and> (pd_Reason e = ConfigBarrierHoldReason \<or> pd_Kind e \<notin> {PendingDispatchTask, PendingDispatchDirect}))"
    by (auto simp: superseded_entry_def Active_def)
  show ?thesis
    unfolding Let_def applyStipend_pauseClose kept [symmetric]
    by (cases "EnergyPause trace")
      (simp_all add: applyStipend_trace Supersede_active Supersede_mget [OF wf]
        after [unfolded applyStipend_trace])
qed

theorem stipend_supersedes_witness:
  "EnergyPause (rs_trace (applyStipend deferred_trace 5 40)) = None"
  using stipend_supersedes [OF deferred_trace_wf, of 5 40] by (simp add: Let_def)

text \<open>Of any calls that seed a trace, at most one creates the seed, the first that finds the
  trace unallocated; it sets a positive budget and every later call leaves the trace as it is.\<close>

theorem seed_first_wins:
  shows "length (snd (run_claims seed_claim cs trace)) \<le> 1
    \<and> (\<forall>trace' seed. EnsureEnergySeed now body trace b = (trace', seed, True) \<longrightarrow>
         run_claims seed_claim ((now, body, b) # cs) trace = (trace', [seed])
         \<and> EnergySeed trace' = Some seed \<and> EnergyBudget trace' = sd_Budget seed \<and> 0 < sd_Budget seed
         \<and> (0 < b \<longrightarrow> sd_Budget seed = b))"
proof -
  have "run_claims seed_claim ((now, body, b) # cs) trace = (trace', [seed])
      \<and> EnergySeed trace' = Some seed \<and> EnergyBudget trace' = sd_Budget seed \<and> 0 < sd_Budget seed
      \<and> (0 < b \<longrightarrow> sd_Budget seed = b)"
    if won: "EnsureEnergySeed now body trace b = (trace', seed, True)" for trace' seed
  proof -
    have "run_claims seed_claim ((now, body, b) # cs) trace = (trace', [seed])"
      by (rule seed_once.run_won) (simp add: seed_claim_def won)
    with EnsureEnergySeed_created [OF won] show ?thesis by simp
  qed
  then show ?thesis using seed_once.at_most_one by blast
qed

theorem seed_first_wins_witness:
  "length (snd (run_claims seed_claim [(1, None, 3), (2, None, 4)] (emptyTrace ''t''))) \<le> 1"
  using seed_first_wins by blast

section \<open>Deferred dispatches and pauses\<close>

text \<open>Deferring adds one waiting entry at the end of the queue unless the id is empty, the
  trace is killed, or an entry of that id already waits; then it changes nothing. When the reserve
  is empty and the reason is not a configuration hold, it opens the pause episode if none is open.\<close>

theorem defer_once:
  shows "let (b, added) = DeferPendingDispatch now body trace d in
    (added \<longleftrightarrow> pd_ID d \<noteq> [] \<and> \<not> Killed trace
       \<and> \<not> (\<exists>e \<in> set (PendingDispatches trace). pd_ID e = pd_ID d \<and> pd_active e))
    \<and> (\<not> added \<longrightarrow> b = trace)
    \<and> (added \<longrightarrow> PendingDispatches b = PendingDispatches trace @ [deferred now d]
         \<and> Tasks b = Tasks trace
         \<and> (EnergyPause b = EnergyPause trace
            \<or> EnergyPause trace = None \<and> EnergyRemaining trace \<le> 0
              \<and> pd_Reason d \<noteq> ConfigBarrierHoldReason))"
proof -
  have waits: "(\<exists>e \<in> set (PendingDispatches trace). pd_ID e = pd_ID d \<and> pd_active e)
      \<longleftrightarrow> pd_ID d \<in> set (active_ids (PendingDispatches trace))"
    by (auto simp: in_active_ids)
  show ?thesis
  proof (cases "pd_ID d = [] \<or> Killed trace \<or> pd_ID d \<in> set (active_ids (PendingDispatches trace))")
    case True
    then show ?thesis unfolding waits by (simp add: Defer_alt)
  next
    case False
    then show ?thesis unfolding waits by (simp add: Defer_alt Let_def OpenEnergyPause_def)
  qed
qed

theorem defer_once_witness:
  "snd (DeferPendingDispatch 35 (Some ''p'') (after [plan_event]) sample_deferral) \<longleftrightarrow>
    \<not> (\<exists>e \<in> set (PendingDispatches (after [plan_event])). pd_ID e = ''task:b:bee'' \<and> pd_active e)"
  using defer_once [of 35 "Some ''p''" "after [plan_event]" sample_deferral] sample_values(5)
  by (auto simp: sample_deferral_def)

text \<open>Resolving an id takes exactly that id off the waiting ones, whatever entries of the
  same id were closed before.\<close>

theorem resolve_closes:
  assumes "queue_ok trace" "i \<noteq> []" "st \<noteq> PendingDispatchPending"
  shows "set (active_ids (PendingDispatches (fst (ResolvePendingDispatch now trace i st))))
      = set (active_ids (PendingDispatches trace)) - {i}
    \<and> length (PendingDispatches (fst (ResolvePendingDispatch now trace i st)))
      = length (PendingDispatches trace)"
proof -
  have "length (PendingDispatches (fst (ResolvePendingDispatch now trace i st))) = length (PendingDispatches trace)"
    by (simp add: Resolve_alt split: option.split)
  with Resolve_closes [OF assms] show ?thesis by blast
qed

theorem resolve_closes_witness:
  "''task:b:bee'' \<notin> set (active_ids (PendingDispatches (fst (ResolvePendingDispatch 40 deferred_trace
      ''task:b:bee'' PendingDispatchConsumed))))"
  using resolve_closes [of deferred_trace "''task:b:bee''" PendingDispatchConsumed 40] deferred_trace_queue by simp

text \<open>Of any calls that claim the open episode, at most one is told to publish it,
  and of any calls that close it, at most one is told it closed.\<close>

theorem pause_announced_once:
  shows "length (snd (run_claims claim_pause cs trace)) \<le> 1
    \<and> length (snd (run_claims close_pause cs trace)) \<le> 1
    \<and> (\<forall>p. EnergyPause trace = Some p \<longrightarrow> \<not> pa_Published p \<longrightarrow> cs \<noteq> []
        \<longrightarrow> length (snd (run_claims claim_pause cs trace)) = 1)"
proof -
  have "length (snd (run_claims claim_pause cs trace)) = 1"
    if open_: "EnergyPause trace = Some p" "\<not> pa_Published p" and some: "cs \<noteq> []" for p
  proof -
    obtain s' x where "claim_pause (hd cs) trace = (s', Some x)"
      using open_ by (simp add: claim_pause_def ClaimEnergyPausePublished_def Let_def)
    then have "run_claims claim_pause (hd cs # tl cs) trace = (s', [x])" by (rule claim_once.run_won)
    with some have "run_claims claim_pause cs trace = (s', [x])" by (metis list.collapse)
    then show ?thesis by simp
  qed
  then show ?thesis using claim_once.at_most_one close_once.at_most_one by blast
qed

theorem pause_announced_once_witness:
  "length (snd (run_claims claim_pause [(), ()] deferred_trace)) = 1"
proof -
  obtain p where "EnergyPause deferred_trace = Some p" "\<not> pa_Published p" using sample_pause by blast
  then show ?thesis using pause_announced_once [of "[(), ()]" deferred_trace] by blast
qed

section \<open>Closing rounds and work completion\<close>

text \<open>C18: The milestone holds exactly when the trace is alive, has ordinary work, nothing
  but analysis waits for dispatch, and every task that is neither a merge gate nor analysis has
  completed.\<close>

theorem work_complete_iff:
  assumes "trace_wf trace"
  shows "wv_Complete (EvaluateWorkCompletion trace) \<longleftrightarrow>
    \<not> Killed trace
    \<and> (\<exists>t \<in> set (task_list trace). \<not> IsAnalysisTask t \<and> TaskPhaseOf t = TaskPhaseWork)
    \<and> (\<forall>d \<in> set (PendingDispatches trace). pd_Status d = PendingDispatchPending \<longrightarrow>
         pd_Purpose d \<noteq> PurposeAnalysis \<longrightarrow>
         pd_Kind d \<noteq> PendingDispatchTask \<and> pd_Kind d \<noteq> PendingDispatchDirect \<and> pd_TaskID d \<noteq> [])
    \<and> (\<forall>t \<in> set (task_list trace). IsMergeTask t \<or> IsAnalysisTask t \<or> t_Status t = TaskStatusCompleted)"
  unfolding EvaluateWorkCompletion_iff [OF assms] isAcceptedWorkTask_def holds_completion_def Active_def
  by blast

theorem work_complete_iff_witness:
  "\<not> wv_Complete (EvaluateWorkCompletion (after [plan_event]))"
proof -
  obtain t where t: "mget (Tasks (after [plan_event])) ''b'' = Some t" "t_Status t = TaskStatusPlanned"
    "\<not> IsMergeTask t" "\<not> IsAnalysisTask t" using sample_task by blast
  then have "t \<in> set (task_list (after [plan_event]))" using mget_mvals [OF t(1)] by simp
  with t work_complete_iff [OF ledger_ok_wf [OF after_ok], of "[plan_event]"] show ?thesis by auto
qed

text \<open>Of any calls that record a completion for one work revision at most one wins, and
  the identity a revision is recorded under differs between revisions.\<close>

theorem completion_once:
  shows "length (snd (run_claims (record_claim rv) cs trace)) \<le> 1
    \<and> (CompletionIDForRevision i r = CompletionIDForRevision i r' \<longleftrightarrow> max 1 r = max 1 r')"
  using record_once.at_most_one CompletionID_inj by blast

text \<open>C19: The next closing id is found, is free, and follows the highest recorded round; it
  skips an id only when a task already has it.\<close>

theorem next_closing_id:
  assumes "length (Tasks trace) < 2 ^ 64" "HighestClosingRound trace + int (length (Tasks trace)) < 2 ^ 63 - 1"
  shows "\<exists>n. NextClosingTaskID trace = Some (''closing-'' @ Itoa n)
    \<and> mget (Tasks trace) (''closing-'' @ Itoa n) = None \<and> HighestClosingRound trace < n
    \<and> (\<forall>m. HighestClosingRound trace < m \<and> m < n \<longrightarrow> mget (Tasks trace) (''closing-'' @ Itoa m) \<noteq> None)"
proof -
  define h where "h = HighestClosingRound trace"
  obtain k where k: "k \<le> length (Tasks trace)" "NextClosingTaskID trace = Some (round_id (wrap64 (h + 1 + int k)))"
    "mget (Tasks trace) (round_id (wrap64 (h + 1 + int k))) = None"
    "\<And>j. j < k \<Longrightarrow> mget (Tasks trace) (round_id (wrap64 (h + 1 + int j))) \<noteq> None"
    unfolding h_def by (rule NextClosingTaskID_fresh [OF assms(1)]) blast
  have w: "wrap64 (h + 1 + int j) = h + 1 + int j" if "j \<le> k" for j
    using that k(1) assms(2) HighestClosingRound_bounds(1) [of trace] by (simp add: h_def wrap64_id_bounds)
  have "mget (Tasks trace) (round_id m) \<noteq> None" if "h < m" "m < h + 1 + int k" for m
    using k(4) [of "nat (m - h - 1)"] w [of "nat (m - h - 1)"] that by simp
  then show ?thesis
    using k(2,3) w [of k] by (intro exI [of _ "h + 1 + int k"]) (simp add: round_id_def h_def)
qed

theorem next_closing_id_witness:
  "\<exists>n. NextClosingTaskID (after [closing_event]) = Some (''closing-'' @ Itoa n)
    \<and> mget (Tasks (after [closing_event])) (''closing-'' @ Itoa n) = None"
  using next_closing_id [of "after [closing_event]"] sample_rounds by auto

text \<open>A trail is delivered once a merge task completed; otherwise it is at the gate exactly
  when a merge task waits for review and all other non-analysis tasks completed; otherwise it is
  closing while a round is unfinished; else it is at work.\<close>

theorem trail_stages:
  shows "(DeriveTrailStage trace = TrailStageDelivered \<longleftrightarrow>
      (\<exists>t \<in> set (task_list trace). IsMergeTask t \<and> t_Status t = TaskStatusCompleted))
    \<and> (DeriveTrailStage trace = TrailStageGate \<longrightarrow>
      (\<exists>t \<in> set (task_list trace). IsMergeTask t \<and> t_Status t = TaskStatusWaitingReview)
      \<and> (\<forall>t \<in> set (task_list trace). \<not> IsAnalysisTask t \<longrightarrow> \<not> IsMergeTask t \<longrightarrow> t_Status t = TaskStatusCompleted))
    \<and> (DeriveTrailStage trace = TrailStageClosing \<longrightarrow>
      (\<exists>t \<in> set (task_list trace). IsClosingTask t \<and> t_Status t \<noteq> TaskStatusCompleted))
    \<and> (DeriveTrailStage trace = TrailStageWork \<longrightarrow>
      (\<forall>t \<in> set (task_list trace). IsClosingTask t \<longrightarrow> t_Status t = TaskStatusCompleted))"
  unfolding DeriveTrailStage_def
  by (auto simp: MergeTaskCompleted_iff MergeGateWaiting_iff HasUnfinishedClosingTask_iff
      AllPreMergeCompleted_iff split: if_splits)

theorem trail_stages_witness:
  "DeriveTrailStage (after [plan_event]) = TrailStageDelivered \<longleftrightarrow>
    (\<exists>t \<in> set (task_list (after [plan_event])). IsMergeTask t \<and> t_Status t = TaskStatusCompleted)"
  using trail_stages [of "after [plan_event]"] by blast

section \<open>Identifiers\<close>

text \<open>The clock of a generated id can be read back, to the millisecond, for every
  clock of the 48-bit range, also behind a prefix; a failing random source gives no id.\<close>

theorem ulid_time_roundtrip:
  assumes "0 \<le> UnixMilli now" "UnixMilli now < 2 ^ 48" "Prefixed pre now rnd = Some i"
  shows "ParsePrefixedTime pre i = Some (now - (now - unix_epoch) mod 1000000) \<and> rnd \<noteq> None
    \<and> length i = length pre + 16"
proof -
  from assms(3) obtain body where b: "MiniULID now rnd = Some body" "i = pre @ body"
    by (auto simp: Prefixed_def split: option.splits)
  have "UnixMilli now mod 2 ^ 48 = (now - unix_epoch) div 1000000"
    using assms(1,2) by (simp add: UnixMilli_def)
  then have "unix_epoch + UnixMilli now mod 2 ^ 48 * 1000000 = now - (now - unix_epoch) mod 1000000"
    by (simp add: minus_mod_eq_div_mult [symmetric])
  moreover have "rnd \<noteq> None" using b(1) by (cases rnd) (simp_all add: MiniULID_def)
  ultimately show ?thesis
    using ParseMiniULIDTime_MiniULID [OF b(1)] MiniULID_length [OF b(1)] b(2)
    by (simp add: ParsePrefixedTime_def)
qed

theorem ulid_time_roundtrip_witness:
  "ParsePrefixedTime ''seed-'' (''seed-'' @ hex_EncodeToString [0, 0, 0, 0, 0, 7, 1, 2]) = Some (unix_epoch + 7000000)"
  using ulid_time_roundtrip [of "unix_epoch + 7000000" "''seed-''" "Some (1, 2)"
    "''seed-'' @ hex_EncodeToString [0, 0, 0, 0, 0, 7, 1, 2]"] sample_ulid
  by (simp add: UnixMilli_def Prefixed_def)

text \<open>Ids generated later sort later, whatever their random bytes.\<close>

theorem ulid_sorts:
  assumes "MiniULID now rnd = Some a" "MiniULID now' rnd' = Some b"
    "0 \<le> UnixMilli now" "UnixMilli now < UnixMilli now'" "UnixMilli now' < 2 ^ 48"
  shows "a < b"
  by (rule MiniULID_less [OF assms(1,2)]) (use assms(3-5) in simp)

theorem ulid_sorts_witness:
  "the (MiniULID (unix_epoch + 7000000) (Some (1, 2))) < the (MiniULID (unix_epoch + 9000000) (Some (0, 0)))"
proof (rule ulid_sorts [of "unix_epoch + 7000000" "Some (1, 2)" _ "unix_epoch + 9000000" "Some (0, 0)"])
qed (simp_all only: MiniULID_Some option.sel, simp_all add: UnixMilli_def)


section \<open>Dependencies\<close>

text \<open>C20: The dependency check accepts a plan exactly when every dependency, of the stored
  tasks and of the planned ones, is a known id other than the task's own, and no chain of
  dependencies returns to where it started.\<close>

theorem dependency_check:
  "ValidateDependencies quote trace specs = [] \<longleftrightarrow>
    (\<forall>(i, ds) \<in> set (deps_of trace specs). \<forall>d \<in> set ds. d \<noteq> [] \<and> d \<noteq> i \<and> mget (deps_of trace specs) d \<noteq> None)
    \<and> \<not> (\<exists>i. (i, i) \<in> {(a, b). edge (deps_of trace specs) a b}\<^sup>+)"
  unfolding ValidateDependencies_nil Let_def acyclic_def by blast

theorem dependency_check_witness:
  "ValidateDependencies (\<lambda>s. s) (after [plan_event]) [] = []
    \<and> \<not> (\<exists>i. (i, i) \<in> {(a, b). edge (deps_of (after [plan_event]) []) a b}\<^sup>+)"
  using dependency_check [of "\<lambda>s. s" "after [plan_event]" "[]"] sample_deps by blast

text \<open>C21: A reported cycle is one: its ids are distinct, each depends on the next and the
  last on the first; the search never runs out of fuel, and reports a cycle whenever there is one.\<close>

theorem dependency_cycle:
  "(dependencyCycle deps \<noteq> [] \<longrightarrow> dep_cycle deps (dependencyCycle deps))
    \<and> (dependencyCycle deps = [] \<longleftrightarrow> \<not> (\<exists>c. dep_cycle deps c))
    \<and> dfs_run deps \<noteq> OutOfFuel"
  using dependencyCycle_sound [of deps] dependencyCycle_complete [of deps] dep_cycle_trancl [of deps]
    dfs_run_post [of deps] by auto

theorem dependency_cycle_witness:
  "dep_cycle [(''a'', [''b'']), (''b'', [''a''])] (dependencyCycle [(''a'', [''b'']), (''b'', [''a''])])"
  using dependency_cycle [of "[(''a'', [''b'']), (''b'', [''a''])]"] sample_cycle by blast

text \<open>C22: A trail whose dependencies pass the check is not parked for good: while its
  tasks are planned or completed and a planned one is left, one of them is eligible.\<close>

theorem dependency_progress:
  assumes "trace_wf trace" "ValidateDependencies quote trace [] = []"
    "\<forall>t \<in> set (task_list trace). t_Status t = TaskStatusCompleted
      \<or> t_Status t = TaskStatusPlanned \<and> \<not> IsMergeTask t \<and> \<not> IsClosingTask t"
    "\<exists>t \<in> set (task_list trace). t_Status t = TaskStatusPlanned"
  shows "FirstEligiblePlanned trace \<noteq> None"
  by (rule validated_progress [OF assms])

theorem dependency_progress_witness: "FirstEligiblePlanned (after [plan_event]) \<noteq> None"
  by (rule dependency_progress [OF ledger_ok_wf [OF after_ok] sample_deps(1)])
    (use sample_deps(2,3) in \<open>simp_all only: list_all_iff list_ex_iff\<close>)

section \<open>The two ledgers\<close>



text \<open>A method of either ledger that returns an error has changed nothing; for the
  bucket this needs that no other process writes meanwhile.\<close>

theorem failed_call:
  assumes "kv_laws kv"
  shows "(snd (mem_mutate load m l i) = Inl e \<longrightarrow> fst (mem_mutate load m l i) = l)
    \<and> (snd (mem_Apply clock l ev) = Inl e \<longrightarrow> fst (mem_Apply clock l ev) = l)
    \<and> (snd (kv_mutate kv quiet m s i) = Inl e \<longrightarrow> fst (kv_mutate kv quiet m s i) = s)
    \<and> (snd (kv_Apply kv quiet clock s ev) = Inl e \<longrightarrow> fst (kv_Apply kv quiet clock s ev) = s)"
  using mem_mutate_error [of load m l i e] mem_Apply_error [of clock l ev e]
    kv_mutate_error [OF assms, of m s i e] kv_Apply_error [OF assms, of clock s ev e] by blast

theorem failed_call_witness:
  "fst (kv_MarkEnergySeedPublished sample_kv quiet [] ''t'' ''seed-1'') = []"
  using failed_call [OF sample_kv_laws(1), of mem_view "m_MarkEnergySeedPublished ''seed-1''" "[]" "''t''"
    "PublishError NothingRecorded" 0 plan_event "[]"] sample_unseeded by (simp add: kv_MarkEnergySeedPublished_def)

text \<open>C24: Every successful method call on the bucket took effect at one instant, however
  other processes write between its reads and writes: the mutation saw the snapshot stored at
  that instant, its result is what the bucket holds right after, and other traces were not
  touched. No concurrent update is lost.\<close>

theorem cas_atomic:
  assumes "kv_laws kv" "codec_ok kv" "rivals_ok kv rivals" "kv_mutate kv rivals m s i = (s', Inr r)"
  shows "\<exists>at. took_effect kv m i r at s'"
  by (rule kv_mutate_took_effect [OF assms])

theorem cas_atomic_witness:
  "\<exists>at s' r. took_effect sample_kv (m_EnsureEnergySeed 9 (Some ''c'') 20) ''t'' r at s' \<and> \<not> snd r"
proof -
  obtain s' r where "kv_EnsureEnergySeed sample_kv sample_rival 9 (Some ''c'') [] ''t'' 20 = (s', Inr r)" "\<not> snd r"
    using sample_race by blast
  note run = this
  show ?thesis using cas_atomic [OF sample_kv_laws sample_rivals_ok run(1) [unfolded kv_EnsureEnergySeed_def]] run(2)
    by blast
qed

text \<open>Callers racing to allocate a trail's honey converge on one seed: who is told it
  created the seed found none and the bucket now holds that one; who is told it did not finds
  the recorded seed it was given in the bucket.\<close>

theorem seed_one_winner:
  assumes "kv_laws kv" "codec_ok kv" "rivals_ok kv rivals"
    "kv_EnsureEnergySeed kv rivals now body s i budget = (s', Inr (seed, created))"
  shows "\<exists>t rv. loadTrace kv s' i = Inr (t, rv) \<and> allocated t
    \<and> (if created then EnergySeed t = Some seed \<and> sd_Budget seed = (if budget \<le> 0 then 12 else budget)
       else seed = (case EnergySeed t of Some w \<Rightarrow> w | None \<Rightarrow> noSeed))"
proof -
  obtain at where "took_effect kv (m_EnsureEnergySeed now body budget) i (seed, created) at s'"
    using kv_mutate_took_effect [OF assms(1-3) assms(4) [unfolded kv_EnsureEnergySeed_def]] by blast
  then show ?thesis by (rule seed_took_effect)
qed

theorem seed_one_winner_witness:
  "\<exists>s' t rv. loadTrace sample_kv s' ''t'' = Inr (t, rv) \<and> allocated t"
proof -
  obtain s' r where "kv_EnsureEnergySeed sample_kv sample_rival 9 (Some ''c'') [] ''t'' 20 = (s', Inr (fst r, snd r))"
    using sample_race by force
  from seed_one_winner [OF sample_kv_laws sample_rivals_ok this] show ?thesis by blast
qed

text \<open>C25: With no other writer and the bucket up, the ledger on the bucket refines the one
  in memory: each of the nine methods that change a snapshot beside \<open>Apply\<close> returns the same result
  and leaves both ledgers showing the same snapshots. \<open>Apply\<close> returns the same result too, and
  leaves the same snapshots unless the reducer wrote into the task map and reported no change,
  as it does on a refresh (see refresh_diverges). Both show the same snapshot to a reader.\<close>

theorem kv_refines_memory:
  assumes "kv_laws kv" "codec_ok kv" "kv_live kv" "same_store kv s l" "TraceID (mem_view l i) = i"
  shows "(let a = kv_EnsureEnergySeed kv quiet now body s i b; c = mem_EnsureEnergySeed now body l i b
      in snd a = snd c \<and> same_store kv (fst a) (fst c))
    \<and> (let a = kv_MarkEnergySeedPublished kv quiet s i j; c = mem_MarkEnergySeedPublished l i j
      in snd a = snd c \<and> same_store kv (fst a) (fst c))
    \<and> (let a = kv_DeferPendingDispatch kv quiet now body s i d; c = mem_DeferPendingDispatch now body l i d
      in snd a = snd c \<and> same_store kv (fst a) (fst c))
    \<and> (let a = kv_ResolvePendingDispatch kv quiet now s i j st; c = mem_ResolvePendingDispatch now l i j st
      in snd a = snd c \<and> same_store kv (fst a) (fst c))
    \<and> (let a = kv_MarkPendingDispatchUnresolved kv quiet now s i j diag; c = mem_MarkPendingDispatchUnresolved now l i j diag
      in snd a = snd c \<and> same_store kv (fst a) (fst c))
    \<and> (let a = kv_ClaimEnergyPausePublished kv quiet s i; c = mem_ClaimEnergyPausePublished l i
      in snd a = snd c \<and> same_store kv (fst a) (fst c))
    \<and> (let a = kv_ClearEnergyPause kv quiet s i; c = mem_ClearEnergyPause l i
      in snd a = snd c \<and> same_store kv (fst a) (fst c))
    \<and> (let a = kv_RecordWorkCompletion kv quiet now s i w; c = mem_RecordWorkCompletion now l i w
      in snd a = snd c \<and> same_store kv (fst a) (fst c))
    \<and> (let a = kv_MarkWorkCompletionPublished kv quiet s i j; c = mem_MarkWorkCompletionPublished l i j
      in snd a = snd c \<and> same_store kv (fst a) (fst c))
    \<and> (ev_TraceID ev = i \<longrightarrow>
        snd (kv_Apply kv quiet clock s ev) = snd (mem_Apply clock l ev)
        \<and> ((\<forall>res. ApplyEvent clock (mem_view l i) ev = Inr res
              \<longrightarrow> ar_Changed res \<or> Tasks (ar_Trace res) = Tasks (mem_view l i))
            \<longrightarrow> same_store kv (fst (kv_Apply kv quiet clock s ev)) (fst (mem_Apply clock l ev))))
    \<and> kv_Snapshot kv s i = mem_Snapshot l i"
  unfolding Let_def
proof (intro conjI impI)
  show "kv_Snapshot kv s i = mem_Snapshot l i"
    using assms(4) by (auto simp: kv_Snapshot_def mem_Snapshot_def same_store_def)
next
  assume i: "ev_TraceID ev = i"
  show "snd (kv_Apply kv quiet clock s ev) = snd (mem_Apply clock l ev)"
    by (rule kv_Apply_refines(1) [OF assms(1-4)]) (simp add: i assms(5))
  show "same_store kv (fst (kv_Apply kv quiet clock s ev)) (fst (mem_Apply clock l ev))"
    if "\<forall>res. ApplyEvent clock (mem_view l i) ev = Inr res
      \<longrightarrow> ar_Changed res \<or> Tasks (ar_Trace res) = Tasks (mem_view l i)"
    by (rule kv_Apply_refines(2) [OF assms(1-4)]) (use i assms(5) that in auto)
qed (unfold kv_methods mem_methods; rule
      kv_mutate_refines [OF assms(1-5) keeps_name(1), THEN conjunct1]
      kv_mutate_refines [OF assms(1-5) keeps_name(1), THEN conjunct2]
      kv_mutate_refines [OF assms(1-5) keeps_name(2), THEN conjunct1]
      kv_mutate_refines [OF assms(1-5) keeps_name(2), THEN conjunct2]
      kv_mutate_refines [OF assms(1-5) keeps_name(7), THEN conjunct1]
      kv_mutate_refines [OF assms(1-5) keeps_name(7), THEN conjunct2]
      kv_mutate_refines [OF assms(1-5) keeps_name(8), THEN conjunct1]
      kv_mutate_refines [OF assms(1-5) keeps_name(8), THEN conjunct2]
      kv_mutate_refines [OF assms(1-5) keeps_name(9), THEN conjunct1]
      kv_mutate_refines [OF assms(1-5) keeps_name(9), THEN conjunct2]
      kv_mutate_refines [OF assms(1-5) keeps_name(3), THEN conjunct1]
      kv_mutate_refines [OF assms(1-5) keeps_name(3), THEN conjunct2]
      kv_mutate_refines [OF assms(1-5) keeps_name(4), THEN conjunct1]
      kv_mutate_refines [OF assms(1-5) keeps_name(4), THEN conjunct2]
      kv_mutate_refines [OF assms(1-5) keeps_name(5), THEN conjunct1]
      kv_mutate_refines [OF assms(1-5) keeps_name(5), THEN conjunct2]
      kv_mutate_refines [OF assms(1-5) keeps_name(6), THEN conjunct1]
      kv_mutate_refines [OF assms(1-5) keeps_name(6), THEN conjunct2])+

theorem kv_refines_memory_witness:
  "same_store sample_kv (fst (kv_ClearEnergyPause sample_kv quiet [] ''t'')) (fst (mem_ClearEnergyPause [] ''t''))
    \<and> snd (kv_Apply sample_kv quiet 0 [] plan_event) = snd (mem_Apply 0 [] plan_event)"
proof -
  have "TraceID (mem_view [] ''t'') = ''t''" by (simp add: mem_view_def emptyTrace_def)
  from kv_refines_memory [OF sample_kv_laws sample_kv_live sample_same_store this, where ev = plan_event and clock = 0]
  have "same_store sample_kv (fst (kv_ClearEnergyPause sample_kv quiet [] ''t'')) (fst (mem_ClearEnergyPause [] ''t''))"
    "ev_TraceID plan_event = ''t'' \<longrightarrow> snd (kv_Apply sample_kv quiet 0 [] plan_event) = snd (mem_Apply 0 [] plan_event)"
    unfolding Let_def by blast+
  then show ?thesis by (simp add: plan_event_def sample_event_def)
qed

text \<open>C26: A \<open>task.ready\<close> that names another bee for a task that is already ready makes the
  two ledgers part: both report the refreshed task and no change, but the in-memory ledger has
  the new bee from then on while the bucket is left as it was, with the old one.\<close>

theorem refresh_diverges:
  assumes "kv_laws kv" "codec_ok kv" "kv_live kv" "same_store kv s l"
    and "i \<noteq> []" "mget l i = Some trace" "TraceID trace = i" "\<not> Killed trace" "PendingReady trace = None"
    and "ev_TraceID ev = i" "ev_Type ev = EventSignal" "ev_Payload ev = RawJson (TaskReadyPayload_json p)"
      "rd_Kind p = TaskEventReady" "rd_TaskID p \<noteq> []"
    and "mget (Tasks trace) (rd_TaskID p) = Some task" "t_Status task = TaskStatusReady"
      "rd_Bee p \<noteq> []" "rd_Bee p \<noteq> t_Bee task"
  shows "(\<exists>res. snd (mem_Apply clock l ev) = Inr res \<and> snd (kv_Apply kv quiet clock s ev) = Inr res
        \<and> \<not> ar_Changed res \<and> (\<exists>t. mget (Tasks (ar_Trace res)) (rd_TaskID p) = Some t \<and> t_Bee t = rd_Bee p))
    \<and> (\<exists>t. mget (Tasks (mem_view (fst (mem_Apply clock l ev)) i)) (rd_TaskID p) = Some t \<and> t_Bee t = rd_Bee p)
    \<and> fst (kv_Apply kv quiet clock s ev) = s \<and> kv_Snapshot kv (fst (kv_Apply kv quiet clock s ev)) i = Inr trace
    \<and> \<not> same_store kv (fst (kv_Apply kv quiet clock s ev)) (fst (mem_Apply clock l ev))"
proof -
  have view: "mem_view l i = trace" by (simp add: mem_view_def assms(6))
  then obtain rv where load: "loadTrace kv s i = Inr (trace, rv)"
    using assms(4,5) by (auto simp: same_store_def)
  have "traceForEvent trace ev = Inr trace" using assms(5,7,10) by (simp add: traceForEvent_def)
  from refresh_effect [OF assms(11-14) this assms(8,9,15,16)] obtain res where
    res: "ApplyEvent clock trace ev = Inr res" "\<not> ar_Changed res"
    "Tasks (ar_Trace res) = mput (rd_TaskID p)
        ((applyReadyOverlays task p)\<lparr>t_UpdatedAt := eventStamp clock ev\<rparr>) (Tasks trace)" by blast
  have bee: "t_Bee (applyReadyOverlays task p) = rd_Bee p"
    using assms(17) by (simp add: applyReadyOverlays_def overlay_def)
  have "m_Apply clock ev trace = Inr (ar_Trace res, False, res)" using res(1,2) by (simp add: m_Apply_def)
  from kv_commit_same [where m = "m_Apply clock ev", OF assms(1-3,5) load this]
  have kv: "kv_Apply kv quiet clock s ev = (s, Inr res)" using kv_Apply_mutate assms(5,10) by metis
  have mem: "mem_Apply clock l ev = (mput i (trace\<lparr>Tasks := Tasks (ar_Trace res)\<rparr>) l, Inr res)"
    using assms(5,6,10) res(1,2) view by (simp add: mem_Apply_def)
  have "mem_view (fst (mem_Apply clock l ev)) i = trace\<lparr>Tasks := Tasks (ar_Trace res)\<rparr>"
    by (simp add: mem mem_view_def)
  moreover have "trace\<lparr>Tasks := Tasks (ar_Trace res)\<rparr> \<noteq> trace"
  proof
    assume "trace\<lparr>Tasks := Tasks (ar_Trace res)\<rparr> = trace"
    from arg_cong [OF this, of Tasks]
    have "Tasks trace = mput (rd_TaskID p) ((applyReadyOverlays task p)\<lparr>t_UpdatedAt := eventStamp clock ev\<rparr>) (Tasks trace)"
      unfolding res(3) by simp
    from arg_cong [OF this, of "\<lambda>m. mget m (rd_TaskID p)"]
    have "mget (Tasks trace) (rd_TaskID p) = Some ((applyReadyOverlays task p)\<lparr>t_UpdatedAt := eventStamp clock ev\<rparr>)"
      unfolding mget_mput by simp
    then have eq: "task = (applyReadyOverlays task p)\<lparr>t_UpdatedAt := eventStamp clock ev\<rparr>"
      unfolding assms(15) by simp
    have "t_Bee task = rd_Bee p" by (subst eq) (simp add: bee)
    with assms(18) show False by simp
  qed
  ultimately have "mem_view (fst (mem_Apply clock l ev)) i \<noteq> trace" by simp
  then have "\<not> same_store kv s (fst (mem_Apply clock l ev))"
    using load assms(5) by (auto simp: same_store_def)
  then show ?thesis
    using kv mem res load bee assms(5) by (simp add: mem_view_def kv_Snapshot_def)
qed

theorem refresh_diverges_witness:
  "\<not> same_store sample_kv (fst (kv_Apply sample_kv quiet 0 [(''t'', (kicked_trace, 0))] refresh_event))
      (fst (mem_Apply 0 [(''t'', kicked_trace)] refresh_event))"
proof -
  have refresh: "ev_TraceID refresh_event = ''t''" "ev_Type refresh_event = EventSignal"
    "ev_Payload refresh_event = RawJson (TaskReadyPayload_json refresh_payload)"
    "rd_Kind refresh_payload = TaskEventReady" "rd_TaskID refresh_payload \<noteq> []"
    "rd_TaskID refresh_payload = ''a''" "rd_Bee refresh_payload = ''swift''"
    by code_simp+
  have task: "mget (Tasks kicked_trace) (rd_TaskID refresh_payload) = Some kicked_task"
    unfolding refresh(6) by (rule kicked_task_stored)
  have bee: "rd_Bee refresh_payload \<noteq> []" "rd_Bee refresh_payload \<noteq> t_Bee kicked_task"
    using kicked_values(5) by (simp_all add: refresh(7))
  have stored: "mget [(''t'', kicked_trace)] ''t'' = Some kicked_trace" and named: "''t'' \<noteq> []" by simp_all
  from refresh_diverges [OF sample_kv_laws sample_kv_live kicked_store named stored kicked_values(1-3)
      refresh(1-5) task kicked_values(4) bee]
  show ?thesis by blast
qed


section \<open>Event inputs\<close>

text \<open>C27: Take an input whose kind is one of the eight the reducer acts on by kind
  (\<open>ledger_kinds\<close>: \<open>task.plan\<close>, \<open>task.ready\<close>, \<open>task.status\<close>, \<open>task.completed\<close>, \<open>energy.add\<close>,
  \<open>energy.consume\<close>, \<open>energy.stipend\<close>, \<open>system.kill\<close>) and whose payload decoding and encoding gives back
  unchanged. The event built from it, once the validator accepted it, never fails in the reducer
  as malformed: the reducer can only report an overspend, or that the event belongs to another
  trace. For other kinds this is not so (see note_accepted_refused).\<close>

theorem validated_reduces:
  assumes "ToEvent h rnd now input agent = Inr ev" "in_Payload input = RawJson j"
    "canonical (h_float64 h) j" "get_str ''kind'' j \<in> set ledger_kinds"
  shows "ApplyEvent clock trace ev = Inl e \<longrightarrow>
    e = InsufficientHoney \<or> e = TraceMismatch (in_TraceID input) (TraceID trace)"
  using built_event_reduces [OF assms] by blast

theorem validated_reduces_witness:
  "ApplyEvent 0 (emptyTrace ''t'') (built consume_members) = Inl InsufficientHoney"
proof -
  have ids: "in_TraceID (sample_input consume_members) = ''t''" "TraceID (emptyTrace ''t'') = ''t''"
    and in_payload: "in_Payload (sample_input consume_members) = RawJson (JObj consume_members)"
    by (simp_all add: sample_input_def emptyTrace_def)
  have "ToEvent sample_host (Some ''0'') 9 (sample_input consume_members) ''bee-1'' = Inr (built consume_members)"
    using sample_built(1) by (simp add: built_def)
  from validated_reduces [OF this in_payload sample_built(3,4), of 0 "emptyTrace ''t''"]
  have "ApplyEvent 0 (emptyTrace ''t'') (built consume_members) = Inl e \<longrightarrow>
    e = InsufficientHoney \<or> e = TraceMismatch ''t'' ''t''" for e
    unfolding ids .
  with sample_built(2) show ?thesis by (auto split: sum.splits apply_error.splits)
qed

text \<open>An insight of a kind the ledger has no use for, with a member \<open>tasks\<close> that is no list: accepted,
  given back unchanged, and refused by the reducer.\<close>

theorem note_accepted_refused:
  "EventInput_Validate sample_host note_input = []
    \<and> canonical (h_float64 sample_host) (JObj note_members)
    \<and> (case ToEvent sample_host (Some ''0'') 9 note_input ''bee-1'' of Inl _ \<Rightarrow> False
        | Inr ev \<Rightarrow> (case ApplyEvent 0 (emptyTrace ''t'') ev of Inl (ParseError l) \<Rightarrow> True | _ \<Rightarrow> False))"
  by (intro conjI; code_simp)

text \<open>C28: When a payload has a member \<open>kind\<close> and after it a member \<open>Kind\<close>, whatever the two
  say and wherever they stand, the validator judges the input as the kind the second one names,
  while the event built from it carries the kind the first one names.\<close>

theorem case_variant_kind:
  assumes "ToEvent h rnd now input agent = Inr ev" "in_Payload input = RawJson (JObj kvs)"
    "filter (\<lambda>kv. field_match ''kind'' (fst kv)) kvs = [(''kind'', JStr k1), (''Kind'', JStr k2)]"
  shows "validatePayloadKind h (in_Type input) (TrimSpace k2) (in_Payload input) = []
    \<and> PayloadKind (in_Payload input) = TrimSpace k2 \<and> PayloadKind (ev_Payload ev) = TrimSpace k1"
proof -
  have "EventInput_Validate h input = []" using assms(1) by (auto simp: ToEvent_def split: if_splits)
  moreover have "PayloadKind (in_Payload input) = TrimSpace k2" using PayloadKind_last [OF assms(3)] assms(2) by simp
  ultimately show ?thesis
    using two_kinds_event [OF assms] assms(2) by (simp add: EventInput_Validate_def Let_def split: if_splits)
qed

theorem case_variant_kind_witness:
  "PayloadKind (in_Payload (sample_input two_kinds)) = ''note''
    \<and> PayloadKind (ev_Payload (built two_kinds)) = ''energy.stipend''
    \<and> ApplyEvent 0 (emptyTrace ''t'') (built two_kinds) = Inl (AmountNotPositive ''energy.stipend'')"
proof -
  have ok: "\<not> isl (ToEvent sample_host (Some ''0'') 9 (sample_input two_kinds) ''bee-1'')"
    and bad: "ApplyEvent 0 (emptyTrace ''t'') (built two_kinds) = Inl (AmountNotPositive ''energy.stipend'')"
    and trim: "TrimSpace ''note'' = ''note''" "TrimSpace ''energy.stipend'' = ''energy.stipend''"
    and two: "filter (\<lambda>kv. field_match ''kind'' (fst kv)) two_kinds = [(''kind'', JStr ''energy.stipend''), (''Kind'', JStr ''note'')]"
    by code_simp+
  from ok have "ToEvent sample_host (Some ''0'') 9 (sample_input two_kinds) ''bee-1'' = Inr (built two_kinds)"
    by (simp add: built_def)
  from case_variant_kind [OF this _ two] bad trim show ?thesis by (simp add: sample_input_def)
qed

text \<open>C29: An accepted bundle reference is a relative path that names something inside
  the artifact comb: no element of it is empty, the current or the parent directory.\<close>

theorem bundle_inside_comb:
  assumes "CombRelativeBundle raw = Some c"
  shows "c \<noteq> [] \<and> hd c \<noteq> CHR ''/'' \<and> (\<forall>e \<in> set (split_on (CHR ''/'') c). e \<notin> {[], ''.'', ''..''})"
  by (rule CombRelativeBundle_inside [OF assms])

theorem bundle_inside_comb_witness:
  "''..'' \<notin> set (split_on (CHR ''/'') (the (CombRelativeBundle '' a/../skills//x '')))"
proof -
  have "CombRelativeBundle '' a/../skills//x '' = Some ''skills/x''" by code_simp
  with bundle_inside_comb [OF this] show ?thesis by auto
qed

text \<open>C30: Prompt memory holds at most the asked number of distinct lines, each cut to
  the asked length plus the ellipsis. First come lines of the asked task: each is the line of an
  insight of one of the four memory kinds whose payload names that task. Then come shared lines:
  each is the line of such an insight whose payload names no task. While there is room, no line
  of an insight of either sort is missing.\<close>

theorem insight_projection:
  assumes "po_MaxInsights opts > 0" "po_MaxChars opts > 0"
  shows "\<exists>own shared. ProjectInsights events opts = own @ shared \<and> distinct (own @ shared)
    \<and> int (length (own @ shared)) \<le> po_MaxInsights opts
    \<and> (\<forall>s \<in> set own. \<exists>ev \<in> set events. \<exists>line. ev_Type ev = EventInsight
        \<and> PayloadKind (ev_Payload ev) \<in> {InsightRunSummary, InsightReviewNote, InsightContextNote, InsightHumanFeedback}
        \<and> po_TaskID opts \<noteq> [] \<and> insightPayloadTaskID (ev_Payload ev) = po_TaskID opts
        \<and> RenderInsightForPrompt ev = Some line \<and> s = truncateInsightLine line (po_MaxChars opts))
    \<and> (\<forall>s \<in> set shared. \<exists>ev \<in> set events. \<exists>line. ev_Type ev = EventInsight
        \<and> PayloadKind (ev_Payload ev) \<in> {InsightRunSummary, InsightReviewNote, InsightContextNote, InsightHumanFeedback}
        \<and> insightPayloadTaskID (ev_Payload ev) = []
        \<and> RenderInsightForPrompt ev = Some line \<and> s = truncateInsightLine line (po_MaxChars opts))
    \<and> (\<forall>s \<in> set (own @ shared). int (length s) \<le> po_MaxChars opts + 3)
    \<and> (int (length (own @ shared)) < po_MaxInsights opts \<longrightarrow>
        (\<forall>ev \<in> set events. \<forall>line. RenderInsightForPrompt ev = Some line
            \<and> insightPayloadTaskID (ev_Payload ev) \<in> {[], po_TaskID opts}
          \<longrightarrow> truncateInsightLine line (po_MaxChars opts) \<in> set (own @ shared)))"
proof -
  from ProjectInsights_parts [OF assms, of events] obtain own shared where parts:
    "ProjectInsights events opts = own @ shared" "distinct (own @ shared)"
    "int (length (own @ shared)) \<le> po_MaxInsights opts"
    "\<forall>s \<in> set own. \<exists>ev \<in> set events. insight_string opts True ev = Some s"
    "\<forall>s \<in> set shared. \<exists>ev \<in> set events. insight_string opts False ev = Some s"
    "\<forall>s \<in> set (own @ shared). int (length s) \<le> po_MaxChars opts + 3"
    "int (length (own @ shared)) < po_MaxInsights opts \<longrightarrow>
        (\<forall>ev \<in> set events. \<forall>b s. insight_string opts b ev = Some s \<longrightarrow> s \<in> set (own @ shared))" by blast
  have full: "truncateInsightLine line (po_MaxChars opts) \<in> set (own @ shared)"
    if "int (length (own @ shared)) < po_MaxInsights opts" "ev \<in> set events" "RenderInsightForPrompt ev = Some line"
      "insightPayloadTaskID (ev_Payload ev) \<in> {[], po_TaskID opts}" for ev line
  proof -
    have "insight_string opts (insightPayloadTaskID (ev_Payload ev) \<noteq> []) ev = Some (truncateInsightLine line (po_MaxChars opts))"
      using that(3,4) by (auto simp: insight_string_iff)
    with parts(7) that(1,2) show ?thesis by blast
  qed
  show ?thesis
  proof (rule exI [of _ own], rule exI [of _ shared], intro conjI)
    show "\<forall>s \<in> set own. \<exists>ev \<in> set events. \<exists>line. ev_Type ev = EventInsight
        \<and> PayloadKind (ev_Payload ev) \<in> {InsightRunSummary, InsightReviewNote, InsightContextNote, InsightHumanFeedback}
        \<and> po_TaskID opts \<noteq> [] \<and> insightPayloadTaskID (ev_Payload ev) = po_TaskID opts
        \<and> RenderInsightForPrompt ev = Some line \<and> s = truncateInsightLine line (po_MaxChars opts)"
      using parts(4) unfolding insight_string_iff if_True by (blast dest: rendered_kind)
    show "\<forall>s \<in> set shared. \<exists>ev \<in> set events. \<exists>line. ev_Type ev = EventInsight
        \<and> PayloadKind (ev_Payload ev) \<in> {InsightRunSummary, InsightReviewNote, InsightContextNote, InsightHumanFeedback}
        \<and> insightPayloadTaskID (ev_Payload ev) = []
        \<and> RenderInsightForPrompt ev = Some line \<and> s = truncateInsightLine line (po_MaxChars opts)"
      using parts(5) unfolding insight_string_iff if_False by (blast dest: rendered_kind)
  qed (use parts(1-3,6) full in blast)+
qed

theorem insight_projection_witness:
  "\<exists>own shared. ProjectInsights [insight_event ''context.note'' ''x''] (DefaultInsightProjectionOptions ''a'') = own @ shared
    \<and> distinct (own @ shared)"
  using insight_projection [of "DefaultInsightProjectionOptions ''a''" "[insight_event ''context.note'' ''x'']"]
  by (fastforce simp: DefaultInsightProjectionOptions_def)
section \<open>The colony: who reacts, what a run owes\<close>

text \<open>C31: In a colony whose Bees passed the load-time checks, exactly the Bees with a direct
  rule matching the event react, each once and in the order of their names; observations of the
  platform wake nobody; and only the completion milestone starts an analysis.\<close>

theorem direct_reactions:
  assumes "keys_ok bees" "\<forall>b \<in> set (mvals bees). ValidateEventRules b = Inr ()"
  shows "(r \<in> set (DirectReactions bees t k) \<longleftrightarrow> \<not> IsPlatformObservation k
      \<and> (\<exists>b. mget bees (dr_Bee r) = Some b \<and> (\<exists>s. listens t k b s)
        \<and> dr_Purpose r = (if \<exists>s. listens t k b s \<and> AnalysisReaction s then PurposeAnalysis else PurposeWork)))
    \<and> sorted_wrt (<) (DirectSubscribers bees t k)
    \<and> (r \<in> set (DirectReactions bees t k) \<longrightarrow> dr_Purpose r = PurposeAnalysis
        \<longrightarrow> t = EventSignal \<and> TrimSpace k = SignalTrailWorkCompleted)"
proof -
  have "t = EventSignal \<and> TrimSpace k = SignalTrailWorkCompleted"
    if "r \<in> set (DirectReactions bees t k)" "dr_Purpose r = PurposeAnalysis"
  proof -
    from that obtain b s where b: "mget bees (dr_Bee r) = Some b" "listens t k b s" "AnalysisReaction s"
      by (auto simp: DirectReactions_iff split: if_splits)
    have "b \<in> set (mvals bees)" using mget_in [OF b(1)] by force
    with assms(2) have "ValidateEventRules b = Inr ()" by blast
    from analysis_milestone [OF this b(2,3)] show ?thesis .
  qed
  with DirectReactions_iff DirectSubscribers_sorted [OF assms(1)] show ?thesis by blast
qed

theorem direct_reactions_witness:
  "\<lparr>dr_Bee = ''guard'', dr_Purpose = PurposeWork\<rparr> \<in> set (DirectReactions sample_bees EventMutation MutationCodeProposal)
    \<and> sorted_wrt (<) (DirectSubscribers sample_bees EventMutation MutationCodeProposal)"
proof -
  have ok: "keys_ok sample_bees" "\<forall>b \<in> set (mvals sample_bees). ValidateEventRules b = Inr ()"
    by code_simp+
  have "\<lparr>dr_Bee = ''guard'', dr_Purpose = PurposeWork\<rparr> \<in> set (DirectReactions sample_bees EventMutation MutationCodeProposal)"
    by code_simp
  with direct_reactions [OF ok] show ?thesis by blast
qed

text \<open>C32: A run is accepted exactly when it published, for every rule its intent selects, exactly
  as many matching events as the rule counts (one when it counts none), neither fewer nor more,
  although the comment on \<open>CompletionRule\<close> speaks of a minimum; and for a contract that passed the
  load-time check the verdict does not depend on the order in which the map of intents is visited.\<close>

theorem run_contract:
  assumes "ValidateCompletionContract c = Inr ()" "mset (cc_Intents c') = mset (cc_Intents c)"
    "cc_Required c' = cc_Required c"
  shows "ValidateRunEvents (ForIntent c' raw) events = ValidateRunEvents (ForIntent c raw) events
    \<and> (ValidateRunEvents (ForIntent c raw) events = Inr () \<longleftrightarrow> (\<forall>rule \<in> set (cc_Required (ForIntent c raw)).
      int (length (filter (\<lambda>ev. EventType_str (ev_Type ev) = TrimSpace (cr_Type rule)
        \<and> PayloadKind (ev_Payload ev) \<in> TrimSpace ` set (cr_KindOneOf rule)) events))
      = (if cr_Count rule \<le> 0 then 1 else cr_Count rule)))
    \<and> (\<forall>(k, ov) \<in> set (cc_Intents c). intent_name raw = intent_name k \<longrightarrow>
      cc_Required (ForIntent c raw) = co_Required ov)"
  using ForIntent_order_free [OF assms] ForIntent_override [OF assms(1)]
  by (auto simp only: ValidateRunEvents_Inr)

theorem run_contract_witness:
  "ValidateRunEvents (ForIntent sample_contract '' PLAN'') [plan_event] = Inr ()
    \<and> cc_Required (ForIntent sample_contract ''plan'') = co_Required (snd (hd (cc_Intents sample_contract)))"
proof -
  have c: "ValidateCompletionContract sample_contract = Inr ()" by code_simp
  have "ValidateRunEvents (ForIntent sample_contract '' PLAN'') [plan_event] = Inr ()" by code_simp
  moreover have "cc_Required (ForIntent sample_contract ''plan'') = co_Required (snd (hd (cc_Intents sample_contract)))"
  proof -
    obtain k ov where kov: "hd (cc_Intents sample_contract) = (k, ov)" by fastforce
    have "(k, ov) \<in> set (cc_Intents sample_contract)"
      unfolding kov [symmetric] by (rule hd_in_set) (simp add: sample_contract_def)
    moreover have "intent_name ''plan'' = intent_name (fst (hd (cc_Intents sample_contract)))" by code_simp
    moreover have "\<forall>(k, ov) \<in> set (cc_Intents sample_contract). intent_name ''plan'' = intent_name k \<longrightarrow>
        cc_Required (ForIntent sample_contract ''plan'') = co_Required ov"
      using run_contract [OF c refl refl, of "''plan''" "[]"] by blast
    ultimately show ?thesis using kov by auto
  qed
  ultimately show ?thesis by blast
qed

text \<open>C33: A params block that passed validation has known keys only, and the run parameters
  read from it are well-formed: the environment mode is empty or strict, the timeout counts as
  declared exactly when the key has a value and is then a positive duration, and an environment
  that has a value is taken over.\<close>

theorem params_typed:
  assumes "ValidateRunParams ps = Inr ()"
  shows "fst ` set ps \<subseteq> set RunParamKeys
    \<and> rp_EnvMode (ly_Params (LayerFromBee sprint ps)) \<in> {[], ''strict''}
    \<and> (Declares (LayerFromBee sprint ps) ''timeout'' \<longleftrightarrow> declared_param ps ''timeout'' \<noteq> None)
    \<and> (Declares (LayerFromBee sprint ps) ''timeout'' \<longrightarrow> rp_Timeout (ly_Params (LayerFromBee sprint ps)) > 0)
    \<and> (Declares (LayerFromBee sprint ps) ''env'' \<longleftrightarrow> declared_param ps ''env'' \<noteq> None)"
  using accepted_values(1-4) [OF assms, of sprint] accepted_values(5) [OF assms] by blast

theorem params_typed_witness:
  "rp_Timeout (ly_Params (LayerFromBee (\<lambda>_. []) [(''timeout'', JStr '' 1h30m '')])) > 0"
proof -
  have "ValidateRunParams [(''timeout'', JStr '' 1h30m '')] = Inr ()"
    "declared_param [(''timeout'', JStr '' 1h30m '')] ''timeout'' \<noteq> None" by code_simp+
  with params_typed [of "[(''timeout'', JStr '' 1h30m '')]" "\<lambda>_. []"] show ?thesis by blast
qed

section \<open>Trail configuration\<close>

text \<open>C34: After any sequence of admissions, dispatches and closings on a trail, whatever process
  each comes from, a task has at most one open attempt and a direct chain at most one attempt at
  all. Two things are needed of the world outside: the random ids the admissions draw are distinct
  and not empty, and for each task the clock shows a later time at each admission than at the one
  before. Without the second it fails (see clock_back_opens_two).\<close>

theorem attempt_owner:
  assumes "xs = fold attempts_after calls []"
    and "distinct (concat (map drawn_ids calls))" "[] \<notin> set (concat (map drawn_ids calls))"
    and "sorted_wrt (\<lambda>(t, c) (t', c'). t = t' \<longrightarrow> c < c') (concat (map task_clocks calls))"
    and "a \<in> set xs" "b \<in> set xs"
  shows "(at_Kind a = AttemptKindTask \<longrightarrow> at_Kind b = AttemptKindTask \<longrightarrow> at_TaskID a = at_TaskID b
      \<longrightarrow> Open a \<longrightarrow> Open b \<longrightarrow> a = b)
    \<and> (at_Kind a = AttemptKindDirect \<longrightarrow> at_Kind b = AttemptKindDirect \<longrightarrow> at_ChainKey a = at_ChainKey b \<longrightarrow> a = b)"
proof -
  have "(\<lambda>(t, c) (t', c'). t = t' \<longrightarrow> c < c') = clock_advances"
    by (intro ext) (simp add: clock_advances_def split: prod.split)
  with assms(1-4) have "attempts_ok xs" using attempts_history_ok [of calls] by simp
  from attempts_ok_unique [OF this assms(5,6)] show ?thesis by (auto simp: task_owner_def)
qed

theorem attempt_owner_witness:
  "\<not> (Open (hd two_attempts) \<and> Open (last two_attempts)) \<and> length two_attempts = 2"
proof -
  let ?calls = "[CallEnsureGated 2 ''a1'' no_ctx captured_file ''t'' ''x'' ''e1'' None, CallCloseTask 3 ''x'' ''done'',
    CallEnsure 4 ''a2'' no_ctx captured_file ''t'' ''x'' ''e9'' None]"
  have run: "two_attempts = fold attempts_after ?calls []" by (simp add: two_attempts_def one_attempt_def)
  have fits: "distinct (concat (map drawn_ids ?calls))" "[] \<notin> set (concat (map drawn_ids ?calls))"
    "sorted_wrt (\<lambda>(t, c) (t', c'). t = t' \<longrightarrow> c < c') (concat (map task_clocks ?calls))" by simp_all
  have "map (\<lambda>a. (at_AttemptID a, at_Kind a, at_TaskID a)) two_attempts
      = [(''a1'', AttemptKindTask, ''x''), (''a2'', AttemptKindTask, ''x'')]" by code_simp
  then obtain a b where ab: "two_attempts = [a, b]" "at_AttemptID a \<noteq> at_AttemptID b" "at_Kind a = AttemptKindTask"
    "at_Kind b = AttemptKindTask" "at_TaskID a = at_TaskID b" by (auto simp: map_eq_Cons_conv)
  have "a \<in> set two_attempts" "b \<in> set two_attempts" by (simp_all add: ab(1))
  from attempt_owner [OF run fits this] ab(2-5) have "\<not> (Open a \<and> Open b)" by auto
  then show ?thesis by (simp add: ab(1))
qed

text \<open>C35: The admission of a task recognises a replay by the event that opened the attempt or
  by the key of its last dispatch, but dispatches are marked with the attempt id in front of the
  event id. So take an open attempt, any later event that is admitted to it and dispatched, and
  close the task: when that event is delivered again the admission opens another attempt, while the
  event that opened the attempt is still recognised.\<close>

theorem replay_reopens:
  assumes "distinct (map at_AttemptID xs)" "latestTask xs t = a" "at_AttemptID a \<noteq> []" "Open a"
    and "TrimSpace t \<noteq> []" "LoadManifest tr f = Inr m" "mf_Pending m = None"
    and "e \<noteq> []" "e \<noteq> at_SourceEventID a"
    and "EnsureTaskAttemptGated now1 i1 ctx f tr t e inp xs = (xs1, r1)"
    and "MarkAttemptDispatched (at_AttemptID a) (at_AttemptID a @ ''|'' @ e) xs1 = (xs2, r2)"
    and "xs3 = CloseTaskAttempts now2 t reason xs2"
  shows "(\<exists>a1. r1 = Inr (a1, False) \<and> at_AttemptID a1 = at_AttemptID a)
    \<and> (\<exists>b. EnsureTaskAttemptGated now3 i3 ctx f tr t e inp xs3 = (xs3 @ [b], Inr (b, False))
        \<and> Open b \<and> at_AttemptID b = i3 \<and> at_TaskID b = t)
    \<and> (at_SourceEventID a \<noteq> [] \<longrightarrow> (\<exists>a3. EnsureTaskAttemptGated now3 i3 ctx f tr t (at_SourceEventID a) inp xs3
        = (xs3, Inr (a3, False)) \<and> at_AttemptID a3 = at_AttemptID a \<and> \<not> Open a3))"
proof -
  let ?key = "at_AttemptID a @ ''|'' @ e"
  have t: "t \<noteq> []" using assms(5) by auto
  have start: "at_AttemptID (latestTask xs t) \<noteq> []" "Open (latestTask xs t)" using assms(2-4) by simp_all
  have one: "list_all2 evolves xs xs1" "r1 = Inr (latestTask xs1 t, False)" "Open (latestTask xs1 t)"
    using admit_open [OF start assms(5,6,1,10)] by simp_all
  have two: "list_all2 evolves xs1 xs2" using MarkAttemptDispatched_evolves [of xs1 "at_AttemptID a" ?key] assms(11) by simp
  have three: "list_all2 evolves xs2 xs3" unfolding assms(12) by (rule Close_evolves)
  have ids: "distinct (map at_AttemptID xs1)" "distinct (map at_AttemptID xs2)"
    using assms(1) evolves_ids [OF one(1)] evolves_ids [OF two] by simp_all
  have same: "at_AttemptID (latestTask xs1 t) = at_AttemptID a" "at_AttemptID (latestTask xs2 t) = at_AttemptID a"
    "at_AttemptID (latestTask xs3 t) = at_AttemptID a" "at_SourceEventID (latestTask xs3 t) = at_SourceEventID a"
    using latestTask_evolves [OF one(1), of t] latestTask_evolves [OF two, of t] latestTask_evolves [OF three, of t] assms(2)
    by (simp_all add: evolves_def)
  have "at_LastDispatchKey (latestTask xs2 t) = ?key"
    using marked_key [of xs1 t ?key] one(3) ids(1) same(1) assms(3,11) by simp
  moreover have "?key \<noteq> e" by (rule notI, drule arg_cong [of _ _ length]) simp
  ultimately have last: "\<not> Open (latestTask xs3 t)" "at_LastDispatchKey (latestTask xs3 t) \<noteq> e"
    using closed_latest [of xs2 t now2 reason] same(2) assms(3) t ids(2) unfolding assms(12) by simp_all
  have some3: "at_AttemptID (latestTask xs3 t) \<noteq> []" using same(3) assms(3) by simp
  note again = admit_closed [OF some3 last(1) assms(5-7)]
  have "EnsureTaskAttemptGated now3 i3 ctx f tr t e inp xs3
      = (let b = newAttempt now3 i3 ctx m tr t [] AttemptKindTask e inp in (xs3 @ [b], Inr (b, False)))"
    using again [OF assms(8), of now3 i3 ctx inp] last(2) same(4) assms(9) by simp
  moreover have "EnsureTaskAttemptGated now3 i3 ctx f tr t (at_SourceEventID a) inp xs3 = (xs3, Inr (latestTask xs3 t, False))"
    if "at_SourceEventID a \<noteq> []"
    using again [OF that, of now3 i3 ctx inp] same(4) by simp
  ultimately show ?thesis using one(2) same(1,3) last(1) by (auto simp: Let_def)
qed

theorem replay_reopens_witness:
  "\<exists>b. EnsureTaskAttemptGated 4 ''a3'' no_ctx captured_file ''t'' ''x'' ''e2'' None
      (CloseTaskAttempts 3 ''x'' ''done'' (fst (MarkAttemptDispatched ''a1'' ''a1|e2''
        (fst (EnsureTaskAttemptGated 2 ''a2'' no_ctx captured_file ''t'' ''x'' ''e2'' None one_attempt)))))
    = (CloseTaskAttempts 3 ''x'' ''done'' (fst (MarkAttemptDispatched ''a1'' ''a1|e2''
        (fst (EnsureTaskAttemptGated 2 ''a2'' no_ctx captured_file ''t'' ''x'' ''e2'' None one_attempt)))) @ [b], Inr (b, False))
    \<and> Open b"
proof -
  obtain m where m: "LoadManifest ''t'' captured_file = Inr m" "mf_Pending m = None"
    using captured_loads by (auto split: sum.splits)
  obtain z where z: "one_attempt = [z]" "latestTask one_attempt ''x'' = z" "Open z"
    "at_AttemptID z = ''a1''" "at_SourceEventID z = ''e1''"
    using one_attempt_values by auto
  have facts: "distinct (map at_AttemptID one_attempt)" "at_AttemptID z \<noteq> []" "''e2'' \<noteq> []"
    "''e2'' \<noteq> at_SourceEventID z" by (simp_all add: z(1,4,5))
  have task: "TrimSpace ''x'' \<noteq> []" by code_simp
  have key: "''a1|e2'' = ''a1'' @ ''|'' @ ''e2''" by simp
  show ?thesis
    using replay_reopens [OF facts(1) z(2) facts(2) z(3) task m facts(3,4) surjective_pairing surjective_pairing refl]
    unfolding z(4) key by blast
qed

text \<open>C36: Whatever requests, boundaries and cancellations a trail sees, its manifest is
  consistent: the revision counts the applied changes, which are numbered from one, the active
  snapshot is the one of the last of them and is retained; a pending change waits for named
  blockers, is never stale and differs from what is active; and no request is recorded twice.\<close>

theorem config_history:
  assumes "config_step\<^sup>*\<^sup>* None (Some m)"
  shows "mf_ConfigRevision m = int (length (applied_changes m)) \<and> applied_changes m \<noteq> []
    \<and> map ch_Revision (applied_changes m) = map (\<lambda>i. int i + 1) [0 ..< length (applied_changes m)]
    \<and> ch_ActiveConfigRef (last (applied_changes m)) = mf_ActiveConfigRef m
    \<and> mf_ActiveConfigRef m \<in> sn_ConfigRef ` set (mf_Snapshots m)
    \<and> (\<forall>c. mf_Pending m = Some c \<longrightarrow> ch_Blockers c \<noteq> [] \<and> ch_ExpectedRevision c = mf_ConfigRevision m
        \<and> ch_NewConfigRef c \<noteq> mf_ActiveConfigRef m \<and> ch_NewConfigRef c \<in> sn_ConfigRef ` set (mf_Snapshots m))
    \<and> distinct (requests m)"
proof -
  have ok: "manifest_ok m" using config_reachable_ok [OF assms] by simp
  then have "ch_ActiveConfigRef (last (applied_changes m)) \<in> refs m"
    using last_in_set [of "applied_changes m"] unfolding manifest_ok_def revisions_ok_def by blast
  with ok show ?thesis by (simp add: manifest_ok_def revisions_ok_def pending_ok_def)
qed

theorem config_history_witness:
  "\<exists>m. waiting_file = Some m \<and> mf_Pending m \<noteq> None \<and> mf_ConfigRevision m = int (length (applied_changes m))"
proof -
  obtain m where m: "waiting_file = Some m" "mf_Pending m \<noteq> None"
    using sample_files(3) by auto
  have "config_step None captured_file" "config_step captured_file waiting_file"
    unfolding captured_file_def waiting_file_def
    by (rule config_step.capture, rule prod.collapse [symmetric], rule config_step.configure, rule prod.collapse [symmetric])
  then have "config_step\<^sup>*\<^sup>* None (Some m)" unfolding m(1) [symmetric] by (meson rtranclp.simps)
  from config_history [OF this] m show ?thesis by blast
qed
text \<open>C37: The active snapshot of a trail changes only at a safe boundary and only to a checked
  candidate. Whether an operator's request or the runtime's boundary check switches it: no task
  runs or waits for review, every known run has ended, every open attempt was dispatched and the
  runs it owns have ended; and the new snapshot serves every task still to be dispatched.\<close>

theorem safe_cutover:
  assumes "mf_ActiveConfigRef m' \<noteq> mf_ActiveConfigRef m"
    "Apply now cid d opts snap entries evidence (Some m) = (Some m', r1)
      \<or> TryActivate now d tr given snap entries evidence (Some m) = (Some m', r2)"
  shows "(\<forall>t \<in> set (task_list snap). t_Status t \<noteq> TaskStatusRunning \<and> t_Status t \<noteq> TaskStatusWaitingReview)
    \<and> (\<forall>r \<in> set evidence. re_Readable r \<and> runTerminal (re_State r))
    \<and> (\<forall>a \<in> set entries. Open a \<longrightarrow> at_DispatchCount a \<noteq> 0
        \<and> (\<forall>p \<in> set (owned_runs a evidence). re_Readable (snd p) \<and> runTerminal (re_State (snd p))))
    \<and> (\<exists>base profile warnings. validateProcedure d (mf_ActiveConfigRef m') base (RemainingProcedureWork snap) profile
        = Inr warnings)
    \<and> (\<forall>w \<in> set (RemainingProcedureWork snap). \<exists>defaults sectors bees.
        tr_Colony (dk_tree d (mf_ActiveConfigRef m')) = Inr (defaults, sectors)
        \<and> tr_Bees (dk_tree d (mf_ActiveConfigRef m')) = Inr bees
        \<and> validateProcedureWork defaults sectors bees w = Inr ())"
proof -
  have "Blockers snap entries evidence = [] \<and> (\<exists>base profile warnings.
      validateProcedure d (mf_ActiveConfigRef m') base (RemainingProcedureWork snap) profile = Inr warnings)"
    using assms(2)
  proof
    assume "Apply now cid d opts snap entries evidence (Some m) = (Some m', r1)"
    from Apply_safe [OF this assms(1)] show ?thesis by (metis prepared_valid)
  next
    assume "TryActivate now d tr given snap entries evidence (Some m) = (Some m', r2)"
    from TryActivate_safe [OF this assms(1)] show ?thesis by (metis pending_check_valid)
  qed
  then show ?thesis using validateProcedure_work by (simp only: Blockers_Nil) blast
qed

theorem safe_cutover_witness:
  "\<exists>m'. switched_file = Some m' \<and> (\<exists>base profile. validateProcedure sample_disk (mf_ActiveConfigRef m') base
    (RemainingProcedureWork (emptyTrace ''t'')) profile = Inr [])"
proof -
  obtain m m' where f: "captured_file = Some m" "mf_ActiveConfigRef m = ref_of CHR ''a''"
    "switched_file = Some m'" "mf_ActiveConfigRef m' = ref_of CHR ''b''"
    using sample_files(1,2) by auto
  have run: "Apply 3 ''c2'' sample_disk sample_options (emptyTrace ''t'') [] [] (Some m)
      = (Some m', snd (Apply 3 ''c2'' sample_disk sample_options (emptyTrace ''t'') [] [] (Some m)))"
    using f(1,3) by (metis prod.collapse switched_file_def)
  have moved: "mf_ActiveConfigRef m' \<noteq> mf_ActiveConfigRef m" using f(2,4) by (simp add: ref_of_def)
  obtain base profile w where "validateProcedure sample_disk (mf_ActiveConfigRef m') base
      (RemainingProcedureWork (emptyTrace ''t'')) profile = Inr w"
    using safe_cutover [OF moved disjI1 [OF run]] by blast
  then have "validateProcedure sample_disk (mf_ActiveConfigRef m') base
      (RemainingProcedureWork (emptyTrace ''t'')) profile = Inr []"
    by (auto simp: validateProcedure_def res_bind_Inr_iff sample_disk_def)
  with f(3) show ?thesis by blast
qed

text \<open>C38: A dry run of a configuration request writes nothing, and when the same request recorded
  for real succeeds, it had reported the same outcome, blockers, new snapshot, difference,
  remaining work and skill warnings.\<close>

theorem dry_run:
  shows "fst (Apply now cid d (opts\<lparr>op_DryRun := True\<rparr>) snap entries evidence f) = f
    \<and> (Apply now cid d (opts\<lparr>op_DryRun := False\<rparr>) snap entries evidence f = (f', Inr a) \<longrightarrow>
      (\<exists>b. Apply now cid d (opts\<lparr>op_DryRun := True\<rparr>) snap entries evidence f = (f, Inr b)
        \<and> ap_NewRef a = ap_NewRef b \<and> ap_Diff a = ap_Diff b \<and> ap_RemainingWork a = ap_RemainingWork b
        \<and> ap_SkillWarnings a = ap_SkillWarnings b \<and> ch_Outcome (ap_Change a) = ch_Outcome (ap_Change b)
        \<and> ch_Blockers (ap_Change a) = ch_Blockers (ap_Change b)))"
  using Apply_dry [of now cid d opts snap entries evidence f f' a] Apply_dry_file [of "opts\<lparr>op_DryRun := True\<rparr>"]
  by (auto simp: same_report_def)

theorem dry_run_witness:
  "\<exists>b. Apply 3 ''c2'' sample_disk (sample_options\<lparr>op_DryRun := True\<rparr>) (emptyTrace ''t'') [] [] captured_file
    = (captured_file, Inr b)"
proof -
  have "\<not> isl (snd (Apply 3 ''c2'' sample_disk (sample_options\<lparr>op_DryRun := False\<rparr>) (emptyTrace ''t'') [] [] captured_file))"
    by code_simp
  then obtain f' a where
    "Apply 3 ''c2'' sample_disk (sample_options\<lparr>op_DryRun := False\<rparr>) (emptyTrace ''t'') [] [] captured_file = (f', Inr a)"
    by (metis isl_def prod.collapse sum.collapse(2))
  with dry_run show ?thesis by blast
qed

text \<open>C39: In any interleaving of configuration operations and gated admissions of a trail,
  take an open attempt that was never dispatched. No next step changes the active configuration
  while it is there. It was admitted with some context under its id: if that context was not
  bound to a snapshot, the attempt is bound to the configuration that is active; if it was, the
  attempt has the snapshot of the context, active or not.\<close>

theorem fresh_attempts:
  assumes "trail_step\<^sup>*\<^sup>* (None, [], []) (f, xs, admissions)" "a \<in> set xs" "Open a" "at_DispatchCount a = 0"
  shows "(\<exists>ctx. (at_AttemptID a, ctx) \<in> set admissions
      \<and> (if TrimSpace (cx_ConfigRef ctx) = []
         then \<exists>m. f = Some m \<and> at_ConfigRef a = mf_ActiveConfigRef m \<and> at_ConfigRevision a = mf_ConfigRevision m
         else at_ConfigRef a = TrimSpace (cx_ConfigRef ctx) \<and> at_ConfigRevision a = cx_ConfigRevision ctx))
    \<and> (\<forall>m f' xs' admissions'. f = Some m \<and> trail_step (f, xs, admissions) (f', xs', admissions') \<longrightarrow>
      (\<exists>m'. f' = Some m' \<and> mf_ActiveConfigRef m' = mf_ActiveConfigRef m \<and> mf_ConfigRevision m' = mf_ConfigRevision m))"
proof (intro conjI allI impI)
  have "undispatched a" using assms(3,4) by (simp add: undispatched_def)
  then obtain ctx where "(at_AttemptID a, ctx) \<in> set admissions" "bound_by ctx f a"
    using trail_reachable_ok [OF assms(1)] assms(2) by (auto simp: trail_ok_def)
  then show "\<exists>ctx. (at_AttemptID a, ctx) \<in> set admissions
      \<and> (if TrimSpace (cx_ConfigRef ctx) = []
         then \<exists>m. f = Some m \<and> at_ConfigRef a = mf_ActiveConfigRef m \<and> at_ConfigRevision a = mf_ConfigRevision m
         else at_ConfigRef a = TrimSpace (cx_ConfigRef ctx) \<and> at_ConfigRevision a = cx_ConfigRevision ctx)"
    by (auto simp: bound_by_def)
  fix m f' xs' admissions' assume "f = Some m \<and> trail_step (f, xs, admissions) (f', xs', admissions')"
  then show "\<exists>m'. f' = Some m' \<and> mf_ActiveConfigRef m' = mf_ActiveConfigRef m \<and> mf_ConfigRevision m' = mf_ConfigRevision m"
    using trail_step_kept [of "(f, xs, admissions)" "(f', xs', admissions')"] assms(2) \<open>undispatched a\<close>
    by (auto simp: config_kept_def)
qed

theorem fresh_attempts_witness:
  "\<exists>m. waiting_file = Some m \<and> at_ConfigRef (hd one_attempt) = mf_ActiveConfigRef m"
proof -
  let ?log = "[(''a1'', no_ctx)]"
  have "trail_step (None, [], []) (captured_file, [], [])"
    unfolding captured_file_def by (rule trail_step.capture) (rule prod.collapse [symmetric])
  moreover have "trail_step (captured_file, [], []) (captured_file, one_attempt, ?log)"
    unfolding one_attempt_def by (rule trail_step.ensure_gated)
  moreover have "trail_step (captured_file, one_attempt, ?log) (waiting_file, one_attempt, ?log)"
    unfolding waiting_file_def by (rule trail_step.configure) (rule prod.collapse [symmetric])
  ultimately have reach: "trail_step\<^sup>*\<^sup>* (None, [], []) (waiting_file, one_attempt, ?log)"
    by (meson rtranclp.rtrancl_refl rtranclp.rtrancl_into_rtrancl)
  obtain z where z: "one_attempt = [z]" "undispatched z" using sample_files(4) by (auto simp: map_eq_Cons_conv)
  from fresh_attempts [OF reach, unfolded z(1), of z] z(2) show ?thesis
    unfolding z(1) by (auto simp: undispatched_def no_ctx_def)
qed
section \<open>The gate boundary\<close>

text \<open>C9: A boundary run of a trail plans or changes a merge task (the gate a person approves)
  only when every other task of the trail, analysis aside, is completed, before and after the run,
  and the closing policy asks for no further round. The other tasks stay as they are, but for at most
  becoming ready. This holds for runs that fail half-way too. The id the platform gives its own gate
  must not be taken by another kind of task.\<close>

theorem gate_waits:
  assumes run: "EnsureTrailPhases (mem_ledger clock) E G P i s = (s', r)"
    and policy: "closing_Validate (gp_Closing P) bees defaults = Inr ()"
    and before: "ledger_ok (mem_view (hv_ledger s) i)" "reserved_free (mem_view (hv_ledger s) i)"
    and gate: "mget (Tasks (mem_view (hv_ledger s') i)) k = Some u" "mget (Tasks (mem_view (hv_ledger s) i)) k \<noteq> Some u" "IsMergeTask u"
  shows "AllPreMergeCompleted (mem_view (hv_ledger s) i) \<and> AllPreMergeCompleted (mem_view (hv_ledger s') i)
    \<and> (\<forall>n. closing_decision (gh_quote G) (gp_Closing P) (mem_view (hv_ledger s) i) \<noteq> SeedRound n)
    \<and> (\<forall>j v. mget (Tasks (mem_view (hv_ledger s') i)) j = Some v \<longrightarrow> \<not> IsMergeTask v
        \<longrightarrow> calm (mget (Tasks (mem_view (hv_ledger s) i)) j) (Some v))"
proof -
  have "merge_kept (mem_view (hv_ledger s) i) (mem_view (hv_ledger s') i) \<Longrightarrow> False"
    using gate by (simp add: merge_kept_def)
  with mem_api.phases_run(2) [OF run TrueI before valid_policy(1) [OF policy]] before(1)
  have rest: "rest_done (mem_view (hv_ledger s) i) (mem_view (hv_ledger s) i)"
    "rest_done (mem_view (hv_ledger s) i) (mem_view (hv_ledger s') i)"
    "\<forall>n. closing_decision (gh_quote G) (gp_Closing P) (mem_view (hv_ledger s) i) \<noteq> SeedRound n"
    unfolding gate_promise_def using round_stored_merge merge_kept_refl by metis+
  have "calm (mget (Tasks (mem_view (hv_ledger s) i)) j) (Some v)"
    if "mget (Tasks (mem_view (hv_ledger s') i)) j = Some v" "\<not> IsMergeTask v" for j v
  proof -
    have "steady (mget (Tasks (mem_view (hv_ledger s) i)) j) (Some v)" using rest(2) that(1) unfolding rest_done_def by metis
    with that(2) show ?thesis by (simp add: steady_def)
  qed
  with rest show ?thesis by (simp add: rest_done_def)
qed

theorem gate_waits_witness:
  "\<exists>s' r. EnsureTrailPhases (mem_ledger 0) sample_env sample_gate without_rounds ''t'' finished_hive = (s', r)
    \<and> AllPreMergeCompleted (mem_view (hv_ledger s') ''t'')"
proof -
  obtain s' r where run: "EnsureTrailPhases (mem_ledger 0) sample_env sample_gate without_rounds ''t'' finished_hive = (s', r)"
    by fastforce
  obtain u where u: "mget (Tasks (mem_view (hv_ledger s') ''t'')) FinalReviewTaskID = Some u" "IsMergeTask u"
    using gate_opens unfolding run by (auto split: option.splits)
  have view: "mem_view (hv_ledger finished_hive) ''t'' = finished_trace"
    by (simp add: finished_hive_def mem_view_def)
  have "mget (Tasks finished_trace) FinalReviewTaskID \<noteq> Some u" using finished_values(5) by simp
  moreover have "reserved_free finished_trace" using finished_values(5) by (simp add: reserved_free_def)
  moreover have "ledger_ok finished_trace" by (simp add: finished_trace_def after_ok)
  ultimately show ?thesis
    using gate_waits [OF run, of None no_defaults FinalReviewTaskID u] u gate_policies_valid(2) run
    by (simp add: view without_rounds_def)
qed

text \<open>C10: When the policy asks for a round, ids can be drawn and publications arrive, the
  boundary run succeeds and returns the round it seeded: a closing task stored under an id that was
  free, planned or ready, that keeps the merge gate shut. No merge task is touched.\<close>

theorem round_seeded:
  assumes due: "closing_decision (gh_quote G) (gp_Closing P) (mem_view (hv_ledger s) i) = SeedRound n" "i \<noteq> []"
    and policy: "closing_Validate (gp_Closing P) bees defaults = Inr ()"
    and before: "ledger_ok (mem_view (hv_ledger s) i)" "TraceID (mem_view (hv_ledger s) i) = i"
      "length (Tasks (mem_view (hv_ledger s) i)) < 2 ^ 64" "reserved_free (mem_view (hv_ledger s) i)"
    and host: "draws E" "delivers E"
  shows "\<exists>s' u k. EnsureTrailPhases (mem_ledger clock) E G P i s = (s', Inr (Some u))
    \<and> mget (Tasks (mem_view (hv_ledger s) i)) k = None \<and> mget (Tasks (mem_view (hv_ledger s') i)) k = Some u
    \<and> IsClosingTask u \<and> t_Status u \<in> {TaskStatusPlanned, TaskStatusReady}
    \<and> \<not> AllPreMergeCompleted (mem_view (hv_ledger s') i)
    \<and> (\<forall>j v. mget (Tasks (mem_view (hv_ledger s') i)) j = Some v \<longrightarrow> IsMergeTask v
        \<longrightarrow> mget (Tasks (mem_view (hv_ledger s) i)) j = Some v)"
proof -
  note p = valid_policy(1) [OF policy]
  obtain s' u where run: "EnsureTrailPhases (mem_ledger clock) E G P i s = (s', Inr (Some u))"
    using mem_api.phases_seed [OF due(2) TrueI before(1-3) p due(1) host] by blast
  obtain k where k: "NextClosingTaskID (mem_view (hv_ledger s) i) = Some k"
    "round_result (mem_view (hv_ledger s) i) k u (mem_view (hv_ledger s') i)"
    using mem_api.phases_run(3) [OF run TrueI before(1,4) p refl] by (auto simp: phases_result_def)
  then have st: "round_stored (mem_view (hv_ledger s) i) k (mem_view (hv_ledger s') i)"
    and u: "mget (Tasks (mem_view (hv_ledger s') i)) k = Some u" by (simp_all add: round_result_def)
  have free: "mget (Tasks (mem_view (hv_ledger s) i)) k = None"
    using NextClosingTaskID_fresh [OF before(3)] k(1) by fastforce
  have c: "IsClosingTask u" "\<not> IsAnalysisTask u" "t_Status u \<in> {TaskStatusPlanned, TaskStatusReady}" "ledger_ok (mem_view (hv_ledger s') i)"
    using st u by (auto simp: round_stored_def)
  have "\<not> AllPreMergeCompleted (mem_view (hv_ledger s') i)"
    using AllPreMerge_mget [OF ledger_ok_wf [OF c(4)]] u c not_merge_and_closing by fastforce
  with run free u c round_stored_merge [OF st] show ?thesis unfolding merge_kept_def by blast
qed

theorem round_seeded_witness:
  "\<exists>s' u. EnsureTrailPhases (mem_ledger 0) sample_env sample_gate with_rounds ''t'' finished_hive = (s', Inr (Some u)) \<and> IsClosingTask u"
proof -
  have view: "mem_view (hv_ledger finished_hive) ''t'' = finished_trace" by (simp add: finished_hive_def mem_view_def)
  have "reserved_free finished_trace" using finished_values(5) by (simp add: reserved_free_def)
  moreover have "ledger_ok finished_trace" by (simp add: finished_trace_def after_ok)
  moreover have "draws sample_env" "delivers sample_env" by (simp_all add: draws_def delivers_def sample_env_def)
  ultimately show ?thesis
    using round_seeded [of sample_gate with_rounds finished_hive "''t''" 1 None no_defaults sample_env 0] finished_values gate_policies_valid(1)
    by (simp add: view with_rounds_def sample_gate_def) blast
qed

text \<open>C11: However often the boundary is reached, whatever events arrive in between and
  whichever of its runs fail, a trail that starts without closing tasks gets at most as many closing
  rounds as the policy allows, on the bucket ledger. The events in between plan nothing in the
  runtime's own name.\<close>

theorem rounds_bounded:
  assumes bucket: "kv_laws kv" "codec_ok kv" "kv_live kv"
    and history: "gate_history (kv_ledger kv clock) (kv_view kv) P i s0 s" "i \<noteq> []"
    and policy: "closing_Validate (gp_Closing P) bees defaults = Inr ()" "ResolvedMaxRounds (gp_Closing P) < 2 ^ 61"
    and fresh: "kv_usable kv (hv_ledger s0)" "ledger_ok (kv_view kv (hv_ledger s0) i)" "rounds_of (kv_view kv (hv_ledger s0) i) = {}"
  shows "int (card (rounds_of (kv_view kv (hv_ledger s) i))) \<le> ResolvedMaxRounds (gp_Closing P)"
proof -
  have bucket: "live_bucket kv" using bucket by unfold_locales
  note p = valid_policy [OF policy(1)]
  have "rounds_set (kv_view kv (hv_ledger s0) i)" using fresh(2,3) by (auto simp: rounds_set_def rounds_of_def)
  from live_bucket.bucket_history [OF bucket history fresh(1) this fresh(3) p(1) _ policy(2)] p(2)
  show ?thesis by (simp add: rounds_within_def)
qed

theorem rounds_bounded_witness:
  "\<exists>s r. EnsureTrailPhases (kv_ledger sample_kv 0) sample_env sample_gate with_rounds ''t'' finished_bucket = (s, r)
    \<and> card (rounds_of (kv_view sample_kv (hv_ledger s) ''t'')) \<le> 1"
proof -
  obtain s r where run: "EnsureTrailPhases (kv_ledger sample_kv 0) sample_env sample_gate with_rounds ''t'' finished_bucket = (s, r)"
    by fastforce
  have view: "kv_view sample_kv (hv_ledger finished_bucket) ''t'' = finished_trace"
    by (simp add: finished_bucket_def kv_view_def loadTrace_def sample_kv_def finished_values(3))
  have free: "reserved_free finished_trace" using finished_values(5) by (simp add: reserved_free_def)
  have "gate_history (kv_ledger sample_kv 0) (kv_view sample_kv) with_rounds ''t'' finished_bucket s"
    by (rule gate_history.boundary [OF gate_history.start _ _ run]) (simp_all add: view free finished_values(4))
  moreover have "kv_usable sample_kv (hv_ledger finished_bucket)" by (rule finished_usable)
  moreover have "ledger_ok finished_trace" by (simp add: finished_trace_def after_ok)
  moreover have "rounds_of finished_trace = {}" by (rule finished_no_rounds)
  ultimately have "int (card (rounds_of (kv_view sample_kv (hv_ledger s) ''t''))) \<le> ResolvedMaxRounds one_round"
    using rounds_bounded [OF sample_kv_laws sample_kv_live, of 0 with_rounds "''t''" finished_bucket s None no_defaults] gate_policies_valid(1)
    by (simp add: view with_rounds_def ResolvedMaxRounds_def one_round_def)
  with run show ?thesis by (simp add: ResolvedMaxRounds_def one_round_def)
qed

text \<open>The boundary seeds a round exactly when all work is completed, a round is guaranteed (the
  reading the last work task uses to leave the description of the pull request to the closing
  round) and the latest round does not cover the latest work already.\<close>

theorem round_due:
  "(\<exists>n. closing_decision quote p snap = SeedRound n)
    \<longleftrightarrow> AllWorkCompleted snap \<and> ClosingRoundGuaranteed p snap \<and> \<not> ClosingCoversLatestWork snap"
  by (rule seed_iff_guaranteed)
section \<open>Human decisions\<close>

text \<open>C12: An approval merges a worktree or publishes a branch only for a waiting merge gate of
  a trail whose other tasks, the merge tasks apart, are all completed, never for an experimental trail, by
  the way the colony delivers, and after the evidence of the completed work was written. This holds for
  approvals that fail half-way too.\<close>

theorem approve_delivers:
  assumes run: "Approve (mem_ledger clock) E H inp s = (s', es, r)"
    and wf: "trace_wf (mem_view (hv_ledger s) (ai_TraceID inp))"
    and e: "e \<in> set es" "is_merge e \<or> is_publish e"
  shows "(\<exists>gate. mget (Tasks (mem_view (hv_ledger s) (ai_TraceID inp))) (ai_TaskID inp) = Some gate \<and> IsMergeTask gate
        \<and> t_Status gate = TaskStatusWaitingReview)
    \<and> (\<forall>j u. mget (Tasks (mem_view (hv_ledger s) (ai_TraceID inp))) j = Some u \<longrightarrow> IsMergeTask u \<or> t_Status u = TaskStatusCompleted)
    \<and> \<not> (\<exists>b. IsExperimentalTrail H (ai_TraceID inp) = Inr b \<and> b)
    \<and> (\<exists>defaults. rh_defaults H = Some defaults \<and> (is_merge e \<longleftrightarrow> ResolvedDelivery defaults \<noteq> ''pull_request''))
    \<and> (hd es = Captured (mem_view (hv_ledger s) (ai_TraceID inp)) \<or> \<not> needs_evidence H (mem_view (hv_ledger s) (ai_TraceID inp))
        \<or> rh_capture H (mem_view (hv_ledger s) (ai_TraceID inp)) = NoTrail)"
proof -
  let ?t = "mem_view (hv_ledger s) (ai_TraceID inp)"
  obtain gate defaults rest where gate: "may_approve ?t (ai_TaskID inp) gate" "IsFinalReviewTask gate"
    and d: "IsExperimentalTrail H (ai_TraceID inp) = Inr False" "rh_defaults H = Some defaults"
      "is_merge e \<longleftrightarrow> ResolvedDelivery defaults \<noteq> ''pull_request''"
    and es: "es = Captured ?t # rest \<or> es = rest \<and> (needs_evidence H ?t \<longrightarrow> rh_capture H ?t = NoTrail)"
    using mem_api.Approve_delivers [OF run TrueI e] by metis
  have g: "mget (Tasks ?t) (ai_TaskID inp) = Some gate" "t_Status gate = TaskStatusWaitingReview" "IsMergeTask gate"
    using gate by (simp_all add: may_approve_def IsMergeTask_iff IsFinalReviewTask_iff)
  moreover have "\<forall>j u. mget (Tasks ?t) j = Some u \<longrightarrow> IsMergeTask u \<or> t_Status u = TaskStatusCompleted"
    using blocked_iff [OF wf, of "ai_TaskID inp"] gate(1) g unfolding may_approve_def by blast
  ultimately show ?thesis using d es by auto
qed

theorem approve_delivers_witness:
  "\<exists>s es r m. Approve (mem_ledger 0) sample_env sample_review sample_approval waiting_hive = (s, es, r) \<and> Merged m \<in> set es
    \<and> (\<forall>j u. mget (Tasks waiting_trace) j = Some u \<longrightarrow> IsMergeTask u \<or> t_Status u = TaskStatusCompleted)"
proof -
  obtain s es r where run: "Approve (mem_ledger 0) sample_env sample_review sample_approval waiting_hive = (s, es, r)"
    by (metis prod_cases3)
  obtain e where "e \<in> set es" "case e of Merged m \<Rightarrow> True | _ \<Rightarrow> False" using approval_runs by (auto simp: run list_ex_iff)
  then obtain m where m: "Merged m \<in> set es" by (cases e rule: effect.exhaust) auto
  have view: "mem_view (hv_ledger waiting_hive) (ai_TraceID sample_approval) = waiting_trace"
    by (simp add: waiting_hive_def mem_view_def sample_approval_def)
  have "trace_wf waiting_trace" by (simp add: waiting_trace_def after_ok ledger_ok_wf)
  with approve_delivers [OF run, of "Merged m"] m run show ?thesis by (auto simp: view is_merge_def)
qed

text \<open>C13: A successful approval that published no pull request leaves the approved task
  completed, with the commit of the merge, and the boundary it activates does not undo that.\<close>

theorem approve_completes:
  assumes run: "Approve (mem_ledger clock) E H inp s = (s', es, Inr res)" and internal: "\<not> ap_Published res"
    and before: "ledger_ok (mem_view (hv_ledger s) (ai_TraceID inp))" "reserved_free (mem_view (hv_ledger s) (ai_TraceID inp))"
    and policy: "\<And>P. rh_policies H = Some P \<Longrightarrow> \<exists>bees defaults. closing_Validate (gp_Closing P) bees defaults = Inr ()"
  shows "\<exists>task u. mget (Tasks (mem_view (hv_ledger s) (ai_TraceID inp))) (ai_TaskID inp) = Some task
    \<and> t_Status task = TaskStatusWaitingReview
    \<and> mget (Tasks (mem_view (hv_ledger s') (ai_TraceID inp))) (ai_TaskID inp) = Some u
    \<and> t_Status u = TaskStatusCompleted \<and> t_Commit u = (if ap_CommitSHA res = [] then t_Commit task else ap_CommitSHA res)
    \<and> IsMergeTask u = IsMergeTask task"
proof -
  have p: "rounds_not_final (gp_Closing P)" if "rh_policies H = Some P" for P
    using policy [OF that] valid_policy(1) by blast
  obtain u now task where t: "mget (Tasks (mem_view (hv_ledger s) (ai_TraceID inp))) (ai_TaskID inp) = Some task" "t_Status task = TaskStatusWaitingReview"
    "mget (Tasks (mem_view (hv_ledger s') (ai_TraceID inp))) (ai_TaskID inp)
      = Some (completed_task task (approval_payload inp (ap_CommitSHA res) now) u)"
    by (rule mem_api.Approve_completes [OF run TrueI before p internal])
  let ?u = "completed_task task (approval_payload inp (ap_CommitSHA res) now) u"
  have "t_Status ?u = TaskStatusCompleted" "t_Commit ?u = (if ap_CommitSHA res = [] then t_Commit task else ap_CommitSHA res)"
    "IsMergeTask ?u = IsMergeTask task"
    by (simp_all add: completed_task_def approval_payload_def IsMergeTask_iff withCreatedAt_def overlay_def)
  with t show ?thesis by blast
qed

theorem approve_completes_witness:
  "\<exists>s es res u. Approve (mem_ledger 0) sample_env sample_review sample_approval waiting_hive = (s, es, Inr res)
    \<and> mget (Tasks (mem_view (hv_ledger s) ''t'')) FinalReviewTaskID = Some u \<and> t_Status u = TaskStatusCompleted \<and> t_Commit u = ''c0''"
proof -
  obtain s es r where run: "Approve (mem_ledger 0) sample_env sample_review sample_approval waiting_hive = (s, es, r)"
    by (metis prod_cases3)
  then obtain res where res: "r = Inr res" "\<not> ap_Published res" "ap_CommitSHA res = ''c0''"
    using approval_runs by (cases r) auto
  have i: "ai_TraceID sample_approval = ''t''" "ai_TaskID sample_approval = FinalReviewTaskID" by (simp_all add: sample_approval_def)
  have view: "mem_view (hv_ledger waiting_hive) ''t'' = waiting_trace" by (simp add: waiting_hive_def mem_view_def)
  have "\<exists>bees defaults. closing_Validate (gp_Closing P) bees defaults = Inr ()" if "rh_policies sample_review = Some P" for P
    using that gate_policies_valid(2) by (auto simp: sample_review_def without_rounds_def intro!: exI)
  with approve_completes [OF run [unfolded res(1)] res(2)] waiting_reserved after_ok show ?thesis
    unfolding i view using run res by (auto simp: waiting_trace_def)
qed

text \<open>C14: The merge gate can be approved exactly when all the other work is completed and no
  analysis task is left; the refusal does not depend on the order in which the tasks are visited.\<close>

theorem approval_blocked:
  assumes wf: "trace_wf t"
    and gate: "mget (Tasks t) k = Some g" "IsMergeTask g" "\<not> IsAnalysisTask g" "t_Status g = TaskStatusWaitingReview"
  shows "(EnsureApprovable q t k = Inr () \<longleftrightarrow> (\<forall>j u. mget (Tasks t) j = Some u \<longrightarrow> \<not> IsMergeTask u \<longrightarrow> t_Status u = TaskStatusCompleted))
    \<and> (EnsureApprovable q t k = Inr () \<longrightarrow> AllPreMergeCompleted t)
    \<and> (AllPreMergeCompleted t \<longrightarrow> EnsureApprovable q t k = Inr ()
        \<or> (\<exists>j u. mget (Tasks t) j = Some u \<and> IsAnalysisTask u \<and> t_Status u \<noteq> TaskStatusCompleted))
    \<and> (\<forall>t'. mset (Tasks t') = mset (Tasks t) \<longrightarrow> EnsureApprovable q t' k = EnsureApprovable q t k)"
proof -
  have iff: "EnsureApprovable q t k = Inr () \<longleftrightarrow> (\<forall>j u. mget (Tasks t) j = Some u \<longrightarrow> \<not> IsMergeTask u \<longrightarrow> t_Status u = TaskStatusCompleted)"
    using blocked_iff [OF wf, of k] gate by (auto simp: EnsureApprovable_iff)
  have "EnsureApprovable q t k = Inr () \<longrightarrow> AllPreMergeCompleted t"
    unfolding iff AllPreMerge_mget [OF wf] using gate(1,3) by blast
  moreover have "AllPreMergeCompleted t \<longrightarrow> EnsureApprovable q t k = Inr ()
      \<or> (\<exists>j u. mget (Tasks t) j = Some u \<and> IsAnalysisTask u \<and> t_Status u \<noteq> TaskStatusCompleted)"
    unfolding iff AllPreMerge_mget [OF wf] by blast
  moreover have "EnsureApprovable q t' k = EnsureApprovable q t k" if "mset (Tasks t') = mset (Tasks t)" for t'
    using blocked_map_order [OF wf that, of k] by (simp add: EnsureApprovable_def)
  ultimately show ?thesis using iff by blast
qed

theorem approval_blocked_witness:
  "AllPreMergeCompleted analysed_trace \<and> EnsureApprovable (\<lambda>s. s) analysed_trace FinalReviewTaskID \<noteq> Inr ()
    \<and> (\<exists>j u. mget (Tasks analysed_trace) j = Some u \<and> IsAnalysisTask u \<and> t_Status u \<noteq> TaskStatusCompleted)"
proof -
  have wf: "trace_wf analysed_trace" by (simp add: analysed_trace_def after_ok ledger_ok_wf)
  obtain g where g: "mget (Tasks analysed_trace) FinalReviewTaskID = Some g" "IsMergeTask g" "\<not> IsAnalysisTask g"
    "t_Status g = TaskStatusWaitingReview" by (rule analysed_gate)
  from approval_blocked [OF wf g, of "\<lambda>s. s"] analysed_values(1,2) show ?thesis
    unfolding EnsureApprovable_iff by (metis list.discI)
qed
text \<open>C16: Take a trail that was not killed, whose tasks other than the gate and analyses are
  all completed, in a colony without closing rounds, and with nothing to merge. A boundary run that
  succeeds then completes the merge gate whatever its status, unless that is completed, failed,
  blocked or skipped. A gate a person discarded is cancelled, and so is completed too.\<close>

theorem empty_gate_completed:
  assumes run: "EnsureTrailPhases (mem_ledger clock) E G P i s = (s', Inr r)" and i: "i \<noteq> []"
    and snap: "ledger_ok (mem_view (hv_ledger s) i)" "\<not> Killed (mem_view (hv_ledger s) i)" "AllPreMergeCompleted (mem_view (hv_ledger s) i)"
    and off: "\<not> cl_Enabled (gp_Closing P)"
    and gate: "FindFinalReviewTask (mem_view (hv_ledger s) i) = Some final" "\<not> needsIsolatedMerge G (mem_view (hv_ledger s) i) i"
      "t_Status final \<notin> {TaskStatusCompleted, TaskStatusFailed, TaskStatusBlocked, TaskStatusSkipped}"
  shows "\<exists>u. mget (Tasks (mem_view (hv_ledger s') i)) (t_TaskID final) = Some u \<and> IsMergeTask u \<and> t_Status u = TaskStatusCompleted"
proof -
  have "closing_decision (gh_quote G) (gp_Closing P) (mem_view (hv_ledger s) i) = NoRound []"
    using off by (simp add: closing_decision_def)
  moreover have "\<not> gate_settled (t_Status final)" using gate(3) by (simp add: gate_settled_def)
  ultimately obtain u where "mget (Tasks (mem_view (hv_ledger s') i)) (t_TaskID final) = Some u" "t_Status u = TaskStatusCompleted" "IsMergeTask u"
    using mem_api.empty_gate_run [OF run TrueI i snap _ gate(1,2)] by metis
  then show ?thesis by blast
qed

theorem empty_gate_completed_witness:
  "\<exists>s s' u. (Discard (mem_ledger 0) sample_env (\<lambda>s. s) sample_discard :: (MemoryLedger, string, unit) act) waiting_hive = (s, Inr ())
    \<and> EnsureTrailPhases (mem_ledger 0) sample_env empty_gate without_rounds ''t'' s = (s', Inr None)
    \<and> mget (Tasks (mem_view (hv_ledger s') ''t'')) FinalReviewTaskID = Some u \<and> t_Status u = TaskStatusCompleted"
proof -
  obtain s where d: "(Discard (mem_ledger 0) sample_env (\<lambda>s. s) sample_discard :: (MemoryLedger, string, unit) act) waiting_hive = (s, Inr ())"
    and s: "mem_view (hv_ledger s) ''t'' = discarded_trace"
    using discard_stored by blast
  obtain s' where run: "EnsureTrailPhases (mem_ledger 0) sample_env empty_gate without_rounds ''t'' s = (s', Inr None)"
    using discard_runs d by (auto split: prod.splits)
  obtain g where g: "FindFinalReviewTask discarded_trace = Some g" "t_TaskID g = FinalReviewTaskID" "t_Status g = TaskStatusCancelled"
    using discarded_values(4) by (auto split: option.splits)
  from empty_gate_completed [OF run _ _ _ _ _ g(1) [folded s]] discarded_values(1-3) discarded_ok g(2,3) d run
  show ?thesis by (auto simp: s without_rounds_def no_closing_def)
qed

text \<open>A discard cancels the waiting gate it names and changes nothing else in the trail.\<close>

theorem discard_closes:
  assumes run: "(Discard (mem_ledger clock) E q d :: (MemoryLedger, 'e, unit) act) s = (s', Inr ())"
    and ok: "ledger_ok (mem_view (hv_ledger s) (dc_TraceID d))"
  shows "\<exists>u v. mget (Tasks (mem_view (hv_ledger s) (dc_TraceID d))) (dc_TaskID d) = Some u \<and> t_Status u = TaskStatusWaitingReview
    \<and> Tasks (mem_view (hv_ledger s') (dc_TraceID d)) = mput (dc_TaskID d) v (Tasks (mem_view (hv_ledger s) (dc_TraceID d)))
    \<and> t_Status v = TaskStatusCancelled"
  by (rule mem_api.discard_effect [OF run TrueI ok]) auto

text \<open>C15: Once the hive has applied the two events a request for changes publishes, the merge gate
  cannot be approved until the rework is done: a work task under the new id is planned or ready, and
  the other tasks have at most become ready.\<close>

theorem rework_blocks:
  assumes run: "(PlanReworkTask E drawn defaults source i agent :: (MemoryLedger, 'e, string) act) s = (s', Inr k)"
    and new: "k \<noteq> []" "mget (Tasks (mem_view l i)) k = None" "ledger_ok (mem_view l i)"
    and bus: "hv_bus s' = hv_bus s @ [ev1, ev2]"
    and applied: "mem_Apply c1 l ev1 = (l1, Inr r1)" "mem_Apply c2 l1 ev2 = (l2, Inr r2)"
  shows "\<exists>u. mget (Tasks (mem_view l2 i)) k = Some u \<and> \<not> IsMergeTask u \<and> \<not> IsAnalysisTask u \<and> \<not> IsClosingTask u
    \<and> t_Status u \<in> {TaskStatusPlanned, TaskStatusReady}
    \<and> \<not> AllPreMergeCompleted (mem_view l2 i)
    \<and> (\<forall>j g. mget (Tasks (mem_view l2 i)) j = Some g \<longrightarrow> IsMergeTask g \<longrightarrow> t_Status g = TaskStatusWaitingReview
        \<longrightarrow> EnsureApprovable q (mem_view l2 i) j \<noteq> (Inr () :: 'e hive_error + unit))
    \<and> (\<forall>j. j \<noteq> k \<longrightarrow> calm (mget (Tasks (mem_view l i)) j) (mget (Tasks (mem_view l2 i)) j))"
proof -
  obtain a where b: "built_as i a EventInsight (plan_one (rework_spec defaults source k)) ev1"
    "built_as i a EventSignal (TaskReadyPayload_json (rework_ready defaults source k)) ev2"
    by (rule plan_rework_run [OF run]) (use bus in auto)
  then have ids: "ev_TraceID ev1 = i" "ev_TraceID ev2 = i" by (simp_all add: built_as_def)
  obtain d1 where a1: "ApplyEvent d1 (mem_view l i) ev1 = Inr r1" "applied_to (mem_view l i) r1 (mem_view l1 i)"
    using mem_api.apply_done [OF TrueI, of c1 l ev1 r1] applied(1) ids by (auto simp: mem_ledger_def)
  obtain d2 where a2: "ApplyEvent d2 (mem_view l1 i) ev2 = Inr r2" "applied_to (mem_view l1 i) r2 (mem_view l2 i)"
    using mem_api.apply_done [OF TrueI, of c2 l1 ev2 r2] applied(2) ids by (auto simp: mem_ledger_def)
  obtain u where ok: "ledger_ok (mem_view l2 i)" and u: "mget (Tasks (mem_view l2 i)) k = Some u" "\<not> IsMergeTask u"
      "\<not> IsClosingTask u" "\<not> IsAnalysisTask u" "t_Status u \<in> {TaskStatusPlanned, TaskStatusReady}"
    and rest: "\<And>j. j \<noteq> k \<Longrightarrow> calm (mget (Tasks (mem_view l i)) j) (mget (Tasks (mem_view l2 i)) j)"
    using rework_applied [OF b(1) new(1) b(2) new(3,2) a1 a2] by metis
  have undone: "t_Status u \<noteq> TaskStatusCompleted" using u(5) by auto
  then have "\<not> AllPreMergeCompleted (mem_view l2 i)" unfolding AllPreMerge_mget [OF ledger_ok_wf [OF ok]] using u by blast
  moreover have "EnsureApprovable q (mem_view l2 i) j \<noteq> (Inr () :: 'e hive_error + unit)"
    if "mget (Tasks (mem_view l2 i)) j = Some g" "IsMergeTask g" "t_Status g = TaskStatusWaitingReview" for j g
    unfolding EnsureApprovable_iff using blocked_iff [OF ledger_ok_wf [OF ok], of j] that u undone by blast
  ultimately show ?thesis using u rest by blast
qed

theorem rework_blocks_witness:
  "\<exists>s ev1 ev2 l1 l2 r1 r2.
    (PlanReworkTask bus_env (Some ''rework'') no_defaults rejected_task ''t'' [] :: (MemoryLedger, string, string) act) waiting_hive = (s, Inr ''rework'')
    \<and> hv_bus s = [ev1, ev2] \<and> mem_Apply 0 (hv_ledger waiting_hive) ev1 = (l1, Inr r1) \<and> mem_Apply 0 l1 ev2 = (l2, Inr r2)
    \<and> \<not> AllPreMergeCompleted (mem_view l2 ''t'')"
proof -
  obtain s where run: "(PlanReworkTask bus_env (Some ''rework'') no_defaults rejected_task ''t'' [] :: (MemoryLedger, string, string) act) waiting_hive = (s, Inr ''rework'')"
    using rework_runs by (auto split: prod.splits)
  obtain ev1 ev2 where ev: "hv_bus s = [ev1, ev2]" using rework_runs run by (auto split: list.splits)
  obtain l1 a l2 b where results: "mem_Apply 0 (hv_ledger waiting_hive) ev1 = (l1, a)" "mem_Apply 0 l1 ev2 = (l2, b)"
    by (metis prod.exhaust)
  then have "\<not> isl a" "\<not> isl b" using rework_runs by (simp_all add: run ev)
  with results obtain r1 r2 where ap: "mem_Apply 0 (hv_ledger waiting_hive) ev1 = (l1, Inr r1)" "mem_Apply 0 l1 ev2 = (l2, Inr r2)"
    by (metis sum.collapse(2))
  have view: "mem_view (hv_ledger waiting_hive) ''t'' = waiting_trace" by (simp add: waiting_hive_def mem_view_def)
  have "ledger_ok waiting_trace" by (simp add: waiting_trace_def after_ok)
  with rework_blocks [OF run _ _ _ _ ap] run ev ap waiting_free show ?thesis
    unfolding view by (auto simp: waiting_hive_def)
qed

text \<open>C40: The text of a merge commit is split back into the subject and the body it was composed
  of; without a message of the operator they are the default subject and the summary of the trail.\<close>

theorem merge_message:
  assumes "plain_id i" "mm_Body (ComposeMergeMessage i m summary) \<noteq> []"
  shows "splitMergeMessage (FormatMessage (ComposeMergeMessage i m summary))
      = (mm_Subject (ComposeMergeMessage i m summary), mm_Body (ComposeMergeMessage i m summary))
    \<and> mm_Subject (ComposeMergeMessage i m summary) \<noteq> []
    \<and> (TrimSpace m = [] \<longrightarrow> ComposeMergeMessage i m summary = \<lparr>mm_Subject = defaultMergeSubject i, mm_Body = TrimSpace summary\<rparr>)"
  using split_Format [OF assms]
  by (auto simp: ComposeMergeMessage_def Let_def split_beta defaultMergeSubject_def splitMergeMessage_def)

theorem merge_message_witness:
  "splitMergeMessage (FormatMessage (ComposeMergeMessage ''t'' [] ''done'')) = (''paseka: merge trace t'', ''done'')"
proof -
  have "plain_id ''t''" "mm_Body (ComposeMergeMessage ''t'' [] ''done'') \<noteq> []"
    "TrimSpace [] = []" "TrimSpace ''done'' = ''done''" "defaultMergeSubject ''t'' = ''paseka: merge trace t''" by code_simp+
  note parts = merge_message [OF this(1,2)] and texts = this(3-)
  have c: "ComposeMergeMessage ''t'' [] ''done'' = \<lparr>mm_Subject = ''paseka: merge trace t'', mm_Body = ''done''\<rparr>"
    using parts unfolding texts by blast
  show ?thesis using parts [THEN conjunct1] unfolding c by simp
qed

text \<open>C17: Reconciling removes the worktree of a trail only for the trail it was asked about, never
  for an experimental one, only when the forge was asked and the pull request is merged, and only after
  the evidence of the completed work was written, if any was due.\<close>

theorem reconcile_removes:
  assumes run: "ReconcilePublished (mem_ledger clock) E H trace s = (s', es, r)" and e: "Removed i \<in> set es"
  shows "i = TrimSpace trace \<and> \<not> (\<exists>b. IsExperimentalTrail H i = Inr b \<and> b)
    \<and> (\<exists>entry req resp pre post. rh_published H = Some (Some entry) \<and> fr_Op req = ''get'' \<and> fr_TraceID req = i
        \<and> rh_ask H req = Some resp \<and> pr_State (forge_answer entry resp) = ''merged''
        \<and> es = Asked req # pre @ Removed i # post
        \<and> (Captured (mem_view (hv_ledger s) i) \<in> set pre \<or> \<not> needs_evidence H (mem_view (hv_ledger s) i)
            \<or> rh_capture H (mem_view (hv_ledger s) i) = NoTrail))"
proof -
  obtain entry req resp pre ev post where f: "i = TrimSpace trace" "IsExperimentalTrail H i = Inr False"
    "rh_published H = Some (Some entry)" "rh_ask H req = Some resp" "fr_Op req = ''get''" "fr_TraceID req = i"
    "pr_State (forge_answer entry resp) = ''merged''" "es = Asked req # pre @ ev @ Removed i # post"
    "evidence_kept H (mem_view (hv_ledger s) i) ev"
    by (rule mem_api.Reconcile_removes [OF run TrueI e])
  have "es = Asked req # (pre @ ev) @ Removed i # post" using f(8) by simp
  moreover have "Captured (mem_view (hv_ledger s) i) \<in> set (pre @ ev) \<or> \<not> needs_evidence H (mem_view (hv_ledger s) i)
      \<or> rh_capture H (mem_view (hv_ledger s) i) = NoTrail" using f(9) by (auto simp: evidence_kept_def)
  ultimately have "\<exists>pre post. es = Asked req # pre @ Removed i # post
      \<and> (Captured (mem_view (hv_ledger s) i) \<in> set pre \<or> \<not> needs_evidence H (mem_view (hv_ledger s) i)
          \<or> rh_capture H (mem_view (hv_ledger s) i) = NoTrail)" by blast
  moreover have "\<not> (\<exists>b. IsExperimentalTrail H i = Inr b \<and> b)" using f(2) by simp
  ultimately show ?thesis using f(1,3-7) by blast
qed

theorem reconcile_removes_witness:
  "\<exists>s es r req resp. ReconcilePublished (mem_ledger 0) sample_env sample_review ''t'' waiting_hive = (s, es, r) \<and> hd es = Asked req
    \<and> rh_ask sample_review req = Some resp"
proof -
  obtain s es r where run: "ReconcilePublished (mem_ledger 0) sample_env sample_review ''t'' waiting_hive = (s, es, r)"
    by (metis prod_cases3)
  obtain e where "e \<in> set es" "case e of Removed i \<Rightarrow> i = ''t'' | _ \<Rightarrow> False" using reconcile_runs by (auto simp: run list_ex_iff)
  then have "Removed ''t'' \<in> set es" by (cases e rule: effect.exhaust) auto
  from reconcile_removes [OF run this] run show ?thesis by (metis list.sel(1))
qed

text \<open>Reconciling all published trails removes worktrees of listed trails only.\<close>

theorem reconcile_all_removes:
  assumes "reconcile_each (mem_ledger clock) E entries s = (s', es, r)" "Removed i \<in> set es"
  shows "\<exists>ended trace H. (ended, trace, H) \<in> set entries \<and> i = TrimSpace trace \<and> \<not> ended
    \<and> (IsExperimentalTrail H i :: 'e hive_error + bool) = Inr False"
  using assms
proof (induction entries arbitrary: s es r)
  case Nil
  then show ?case by (simp add: lift_act_run ret_eq)
next
  case (Cons x rest)
  obtain ended trace H where x: "x = (ended, trace, H)" by (metis prod_cases3)
  from Cons.prems have e: "\<not> ended" by (auto simp: x lift_act_run throw_eq)
  obtain s1 es1 r1 where one: "ReconcilePublished (mem_ledger clock) E H trace s = (s1, es1, r1)" by (metis prod_cases3)
  with Cons.prems(1) e obtain es2 r2 where all: "reconcile_each (mem_ledger clock) E rest s1 = (s', es2, r2)" "es = es1 @ es2"
    by (cases r1) (auto simp: x elim!: bind_fx_run simp: lift_act_run ret_eq)
  show ?case
  proof (cases "Removed i \<in> set es1")
    case True
    from mem_api.Reconcile_removes [OF one TrueI True] e x show ?thesis by (metis list.set_intros(1))
  next
    case False
    with Cons.prems(2) all(2) have "Removed i \<in> set es2" by simp
    have "\<exists>ended trace H. (ended, trace, H) \<in> set rest \<and> i = TrimSpace trace \<and> \<not> ended
      \<and> (IsExperimentalTrail H i :: 'e hive_error + bool) = Inr False" by (rule Cons.IH [OF all(1) \<open>Removed i \<in> set es2\<close>])
    then show ?thesis unfolding x by auto
  qed
qed

end
